(* ===== verification/Prelude.thy ===== *)
theory Prelude
  imports Main "HOL-Library.Word" "HOL-Library.List_Lexorder" "HOL-Library.Char_ord"
begin

text \<open>
  Shared vocabulary of the development.

  \<^item> Machine types: \<open>u32\<close> for \<open>uint32_t\<close>; \<open>int32_t\<close> and \<open>int64_t\<close> values are
    \<open>int\<close>, with the range or the wrap-around written out where the code depends on it.
  \<^item> Result codes of \<open>net_manager_constants.h\<close>.
  \<^item> \<open>std::map\<close> as a key-ordered association list (\<open>omap\<close>) whose iteration order is
    the order of the list, with the contract a client relies on as the locale
    \<open>std_map\<close>; \<open>std::set\<close> is a HOL set, iterated through \<open>sorted_list_of_set\<close>.
  \<^item> \<open>std::to_string\<close> on unsigned and signed integers, with its inverse.
  \<^item> \<open>run_chain\<close>: the idiom \<open>err = err || (step() == NETMANAGER_ERROR)\<close>, which stops
    calling once a step has failed.
  \<^item> The locale \<open>uid_list\<close>: the contract of every component that keeps a list of
    application uids (bandwidth box, firewall chains, policy lists).
\<close>

section \<open>Machine types and result codes\<close>

type_synonym u32 = "32 word"

abbreviation NETMANAGER_ERROR :: int where "NETMANAGER_ERROR \<equiv> - 1"
abbreviation NETMANAGER_SUCCESS :: int where "NETMANAGER_SUCCESS \<equiv> 0"
abbreviation NETMANAGER_ERR_PARAMETER_ERROR :: int where "NETMANAGER_ERR_PARAMETER_ERROR \<equiv> 401"
abbreviation NETMANAGER_ERR_LOCAL_PTR_NULL :: int where "NETMANAGER_ERR_LOCAL_PTR_NULL \<equiv> 2100105"
abbreviation NETMANAGER_ERR_WRITE_DATA_FAIL :: int where "NETMANAGER_ERR_WRITE_DATA_FAIL \<equiv> 2100203"
abbreviation NETMANAGER_ERR_STATUS_EXIST :: int where "NETMANAGER_ERR_STATUS_EXIST \<equiv> 2100209"

text \<open>The ternary \<open>hasError ? NETMANAGER_ERROR : NETMANAGER_SUCCESS\<close>.\<close>

definition ret_of :: "bool \<Rightarrow> int" where
  "ret_of hasError = (if hasError then NETMANAGER_ERROR else NETMANAGER_SUCCESS)"

section \<open>Ordered maps\<close>

type_synonym ('k, 'v) omap = "('k \<times> 'v) list"

fun om_put :: "'k::linorder \<Rightarrow> 'v \<Rightarrow> ('k, 'v) omap \<Rightarrow> ('k, 'v) omap" where
  "om_put k v [] = [(k, v)]"
| "om_put k v ((k', v') # m) =
     (if k < k' then (k, v) # (k', v') # m
      else if k = k' then (k, v) # m
      else (k', v') # om_put k v m)"

definition om_del :: "'k \<Rightarrow> ('k, 'v) omap \<Rightarrow> ('k, 'v) omap" where
  "om_del k m = filter (\<lambda>e. fst e \<noteq> k) m"

abbreviation om_get :: "('k, 'v) omap \<Rightarrow> 'k \<Rightarrow> 'v option" where
  "om_get m k \<equiv> map_of m k"

definition om_wf :: "('k::linorder, 'v) omap \<Rightarrow> bool" where
  "om_wf m = sorted_wrt (<) (map fst m)"

section \<open>Decimal printing\<close>

definition digit_char :: "nat \<Rightarrow> char" where
  "digit_char d = char_of (48 + d)"

fun to_string :: "nat \<Rightarrow> string" where
  "to_string n = (if n < 10 then [digit_char n] else to_string (n div 10) @ [digit_char (n mod 10)])"

declare to_string.simps [simp del]

definition to_string_int :: "int \<Rightarrow> string" where
  "to_string_int i = (if i < 0 then CHR ''-'' # to_string (nat (- i)) else to_string (nat i))"

abbreviation to_string_u32 :: "u32 \<Rightarrow> string" where
  "to_string_u32 u \<equiv> to_string (unat u)"

definition digit_val :: "char \<Rightarrow> nat" where
  "digit_val c = of_char c - 48"

definition decimal_value :: "string \<Rightarrow> nat" where
  "decimal_value s = foldl (\<lambda>acc c. 10 * acc + digit_val c) 0 s"

text \<open>A word of a command line.\<close>

definition no_space :: "string \<Rightarrow> bool" where
  "no_space s = (CHR '' '' \<notin> set s)"

section \<open>Error accumulation\<close>

fun run_chain :: "('w \<Rightarrow> int \<times> 'w) list \<Rightarrow> 'w \<Rightarrow> bool \<times> 'w" where
  "run_chain [] w = (False, w)"
| "run_chain (a # as) w =
     (case a w of (r, w') \<Rightarrow> if r = NETMANAGER_ERROR then (True, w') else run_chain as w')"

text \<open>The same loop entered with an \<open>err\<close> flag that may already be set.\<close>

definition run_chain_from :: "bool \<Rightarrow> ('w \<Rightarrow> int \<times> 'w) list \<Rightarrow> 'w \<Rightarrow> bool \<times> 'w" where
  "run_chain_from err as w = (if err then (True, w) else run_chain as w)"

section \<open>Lemmas\<close>

lemma ret_of_simps [simp]: "ret_of True = NETMANAGER_ERROR" "ret_of False = NETMANAGER_SUCCESS"
  by (simp_all add: ret_of_def)

lemma ret_of_eq_iff [simp]: "ret_of b = NETMANAGER_ERROR \<longleftrightarrow> b" "ret_of b = NETMANAGER_SUCCESS \<longleftrightarrow> \<not> b"
  by (simp_all add: ret_of_def)

subsection \<open>Ordered maps\<close>

lemma om_get_put [simp]: "om_get (om_put k v m) k' = (if k' = k then Some v else om_get m k')"
  by (induction m) auto

lemma om_get_del [simp]: "om_get (om_del k m) k' = (if k' = k then None else om_get m k')"
  by (induction m) (auto simp: om_del_def)

lemma om_put_keys: "fst ` set (om_put k v m) = insert k (fst ` set m)"
  by (induction k v m rule: om_put.induct) (simp_all add: insert_commute)

lemma om_wf_Nil [simp]: "om_wf []"
  by (simp add: om_wf_def)

lemma om_wf_Cons: "om_wf (e # m) \<longleftrightarrow> (\<forall>x \<in> fst ` set m. fst e < x) \<and> om_wf m"
  by (auto simp: om_wf_def)

lemma om_wf_put [intro]: "om_wf m \<Longrightarrow> om_wf (om_put k v m)"
proof (induction m)
  case Nil
  then show ?case by (simp add: om_wf_Cons)
next
  case (Cons e m)
  obtain k' v' where e: "e = (k', v')" by (cases e)
  show ?case
  proof (cases "k < k'")
    case True
    with Cons.prems show ?thesis by (auto simp: e om_wf_Cons)
  next
    case False
    with Cons show ?thesis by (auto simp: e om_wf_Cons om_put_keys)
  qed
qed

lemma om_wf_del [intro]: "om_wf m \<Longrightarrow> om_wf (om_del k m)"
  by (simp add: om_wf_def om_del_def sorted_wrt_map sorted_wrt_filter)

lemma om_wf_map_snd: "om_wf m \<Longrightarrow> om_wf (map (\<lambda>(k, v). (k, f k v)) m)"
  by (simp add: om_wf_def comp_def split_def)

lemma om_wf_distinct: "om_wf m \<Longrightarrow> distinct (map fst m)"
  by (induction m) (auto simp: om_wf_Cons)

lemma om_put_last: "(\<And>e. e \<in> set m \<Longrightarrow> fst e < k) \<Longrightarrow> om_put k v m = m @ [(k, v)]"
proof (induction m)
  case (Cons e m)
  have "fst e < k" by (simp add: Cons.prems)
  then have "\<not> k < fst e" "k \<noteq> fst e" using less_asym by blast+
  then show ?case using Cons by (cases e) simp
qed simp

lemma om_del_put_new: "om_get m k = None \<Longrightarrow> om_del k (om_put k v m) = m"
proof (induction m)
  case (Cons e m)
  then have "fst e \<noteq> k" "om_get m k = None" by (auto split: if_splits)
  moreover from this have "filter (\<lambda>e. fst e \<noteq> k) m = m" by (auto simp: map_of_eq_None_iff filter_id_conv)
  ultimately show ?case using Cons.IH by (cases e) (auto simp: om_del_def)
qed (simp add: om_del_def)

text \<open>What the clients of a \<open>std::map\<close> rely on.\<close>

locale std_map =
  fixes lookup :: "'m \<Rightarrow> 'k \<Rightarrow> 'v option"
    and put :: "'k \<Rightarrow> 'v \<Rightarrow> 'm \<Rightarrow> 'm"
    and del :: "'k \<Rightarrow> 'm \<Rightarrow> 'm"
    and wf :: "'m \<Rightarrow> bool"
  assumes lookup_put: "lookup (put k v m) k' = (if k' = k then Some v else lookup m k')"
    and lookup_del: "lookup (del k m) k' = (if k' = k then None else lookup m k')"
    and wf_put: "wf m \<Longrightarrow> wf (put k v m)"
    and wf_del: "wf m \<Longrightarrow> wf (del k m)"
begin

lemma lookup_put_same: "lookup (put k v m) k = Some v"
  by (simp add: lookup_put)

lemma lookup_after_del: "lookup (del k m) k = None"
  by (simp add: lookup_del)

lemma put_overwrites: "lookup (put k v (put k v' m)) = lookup (put k v m)"
  by (rule ext) (simp add: lookup_put)

lemma del_after_put: "lookup m k = None \<Longrightarrow> lookup (del k (put k v m)) = lookup m"
  by (rule ext) (simp add: lookup_put lookup_del)

end

interpretation om: std_map map_of "om_put :: 'k::linorder \<Rightarrow> 'v \<Rightarrow> _" om_del om_wf
  by unfold_locales auto

subsection \<open>Decimal printing\<close>

lemma digit_char_simps [simp]:
  "digit_char 0 = CHR ''0''" "digit_char 1 = CHR ''1''" "digit_char (Suc 0) = CHR ''1''" "digit_char 2 = CHR ''2''"
  "digit_char 3 = CHR ''3''" "digit_char 4 = CHR ''4''" "digit_char 5 = CHR ''5''"
  "digit_char 6 = CHR ''6''" "digit_char 7 = CHR ''7''" "digit_char 8 = CHR ''8''" "digit_char 9 = CHR ''9''"
  by code_simp+

lemma digit_val_char: "d < 10 \<Longrightarrow> digit_val (digit_char d) = d"
  by (simp add: digit_val_def digit_char_def)

lemma decimal_value_snoc: "decimal_value (s @ [c]) = 10 * decimal_value s + digit_val c"
  by (simp add: decimal_value_def)

lemma decimal_value_to_string: "decimal_value (to_string n) = n"
proof (induction n rule: to_string.induct)
  case (1 n)
  show ?case
  proof (cases "n < 10")
    case True
    then show ?thesis
      by (subst to_string.simps) (simp add: decimal_value_def digit_val_char)
  next
    case False
    with "1.IH" have "decimal_value (to_string (n div 10)) = n div 10" by simp
    with False show ?thesis
      by (subst to_string.simps) (simp add: decimal_value_snoc digit_val_char)
  qed
qed

lemma to_string_inj [simp]: "to_string m = to_string n \<longleftrightarrow> m = n"
  by (metis decimal_value_to_string)

lemma unat_u32_inj [simp]: "unat (u :: u32) = unat v \<longleftrightarrow> u = v"
  by (simp add: word_unat_eq_iff)

lemma unat_u32_zero [simp]: "unat (u :: u32) = 0 \<longleftrightarrow> u = 0" "0 = unat (u :: u32) \<longleftrightarrow> u = 0"
  using unat_u32_inj [of u 0] by auto

lemma to_string_nonempty [simp]: "to_string n \<noteq> []"
  by (subst to_string.simps) simp

lemma to_string_codes: "c \<in> set (to_string k) \<Longrightarrow> 48 \<le> (of_char c :: nat)"
proof -
  have "\<forall>c \<in> set (to_string k). 48 \<le> (of_char c :: nat)"
  proof (induction k rule: to_string.induct)
    case (1 k)
    then show ?case by (subst to_string.simps) (simp add: digit_char_def)
  qed
  then show "c \<in> set (to_string k) \<Longrightarrow> ?thesis" by blast
qed

lemma to_string_no_minus: "CHR ''-'' \<notin> set (to_string k)"
  using to_string_codes [of "CHR ''-''" k] by auto

lemma to_string_int_neq: "to_string m \<noteq> CHR ''-'' # to_string n"
  using to_string_no_minus [of m] by (metis list.set_intros(1))

lemma to_string_not_range [simp]: "to_string n @ CHR '' '' # s \<noteq> CHR ''0'' # CHR ''-'' # t"
proof
  assume eq: "to_string n @ CHR '' '' # s = CHR ''0'' # CHR ''-'' # t"
  obtain c cs where c: "to_string n = c # cs" by (cases "to_string n") auto
  with eq have "cs @ CHR '' '' # s = CHR ''-'' # t" by simp
  then have "CHR ''-'' \<in> set cs" by (cases cs) auto
  with c to_string_no_minus [of n] show False by simp
qed

lemmas to_string_not_range' [simp] = to_string_not_range [symmetric]

lemma to_string_int_inj [simp]: "to_string_int i = to_string_int j \<longleftrightarrow> i = j"
  using to_string_int_neq to_string_int_neq [symmetric] by (auto simp: to_string_int_def)

lemma no_space_to_string [simp]: "no_space (to_string n)"
proof (induction n rule: to_string.induct)
  case (1 n)
  have "digit_char d \<noteq> CHR '' ''" if "d < 10" for d
  proof
    assume "digit_char d = CHR '' ''"
    then have "(of_char (digit_char d) :: nat) = of_char (CHR '' '')" by simp
    with that show False by (simp add: digit_char_def)
  qed
  from this [of "n mod 10"] this [of n] 1 show ?case
    by (subst to_string.simps) (auto simp: no_space_def)
qed

lemma no_space_to_string_int [simp]: "no_space (to_string_int i)"
  using no_space_to_string by (auto simp: to_string_int_def no_space_def)

lemma no_space_sep [simp]:
  "no_space a \<Longrightarrow> no_space b \<Longrightarrow> a @ CHR '' '' # x = b @ CHR '' '' # y \<longleftrightarrow> a = b \<and> x = y"
proof (induction a arbitrary: b)
  case Nil
  then show ?case by (cases b) (auto simp: no_space_def)
next
  case (Cons c a)
  then show ?case by (cases b) (auto simp: no_space_def)
qed

subsection \<open>Error accumulation\<close>

lemma run_chain_append:
  "run_chain (as @ bs) w = (case run_chain as w of (e, w') \<Rightarrow> run_chain_from e bs w')"
  by (induction as arbitrary: w) (auto simp: run_chain_from_def split: prod.splits if_splits)

lemma run_chain_from_simps [simp]:
  "run_chain_from True as w = (True, w)" "run_chain_from False as w = run_chain as w"
  by (simp_all add: run_chain_from_def)

section \<open>The uid-list contract\<close>

text \<open>
  A component that keeps a list of application uids: \<open>members\<close> reads the list,
  \<open>add\<close> and \<open>remove\<close> change it, \<open>inv\<close> is what the component keeps true of its own
  representation. The laws say that the list is a set of uids, that adding and removing
  do what their names say and touch no other uid, and that the representation invariant
  is kept.
\<close>

locale uid_list =
  fixes members :: "'s \<Rightarrow> u32 set"
    and add :: "u32 \<Rightarrow> 's \<Rightarrow> 's"
    and remove :: "u32 \<Rightarrow> 's \<Rightarrow> 's"
    and inv :: "'s \<Rightarrow> bool"
  assumes members_add: "inv s \<Longrightarrow> members (add u s) = insert u (members s)"
    and members_remove: "inv s \<Longrightarrow> members (remove u s) = members s - {u}"
    and inv_add: "inv s \<Longrightarrow> inv (add u s)"
    and inv_remove: "inv s \<Longrightarrow> inv (remove u s)"
begin

lemma inv_fold_add: "inv s \<Longrightarrow> inv (fold add us s)"
  by (induction us arbitrary: s) (auto intro: inv_add)

lemma members_fold_add: "inv s \<Longrightarrow> members (fold add us s) = members s \<union> set us"
  by (induction us arbitrary: s) (auto simp: members_add inv_add)

lemma inv_fold_remove: "inv s \<Longrightarrow> inv (fold remove us s)"
  by (induction us arbitrary: s) (auto intro: inv_remove)

lemma members_fold_remove: "inv s \<Longrightarrow> members (fold remove us s) = members s - set us"
  by (induction us arbitrary: s) (auto simp: members_remove inv_remove)

lemma add_remove_cancel: "inv s \<Longrightarrow> u \<notin> members s \<Longrightarrow> members (remove u (add u s)) = members s"
  by (simp add: members_remove members_add inv_add)

end

end
