(* ===== verification/Common_Utils.thy ===== *)
theory Common_Utils
  imports Prelude
begin

text \<open>
  The string helpers of \<open>utils/common_utils/src/netmanager_base_common_utils.cpp\<close> that the
  services call: the interface name check and the numeric parsers \<open>StrToInt\<close> and
  \<open>StrToUint\<close>. The parsers call \<open>strtol\<close>/\<open>strtoul\<close> with base 0, so the C routine is
  written out: leading white space, an optional sign, a \<open>0x\<close> or \<open>0\<close> prefix choosing the
  base, and the longest run of digits of that base. \<open>long\<close> has 64 bits.
\<close>

section \<open>Characters\<close>

definition char_code :: "char \<Rightarrow> nat" where
  "char_code c = of_char c"

definition isspace :: "char \<Rightarrow> bool" where
  "isspace c = (char_code c = 32 \<or> (9 \<le> char_code c \<and> char_code c \<le> 13))"

definition isalnum :: "char \<Rightarrow> bool" where
  "isalnum c = ((48 \<le> char_code c \<and> char_code c \<le> 57) \<or> (65 \<le> char_code c \<and> char_code c \<le> 90)
     \<or> (97 \<le> char_code c \<and> char_code c \<le> 122))"

definition digit_of :: "char \<Rightarrow> nat" where
  "digit_of c =
     (if 48 \<le> char_code c \<and> char_code c \<le> 57 then char_code c - 48
      else if 97 \<le> char_code c \<and> char_code c \<le> 122 then char_code c - 87
      else if 65 \<le> char_code c \<and> char_code c \<le> 90 then char_code c - 55
      else 36)"

section \<open>Interface names\<close>

abbreviation INTERFACE_NAME_MAX_SIZE :: nat where "INTERFACE_NAME_MAX_SIZE \<equiv> 16"

fun CheckIfaceName_loop :: "nat \<Rightarrow> string \<Rightarrow> bool" where
  "CheckIfaceName_loop index [] = True"
| "CheckIfaceName_loop index (c # cs) =
     (if index = 0 \<and> \<not> isalnum c then False
      else if \<not> isalnum c \<and> c \<noteq> CHR ''-'' \<and> c \<noteq> CHR ''_'' \<and> c \<noteq> CHR ''.'' \<and> c \<noteq> CHR '':'' then False
      else CheckIfaceName_loop (Suc index) cs)"

definition CheckIfaceName :: "string \<Rightarrow> bool" where
  "CheckIfaceName name =
     (if name = [] then False
      else if length name > INTERFACE_NAME_MAX_SIZE then False
      else CheckIfaceName_loop 0 name)"

section \<open>Numeric parsing\<close>

fun skip_sign :: "string \<Rightarrow> bool \<times> string" where
  "skip_sign [] = (False, [])"
| "skip_sign (c # cs) =
     (if c = CHR ''-'' then (True, cs) else if c = CHR ''+'' then (False, cs) else (False, c # cs))"

fun detect_base :: "string \<Rightarrow> nat \<times> string" where
  "detect_base (a # x # h # cs) =
     (if a = CHR ''0'' \<and> (x = CHR ''x'' \<or> x = CHR ''X'') \<and> digit_of h < 16 then (16, h # cs)
      else if a = CHR ''0'' then (8, a # x # h # cs) else (10, a # x # h # cs))"
| "detect_base (a # cs) = (if a = CHR ''0'' then (8, a # cs) else (10, a # cs))"
| "detect_base [] = (10, [])"

definition digits_value :: "nat \<Rightarrow> string \<Rightarrow> nat" where
  "digits_value base ds = foldl (\<lambda>acc c. base * acc + digit_of c) 0 ds"

text \<open>Sign and magnitude read by \<open>strtol(s, &end, 0)\<close>; \<open>None\<close> when \<open>end == s\<close>.\<close>

definition strto_base0 :: "string \<Rightarrow> (bool \<times> nat) option" where
  "strto_base0 s =
     (case skip_sign (dropWhile isspace s) of (neg, s1) \<Rightarrow>
      case detect_base s1 of (base, s2) \<Rightarrow>
      let ds = takeWhile (\<lambda>c. digit_of c < base) s2 in
      if ds = [] then None else Some (neg, digits_value base ds))"

definition StrToInt :: "string \<Rightarrow> int \<Rightarrow> int" where
  "StrToInt value defaultErr =
     (case strto_base0 value of
        None \<Rightarrow> defaultErr
      | Some (neg, m) \<Rightarrow>
          let result = (if neg then - int m else int m) in
          if result < - (2 ^ 63) \<or> result > 2 ^ 63 - 1 then defaultErr
          else if result < - (2 ^ 31) \<or> result > 2 ^ 31 - 1 then defaultErr
          else result)"

definition StrToUint :: "string \<Rightarrow> u32 \<Rightarrow> u32" where
  "StrToUint value defaultErr =
     (case strto_base0 value of
        None \<Rightarrow> defaultErr
      | Some (neg, m) \<Rightarrow>
          if m > 2 ^ 64 - 1 then defaultErr
          else let result = (if neg then (2 ^ 64 - m) mod 2 ^ 64 else m) in
               if result > 2 ^ 32 - 1 then defaultErr else of_nat result)"

definition StrToBool :: "string \<Rightarrow> bool \<Rightarrow> bool" where
  "StrToBool value defaultErr =
     (case strto_base0 value of
        None \<Rightarrow> defaultErr
      | Some (neg, m) \<Rightarrow>
          if m > 2 ^ 64 - 1 then defaultErr
          else let result = (if neg then (2 ^ 64 - m) mod 2 ^ 64 else m) in
               if result > 2 ^ 32 - 1 then defaultErr else result \<noteq> 0)"

definition StrToLong :: "string \<Rightarrow> int \<Rightarrow> int" where
  "StrToLong value defaultErr =
     (case strto_base0 value of
        None \<Rightarrow> defaultErr
      | Some (neg, m) \<Rightarrow>
          let result = (if neg then - int m else int m) in
          if result < - (2 ^ 63) \<or> result > 2 ^ 63 - 1 then defaultErr else result)"

section \<open>Lemmas\<close>

lemma CheckIfaceName_loop_Suc:
  "CheckIfaceName_loop (Suc i) cs = (\<forall>c \<in> set cs. isalnum c \<or> c \<in> set ''-_.:'')"
  by (induction cs arbitrary: i) auto

lemma CheckIfaceName_iff:
  "CheckIfaceName name \<longleftrightarrow> name \<noteq> [] \<and> length name \<le> 16 \<and> isalnum (hd name)
     \<and> (\<forall>c \<in> set name. isalnum c \<or> c \<in> set ''-_.:'')"
  by (cases name) (auto simp: CheckIfaceName_def CheckIfaceName_loop_Suc)

text \<open>An accepted interface name cannot add a second word to a command line.\<close>

lemma CheckIfaceName_no_space: "CheckIfaceName name \<Longrightarrow> c \<in> set name \<Longrightarrow> \<not> isspace c"
  by (fastforce simp: CheckIfaceName_iff isalnum_def isspace_def char_code_def)

lemma CheckIfaceName_word [simp]: "CheckIfaceName name \<Longrightarrow> no_space name"
  using CheckIfaceName_no_space by (fastforce simp: no_space_def isspace_def char_code_def)

lemma char_code_digit_char [simp]: "d < 10 \<Longrightarrow> char_code (digit_char d) = 48 + d"
  by (simp add: char_code_def digit_char_def)

lemma digit_of_digit_char [simp]: "d < 10 \<Longrightarrow> digit_of (digit_char d) = d"
  by (simp add: digit_of_def)

lemma to_string_digits: "c \<in> set (to_string n) \<Longrightarrow> \<exists>d < 10. c = digit_char d"
proof (induction n rule: to_string.induct)
  case (1 n)
  from "1.prems" have "c = digit_char n \<and> n < 10 \<or> c = digit_char (n mod 10)
      \<or> \<not> n < 10 \<and> c \<in> set (to_string (n div 10))"
    by (subst (asm) to_string.simps) (auto split: if_splits)
  with "1.IH" show ?case by (metis mod_less_divisor zero_less_numeral)
qed

lemma to_string_hd: "0 < n \<Longrightarrow> \<exists>d. 0 < d \<and> d < 10 \<and> hd (to_string n) = digit_char d"
proof (induction n rule: to_string.induct)
  case (1 n)
  then show ?case by (subst to_string.simps) (auto simp: hd_append)
qed

lemma digits_value_to_string: "digits_value 10 (to_string n) = n"
proof -
  have "digits_value 10 (to_string n) = decimal_value (to_string n)"
    unfolding digits_value_def decimal_value_def
  proof (rule foldl_cong)
    fix acc c assume "c \<in> set (to_string n)"
    then obtain d where "d < 10" "c = digit_char d" using to_string_digits by blast
    then show "10 * acc + digit_of c = 10 * acc + digit_val c" by (simp add: digit_val_char)
  qed simp_all
  then show ?thesis by (simp add: decimal_value_to_string)
qed

lemma detect_base_nonzero: "s \<noteq> [] \<Longrightarrow> hd s \<noteq> CHR ''0'' \<Longrightarrow> detect_base s = (10, s)"
  by (cases s rule: detect_base.cases) auto

lemma read_digits:
  "(case detect_base (to_string n) of (base, s2) \<Rightarrow>
      let ds = takeWhile (\<lambda>c. digit_of c < base) s2 in
      if ds = [] then None else Some (neg, digits_value base ds)) = Some (neg, n)"
proof (cases "n = 0")
  case True
  have "to_string 0 = ''0''" by code_simp
  then show ?thesis using True by (simp add: char_code_def digit_of_def digits_value_def)
next
  case False
  then obtain d where d: "0 < d" "d < 10" "hd (to_string n) = digit_char d" using to_string_hd by blast
  then have "char_code (hd (to_string n)) = 48 + d" by simp
  then have "hd (to_string n) \<noteq> CHR ''0''" using d by (auto simp: char_code_def)
  then have db: "detect_base (to_string n) = (10, to_string n)" by (simp add: detect_base_nonzero)
  have tw: "takeWhile (\<lambda>c. digit_of c < 10) (to_string n) = to_string n"
    using to_string_digits by (fastforce simp: takeWhile_eq_all_conv)
  show ?thesis unfolding db prod.case Let_def tw by (simp add: digits_value_to_string)
qed

lemma to_string_first:
  assumes "to_string n = c # cs"
  shows "\<not> isspace c" "c \<noteq> CHR ''-''" "c \<noteq> CHR ''+''"
proof -
  obtain d where "d < 10" "c = digit_char d" using to_string_digits [of c n] assms by auto
  then have "char_code c = 48 + d" by simp
  then show "\<not> isspace c" "c \<noteq> CHR ''-''" "c \<noteq> CHR ''+''" by (auto simp: isspace_def char_code_def)
qed

lemma strto_base0_to_string: "strto_base0 (to_string n) = Some (False, n)"
proof -
  obtain c cs where s: "to_string n = c # cs" by (cases "to_string n") auto
  from to_string_first [OF s] have "skip_sign (dropWhile isspace (to_string n)) = (False, to_string n)"
    by (simp add: s)
  then show ?thesis using read_digits [where n = n and neg = False] by (simp add: strto_base0_def)
qed

lemma strto_base0_to_string_int: "strto_base0 (to_string_int i) = Some (i < 0, nat \<bar>i\<bar>)"
proof (cases "i < 0")
  case True
  have "\<not> isspace CHR ''-''" by code_simp
  with True have "skip_sign (dropWhile isspace (to_string_int i)) = (True, to_string (nat (- i)))"
    by (simp add: to_string_int_def)
  then show ?thesis using True read_digits [where n = "nat (- i)" and neg = True] by (simp add: strto_base0_def)
qed (simp add: to_string_int_def strto_base0_to_string)

text \<open>
  A uid written with \<open>std::to_string\<close> is read back by \<open>StrToUint\<close> and an \<open>int32_t\<close> that
  is not negative by \<open>StrToInt\<close>, although both parsers guess the base.
\<close>

lemma StrToUint_to_string [simp]: "StrToUint (to_string_u32 u) d = u"
proof -
  have "unat u < 2 ^ LENGTH(32)" by (rule unsigned_less)
  then show ?thesis by (simp add: StrToUint_def strto_base0_to_string)
qed

lemma StrToInt_to_string: "n < 2 ^ 31 \<Longrightarrow> StrToInt (to_string n) d = int n"
  by (simp add: StrToInt_def strto_base0_to_string)

lemma StrToInt_to_string_int: "- (2 ^ 31) \<le> i \<Longrightarrow> i < 2 ^ 31 \<Longrightarrow> StrToInt (to_string_int i) d = i"
  by (simp add: StrToInt_def strto_base0_to_string_int Let_def)

lemma StrToLong_to_string_int: "- (2 ^ 63) \<le> i \<Longrightarrow> i < 2 ^ 63 \<Longrightarrow> StrToLong (to_string_int i) d = i"
  by (simp add: StrToLong_def strto_base0_to_string_int Let_def)

lemma StrToBool_digits [simp]: "StrToBool ''1'' d" "\<not> StrToBool ''0'' d"
proof -
  have "strto_base0 ''1'' = Some (False, 1)" "strto_base0 ''0'' = Some (False, 0)"
    using strto_base0_to_string [of 1] strto_base0_to_string [of 0] by (simp_all add: to_string.simps)
  then show "StrToBool ''1'' d" "\<not> StrToBool ''0'' d" by (simp_all add: StrToBool_def)
qed

end
