(* ===== verification/Iptables.thy ===== *)
theory Iptables
  imports Common_Utils
begin

text \<open>
  The class \<open>IptablesWrapper\<close>
  (\<open>services/netmanagernative/src/netsys/iptables_wrapper.cpp\<close>), through which every native
  manager reaches the packet filter. The wrapper submits tasks to a serial FFRT queue; the
  queue pointer is an option, and its content is the list of all tasks submitted so far, in
  order (the queue runs them in that order, so the list is the history of what is
  executed). Whether a submission also waits when the queue is long does not change that
  history. The locale \<open>command_sink\<close> is the contract the managers use.
\<close>

section \<open>Chains and rules\<close>

text \<open>
  The enumerations of \<open>iptables_type.h\<close>. Chain numbers arrive as \<open>uint32_t\<close> and are cast
  without a check, so a number outside the enumeration stays a value of its own.
\<close>

datatype ChainType =
    CHAIN_NONE | CHAIN_INPUT | CHAIN_OUTPUT | CHAIN_FORWARD
  | CHAIN_OHBW_INPUT | CHAIN_OHBW_OUTPUT | CHAIN_OHBW_FORWARD
  | CHAIN_OHFW_INPUT | CHAIN_OHFW_OUTPUT | CHAIN_OHFW_FORWARD
  | CHAIN_OHTC_FORWARD | CHAIN_OHBW_GLOBAL_ALERT | CHAIN_OHBW_COSTLY_SHARED
  | CHAIN_OHBW_DENIED_LIST_BOX | CHAIN_OHBW_ALLOWED_LIST_BOX | CHAIN_OHBW_DATA_SAVER
  | CHAIN_OHFW_DOZABLE | CHAIN_OHFW_POWERSAVING | CHAIN_OHFW_UNDOZABLE
  | CHAIN_OHFW_ALLOWED_LIST_BOX
  | CHAIN_OTHER u32

definition ChainType_values :: "ChainType list" where
  "ChainType_values =
     [CHAIN_NONE, CHAIN_INPUT, CHAIN_OUTPUT, CHAIN_FORWARD, CHAIN_OHBW_INPUT, CHAIN_OHBW_OUTPUT,
      CHAIN_OHBW_FORWARD, CHAIN_OHFW_INPUT, CHAIN_OHFW_OUTPUT, CHAIN_OHFW_FORWARD,
      CHAIN_OHTC_FORWARD, CHAIN_OHBW_GLOBAL_ALERT, CHAIN_OHBW_COSTLY_SHARED,
      CHAIN_OHBW_DENIED_LIST_BOX, CHAIN_OHBW_ALLOWED_LIST_BOX, CHAIN_OHBW_DATA_SAVER,
      CHAIN_OHFW_DOZABLE, CHAIN_OHFW_POWERSAVING, CHAIN_OHFW_UNDOZABLE,
      CHAIN_OHFW_ALLOWED_LIST_BOX]"

definition ChainType_cast :: "u32 \<Rightarrow> ChainType" where
  "ChainType_cast n = (if n < 20 then ChainType_values ! unat n else CHAIN_OTHER n)"

type_synonym FirewallRule = u32

abbreviation RULE_ALLOW :: FirewallRule where "RULE_ALLOW \<equiv> 1"
abbreviation RULE_DENY :: FirewallRule where "RULE_DENY \<equiv> 2"

datatype FirewallType = TYPE_ALLOWED_LIST | TYPE_DENIDE_LIST

section \<open>State\<close>

datatype IpType = IPTYPE_IPV4 | IPTYPE_IPV6 | IPTYPE_IPV4V6

datatype IptTask =
    ExecuteCommand string
  | ExecuteCommandForRes string
  | ExecuteRestoreCommand string string

record IptablesWrapper =
  isRunningFlag :: bool
  isIptablesSystemAccess :: bool
  isIp6tablesSystemAccess :: bool
  ipt_result :: string
  ffrtQueue :: "IptTask list option"

abbreviation IPATBLES_CMD_PATH :: string where "IPATBLES_CMD_PATH \<equiv> ''/system/bin/iptables''"
abbreviation IP6TABLES_CMD_PATH :: string where "IP6TABLES_CMD_PATH \<equiv> ''/system/bin/ip6tables''"
abbreviation IPTABLES_RESTORE_CMD_PATH :: string where
  "IPTABLES_RESTORE_CMD_PATH \<equiv> ''/system/bin/iptables-restore''"
abbreviation IP6TABLES_RESTORE_CMD_PATH :: string where
  "IP6TABLES_RESTORE_CMD_PATH \<equiv> ''/system/bin/ip6tables-restore''"
abbreviation IPTABLES_RULE_PATH :: string where
  "IPTABLES_RULE_PATH \<equiv> ''/data/service/el1/public/netsysnative/iptables.rule''"

section \<open>Operations\<close>

text \<open>The constructor; the argument answers \<open>access(path, F_OK) == 0\<close>.\<close>

definition IptablesWrapper_ctor :: "(string \<Rightarrow> bool) \<Rightarrow> IptablesWrapper" where
  "IptablesWrapper_ctor file_exists =
     \<lparr> isRunningFlag = True,
       isIptablesSystemAccess = file_exists IPATBLES_CMD_PATH,
       isIp6tablesSystemAccess = file_exists IP6TABLES_CMD_PATH,
       ipt_result = [], ffrtQueue = Some [] \<rparr>"

definition IptablesWrapper_dtor :: "IptablesWrapper \<Rightarrow> IptablesWrapper" where
  "IptablesWrapper_dtor w = w\<lparr> isRunningFlag := False, ffrtQueue := None \<rparr>"

definition submit :: "IptTask list \<Rightarrow> IptablesWrapper \<Rightarrow> IptablesWrapper" where
  "submit ts w = w\<lparr> ffrtQueue := map_option (\<lambda>q. q @ ts) (ffrtQueue w) \<rparr>"

text \<open>
  The line a task hands to \<open>ForkExec\<close>, \<open>None\<close> when the task executes nothing; the argument
  says whether writing the rule file succeeds.
\<close>

fun task_line :: "bool \<Rightarrow> IptTask \<Rightarrow> string option" where
  "task_line write_ok (ExecuteCommand cmd) = Some (cmd @ '' -w 5 '')"
| "task_line write_ok (ExecuteCommandForRes cmd) = Some (cmd @ '' -w 5 '')"
| "task_line write_ok (ExecuteRestoreCommand restoreCmd rules) =
     (if \<not> write_ok then None else Some (restoreCmd @ '' --wait=5 ''))"

definition RunCommand :: "IpType \<Rightarrow> string \<Rightarrow> IptablesWrapper \<Rightarrow> int \<times> IptablesWrapper" where
  "RunCommand ipType command w =
     (if ffrtQueue w = None then (NETMANAGER_ERROR, w)
      else
        let w1 = (if isIptablesSystemAccess w \<and> (ipType = IPTYPE_IPV4 \<or> ipType = IPTYPE_IPV4V6)
                  then submit [ExecuteCommand (IPATBLES_CMD_PATH @ '' '' @ command)] w else w);
            w2 = (if isIp6tablesSystemAccess w1 \<and> (ipType = IPTYPE_IPV6 \<or> ipType = IPTYPE_IPV4V6)
                  then submit [ExecuteCommand (IP6TABLES_CMD_PATH @ '' '' @ command)] w1 else w1)
        in (NETMANAGER_SUCCESS, w2))"

text \<open>
  \<open>RunCommandForRes\<close> waits for its tasks, so \<open>result_\<close> is what the last of them left there.
  The argument is \<open>ForkExec\<close>: what \<open>result_\<close> holds after the given line has run.
\<close>

definition run_for_res :: "(string \<Rightarrow> string) \<Rightarrow> string \<Rightarrow> IptablesWrapper \<Rightarrow> IptablesWrapper" where
  "run_for_res fork cmd w = (submit [ExecuteCommandForRes cmd] w)\<lparr> ipt_result := fork (cmd @ '' -w 5 '') \<rparr>"

definition RunCommandForRes ::
  "(string \<Rightarrow> string) \<Rightarrow> IpType \<Rightarrow> string \<Rightarrow> IptablesWrapper \<Rightarrow> string \<times> IptablesWrapper" where
  "RunCommandForRes fork ipType command w =
     (if ffrtQueue w = None then (ipt_result w, w)
      else
        let w1 = (if ipType = IPTYPE_IPV4 \<or> ipType = IPTYPE_IPV4V6
                  then run_for_res fork (IPATBLES_CMD_PATH @ '' '' @ command) w else w);
            w2 = (if ipType = IPTYPE_IPV6 \<or> ipType = IPTYPE_IPV4V6
                  then run_for_res fork (IP6TABLES_CMD_PATH @ '' '' @ command) w1 else w1)
        in (ipt_result w2, w2))"

fun RunMutipleCommands_loop :: "IpType \<Rightarrow> string list \<Rightarrow> IptablesWrapper \<Rightarrow> IptablesWrapper" where
  "RunMutipleCommands_loop ipType [] w = w"
| "RunMutipleCommands_loop ipType (command # commands) w =
     (let w1 = (if isIptablesSystemAccess w \<and> (ipType = IPTYPE_IPV4 \<or> ipType = IPTYPE_IPV4V6)
                then submit [ExecuteCommand (IPATBLES_CMD_PATH @ '' '' @ command)] w else w);
          w2 = (if isIp6tablesSystemAccess w1 \<and> (ipType = IPTYPE_IPV6 \<or> ipType = IPTYPE_IPV4V6)
                then submit [ExecuteCommand (IP6TABLES_CMD_PATH @ '' '' @ command)] w1 else w1)
      in RunMutipleCommands_loop ipType commands w2)"

definition RunMutipleCommands :: "IpType \<Rightarrow> string list \<Rightarrow> IptablesWrapper \<Rightarrow> int \<times> IptablesWrapper" where
  "RunMutipleCommands ipType commands w =
     (if ffrtQueue w = None then (NETMANAGER_ERROR, w)
      else (NETMANAGER_SUCCESS, RunMutipleCommands_loop ipType commands w))"

definition RunRestoreCommands :: "IpType \<Rightarrow> string \<Rightarrow> IptablesWrapper \<Rightarrow> int \<times> IptablesWrapper" where
  "RunRestoreCommands ipType command w =
     (if ffrtQueue w = None then (NETMANAGER_ERROR, w)
      else
        let w1 = (if isIptablesSystemAccess w \<and> (ipType = IPTYPE_IPV4 \<or> ipType = IPTYPE_IPV4V6)
                  then submit [ExecuteRestoreCommand
                         (IPTABLES_RESTORE_CMD_PATH @ '' '' @ IPTABLES_RULE_PATH @ '' --noflush'') command] w
                  else w);
            w2 = (if isIptablesSystemAccess w1 \<and> (ipType = IPTYPE_IPV6 \<or> ipType = IPTYPE_IPV4V6)
                  then submit [ExecuteRestoreCommand
                         (IP6TABLES_RESTORE_CMD_PATH @ '' '' @ IPTABLES_RULE_PATH @ '' --noflush'') command] w1
                  else w1)
        in (NETMANAGER_SUCCESS, w2))"

text \<open>
  A manager's sequence of commands of one address family with
  \<open>hasError = hasError || (RunCommand(...) == NETMANAGER_ERROR)\<close> and the final
  \<open>hasError ? NETMANAGER_ERROR : NETMANAGER_SUCCESS\<close>.
\<close>

definition run_commands :: "IpType \<Rightarrow> string list \<Rightarrow> IptablesWrapper \<Rightarrow> int \<times> IptablesWrapper" where
  "run_commands ipType commands w =
     (case run_chain (map (RunCommand ipType) commands) w of (hasError, w') \<Rightarrow> (ret_of hasError, w'))"

section \<open>What a command submits\<close>

definition queue_alive :: "IptablesWrapper \<Rightarrow> bool" where
  "queue_alive w = (ffrtQueue w \<noteq> None)"

definition submitted :: "IptablesWrapper \<Rightarrow> IptTask list" where
  "submitted w = (case ffrtQueue w of None \<Rightarrow> [] | Some q \<Rightarrow> q)"

text \<open>The tasks one command becomes, depending on the address families that are reachable.\<close>

definition tasks_of :: "IptablesWrapper \<Rightarrow> IpType \<Rightarrow> string \<Rightarrow> IptTask list" where
  "tasks_of w ipType command =
     (if isIptablesSystemAccess w \<and> ipType \<noteq> IPTYPE_IPV6
      then [ExecuteCommand (''/system/bin/iptables '' @ command)] else [])
   @ (if isIp6tablesSystemAccess w \<and> ipType \<noteq> IPTYPE_IPV4
      then [ExecuteCommand (''/system/bin/ip6tables '' @ command)] else [])"

section \<open>The command sink contract\<close>

locale command_sink =
  fixes run :: "'c \<Rightarrow> 'w \<Rightarrow> int \<times> 'w"
    and alive :: "'w \<Rightarrow> bool"
    and emit :: "'t list \<Rightarrow> 'w \<Rightarrow> 'w"
    and out :: "'w \<Rightarrow> 'c \<Rightarrow> 't list"
  assumes run_alive: "alive w \<Longrightarrow> run c w = (NETMANAGER_SUCCESS, emit (out w c) w)"
    and run_dead: "\<not> alive w \<Longrightarrow> run c w = (NETMANAGER_ERROR, w)"
    and alive_emit: "alive (emit ts w) = alive w"
    and out_emit: "out (emit ts w) = out w"
    and emit_nil: "emit [] w = w"
    and emit_emit: "emit us (emit ts w) = emit (ts @ us) w"
begin

lemma run_all:
  "alive w \<Longrightarrow> run_chain (map run cs) w = (False, emit (concat (map (out w) cs)) w)"
  by (induction cs arbitrary: w) (simp_all add: run_alive alive_emit out_emit emit_nil emit_emit)

lemma run_all_dead: "\<not> alive w \<Longrightarrow> run_chain (map run cs) w = (cs \<noteq> [], w)"
  by (cases cs) (simp_all add: run_dead)

lemma run_never_partial:
  "fst (run_chain (map run cs) w) \<Longrightarrow> snd (run_chain (map run cs) w) = w"
  by (cases "alive w") (simp_all add: run_all run_all_dead)

end

section \<open>Lemmas\<close>

lemma submit_simps [simp]:
  "isIptablesSystemAccess (submit ts w) = isIptablesSystemAccess w"
  "isIp6tablesSystemAccess (submit ts w) = isIp6tablesSystemAccess w"
  "isRunningFlag (submit ts w) = isRunningFlag w"
  "ipt_result (submit ts w) = ipt_result w"
  "(ffrtQueue (submit ts w) = None) = (ffrtQueue w = None)"
  by (simp_all add: submit_def)

lemma submit_Nil [simp]: "submit [] w = w"
  by (cases "ffrtQueue w") (simp_all add: submit_def)

lemma submit_submit [simp]: "submit us (submit ts w) = submit (ts @ us) w"
  by (simp add: submit_def option.map_comp comp_def)

lemma queue_alive_submit [simp]: "queue_alive (submit ts w) = queue_alive w"
  by (simp add: queue_alive_def)

lemma submitted_submit [simp]: "queue_alive w \<Longrightarrow> submitted (submit ts w) = submitted w @ ts"
  by (auto simp: queue_alive_def submitted_def submit_def)

lemma tasks_of_submit [simp]: "tasks_of (submit ts w) = tasks_of w"
  by (rule ext)+ (simp add: tasks_of_def)

lemma RunCommand_alive:
  "queue_alive w \<Longrightarrow> RunCommand ipType command w = (NETMANAGER_SUCCESS, submit (tasks_of w ipType command) w)"
  by (cases ipType) (simp_all add: RunCommand_def queue_alive_def tasks_of_def Let_def)

lemma RunCommand_dead: "\<not> queue_alive w \<Longrightarrow> RunCommand ipType command w = (NETMANAGER_ERROR, w)"
  by (simp add: RunCommand_def queue_alive_def)

interpretation ipt: command_sink "\<lambda>(ipType, command). RunCommand ipType command" queue_alive submit
  "\<lambda>w (ipType, command). tasks_of w ipType command"
  by unfold_locales (auto simp: RunCommand_alive RunCommand_dead)

text \<open>The instance for a list of commands that share one address family.\<close>

lemma run_commands_alive:
  assumes "queue_alive w"
  shows "run_chain (map (RunCommand ipType) commands) w
       = (False, submit (concat (map (tasks_of w ipType) commands)) w)"
  using ipt.run_all [OF assms, of "map (Pair ipType) commands"] by (simp add: comp_def)

lemma run_commands_dead:
  assumes "\<not> queue_alive w"
  shows "run_chain (map (RunCommand ipType) commands) w = (commands \<noteq> [], w)"
  using ipt.run_all_dead [OF assms, of "map (Pair ipType) commands"] by (simp add: comp_def)

lemma run_commands_eq:
  "run_commands ipType commands w =
     (if queue_alive w then (NETMANAGER_SUCCESS, submit (concat (map (tasks_of w ipType) commands)) w)
      else (ret_of (commands \<noteq> []), w))"
  by (simp add: run_commands_def run_commands_alive run_commands_dead)

lemma RunMutipleCommands_loop_submit:
  "RunMutipleCommands_loop ipType commands w = submit (concat (map (tasks_of w ipType) commands)) w"
proof (induction commands arbitrary: w)
  case (Cons command commands)
  have "RunMutipleCommands_loop ipType (command # commands) w
      = RunMutipleCommands_loop ipType commands (submit (tasks_of w ipType command) w)"
    by (cases ipType) (simp_all add: tasks_of_def Let_def)
  with Cons show ?case by simp
qed simp

section \<open>Properties\<close>

text \<open>
  Running several commands in one call submits exactly what running them one by one
  with \<open>RunCommand\<close> submits, in the same order, and it fails exactly when the queue is
  missing, in which case nothing is submitted.
\<close>

theorem RunMutipleCommands_is_sequence:
  "RunMutipleCommands ipType commands w =
     (if queue_alive w
      then (NETMANAGER_SUCCESS, snd (run_chain (map (RunCommand ipType) commands) w))
      else (NETMANAGER_ERROR, w))"
  by (simp add: RunMutipleCommands_def RunMutipleCommands_loop_submit run_commands_alive
      queue_alive_def)

text \<open>
  The IPv6 half of \<open>RunRestoreCommands\<close> is guarded by the IPv4 access flag: on a system
  that has only \<open>ip6tables\<close>, a restore for IPv6 reports success and submits nothing, while
  a plain command for IPv6 is submitted.
\<close>

theorem RunRestoreCommands_ipv6_lost:
  assumes "queue_alive w" "\<not> isIptablesSystemAccess w" "isIp6tablesSystemAccess w"
  shows "RunRestoreCommands IPTYPE_IPV6 rules w = (NETMANAGER_SUCCESS, w)
       \<and> submitted (snd (RunCommand IPTYPE_IPV6 command w))
         = submitted w @ [ExecuteCommand (''/system/bin/ip6tables '' @ command)]"
  using assms by (simp add: RunRestoreCommands_def RunCommand_alive tasks_of_def Let_def)
    (simp add: queue_alive_def)

theorem RunRestoreCommands_ipv6_lost_witness:
  "RunRestoreCommands IPTYPE_IPV6 ''rules'' (IptablesWrapper_ctor (\<lambda>p. p = IP6TABLES_CMD_PATH))
     = (NETMANAGER_SUCCESS, IptablesWrapper_ctor (\<lambda>p. p = IP6TABLES_CMD_PATH))"
  using RunRestoreCommands_ipv6_lost [of "IptablesWrapper_ctor (\<lambda>p. p = IP6TABLES_CMD_PATH)" "''rules''"]
  by (simp add: IptablesWrapper_ctor_def queue_alive_def)

end
