(* ===== verification/Bandwidth.thy ===== *)
theory Bandwidth
  imports Iptables "HOL-Library.Multiset"
begin

text \<open>
  The class \<open>BandwidthManager\<close>
  (\<open>services/netmanagernative/src/manager/bandwidth_manager.cpp\<close>): the denied and allowed
  uid boxes, the data saver and the quota of metered interfaces, all kept as iptables
  chains. A state is the manager's fields together with the iptables wrapper it drives.
  The properties relate the fields to the commands issued: the rule of a uid is inserted
  and deleted in strict alternation and is present exactly while the uid is in the set.
\<close>

section \<open>State\<close>

datatype Operate = OP_SET | OP_UNSET

record BandwidthManager =
  bw_chainInitFlag :: bool
  dataSaverEnable :: bool
  globalAlertBytes :: int
  ifaceAlertBytes :: "(string, int) omap"
  ifaceQuotaBytes :: "(string, int) omap"
  deniedListUids :: "u32 set"
  allowedListUids :: "u32 set"

type_synonym bw_state = "BandwidthManager \<times> IptablesWrapper"

abbreviation CHAIN_NAME_COSTLY_PTR :: string where "CHAIN_NAME_COSTLY_PTR \<equiv> ''ohbw_costly_''"

definition BandwidthManager_ctor :: BandwidthManager where
  "BandwidthManager_ctor =
     \<lparr> bw_chainInitFlag = False, dataSaverEnable = False, globalAlertBytes = 0,
       ifaceAlertBytes = [], ifaceQuotaBytes = [], deniedListUids = {}, allowedListUids = {} \<rparr>"

section \<open>Chains\<close>

definition Bw_FetchChainName :: "ChainType \<Rightarrow> string" where
  "Bw_FetchChainName chain =
     (case chain of
        CHAIN_OHBW_INPUT \<Rightarrow> ''ohbw_INPUT''
      | CHAIN_OHBW_OUTPUT \<Rightarrow> ''ohbw_OUTPUT''
      | CHAIN_OHBW_FORWARD \<Rightarrow> ''ohbw_FORWARD''
      | CHAIN_OHBW_DENIED_LIST_BOX \<Rightarrow> ''ohbw_denied_list_box''
      | CHAIN_OHBW_ALLOWED_LIST_BOX \<Rightarrow> ''ohbw_allowed_list_box''
      | CHAIN_OHBW_GLOBAL_ALERT \<Rightarrow> ''ohbw_global_alert''
      | CHAIN_OHBW_COSTLY_SHARED \<Rightarrow> ''ohbw_costly_shared''
      | CHAIN_OHBW_DATA_SAVER \<Rightarrow> ''ohbw_data_saver''
      | _ \<Rightarrow> ''oh_unusable'')"

definition Bw_IptablesNewChain :: "ChainType \<Rightarrow> IptablesWrapper \<Rightarrow> int \<times> IptablesWrapper" where
  "Bw_IptablesNewChain chain = RunCommand IPTYPE_IPV4 (''-t filter -N '' @ Bw_FetchChainName chain)"

definition Bw_IptablesNewChain_name :: "string \<Rightarrow> IptablesWrapper \<Rightarrow> int \<times> IptablesWrapper" where
  "Bw_IptablesNewChain_name chainName = RunCommand IPTYPE_IPV4 (''-t filter -N '' @ chainName)"

definition Bw_IptablesDeleteChain :: "ChainType \<Rightarrow> IptablesWrapper \<Rightarrow> int \<times> IptablesWrapper" where
  "Bw_IptablesDeleteChain chain =
     run_commands IPTYPE_IPV4 [''-t filter -F '' @ Bw_FetchChainName chain, ''-t filter -X '' @ Bw_FetchChainName chain]"

definition Bw_IptablesDeleteChain_name :: "string \<Rightarrow> IptablesWrapper \<Rightarrow> int \<times> IptablesWrapper" where
  "Bw_IptablesDeleteChain_name chainName =
     run_commands IPTYPE_IPV4 [''-t filter -F '' @ chainName, ''-t filter -X '' @ chainName]"

definition bw_chains :: "ChainType list" where
  "bw_chains =
     [CHAIN_OHBW_INPUT, CHAIN_OHBW_OUTPUT, CHAIN_OHBW_FORWARD, CHAIN_OHBW_DENIED_LIST_BOX,
      CHAIN_OHBW_ALLOWED_LIST_BOX, CHAIN_OHBW_GLOBAL_ALERT, CHAIN_OHBW_COSTLY_SHARED,
      CHAIN_OHBW_DATA_SAVER]"

definition Bw_InitChain :: "bw_state \<Rightarrow> int \<times> bw_state" where
  "Bw_InitChain s =
     (case s of (b, w) \<Rightarrow>
      case run_chain (map Bw_IptablesNewChain bw_chains) w of (hasError, w') \<Rightarrow>
        (ret_of hasError, b\<lparr> bw_chainInitFlag := True \<rparr>, w'))"

definition Bw_DeInitChain :: "bw_state \<Rightarrow> int \<times> bw_state" where
  "Bw_DeInitChain s =
     (case s of (b, w) \<Rightarrow>
      case run_chain (map Bw_IptablesDeleteChain bw_chains) w of (hasError, w') \<Rightarrow>
        (ret_of hasError, b\<lparr> bw_chainInitFlag := False \<rparr>, w'))"

definition InitDefaultBwChainRules :: "IptablesWrapper \<Rightarrow> int \<times> IptablesWrapper" where
  "InitDefaultBwChainRules =
     run_commands IPTYPE_IPV4
       [''-t filter -A INPUT -j '' @ Bw_FetchChainName CHAIN_OHBW_INPUT,
        ''-t filter -A OUTPUT -j '' @ Bw_FetchChainName CHAIN_OHBW_OUTPUT,
        ''-t filter -A '' @ Bw_FetchChainName CHAIN_OHBW_INPUT @ '' -p esp -j RETURN'',
        ''-t filter -A '' @ Bw_FetchChainName CHAIN_OHBW_INPUT @ '' -m mark --mark 0x100000/0x100000 -j RETURN'']"

definition InitDefaultListBoxChainRules :: "IptablesWrapper \<Rightarrow> int \<times> IptablesWrapper" where
  "InitDefaultListBoxChainRules =
     run_commands IPTYPE_IPV4
       [''-t filter -A '' @ Bw_FetchChainName CHAIN_OHBW_DENIED_LIST_BOX @ '' -j '' @ Bw_FetchChainName CHAIN_OHBW_ALLOWED_LIST_BOX,
        ''-t filter -A '' @ Bw_FetchChainName CHAIN_OHBW_ALLOWED_LIST_BOX @ '' -j '' @ Bw_FetchChainName CHAIN_OHBW_DATA_SAVER,
        ''-t filter -A '' @ Bw_FetchChainName CHAIN_OHBW_DATA_SAVER @ '' -j RETURN'']"

definition InitDefaultAlertChainRules :: "IptablesWrapper \<Rightarrow> int \<times> IptablesWrapper" where
  "InitDefaultAlertChainRules =
     run_commands IPTYPE_IPV4
       [''-t filter -A '' @ Bw_FetchChainName CHAIN_OHBW_INPUT @ '' -j '' @ Bw_FetchChainName CHAIN_OHBW_GLOBAL_ALERT,
        ''-t filter -A '' @ Bw_FetchChainName CHAIN_OHBW_OUTPUT @ '' -j '' @ Bw_FetchChainName CHAIN_OHBW_GLOBAL_ALERT]"

definition Bw_InitDefaultRules :: "IptablesWrapper \<Rightarrow> int \<times> IptablesWrapper" where
  "Bw_InitDefaultRules w =
     (case run_chain [InitDefaultBwChainRules, InitDefaultListBoxChainRules, InitDefaultAlertChainRules] w
      of (hasError, w') \<Rightarrow> (ret_of hasError, w'))"

definition Bw_CheckChainInitialization :: "bw_state \<Rightarrow> bw_state" where
  "Bw_CheckChainInitialization s =
     (if \<not> bw_chainInitFlag (fst s) then
        case Bw_InitChain s of (r, b, w) \<Rightarrow>
        case Bw_InitDefaultRules w of (r', w') \<Rightarrow> (b, w')
      else s)"

section \<open>Alerts\<close>

definition SetGlobalAlert :: "Operate \<Rightarrow> int \<Rightarrow> bw_state \<Rightarrow> int \<times> bw_state" where
  "SetGlobalAlert operate bytes s =
     (case s of (b, w) \<Rightarrow>
      let chainName = Bw_FetchChainName CHAIN_OHBW_GLOBAL_ALERT in
      if operate = OP_SET then
        case run_commands IPTYPE_IPV4
               [''-t filter -A '' @ chainName @ '' -m quota2 --quota '' @ to_string_int bytes @ '' --name globalAlert''] w
        of (r, w') \<Rightarrow> (r, b\<lparr> globalAlertBytes := bytes \<rparr>, w')
      else if bytes = globalAlertBytes b then
        case run_commands IPTYPE_IPV4
               [''-t filter -D '' @ chainName @ '' -m quota --quota '' @ to_string_int bytes @ '' --name globalAlert''] w
        of (r, w') \<Rightarrow> (r, b\<lparr> globalAlertBytes := 0 \<rparr>, w')
      else (NETMANAGER_ERROR, b, w))"

text \<open>Reading \<open>ifaceAlertBytes_[iface]\<close> inserts 0 under a missing name.\<close>

definition alert_bytes :: "string \<Rightarrow> BandwidthManager \<Rightarrow> int" where
  "alert_bytes iface b = (case om_get (ifaceAlertBytes b) iface of None \<Rightarrow> 0 | Some n \<Rightarrow> n)"

definition SetCostlyAlert :: "Operate \<Rightarrow> string \<Rightarrow> int \<Rightarrow> bw_state \<Rightarrow> int \<times> bw_state" where
  "SetCostlyAlert operate iface bytes s =
     (case s of (b, w) \<Rightarrow>
      let chainName = CHAIN_NAME_COSTLY_PTR @ iface @ ''alert'' in
      if operate = OP_SET then
        case run_commands IPTYPE_IPV4
               [''-t filter -A '' @ chainName @ '' -m quota2 --quota '' @ to_string_int bytes @ '' --name '' @ iface @ ''Alert''] w
        of (r, w') \<Rightarrow> (r, b\<lparr> ifaceAlertBytes := om_put iface bytes (ifaceAlertBytes b) \<rparr>, w')
      else if bytes = alert_bytes iface b then
        case run_commands IPTYPE_IPV4
               [''-t filter -D '' @ chainName @ '' -m quota2 --quota '' @ to_string_int bytes @ '' --name '' @ iface @ ''Alert''] w
        of (r, w') \<Rightarrow> (r, b\<lparr> ifaceAlertBytes := om_put iface 0 (ifaceAlertBytes b) \<rparr>, w')
      else (NETMANAGER_ERROR, b\<lparr> ifaceAlertBytes := om_put iface (alert_bytes iface b) (ifaceAlertBytes b) \<rparr>, w))"

section \<open>Data saver\<close>

definition EnableDataSaver :: "bool \<Rightarrow> bw_state \<Rightarrow> int \<times> bw_state" where
  "EnableDataSaver enable s0 =
     (case Bw_CheckChainInitialization s0 of (b, w) \<Rightarrow>
      let chainName = Bw_FetchChainName CHAIN_OHBW_DATA_SAVER in
      if enable \<and> \<not> dataSaverEnable b then
        case run_commands IPTYPE_IPV4
               [''-t filter -R '' @ chainName @ '' 1 -j REJECT'',
                ''-t filter -I '' @ chainName @ '' -m owner --uid-owner 0-9999 -j RETURN''] w
        of (r, w') \<Rightarrow> (r, b\<lparr> dataSaverEnable := True \<rparr>, w')
      else if \<not> enable \<and> dataSaverEnable b then
        case run_commands IPTYPE_IPV4
               [''-t filter -D '' @ chainName @ '' -m owner --uid-owner 0-9999 -j RETURN'',
                ''-t filter -R '' @ chainName @ '' 1 -j RETURN''] w
        of (r, w') \<Rightarrow> (r, b\<lparr> dataSaverEnable := False \<rparr>, w')
      else (NETMANAGER_ERROR, b, w))"

section \<open>Interface quota\<close>

definition quota_rule :: "string \<Rightarrow> string \<Rightarrow> int \<Rightarrow> string" where
  "quota_rule op ifName bytes =
     ''-t filter '' @ op @ CHAIN_NAME_COSTLY_PTR @ ifName @ '' -m quota2 ! --quota '' @ to_string_int bytes
       @ '' --name '' @ ifName @ '' --jump REJECT''"

definition SetIfaceQuotaDetail :: "string \<Rightarrow> int \<Rightarrow> bw_state \<Rightarrow> int \<times> bw_state" where
  "SetIfaceQuotaDetail ifName bytes s =
     (case s of (b, w) \<Rightarrow>
      let chainName = CHAIN_NAME_COSTLY_PTR @ ifName;
          b' = b\<lparr> ifaceQuotaBytes := om_put ifName bytes (ifaceQuotaBytes b) \<rparr> in
      case om_get (ifaceQuotaBytes b) ifName of
        Some old \<Rightarrow>
          (case run_commands IPTYPE_IPV4
                  [quota_rule ''-D '' ifName old, quota_rule ''-A '' ifName bytes] w
           of (r, w') \<Rightarrow> (NETMANAGER_SUCCESS, b', w'))
      | None \<Rightarrow>
          (case run_chain (Bw_IptablesNewChain_name chainName # map (RunCommand IPTYPE_IPV4)
                  [''-t filter -A '' @ Bw_FetchChainName CHAIN_OHBW_OUTPUT @ '' -o '' @ ifName @ '' -j ''
                     @ Bw_FetchChainName CHAIN_OHBW_DENIED_LIST_BOX,
                   ''-t filter -I '' @ Bw_FetchChainName CHAIN_OHBW_INPUT @ '' -i '' @ ifName @ '' --jump '' @ chainName,
                   ''-t filter -I '' @ Bw_FetchChainName CHAIN_OHBW_OUTPUT @ '' -o '' @ ifName @ '' --jump '' @ chainName,
                   ''-t filter -A '' @ Bw_FetchChainName CHAIN_OHBW_FORWARD @ '' -i '' @ ifName @ '' --jump '' @ chainName,
                   ''-t filter -A '' @ Bw_FetchChainName CHAIN_OHBW_FORWARD @ '' -o '' @ ifName @ '' --jump '' @ chainName,
                   quota_rule ''-A '' ifName bytes]) w
           of (hasError, w') \<Rightarrow> (ret_of hasError, b', w')))"

definition SetIfaceQuota :: "string \<Rightarrow> int \<Rightarrow> bw_state \<Rightarrow> int \<times> bw_state" where
  "SetIfaceQuota ifName bytes s =
     (if \<not> CheckIfaceName ifName then (NETMANAGER_ERROR, s)
      else SetIfaceQuotaDetail ifName bytes (Bw_CheckChainInitialization s))"

definition RemoveIfaceQuota :: "string \<Rightarrow> bw_state \<Rightarrow> int \<times> bw_state" where
  "RemoveIfaceQuota ifName s =
     (if \<not> CheckIfaceName ifName then (NETMANAGER_ERROR, s)
      else case Bw_CheckChainInitialization s of (b, w) \<Rightarrow>
        let chainName = CHAIN_NAME_COSTLY_PTR @ ifName in
        if om_get (ifaceQuotaBytes b) ifName = None then (NETMANAGER_ERROR, b, w)
        else case run_chain (map (RunCommand IPTYPE_IPV4)
                 [''-t filter -D '' @ Bw_FetchChainName CHAIN_OHBW_OUTPUT @ '' -o '' @ ifName @ '' -j ''
                    @ Bw_FetchChainName CHAIN_OHBW_DENIED_LIST_BOX,
                  ''-t filter -D '' @ Bw_FetchChainName CHAIN_OHBW_INPUT @ '' -i '' @ ifName @ '' --jump '' @ chainName,
                  ''-t filter -D '' @ Bw_FetchChainName CHAIN_OHBW_OUTPUT @ '' -o '' @ ifName @ '' --jump '' @ chainName,
                  ''-t filter -D '' @ Bw_FetchChainName CHAIN_OHBW_FORWARD @ '' -i '' @ ifName @ '' --jump '' @ chainName,
                  ''-t filter -D '' @ Bw_FetchChainName CHAIN_OHBW_FORWARD @ '' -o '' @ ifName @ '' --jump '' @ chainName]
                 @ [Bw_IptablesDeleteChain_name chainName]) w
             of (hasError, w') \<Rightarrow>
               (ret_of hasError, b\<lparr> ifaceQuotaBytes := om_del ifName (ifaceQuotaBytes b) \<rparr>, w'))"

section \<open>Denied and allowed boxes\<close>

definition AddDeniedList :: "u32 \<Rightarrow> bw_state \<Rightarrow> int \<times> bw_state" where
  "AddDeniedList uid s =
     (case Bw_CheckChainInitialization s of (b, w) \<Rightarrow>
      if uid \<in> deniedListUids b then (NETMANAGER_ERROR, b, w)
      else case RunCommand IPTYPE_IPV4
             (''-t filter -I '' @ Bw_FetchChainName CHAIN_OHBW_DENIED_LIST_BOX @ '' -m owner --uid-owner ''
               @ to_string_u32 uid @ '' -j REJECT'') w
           of (r, w') \<Rightarrow> (r, b\<lparr> deniedListUids := insert uid (deniedListUids b) \<rparr>, w'))"

definition RemoveDeniedList :: "u32 \<Rightarrow> bw_state \<Rightarrow> int \<times> bw_state" where
  "RemoveDeniedList uid s =
     (case Bw_CheckChainInitialization s of (b, w) \<Rightarrow>
      if uid \<notin> deniedListUids b then (NETMANAGER_ERROR, b, w)
      else case RunCommand IPTYPE_IPV4
             (''-t filter -D '' @ Bw_FetchChainName CHAIN_OHBW_DENIED_LIST_BOX @ '' -m owner --uid-owner ''
               @ to_string_u32 uid @ '' -j REJECT'') w
           of (r, w') \<Rightarrow> (r, b\<lparr> deniedListUids := deniedListUids b - {uid} \<rparr>, w'))"

definition AddAllowedList :: "u32 \<Rightarrow> bw_state \<Rightarrow> int \<times> bw_state" where
  "AddAllowedList uid s =
     (case Bw_CheckChainInitialization s of (b, w) \<Rightarrow>
      if uid \<in> allowedListUids b then (NETMANAGER_ERROR, b, w)
      else case RunCommand IPTYPE_IPV4
             (''-t filter -I '' @ Bw_FetchChainName CHAIN_OHBW_ALLOWED_LIST_BOX @ '' -m owner --uid-owner ''
               @ to_string_u32 uid @ '' -j RETURN'') w
           of (r, w') \<Rightarrow> (r, b\<lparr> allowedListUids := insert uid (allowedListUids b) \<rparr>, w'))"

definition RemoveAllowedList :: "u32 \<Rightarrow> bw_state \<Rightarrow> int \<times> bw_state" where
  "RemoveAllowedList uid s =
     (case Bw_CheckChainInitialization s of (b, w) \<Rightarrow>
      if uid \<notin> allowedListUids b then (NETMANAGER_ERROR, b, w)
      else case RunCommand IPTYPE_IPV4
             (''-t filter -D '' @ Bw_FetchChainName CHAIN_OHBW_ALLOWED_LIST_BOX @ '' -m owner --uid-owner ''
               @ to_string_u32 uid @ '' -j RETURN'') w
           of (r, w') \<Rightarrow> (r, b\<lparr> allowedListUids := allowedListUids b - {uid} \<rparr>, w'))"

section \<open>The filter table as the commands leave it\<close>

text \<open>
  \<open>replay\<close> follows one filter rule (or chain) through a history of tasks: \<open>None\<close> when the
  history inserts it while it is there or deletes it while it is not, otherwise whether it
  is there at the end. The tasks of \<open>flush\<close> empty the chain that holds the rule.
\<close>

fun replay :: "IptTask \<Rightarrow> IptTask \<Rightarrow> IptTask list \<Rightarrow> bool \<Rightarrow> IptTask list \<Rightarrow> bool option" where
  "replay ins del flush present [] = Some present"
| "replay ins del flush present (t # ts) =
     (if t = ins then (if present then None else replay ins del flush True ts)
      else if t = del then (if present then replay ins del flush False ts else None)
      else if t \<in> set flush then replay ins del flush False ts
      else replay ins del flush present ts)"

definition task4 :: "string \<Rightarrow> IptTask" where
  "task4 cmd = ExecuteCommand (''/system/bin/iptables '' @ cmd)"

text \<open>The rules and chains the manager inserts and deletes while it runs.\<close>

datatype bw_rule =
    DenyRule u32 | AllowRule u32 | SaverRule
  | BoxJump string | InputJump string | OutputJump string | ForwardInJump string | ForwardOutJump string
  | CostlyChain string | QuotaRule string int

fun rule_ins :: "bw_rule \<Rightarrow> string" where
  "rule_ins (DenyRule u) = ''-t filter -I ohbw_denied_list_box -m owner --uid-owner '' @ to_string_u32 u @ '' -j REJECT''"
| "rule_ins (AllowRule u) = ''-t filter -I ohbw_allowed_list_box -m owner --uid-owner '' @ to_string_u32 u @ '' -j RETURN''"
| "rule_ins SaverRule = ''-t filter -I ohbw_data_saver -m owner --uid-owner 0-9999 -j RETURN''"
| "rule_ins (BoxJump i) = ''-t filter -A ohbw_OUTPUT -o '' @ i @ '' -j ohbw_denied_list_box''"
| "rule_ins (InputJump i) = ''-t filter -I ohbw_INPUT -i '' @ i @ '' --jump ohbw_costly_'' @ i"
| "rule_ins (OutputJump i) = ''-t filter -I ohbw_OUTPUT -o '' @ i @ '' --jump ohbw_costly_'' @ i"
| "rule_ins (ForwardInJump i) = ''-t filter -A ohbw_FORWARD -i '' @ i @ '' --jump ohbw_costly_'' @ i"
| "rule_ins (ForwardOutJump i) = ''-t filter -A ohbw_FORWARD -o '' @ i @ '' --jump ohbw_costly_'' @ i"
| "rule_ins (CostlyChain i) = ''-t filter -N ohbw_costly_'' @ i"
| "rule_ins (QuotaRule i n) = quota_rule ''-A '' i n"

fun rule_del :: "bw_rule \<Rightarrow> string" where
  "rule_del (DenyRule u) = ''-t filter -D ohbw_denied_list_box -m owner --uid-owner '' @ to_string_u32 u @ '' -j REJECT''"
| "rule_del (AllowRule u) = ''-t filter -D ohbw_allowed_list_box -m owner --uid-owner '' @ to_string_u32 u @ '' -j RETURN''"
| "rule_del SaverRule = ''-t filter -D ohbw_data_saver -m owner --uid-owner 0-9999 -j RETURN''"
| "rule_del (BoxJump i) = ''-t filter -D ohbw_OUTPUT -o '' @ i @ '' -j ohbw_denied_list_box''"
| "rule_del (InputJump i) = ''-t filter -D ohbw_INPUT -i '' @ i @ '' --jump ohbw_costly_'' @ i"
| "rule_del (OutputJump i) = ''-t filter -D ohbw_OUTPUT -o '' @ i @ '' --jump ohbw_costly_'' @ i"
| "rule_del (ForwardInJump i) = ''-t filter -D ohbw_FORWARD -i '' @ i @ '' --jump ohbw_costly_'' @ i"
| "rule_del (ForwardOutJump i) = ''-t filter -D ohbw_FORWARD -o '' @ i @ '' --jump ohbw_costly_'' @ i"
| "rule_del (CostlyChain i) = ''-t filter -X ohbw_costly_'' @ i"
| "rule_del (QuotaRule i n) = quota_rule ''-D '' i n"

fun rule_flush :: "bw_rule \<Rightarrow> string list" where
  "rule_flush (QuotaRule i n) = [''-t filter -F ohbw_costly_'' @ i]"
| "rule_flush _ = []"

text \<open>When the manager's fields say that the rule is installed.\<close>

fun rule_present :: "bw_rule \<Rightarrow> BandwidthManager \<Rightarrow> bool" where
  "rule_present (DenyRule u) b = (u \<in> deniedListUids b)"
| "rule_present (AllowRule u) b = (u \<in> allowedListUids b)"
| "rule_present SaverRule b = dataSaverEnable b"
| "rule_present (BoxJump i) b = (om_get (ifaceQuotaBytes b) i \<noteq> None)"
| "rule_present (InputJump i) b = (om_get (ifaceQuotaBytes b) i \<noteq> None)"
| "rule_present (OutputJump i) b = (om_get (ifaceQuotaBytes b) i \<noteq> None)"
| "rule_present (ForwardInJump i) b = (om_get (ifaceQuotaBytes b) i \<noteq> None)"
| "rule_present (ForwardOutJump i) b = (om_get (ifaceQuotaBytes b) i \<noteq> None)"
| "rule_present (CostlyChain i) b = (om_get (ifaceQuotaBytes b) i \<noteq> None)"
| "rule_present (QuotaRule i n) b = (om_get (ifaceQuotaBytes b) i = Some n)"

text \<open>
  Interface names are the ones the manager accepts. The interface name \<open>shared\<close> is left
  out for the chain: its chain name is the name of the fixed chain \<open>ohbw_costly_shared\<close>.
\<close>

fun rule_ok :: "bw_rule \<Rightarrow> bool" where
  "rule_ok (DenyRule u) = True"
| "rule_ok (AllowRule u) = True"
| "rule_ok SaverRule = True"
| "rule_ok (BoxJump i) = CheckIfaceName i"
| "rule_ok (InputJump i) = CheckIfaceName i"
| "rule_ok (OutputJump i) = CheckIfaceName i"
| "rule_ok (ForwardInJump i) = CheckIfaceName i"
| "rule_ok (ForwardOutJump i) = CheckIfaceName i"
| "rule_ok (CostlyChain i) = (CheckIfaceName i \<and> i \<noteq> ''shared'')"
| "rule_ok (QuotaRule i n) = CheckIfaceName i"

definition follow :: "bw_rule \<Rightarrow> bool \<Rightarrow> IptTask list \<Rightarrow> bool option" where
  "follow r = replay (task4 (rule_ins r)) (task4 (rule_del r)) (map task4 (rule_flush r))"

text \<open>A task that concerns a chain of this manager: the name after the operation is \<open>ohbw_\<close>.\<close>

fun bw_owned :: "IptTask \<Rightarrow> bool" where
  "bw_owned (ExecuteCommand c) = (take 5 (drop 34 c) = ''ohbw_'')"
| "bw_owned _ = False"

section \<open>Runs of the manager\<close>

text \<open>
  Each public operation is one step under \<open>bandwidthMutex_\<close>. Other managers share the
  wrapper, so a step may also submit tasks that concern no chain of this manager.
\<close>

inductive bw_step :: "bw_state \<Rightarrow> bw_state \<Rightarrow> bool" where
  step_saver: "bw_step s (snd (EnableDataSaver enable s))"
| step_quota: "bw_step s (snd (SetIfaceQuota ifName bytes s))"
| step_unquota: "bw_step s (snd (RemoveIfaceQuota ifName s))"
| step_deny: "bw_step s (snd (AddDeniedList uid s))"
| step_undeny: "bw_step s (snd (RemoveDeniedList uid s))"
| step_allow: "bw_step s (snd (AddAllowedList uid s))"
| step_unallow: "bw_step s (snd (RemoveAllowedList uid s))"
| step_other: "\<forall>t \<in> set ts. \<not> bw_owned t \<Longrightarrow> bw_step (b, w) (b, submit ts w)"

inductive bw_reachable :: "(string \<Rightarrow> bool) \<Rightarrow> bw_state \<Rightarrow> bool" for file_exists where
  bw_start: "bw_reachable file_exists (BandwidthManager_ctor, IptablesWrapper_ctor file_exists)"
| bw_next: "bw_reachable file_exists s \<Longrightarrow> bw_step s s' \<Longrightarrow> bw_reachable file_exists s'"

definition bw_ready :: "bw_state \<Rightarrow> bool" where
  "bw_ready s = (queue_alive (snd s) \<and> isIptablesSystemAccess (snd s))"

definition bw_inv :: "bw_state \<Rightarrow> bool" where
  "bw_inv s = (bw_ready s \<and> om_wf (ifaceQuotaBytes (fst s))
     \<and> (\<forall>r. rule_ok r \<longrightarrow> follow r False (submitted (snd s)) = Some (rule_present r (fst s))))"

text \<open>The commands the first operation issues before its own.\<close>

definition bw_init_commands :: "string list" where
  "bw_init_commands =
     [''-t filter -N ohbw_INPUT'', ''-t filter -N ohbw_OUTPUT'', ''-t filter -N ohbw_FORWARD'',
      ''-t filter -N ohbw_denied_list_box'', ''-t filter -N ohbw_allowed_list_box'',
      ''-t filter -N ohbw_global_alert'', ''-t filter -N ohbw_costly_shared'', ''-t filter -N ohbw_data_saver'',
      ''-t filter -A INPUT -j ohbw_INPUT'', ''-t filter -A OUTPUT -j ohbw_OUTPUT'',
      ''-t filter -A ohbw_INPUT -p esp -j RETURN'',
      ''-t filter -A ohbw_INPUT -m mark --mark 0x100000/0x100000 -j RETURN'',
      ''-t filter -A ohbw_denied_list_box -j ohbw_allowed_list_box'',
      ''-t filter -A ohbw_allowed_list_box -j ohbw_data_saver'', ''-t filter -A ohbw_data_saver -j RETURN'',
      ''-t filter -A ohbw_INPUT -j ohbw_global_alert'', ''-t filter -A ohbw_OUTPUT -j ohbw_global_alert'']"

definition init_tasks :: "BandwidthManager \<Rightarrow> IptTask list" where
  "init_tasks b = (if bw_chainInitFlag b then [] else map task4 bw_init_commands)"

section \<open>Lemmas\<close>

lemma replay_append:
  "replay ins del flush p (ts @ us) =
     (case replay ins del flush p ts of None \<Rightarrow> None | Some q \<Rightarrow> replay ins del flush q us)"
  by (induction ts arbitrary: p) auto

lemma replay_foreign:
  "\<forall>t \<in> set ts. t \<noteq> ins \<and> t \<noteq> del \<and> t \<notin> set flush \<Longrightarrow> replay ins del flush p ts = Some p"
  by (induction ts) auto

lemma follow_append:
  "follow r p (ts @ us) = (case follow r p ts of None \<Rightarrow> None | Some q \<Rightarrow> follow r q us)"
  by (simp add: follow_def replay_append split: option.split)

lemma follow_Nil [simp]: "follow r p [] = Some p"
  by (simp add: follow_def)

lemma task4_inj [simp]: "task4 c = task4 d \<longleftrightarrow> c = d"
  by (simp add: task4_def)

lemma follow_Cons [simp]:
  "follow r p (task4 c # ts) =
     (if c = rule_ins r then (if p then None else follow r True ts)
      else if c = rule_del r then (if p then follow r False ts else None)
      else if c \<in> set (rule_flush r) then follow r False ts
      else follow r p ts)"
proof -
  have "task4 c \<in> set (map task4 (rule_flush r)) \<longleftrightarrow> c \<in> set (rule_flush r)"
    by (auto simp: image_iff)
  then show ?thesis by (simp add: follow_def del: set_map)
qed

lemma tasks_of_ipv4 [simp]: "isIptablesSystemAccess w \<Longrightarrow> tasks_of w IPTYPE_IPV4 c = [task4 c]"
  by (simp add: tasks_of_def task4_def)

lemma concat_singletons [simp]: "concat (map (\<lambda>c. [f c]) cs) = map f cs"
  by (induction cs) auto

lemmas bw_run = run_commands_eq RunCommand_alive


subsection \<open>What each operation does when the queue is there\<close>

lemma bw_ready_simps [simp]: "bw_ready (b, w) \<longleftrightarrow> queue_alive w \<and> isIptablesSystemAccess w"
  by (simp add: bw_ready_def)

lemma Bw_CheckChainInitialization_eq:
  assumes "bw_ready (b, w)"
  shows "Bw_CheckChainInitialization (b, w) =
    (b\<lparr> bw_chainInitFlag := True \<rparr>,
     submit (init_tasks b) w)"
  using assms
  by (simp add: init_tasks_def Bw_CheckChainInitialization_def Bw_InitChain_def Bw_InitDefaultRules_def bw_chains_def
      Bw_IptablesNewChain_def InitDefaultBwChainRules_def InitDefaultListBoxChainRules_def
      InitDefaultAlertChainRules_def Bw_FetchChainName_def bw_init_commands_def bw_run)

lemma follow_init_tasks [simp]: "rule_ok r \<Longrightarrow> follow r p (init_tasks b) = Some p"
  by (cases r) (auto simp: init_tasks_def bw_init_commands_def quota_rule_def)


lemma AddDeniedList_eq:
  "bw_ready (b, w) \<Longrightarrow> AddDeniedList u (b, w) =
    (if u \<in> deniedListUids b then (NETMANAGER_ERROR, b\<lparr> bw_chainInitFlag := True \<rparr>, submit (init_tasks b) w)
     else (NETMANAGER_SUCCESS, b\<lparr> bw_chainInitFlag := True, deniedListUids := insert u (deniedListUids b) \<rparr>,
           submit (init_tasks b @ map task4 [rule_ins (DenyRule u)]) w))"
  by (simp add: AddDeniedList_def Bw_CheckChainInitialization_eq Bw_FetchChainName_def bw_run)

lemma RemoveDeniedList_eq:
  "bw_ready (b, w) \<Longrightarrow> RemoveDeniedList u (b, w) =
    (if u \<notin> deniedListUids b then (NETMANAGER_ERROR, b\<lparr> bw_chainInitFlag := True \<rparr>, submit (init_tasks b) w)
     else (NETMANAGER_SUCCESS, b\<lparr> bw_chainInitFlag := True, deniedListUids := deniedListUids b - {u} \<rparr>,
           submit (init_tasks b @ map task4 [rule_del (DenyRule u)]) w))"
  by (simp add: RemoveDeniedList_def Bw_CheckChainInitialization_eq Bw_FetchChainName_def bw_run)

lemma AddAllowedList_eq:
  "bw_ready (b, w) \<Longrightarrow> AddAllowedList u (b, w) =
    (if u \<in> allowedListUids b then (NETMANAGER_ERROR, b\<lparr> bw_chainInitFlag := True \<rparr>, submit (init_tasks b) w)
     else (NETMANAGER_SUCCESS, b\<lparr> bw_chainInitFlag := True, allowedListUids := insert u (allowedListUids b) \<rparr>,
           submit (init_tasks b @ map task4 [rule_ins (AllowRule u)]) w))"
  by (simp add: AddAllowedList_def Bw_CheckChainInitialization_eq Bw_FetchChainName_def bw_run)

lemma RemoveAllowedList_eq:
  "bw_ready (b, w) \<Longrightarrow> RemoveAllowedList u (b, w) =
    (if u \<notin> allowedListUids b then (NETMANAGER_ERROR, b\<lparr> bw_chainInitFlag := True \<rparr>, submit (init_tasks b) w)
     else (NETMANAGER_SUCCESS, b\<lparr> bw_chainInitFlag := True, allowedListUids := allowedListUids b - {u} \<rparr>,
           submit (init_tasks b @ map task4 [rule_del (AllowRule u)]) w))"
  by (simp add: RemoveAllowedList_def Bw_CheckChainInitialization_eq Bw_FetchChainName_def bw_run)

lemma EnableDataSaver_eq:
  "bw_ready (b, w) \<Longrightarrow> EnableDataSaver e (b, w) =
    (if e = dataSaverEnable b
     then (NETMANAGER_ERROR, b\<lparr> bw_chainInitFlag := True \<rparr>, submit (init_tasks b) w)
     else (NETMANAGER_SUCCESS, b\<lparr> bw_chainInitFlag := True, dataSaverEnable := e \<rparr>,
           submit (init_tasks b @ map task4
             (if e then [''-t filter -R ohbw_data_saver 1 -j REJECT'', rule_ins SaverRule]
              else [rule_del SaverRule, ''-t filter -R ohbw_data_saver 1 -j RETURN''])) w))"
  by (cases e) (simp_all add: EnableDataSaver_def Bw_CheckChainInitialization_eq Bw_FetchChainName_def bw_run)

text \<open>The rules of one metered interface, in the order in which they are installed.\<close>

lemma SetIfaceQuota_eq:
  "bw_ready (b, w) \<Longrightarrow> CheckIfaceName i \<Longrightarrow> SetIfaceQuota i n (b, w) =
    (NETMANAGER_SUCCESS,
     b\<lparr> bw_chainInitFlag := True, ifaceQuotaBytes := om_put i n (ifaceQuotaBytes b) \<rparr>,
     submit (init_tasks b @ map task4
       (case om_get (ifaceQuotaBytes b) i of
          Some old \<Rightarrow> [rule_del (QuotaRule i old), rule_ins (QuotaRule i n)]
        | None \<Rightarrow> map rule_ins [CostlyChain i, BoxJump i, InputJump i, OutputJump i,
                     ForwardInJump i, ForwardOutJump i, QuotaRule i n])) w)"
  by (simp add: SetIfaceQuota_def SetIfaceQuotaDetail_def Bw_CheckChainInitialization_eq
      Bw_FetchChainName_def Bw_IptablesNewChain_name_def bw_run Let_def split: option.split)

lemma RemoveIfaceQuota_eq:
  "bw_ready (b, w) \<Longrightarrow> CheckIfaceName i \<Longrightarrow> RemoveIfaceQuota i (b, w) =
    (if om_get (ifaceQuotaBytes b) i = None
     then (NETMANAGER_ERROR, b\<lparr> bw_chainInitFlag := True \<rparr>, submit (init_tasks b) w)
     else (NETMANAGER_SUCCESS,
       b\<lparr> bw_chainInitFlag := True, ifaceQuotaBytes := om_del i (ifaceQuotaBytes b) \<rparr>,
       submit (init_tasks b @ map task4
         [rule_del (BoxJump i), rule_del (InputJump i), rule_del (OutputJump i), rule_del (ForwardInJump i),
          rule_del (ForwardOutJump i), ''-t filter -F ohbw_costly_'' @ i, rule_del (CostlyChain i)]) w))"
  by (simp add: RemoveIfaceQuota_def Bw_CheckChainInitialization_eq
      Bw_FetchChainName_def Bw_IptablesDeleteChain_name_def bw_run Let_def)

lemma iface_bad:
  "\<not> CheckIfaceName i \<Longrightarrow> SetIfaceQuota i n s = (NETMANAGER_ERROR, s)"
  "\<not> CheckIfaceName i \<Longrightarrow> RemoveIfaceQuota i s = (NETMANAGER_ERROR, s)"
  by (simp_all add: SetIfaceQuota_def RemoveIfaceQuota_def)

subsection \<open>Preservation\<close>

lemma bw_inv_emit:
  assumes "bw_inv (b, w)" "om_wf (ifaceQuotaBytes b')"
    and "\<And>r. rule_ok r \<Longrightarrow> follow r (rule_present r b) (map task4 cs) = Some (rule_present r b')"
  shows "bw_inv (b', submit (init_tasks b @ map task4 cs) w)"
  using assms by (simp add: bw_inv_def follow_append)

lemma bw_inv_refuse:
  "bw_inv (b, w) \<Longrightarrow> bw_inv (b\<lparr> bw_chainInitFlag := True \<rparr>, submit (init_tasks b) w)"
proof -
  have "rule_present r (b\<lparr> bw_chainInitFlag := True \<rparr>) = rule_present r b" for r by (cases r) auto
  then show "bw_inv (b, w) \<Longrightarrow> ?thesis"
    using bw_inv_emit [of b w "b\<lparr> bw_chainInitFlag := True \<rparr>" "[]"] by (simp add: bw_inv_def)
qed

lemma bw_inv_ready: "bw_inv s \<Longrightarrow> bw_ready s"
  by (simp add: bw_inv_def)

lemma same_frame [simp]: "(a::string) @ t @ a = b @ t @ b \<longleftrightarrow> a = b"
proof
  assume eq: "a @ t @ a = b @ t @ b"
  then have "length (a @ t @ a) = length (b @ t @ b)" by (rule arg_cong)
  then have "length a = length b" by simp
  with eq show "a = b" by simp
qed simp


text \<open>The two outcomes of an operation: refused after the set-up, or its commands are issued.\<close>

lemma bw_inv_outcome:
  assumes "bw_inv (b, w)"
    and "\<not> refused \<Longrightarrow> om_wf (ifaceQuotaBytes b')"
    and "\<And>r. \<not> refused \<Longrightarrow> rule_ok r \<Longrightarrow> follow r (rule_present r b) (map task4 cs) = Some (rule_present r b')"
  shows "bw_inv (snd (if refused then (e, b\<lparr> bw_chainInitFlag := True \<rparr>, submit (init_tasks b) w)
                      else (ok, b', submit (init_tasks b @ map task4 cs) w)))"
  using assms bw_inv_emit bw_inv_refuse by (cases refused) auto

lemma bw_inv_quota_wf: "bw_inv (b, w) \<Longrightarrow> om_wf (ifaceQuotaBytes b)"
  by (simp add: bw_inv_def)

lemma bw_inv_deny_ops:
  assumes inv: "bw_inv s"
  shows "bw_inv (snd (AddDeniedList u s))" "bw_inv (snd (RemoveDeniedList u s))"
    "bw_inv (snd (AddAllowedList u s))" "bw_inv (snd (RemoveAllowedList u s))"
proof -
  obtain b w where s: "s = (b, w)" by (cases s)
  note inv' = inv [unfolded s]
  note rdy = bw_inv_ready [OF inv']
  note wf = bw_inv_quota_wf [OF inv']
  show "bw_inv (snd (AddDeniedList u s))"
    unfolding s AddDeniedList_eq [OF rdy]
  proof (rule bw_inv_outcome [OF inv'])
    fix r assume "u \<notin> deniedListUids b" "rule_ok r"
    then show "follow r (rule_present r b) (map task4 [rule_ins (DenyRule u)]) = Some (rule_present r
        (b\<lparr> bw_chainInitFlag := True, deniedListUids := insert u (deniedListUids b) \<rparr>))"
      by (cases r) (auto simp: quota_rule_def)
  qed (use wf in simp)
  show "bw_inv (snd (RemoveDeniedList u s))"
    unfolding s RemoveDeniedList_eq [OF rdy]
  proof (rule bw_inv_outcome [OF inv'])
    fix r assume "\<not> u \<notin> deniedListUids b" "rule_ok r"
    then show "follow r (rule_present r b) (map task4 [rule_del (DenyRule u)]) = Some (rule_present r
        (b\<lparr> bw_chainInitFlag := True, deniedListUids := deniedListUids b - {u} \<rparr>))"
      by (cases r) (auto simp: quota_rule_def)
  qed (use wf in simp)
  show "bw_inv (snd (AddAllowedList u s))"
    unfolding s AddAllowedList_eq [OF rdy]
  proof (rule bw_inv_outcome [OF inv'])
    fix r assume "u \<notin> allowedListUids b" "rule_ok r"
    then show "follow r (rule_present r b) (map task4 [rule_ins (AllowRule u)]) = Some (rule_present r
        (b\<lparr> bw_chainInitFlag := True, allowedListUids := insert u (allowedListUids b) \<rparr>))"
      by (cases r) (auto simp: quota_rule_def)
  qed (use wf in simp)
  show "bw_inv (snd (RemoveAllowedList u s))"
    unfolding s RemoveAllowedList_eq [OF rdy]
  proof (rule bw_inv_outcome [OF inv'])
    fix r assume "\<not> u \<notin> allowedListUids b" "rule_ok r"
    then show "follow r (rule_present r b) (map task4 [rule_del (AllowRule u)]) = Some (rule_present r
        (b\<lparr> bw_chainInitFlag := True, allowedListUids := allowedListUids b - {u} \<rparr>))"
      by (cases r) (auto simp: quota_rule_def)
  qed (use wf in simp)
qed

lemma bw_inv_EnableDataSaver:
  assumes inv: "bw_inv (b, w)"
  shows "bw_inv (snd (EnableDataSaver e (b, w)))"
  unfolding EnableDataSaver_eq [OF bw_inv_ready [OF inv]]
proof (rule bw_inv_outcome [OF inv])
  fix r assume "e \<noteq> dataSaverEnable b" "rule_ok r"
  then show "follow r (rule_present r b) (map task4
        (if e then [''-t filter -R ohbw_data_saver 1 -j REJECT'', rule_ins SaverRule]
         else [rule_del SaverRule, ''-t filter -R ohbw_data_saver 1 -j RETURN'']))
      = Some (rule_present r (b\<lparr> bw_chainInitFlag := True, dataSaverEnable := e \<rparr>))"
    by (cases r) (auto simp: quota_rule_def)
qed (use bw_inv_quota_wf [OF inv] in simp)

lemma bw_inv_RemoveIfaceQuota:
  assumes inv: "bw_inv (b, w)"
  shows "bw_inv (snd (RemoveIfaceQuota i (b, w)))"
proof (cases "CheckIfaceName i")
  case False
  with inv show ?thesis by (simp add: iface_bad)
next
  case True
  show ?thesis unfolding RemoveIfaceQuota_eq [OF bw_inv_ready [OF inv] True]
  proof (rule bw_inv_outcome [OF inv])
    fix r assume "om_get (ifaceQuotaBytes b) i \<noteq> None" "rule_ok r"
    with True show "follow r (rule_present r b) (map task4
         [rule_del (BoxJump i), rule_del (InputJump i), rule_del (OutputJump i), rule_del (ForwardInJump i),
          rule_del (ForwardOutJump i), ''-t filter -F ohbw_costly_'' @ i, rule_del (CostlyChain i)])
        = Some (rule_present r (b\<lparr> bw_chainInitFlag := True, ifaceQuotaBytes := om_del i (ifaceQuotaBytes b) \<rparr>))"
      by (cases r) (auto simp: quota_rule_def)
  qed (use bw_inv_quota_wf [OF inv] in auto)
qed

lemma bw_inv_SetIfaceQuota:
  assumes inv: "bw_inv (b, w)"
  shows "bw_inv (snd (SetIfaceQuota i n (b, w)))"
proof (cases "CheckIfaceName i")
  case False
  with inv show ?thesis by (simp add: iface_bad)
next
  case True
  note eq = SetIfaceQuota_eq [OF bw_inv_ready [OF inv] True, of n]
  show ?thesis
  proof (cases "om_get (ifaceQuotaBytes b) i")
    case None
    have "follow r (rule_present r b) (map task4 (map rule_ins [CostlyChain i, BoxJump i, InputJump i, OutputJump i,
                     ForwardInJump i, ForwardOutJump i, QuotaRule i n]))
        = Some (rule_present r (b\<lparr> bw_chainInitFlag := True, ifaceQuotaBytes := om_put i n (ifaceQuotaBytes b) \<rparr>))"
      if "rule_ok r" for r
      using that True None by (cases r) (auto simp: quota_rule_def)
    then show ?thesis unfolding eq None option.case snd_conv
      using bw_inv_quota_wf [OF inv] by (intro bw_inv_emit [OF inv]) auto
  next
    case (Some old)
    have "follow r (rule_present r b) (map task4 [rule_del (QuotaRule i old), rule_ins (QuotaRule i n)])
        = Some (rule_present r (b\<lparr> bw_chainInitFlag := True, ifaceQuotaBytes := om_put i n (ifaceQuotaBytes b) \<rparr>))"
      if "rule_ok r" for r
      using that True Some by (cases r) (auto simp: quota_rule_def)
    then show ?thesis unfolding eq Some option.case snd_conv
      using bw_inv_quota_wf [OF inv] by (intro bw_inv_emit [OF inv]) auto
  qed
qed


lemma rule_tasks_owned:
  "bw_owned (task4 (rule_ins r))" "bw_owned (task4 (rule_del r))" "x \<in> set (rule_flush r) \<Longrightarrow> bw_owned (task4 x)"
  by (cases r; auto simp: task4_def quota_rule_def)+

lemma follow_foreign: "\<forall>t \<in> set ts. \<not> bw_owned t \<Longrightarrow> follow r p ts = Some p"
  unfolding follow_def by (rule replay_foreign) (use rule_tasks_owned in auto)

lemma bw_inv_foreign:
  "bw_inv (b, w) \<Longrightarrow> \<forall>t \<in> set ts. \<not> bw_owned t \<Longrightarrow> bw_inv (b, submit ts w)"
  by (simp add: bw_inv_def follow_append follow_foreign)

lemma bw_inv_step: "bw_step s s' \<Longrightarrow> bw_inv s \<Longrightarrow> bw_inv s'"
  by (induction rule: bw_step.induct)
    (auto intro: bw_inv_deny_ops bw_inv_EnableDataSaver bw_inv_SetIfaceQuota bw_inv_RemoveIfaceQuota bw_inv_foreign)

lemma bw_inv_start:
  "file_exists IPATBLES_CMD_PATH \<Longrightarrow> bw_inv (BandwidthManager_ctor, IptablesWrapper_ctor file_exists)"
proof -
  have "\<not> rule_present r BandwidthManager_ctor" for r by (cases r) (simp_all add: BandwidthManager_ctor_def)
  then show "file_exists IPATBLES_CMD_PATH \<Longrightarrow> ?thesis"
    by (simp add: bw_inv_def IptablesWrapper_ctor_def queue_alive_def submitted_def BandwidthManager_ctor_def)
qed

lemma bw_inv_reachable: "bw_reachable f s \<Longrightarrow> f IPATBLES_CMD_PATH \<Longrightarrow> bw_inv s"
  by (induction rule: bw_reachable.induct) (auto intro: bw_inv_start bw_inv_step)

subsection \<open>The boxes are uid lists\<close>

lemma Bw_CheckChainInitialization_fields [simp]:
  "deniedListUids (fst (Bw_CheckChainInitialization s)) = deniedListUids (fst s)"
  "allowedListUids (fst (Bw_CheckChainInitialization s)) = allowedListUids (fst s)"
  "dataSaverEnable (fst (Bw_CheckChainInitialization s)) = dataSaverEnable (fst s)"
  "ifaceQuotaBytes (fst (Bw_CheckChainInitialization s)) = ifaceQuotaBytes (fst s)"
  by (simp_all add: Bw_CheckChainInitialization_def Bw_InitChain_def split: prod.splits)

lemma box_fields [simp]:
  "deniedListUids (fst (snd (AddDeniedList u s))) = insert u (deniedListUids (fst s))"
  "deniedListUids (fst (snd (RemoveDeniedList u s))) = deniedListUids (fst s) - {u}"
  "deniedListUids (fst (snd (AddAllowedList u s))) = deniedListUids (fst s)"
  "deniedListUids (fst (snd (RemoveAllowedList u s))) = deniedListUids (fst s)"
  "allowedListUids (fst (snd (AddDeniedList u s))) = allowedListUids (fst s)"
  "allowedListUids (fst (snd (RemoveDeniedList u s))) = allowedListUids (fst s)"
  "allowedListUids (fst (snd (AddAllowedList u s))) = insert u (allowedListUids (fst s))"
  "allowedListUids (fst (snd (RemoveAllowedList u s))) = allowedListUids (fst s) - {u}"
  "deniedListUids (fst (snd (EnableDataSaver e s))) = deniedListUids (fst s)"
  "allowedListUids (fst (snd (EnableDataSaver e s))) = allowedListUids (fst s)"
  "dataSaverEnable (fst (snd (EnableDataSaver e s))) = e"
  "dataSaverEnable (fst (snd (AddDeniedList u s))) = dataSaverEnable (fst s)"
  "dataSaverEnable (fst (snd (RemoveDeniedList u s))) = dataSaverEnable (fst s)"
  "dataSaverEnable (fst (snd (AddAllowedList u s))) = dataSaverEnable (fst s)"
  "dataSaverEnable (fst (snd (RemoveAllowedList u s))) = dataSaverEnable (fst s)"
  by (auto simp: AddDeniedList_def RemoveDeniedList_def AddAllowedList_def RemoveAllowedList_def
      EnableDataSaver_def case_prod_beta Let_def)

interpretation denied_box: uid_list "\<lambda>s. deniedListUids (fst s)" "\<lambda>u s. snd (AddDeniedList u s)"
  "\<lambda>u s. snd (RemoveDeniedList u s)" "\<lambda>s. om_wf (ifaceQuotaBytes (fst s))"
  by unfold_locales (auto simp: AddDeniedList_def RemoveDeniedList_def case_prod_beta)

interpretation allowed_box: uid_list "\<lambda>s. allowedListUids (fst s)" "\<lambda>u s. snd (AddAllowedList u s)"
  "\<lambda>u s. snd (RemoveAllowedList u s)" "\<lambda>s. om_wf (ifaceQuotaBytes (fst s))"
  by unfold_locales (auto simp: AddAllowedList_def RemoveAllowedList_def case_prod_beta)

section \<open>Properties\<close>

text \<open>
  C9. In every state the bandwidth manager can reach, the history of commands keeps each
  of its rules in step with its fields: the rule of a uid in the denied or allowed box,
  the data saver exemption, the chain of a metered interface with the five jumps to it and
  its quota rule are never inserted twice, never deleted while absent, and are in the
  filter table exactly when the fields say so, whatever other managers do to other chains.
\<close>

theorem bandwidth_table_matches_fields:
  assumes "bw_reachable file_exists (b, w)" "file_exists IPATBLES_CMD_PATH" "rule_ok r"
  shows "follow r False (submitted w) = Some (rule_present r b)"
  using bw_inv_reachable [OF assms(1,2)] assms(3) by (simp add: bw_inv_def)

theorem bandwidth_table_matches_fields_witness:
  "follow (DenyRule 10001) False
     (submitted (snd (snd (AddDeniedList 10001 (BandwidthManager_ctor, IptablesWrapper_ctor (\<lambda>_. True))))))
   = Some True"
proof -
  let ?s = "(BandwidthManager_ctor, IptablesWrapper_ctor (\<lambda>_. True))"
  let ?s' = "snd (AddDeniedList 10001 ?s)"
  have "bw_reachable (\<lambda>_. True) ?s'"
    by (rule bw_next [OF bw_start step_deny])
  moreover have "10001 \<in> deniedListUids (fst ?s')"
    using denied_box.members_add [of ?s 10001] by (simp add: BandwidthManager_ctor_def)
  ultimately show ?thesis
    using bandwidth_table_matches_fields [of "\<lambda>_. True" "fst ?s'" "snd ?s'" "DenyRule 10001"] by simp
qed

text \<open>
  \<open>SetIfaceQuota\<close> on an accepted name: an interface that has no quota gets its chain,
  the jump of its output to the denied box, the four jumps to the chain and the quota
  rule, in this order; one that has a quota has the old rule deleted and the new one
  added. The new amount is recorded and the chains are set up first if they were not. A
  refused name changes nothing and submits nothing.
\<close>

theorem SetIfaceQuota_behaviour:
  assumes "queue_alive w" "isIptablesSystemAccess w"
  shows "SetIfaceQuota i n (b, w) =
    (if \<not> CheckIfaceName i then (NETMANAGER_ERROR, b, w)
     else (NETMANAGER_SUCCESS,
       b\<lparr> bw_chainInitFlag := True, ifaceQuotaBytes := om_put i n (ifaceQuotaBytes b) \<rparr>,
       submit ((if bw_chainInitFlag b then [] else map task4 bw_init_commands) @ map task4
         (case om_get (ifaceQuotaBytes b) i of
            Some old \<Rightarrow> [quota_rule ''-D '' i old, quota_rule ''-A '' i n]
          | None \<Rightarrow> [''-t filter -N ohbw_costly_'' @ i,
                     ''-t filter -A ohbw_OUTPUT -o '' @ i @ '' -j ohbw_denied_list_box'',
                     ''-t filter -I ohbw_INPUT -i '' @ i @ '' --jump ohbw_costly_'' @ i,
                     ''-t filter -I ohbw_OUTPUT -o '' @ i @ '' --jump ohbw_costly_'' @ i,
                     ''-t filter -A ohbw_FORWARD -i '' @ i @ '' --jump ohbw_costly_'' @ i,
                     ''-t filter -A ohbw_FORWARD -o '' @ i @ '' --jump ohbw_costly_'' @ i,
                     quota_rule ''-A '' i n])) w))"
  using assms by (simp add: iface_bad SetIfaceQuota_eq init_tasks_def split: option.split)

theorem SetIfaceQuota_behaviour_witness:
  "fst (SetIfaceQuota ''wlan0'' 5000 (BandwidthManager_ctor, IptablesWrapper_ctor (\<lambda>_. True))) = NETMANAGER_SUCCESS"
  using SetIfaceQuota_behaviour [of "IptablesWrapper_ctor (\<lambda>_. True)" "''wlan0''" 5000 BandwidthManager_ctor]
  by (simp add: queue_alive_def IptablesWrapper_ctor_def CheckIfaceName_def isalnum_def char_code_def)

text \<open>
  The data saver is a two-state machine: a request for the other state succeeds,
  records it and swaps the final verdict of the chain together with the exemption of the
  system uids; a request for the current state is refused and issues none of these.
\<close>

theorem EnableDataSaver_behaviour:
  assumes "queue_alive w" "isIptablesSystemAccess w" "bw_chainInitFlag b"
  shows "EnableDataSaver e (b, w) =
    (if e = dataSaverEnable b then (NETMANAGER_ERROR, b, w)
     else (NETMANAGER_SUCCESS, b\<lparr> dataSaverEnable := e \<rparr>,
       submit (map task4
         (if e then [''-t filter -R ohbw_data_saver 1 -j REJECT'',
                     ''-t filter -I ohbw_data_saver -m owner --uid-owner 0-9999 -j RETURN'']
          else [''-t filter -D ohbw_data_saver -m owner --uid-owner 0-9999 -j RETURN'',
                ''-t filter -R ohbw_data_saver 1 -j RETURN''])) w))"
  using assms by (simp add: EnableDataSaver_eq init_tasks_def)

theorem EnableDataSaver_behaviour_witness:
  "fst (EnableDataSaver False (BandwidthManager_ctor\<lparr> bw_chainInitFlag := True \<rparr>, IptablesWrapper_ctor (\<lambda>_. True)))
   = NETMANAGER_ERROR"
  using EnableDataSaver_behaviour [of "IptablesWrapper_ctor (\<lambda>_. True)" "BandwidthManager_ctor\<lparr> bw_chainInitFlag := True \<rparr>" False]
  by (simp add: queue_alive_def IptablesWrapper_ctor_def BandwidthManager_ctor_def)

text \<open>
  Setting and then unsetting the global alert reports success twice and forgets the
  amount, but the rule that is deleted (match \<open>quota\<close>) is not the rule that was added
  (match \<open>quota2\<close>).
\<close>

theorem SetGlobalAlert_unset_other_rule:
  assumes "queue_alive w" "isIptablesSystemAccess w"
  shows "\<exists>added deleted b1 w1 b2 w2.
     SetGlobalAlert OP_SET n (b, w) = (NETMANAGER_SUCCESS, b1, w1)
   \<and> SetGlobalAlert OP_UNSET n (b1, w1) = (NETMANAGER_SUCCESS, b2, w2)
   \<and> globalAlertBytes b2 = 0
   \<and> submitted w2 = submitted w @ [task4 (''-t filter -A ohbw_global_alert'' @ added),
                                      task4 (''-t filter -D ohbw_global_alert'' @ deleted)]
   \<and> added \<noteq> deleted"
  using assms
  by (auto simp: SetGlobalAlert_def bw_run Bw_FetchChainName_def Let_def)

theorem SetGlobalAlert_unset_other_rule_witness:
  "\<exists>b1 w1. SetGlobalAlert OP_SET 100 (BandwidthManager_ctor, IptablesWrapper_ctor (\<lambda>_. True))
     = (NETMANAGER_SUCCESS, b1, w1)"
  using SetGlobalAlert_unset_other_rule [of "IptablesWrapper_ctor (\<lambda>_. True)" 100 BandwidthManager_ctor]
  by (auto simp: queue_alive_def IptablesWrapper_ctor_def)

text \<open>
  An interface called \<open>shared\<close> is accepted, and giving it a quota creates the fixed
  chain \<open>ohbw_costly_shared\<close> a second time.
\<close>

theorem SetIfaceQuota_shared_collision:
  "replay (task4 ''-t filter -N ohbw_costly_shared'') (task4 ''-t filter -X ohbw_costly_shared'') [] False
     (submitted (snd (snd (SetIfaceQuota ''shared'' n (BandwidthManager_ctor, IptablesWrapper_ctor (\<lambda>_. True)))))) = None"
proof -
  have "CheckIfaceName ''shared''" by code_simp
  then show ?thesis
    by (simp add: SetIfaceQuota_eq queue_alive_def IptablesWrapper_ctor_def BandwidthManager_ctor_def
        init_tasks_def bw_init_commands_def submitted_def submit_def quota_rule_def)
qed

end
