(* ===== verification/Filter_Chain.thy ===== *)
theory Filter_Chain
  imports Iptables
begin

text \<open>
  The content of one user-defined filter chain as a command history leaves it: the ordered
  list of the rule specifications of the chain. Appending (\<open>-A\<close>), inserting in front
  (\<open>-I\<close>), deleting the first equal rule (\<open>-D\<close>) and flushing (\<open>-F\<close>) are the documented
  effects of the commands the managers issue. The commands of one address family are
  those submitted with the path of its tool.
\<close>

section \<open>Definitions\<close>

fun strip_prefix :: "string \<Rightarrow> string \<Rightarrow> string option" where
  "strip_prefix [] s = Some s"
| "strip_prefix (p # ps) [] = None"
| "strip_prefix (p # ps) (c # cs) = (if p = c then strip_prefix ps cs else None)"

definition family_path :: "IpType \<Rightarrow> string" where
  "family_path fam = (if fam = IPTYPE_IPV6 then ''/system/bin/ip6tables '' else ''/system/bin/iptables '')"

definition family_access :: "IpType \<Rightarrow> IptablesWrapper \<Rightarrow> bool" where
  "family_access fam w =
     (if fam = IPTYPE_IPV6 then isIp6tablesSystemAccess w else isIptablesSystemAccess w)"

fun task_command :: "IpType \<Rightarrow> IptTask \<Rightarrow> string list" where
  "task_command fam (ExecuteCommand c) =
     (case strip_prefix (family_path fam) c of None \<Rightarrow> [] | Some cmd \<Rightarrow> [cmd])"
| "task_command fam _ = []"

definition family_commands :: "IpType \<Rightarrow> IptTask list \<Rightarrow> string list" where
  "family_commands fam ts = concat (map (task_command fam) ts)"

definition apply_command :: "string \<Rightarrow> string list \<Rightarrow> string \<Rightarrow> string list" where
  "apply_command chain rules cmd =
     (if cmd = ''-t filter -F '' @ chain then []
      else case strip_prefix (''-t filter -A '' @ chain @ '' '') cmd of Some spec \<Rightarrow> rules @ [spec]
      | None \<Rightarrow> (case strip_prefix (''-t filter -I '' @ chain @ '' '') cmd of Some spec \<Rightarrow> spec # rules
      | None \<Rightarrow> (case strip_prefix (''-t filter -D '' @ chain @ '' '') cmd of Some spec \<Rightarrow> remove1 spec rules
      | None \<Rightarrow> rules)))"

definition apply_commands :: "string \<Rightarrow> string list \<Rightarrow> string list \<Rightarrow> string list" where
  "apply_commands chain cmds rules = foldl (apply_command chain) rules cmds"

text \<open>The content of a chain that starts out empty.\<close>

definition chain_rules :: "IpType \<Rightarrow> string \<Rightarrow> IptablesWrapper \<Rightarrow> string list" where
  "chain_rules fam chain w = apply_commands chain (family_commands fam (submitted w)) []"

text \<open>The commands of a list of (family, command) pairs that one family sees.\<close>

definition seen_by :: "IpType \<Rightarrow> (IpType \<times> string) list \<Rightarrow> string list" where
  "seen_by fam cs = map snd (filter (\<lambda>c. fst c = IPTYPE_IPV4V6 \<or> fst c = fam) cs)"

section \<open>Lemmas\<close>

lemma strip_prefix_append [simp]: "strip_prefix p (p @ s) = Some s"
  by (induction p) auto

lemma strip_prefix_common [simp]: "strip_prefix (p @ q) (p @ s) = strip_prefix q s"
  by (induction p) auto

lemma strip_prefix_Some: "strip_prefix p s = Some r \<longleftrightarrow> s = p @ r"
  by (induction p s rule: strip_prefix.induct) auto

lemma strip_word:
  "no_space ch \<Longrightarrow> no_space ch' \<Longrightarrow>
     strip_prefix (ch @ [CHR '' '']) (ch' @ CHR '' '' # s) = (if ch = ch' then Some s else None)"
  by (cases "strip_prefix (ch @ [CHR '' '']) (ch' @ CHR '' '' # s)") (auto simp: strip_prefix_Some)

lemma family_commands_append [simp]:
  "family_commands fam (ts @ us) = family_commands fam ts @ family_commands fam us"
  by (simp add: family_commands_def)

lemma family_commands_Nil [simp]: "family_commands fam [] = []"
  by (simp add: family_commands_def)

lemma apply_commands_append [simp]:
  "apply_commands chain (cs @ ds) rules = apply_commands chain ds (apply_commands chain cs rules)"
  by (simp add: apply_commands_def)

lemma apply_commands_Nil [simp]: "apply_commands chain [] rules = rules"
  by (simp add: apply_commands_def)

lemma apply_commands_Cons [simp]:
  "apply_commands chain (c # cs) rules = apply_commands chain cs (apply_command chain rules c)"
  by (simp add: apply_commands_def)

lemma family_commands_tasks_of:
  "fam \<noteq> IPTYPE_IPV4V6 \<Longrightarrow> family_access fam w \<Longrightarrow>
     family_commands fam (tasks_of w ty c) = (if ty = IPTYPE_IPV4V6 \<or> ty = fam then [c] else [])"
  by (cases fam; cases ty)
    (auto simp: family_commands_def tasks_of_def family_access_def family_path_def)

lemma family_commands_pairs:
  "fam \<noteq> IPTYPE_IPV4V6 \<Longrightarrow> family_access fam w \<Longrightarrow>
     family_commands fam (concat (map (\<lambda>c. tasks_of w (fst c) (snd c)) cs)) = seen_by fam cs"
  by (induction cs) (auto simp: family_commands_tasks_of seen_by_def)

lemma seen_by_simps [simp]:
  "seen_by fam [] = []" "seen_by fam (as @ bs) = seen_by fam as @ seen_by fam bs"
  "seen_by fam (c # cs) = (if fst c = IPTYPE_IPV4V6 \<or> fst c = fam then snd c # seen_by fam cs else seen_by fam cs)"
  by (simp_all add: seen_by_def)

lemma seen_by_map [simp]: "seen_by fam (map (\<lambda>x. (IPTYPE_IPV4V6, f x)) xs) = map f xs"
  by (induction xs) auto

lemma seen_by_Pair [simp]:
  "seen_by fam (map (Pair ty) cs) = (if ty = IPTYPE_IPV4V6 \<or> ty = fam then cs else [])"
  by (induction cs) auto

lemma chain_rules_submit:
  "queue_alive w \<Longrightarrow> chain_rules fam chain (submit ts w) =
     apply_commands chain (family_commands fam ts) (chain_rules fam chain w)"
  by (simp add: chain_rules_def)

lemma family_access_submit [simp]: "family_access fam (submit ts w) = family_access fam w"
  by (simp add: family_access_def)

text \<open>What one command does to the content of a chain.\<close>

lemma apply_command_add:
  "no_space ch \<Longrightarrow> no_space ch' \<Longrightarrow>
     apply_command ch rules (''-t filter -A '' @ ch' @ CHR '' '' # spec) = (if ch' = ch then rules @ [spec] else rules)"
  "no_space ch \<Longrightarrow> no_space ch' \<Longrightarrow>
     apply_command ch rules (''-t filter -I '' @ ch' @ CHR '' '' # spec) = (if ch' = ch then spec # rules else rules)"
  "no_space ch \<Longrightarrow> no_space ch' \<Longrightarrow>
     apply_command ch rules (''-t filter -D '' @ ch' @ CHR '' '' # spec) = (if ch' = ch then remove1 spec rules else rules)"
  by (simp_all add: apply_command_def strip_word)

lemma apply_command_flush:
  "apply_command ch rules (''-t filter -F '' @ ch') = (if ch' = ch then [] else rules)"
  "apply_command ch rules (''-t filter -N '' @ ch') = rules"
  by (simp_all add: apply_command_def)

lemmas apply_command_simps [simp] =
  apply_command_add [simplified append_Cons append_Nil]
  apply_command_flush [simplified append_Cons append_Nil]

lemma apply_map_add:
  assumes "no_space ch" "no_space ch'"
  shows "apply_commands ch (map (\<lambda>x. ''-t filter -A '' @ ch' @ CHR '' '' # f x) xs) rules
       = (if ch' = ch then rules @ map f xs else rules)"
  using assms by (induction xs arbitrary: rules) auto

lemmas apply_map_add_simps [simp] = apply_map_add [simplified append_Cons append_Nil]

lemma count_list_map_inj: "inj f \<Longrightarrow> count_list (map f xs) (f x) = count_list xs x"
  by (induction xs) (auto simp: inj_eq)

lemma count_list_not_image: "y \<notin> range f \<Longrightarrow> count_list (map f xs) y = 0"
  by (induction xs) auto

lemma count_list_remove1: "count_list (remove1 y xs) x = (if x = y then count_list xs x - 1 else count_list xs x)"
  by (induction xs) (auto simp: count_list_0_iff)

end
