(* ===== verification/Firewall_Native.thy ===== *)
theory Firewall_Native
  imports Filter_Chain
begin

text \<open>
  The class \<open>FirewallManager\<close>
  (\<open>services/netmanagernative/src/manager/firewall_manager.cpp\<close>): the chains for device
  idle (\<open>ohfw_dozable\<close>), power saving, idle denied apps (\<open>ohfw_undozable\<close>) and the common
  allowed list box. A state is the manager's fields with the iptables wrapper. The
  properties relate the status the manager keeps (enabled, uid list) to the content of the
  chains its commands produce, for IPv4 and for IPv6. \<open>ClearAllRules\<close> empties the chains
  and keeps the status; the state machine remembers which chains it cleared.
\<close>

section \<open>State\<close>

record FirewallChainStatus =
  chain_enable :: bool
  chain_type :: FirewallType
  chain_uids :: "u32 list"

record FirewallManager =
  fw_chainInitFlag :: bool
  strMaxUid :: string
  firewallType :: FirewallType
  firewallChainStatus :: "ChainType \<Rightarrow> FirewallChainStatus"

type_synonym fw_state = "FirewallManager \<times> IptablesWrapper"

abbreviation SYSTEM_UID_RANGE :: nat where "SYSTEM_UID_RANGE \<equiv> 9999"
abbreviation DEFAULT_MAX_UID_RANGE :: nat where "DEFAULT_MAX_UID_RANGE \<equiv> 4294967295"

text \<open>
  The argument is the content of \<open>/proc/self/uid_map\<close>, \<open>None\<close> when it cannot be opened.
\<close>

definition ReadMaxUidConfig :: "string option \<Rightarrow> string" where
  "ReadMaxUidConfig file =
     (case file of
        None \<Rightarrow> to_string DEFAULT_MAX_UID_RANGE
      | Some content \<Rightarrow>
          if CHR '' '' \<notin> set content then to_string DEFAULT_MAX_UID_RANGE
          else let maxUid = rev (takeWhile (\<lambda>c. c \<noteq> CHR '' '') (rev content)) in
               if length maxUid = 0 then to_string DEFAULT_MAX_UID_RANGE else maxUid)"

definition FirewallManager_ctor :: "string option \<Rightarrow> FirewallManager" where
  "FirewallManager_ctor file =
     \<lparr> fw_chainInitFlag = False, strMaxUid = ReadMaxUidConfig file, firewallType = TYPE_ALLOWED_LIST,
       firewallChainStatus = (\<lambda>_. \<lparr> chain_enable = False, chain_type = TYPE_ALLOWED_LIST, chain_uids = [] \<rparr>) \<rparr>"

section \<open>Chains\<close>

definition IsFirewallChian :: "ChainType \<Rightarrow> int" where
  "IsFirewallChian chain =
     (if chain \<noteq> CHAIN_OHFW_DOZABLE \<and> chain \<noteq> CHAIN_OHFW_POWERSAVING
         \<and> chain \<noteq> CHAIN_OHFW_UNDOZABLE \<and> chain \<noteq> CHAIN_OHFW_ALLOWED_LIST_BOX
      then NETMANAGER_ERROR else NETMANAGER_SUCCESS)"

definition Fw_FetchChainName :: "ChainType \<Rightarrow> string" where
  "Fw_FetchChainName chain =
     (case chain of
        CHAIN_OHFW_INPUT \<Rightarrow> ''ohfw_INPUT''
      | CHAIN_OHFW_OUTPUT \<Rightarrow> ''ohfw_OUTPUT''
      | CHAIN_OHFW_FORWARD \<Rightarrow> ''ohfw_FORWARD''
      | CHAIN_OHFW_DOZABLE \<Rightarrow> ''ohfw_dozable''
      | CHAIN_OHFW_ALLOWED_LIST_BOX \<Rightarrow> ''ohfw_allowed_list_box''
      | CHAIN_OHFW_POWERSAVING \<Rightarrow> ''ohfw_powersaving''
      | CHAIN_OHFW_UNDOZABLE \<Rightarrow> ''ohfw_undozable''
      | _ \<Rightarrow> ''oh_unusable'')"

definition FetchChainType :: "ChainType \<Rightarrow> FirewallType" where
  "FetchChainType chain =
     (case chain of
        CHAIN_OHFW_DOZABLE \<Rightarrow> TYPE_ALLOWED_LIST
      | CHAIN_OHFW_POWERSAVING \<Rightarrow> TYPE_ALLOWED_LIST
      | CHAIN_OHFW_UNDOZABLE \<Rightarrow> TYPE_DENIDE_LIST
      | _ \<Rightarrow> TYPE_ALLOWED_LIST)"

text \<open>\<open>err = err || (RunCommand(type, command) == NETMANAGER_ERROR)\<close> over (type, command) pairs.\<close>

definition fw_run :: "(IpType \<times> string) list \<Rightarrow> IptablesWrapper \<Rightarrow> bool \<times> IptablesWrapper" where
  "fw_run cs = run_chain (map (\<lambda>(ipType, command). RunCommand ipType command) cs)"

definition both :: "string list \<Rightarrow> (IpType \<times> string) list" where
  "both = map (\<lambda>command. (IPTYPE_IPV4V6, command))"

definition SetFireWallCommand :: "string \<Rightarrow> string \<Rightarrow> IptablesWrapper \<Rightarrow> bool \<times> IptablesWrapper" where
  "SetFireWallCommand chainName command =
     fw_run (both [command,
                   ''-t filter -A '' @ chainName @ '' -i lo -j RETURN'',
                   ''-t filter -A '' @ chainName @ '' -o lo -j RETURN'',
                   ''-t filter -A '' @ chainName @ '' -p tcp --tcp-flags RST RST -j RETURN'']
             @ [(IPTYPE_IPV6, ''-t filter -A '' @ chainName @ '' -p icmpv6 --icmpv6-type 135 -j RETURN''),
                (IPTYPE_IPV6, ''-t filter -A '' @ chainName @ '' -p icmpv6 --icmpv6-type 136 -j RETURN'')])"

definition Fw_IptablesNewChain :: "ChainType \<Rightarrow> IptablesWrapper \<Rightarrow> int \<times> IptablesWrapper" where
  "Fw_IptablesNewChain chain = RunCommand IPTYPE_IPV4V6 (''-t filter -N '' @ Fw_FetchChainName chain)"

definition Fw_IptablesDeleteChain :: "ChainType \<Rightarrow> IptablesWrapper \<Rightarrow> int \<times> IptablesWrapper" where
  "Fw_IptablesDeleteChain chain w =
     (case fw_run (both [''-t filter -F '' @ Fw_FetchChainName chain, ''-t filter -X '' @ Fw_FetchChainName chain]) w
      of (ret, w') \<Rightarrow> (ret_of ret, w'))"

definition IptablesSetRule ::
  "string \<Rightarrow> string \<Rightarrow> string \<Rightarrow> u32 \<Rightarrow> IptablesWrapper \<Rightarrow> int \<times> IptablesWrapper" where
  "IptablesSetRule chainName option target uid =
     RunCommand IPTYPE_IPV4V6
       (''-t filter '' @ option @ '' '' @ chainName @ '' -m owner --uid-owner '' @ to_string_u32 uid @ '' -j '' @ target)"

definition fw_chains :: "ChainType list" where
  "fw_chains =
     [CHAIN_OHFW_INPUT, CHAIN_OHFW_OUTPUT, CHAIN_OHFW_FORWARD, CHAIN_OHFW_DOZABLE,
      CHAIN_OHFW_ALLOWED_LIST_BOX, CHAIN_OHFW_POWERSAVING, CHAIN_OHFW_UNDOZABLE]"

definition Fw_InitChain :: "fw_state \<Rightarrow> int \<times> fw_state" where
  "Fw_InitChain s =
     (case s of (f, w) \<Rightarrow>
      case run_chain (map Fw_IptablesNewChain fw_chains) w of (ret, w') \<Rightarrow>
        (ret_of ret, f\<lparr> fw_chainInitFlag := True \<rparr>, w'))"

definition Fw_DeInitChain :: "fw_state \<Rightarrow> int \<times> fw_state" where
  "Fw_DeInitChain s =
     (case s of (f, w) \<Rightarrow>
      case run_chain (map Fw_IptablesDeleteChain fw_chains) w of (ret, w') \<Rightarrow>
        (ret_of ret, f\<lparr> fw_chainInitFlag := False \<rparr>, w'))"

definition Fw_InitDefaultRules :: "IptablesWrapper \<Rightarrow> int \<times> IptablesWrapper" where
  "Fw_InitDefaultRules w =
     (case fw_run (both [''-t filter -A INPUT -j '' @ Fw_FetchChainName CHAIN_OHFW_INPUT,
                         ''-t filter -A OUTPUT -j '' @ Fw_FetchChainName CHAIN_OHFW_OUTPUT]) w
      of (ret, w') \<Rightarrow> (ret_of ret, w'))"

definition Fw_CheckChainInitialization :: "fw_state \<Rightarrow> fw_state" where
  "Fw_CheckChainInitialization s =
     (if \<not> fw_chainInitFlag (fst s) then
        case Fw_InitChain s of (r, f, w) \<Rightarrow>
        case Fw_InitDefaultRules w of (r', w') \<Rightarrow> (f, w')
      else s)"

definition ClearAllRules :: "fw_state \<Rightarrow> int \<times> fw_state" where
  "ClearAllRules s =
     (case s of (f, w) \<Rightarrow>
      case fw_run (both [''-t filter -F '' @ Fw_FetchChainName CHAIN_OHFW_DOZABLE,
                         ''-t filter -F '' @ Fw_FetchChainName CHAIN_OHFW_POWERSAVING,
                         ''-t filter -F '' @ Fw_FetchChainName CHAIN_OHFW_UNDOZABLE,
                         ''-t filter -F '' @ Fw_FetchChainName CHAIN_OHFW_INPUT,
                         ''-t filter -F '' @ Fw_FetchChainName CHAIN_OHFW_OUTPUT,
                         ''-t filter -F '' @ Fw_FetchChainName CHAIN_OHFW_FORWARD,
                         ''-t filter -F '' @ Fw_FetchChainName CHAIN_OHFW_ALLOWED_LIST_BOX]) w
      of (ret, w') \<Rightarrow> (ret_of ret, f, w'))"

section \<open>Uid lists of a chain\<close>

definition set_status :: "ChainType \<Rightarrow> (FirewallChainStatus \<Rightarrow> FirewallChainStatus) \<Rightarrow> FirewallManager \<Rightarrow> FirewallManager" where
  "set_status chain upd f =
     f\<lparr> firewallChainStatus := (firewallChainStatus f)(chain := upd (firewallChainStatus f chain)) \<rparr>"

text \<open>
  \<open>ret\<close> is assigned, not accumulated, at the call of \<open>SetFireWallCommand\<close>: the first
  commands of the function cannot make it fail.
\<close>

definition SetUidsAllowedListChain :: "ChainType \<Rightarrow> u32 list \<Rightarrow> fw_state \<Rightarrow> int \<times> fw_state" where
  "SetUidsAllowedListChain chain uids s =
     (if chain \<noteq> CHAIN_OHFW_DOZABLE \<and> chain \<noteq> CHAIN_OHFW_POWERSAVING then (NETMANAGER_ERROR, s)
      else case Fw_CheckChainInitialization s of (f, w) \<Rightarrow>
        let chainName = Fw_FetchChainName chain in
        case fw_run (both ([''-t filter -F '' @ chainName,
                            ''-t filter -A '' @ chainName @ '' -j '' @ Fw_FetchChainName CHAIN_OHFW_ALLOWED_LIST_BOX]
               @ map (\<lambda>uid. ''-t filter -A '' @ chainName @ '' -m owner --uid-owner '' @ to_string_u32 uid @ '' -j RETURN'') uids
               @ [''-t filter -A '' @ chainName @ '' -m owner --uid-owner 0-'' @ to_string SYSTEM_UID_RANGE @ '' -j RETURN''])) w
        of (ret1, w1) \<Rightarrow>
        case SetFireWallCommand chainName
               (''-t filter -A '' @ chainName @ '' -m owner ! --uid-owner 0-'' @ strMaxUid f @ '' -j RETURN'') w1
        of (ret2, w2) \<Rightarrow>
        case (if ret2 then (True, w2) else fw_run (both [''-t filter -A '' @ chainName @ '' -j DROP'']) w2)
        of (ret3, w3) \<Rightarrow>
        (ret_of ret3, if ret3 then f else set_status chain (\<lambda>st. st\<lparr> chain_uids := uids \<rparr>) f, w3))"

definition SetUidsDeniedListChain :: "ChainType \<Rightarrow> u32 list \<Rightarrow> fw_state \<Rightarrow> int \<times> fw_state" where
  "SetUidsDeniedListChain chain uids s =
     (if chain \<noteq> CHAIN_OHFW_UNDOZABLE then (NETMANAGER_ERROR, s)
      else case Fw_CheckChainInitialization s of (f, w) \<Rightarrow>
        let chainName = Fw_FetchChainName chain in
        case SetFireWallCommand chainName (''-t filter -F '' @ chainName) w of (ret1, w1) \<Rightarrow>
        case (if ret1 then (True, w1)
              else fw_run (both (map (\<lambda>uid. ''-t filter -A '' @ chainName @ '' -m owner --uid-owner '' @ to_string_u32 uid @ '' -j DROP'') uids)) w1)
        of (ret2, w2) \<Rightarrow>
        (ret_of ret2, if ret2 then f else set_status chain (\<lambda>st. st\<lparr> chain_uids := uids \<rparr>) f, w2))"

section \<open>Enabling a chain\<close>

definition EnableChain :: "ChainType \<Rightarrow> bool \<Rightarrow> fw_state \<Rightarrow> int \<times> fw_state" where
  "EnableChain chain enable s =
     (if IsFirewallChian chain = NETMANAGER_ERROR then (NETMANAGER_ERROR, s)
      else case Fw_CheckChainInitialization s of (f, w) \<Rightarrow>
        let chainName = Fw_FetchChainName chain;
            fChainName = Fw_FetchChainName CHAIN_OHFW_OUTPUT in
        if enable \<and> \<not> chain_enable (firewallChainStatus f chain) then
          case fw_run (both [''-t filter -A '' @ fChainName @ '' -j '' @ chainName]) w of (ret, w') \<Rightarrow>
            (ret_of ret,
             if ret then f
             else set_status chain (\<lambda>st. st\<lparr> chain_enable := enable \<rparr>) (f\<lparr> firewallType := FetchChainType chain \<rparr>),
             w')
        else if \<not> enable then
          case fw_run (both [''-t filter -D '' @ fChainName @ '' -j '' @ chainName, ''-t filter -F '' @ chainName]) w of (ret, w') \<Rightarrow>
            let f1 = set_status chain (\<lambda>st. st\<lparr> chain_uids := [] \<rparr>) f in
            (ret_of ret,
             if ret then f1
             else set_status chain (\<lambda>st. st\<lparr> chain_enable := enable \<rparr>) (f1\<lparr> firewallType := FetchChainType chain \<rparr>),
             w')
        else (NETMANAGER_ERROR, f, w))"

section \<open>One uid\<close>

definition SetUidRule :: "ChainType \<Rightarrow> u32 \<Rightarrow> FirewallRule \<Rightarrow> fw_state \<Rightarrow> int \<times> fw_state" where
  "SetUidRule chain uid firewallRule s =
     (if IsFirewallChian chain = NETMANAGER_ERROR then (NETMANAGER_ERROR, s)
      else if \<not> chain_enable (firewallChainStatus (fst s) chain) then (NETMANAGER_ERROR, s)
      else case Fw_CheckChainInitialization s of (f, w) \<Rightarrow>
        let chainName = Fw_FetchChainName chain;
            denied = (FetchChainType chain = TYPE_DENIDE_LIST);
            target = (if denied then ''DROP''
                      else if chain \<noteq> CHAIN_OHFW_ALLOWED_LIST_BOX then ''RETURN'' else ''ACCEPT'');
            op = (if denied then (if firewallRule = RULE_DENY then ''-A'' else ''-D'')
                  else (if firewallRule = RULE_ALLOW then ''-I'' else ''-D''));
            uids = chain_uids (firewallChainStatus f chain) in
        if op \<noteq> ''-D'' \<and> uid \<notin> set uids then
          case IptablesSetRule chainName op target uid w of (r, w') \<Rightarrow>
            if r = NETMANAGER_ERROR then (NETMANAGER_ERROR, f, w')
            else (NETMANAGER_SUCCESS, set_status chain (\<lambda>st. st\<lparr> chain_uids := uids @ [uid] \<rparr>) f, w')
        else if op = ''-D'' \<and> uid \<in> set uids then
          case IptablesSetRule chainName op target uid w of (r, w') \<Rightarrow>
            if r = NETMANAGER_ERROR then (NETMANAGER_ERROR, f, w')
            else (NETMANAGER_SUCCESS, set_status chain (\<lambda>st. st\<lparr> chain_uids := remove1 uid uids \<rparr>) f, w')
        else (NETMANAGER_ERROR, f, w))"

section \<open>Content of the chains\<close>

definition target_of :: "ChainType \<Rightarrow> string" where
  "target_of chain =
     (if chain = CHAIN_OHFW_UNDOZABLE then ''DROP''
      else if chain = CHAIN_OHFW_ALLOWED_LIST_BOX then ''ACCEPT'' else ''RETURN'')"

definition uid_spec :: "ChainType \<Rightarrow> u32 \<Rightarrow> string" where
  "uid_spec chain uid = ''-m owner --uid-owner '' @ to_string_u32 uid @ '' -j '' @ target_of chain"

definition jump_spec :: "ChainType \<Rightarrow> string" where
  "jump_spec chain = ''-j '' @ Fw_FetchChainName chain"

definition pass_specs :: "IpType \<Rightarrow> string list" where
  "pass_specs fam =
     [''-i lo -j RETURN'', ''-o lo -j RETURN'', ''-p tcp --tcp-flags RST RST -j RETURN'']
     @ (if fam = IPTYPE_IPV6 then [''-p icmpv6 --icmpv6-type 135 -j RETURN'', ''-p icmpv6 --icmpv6-type 136 -j RETURN'']
        else [])"

text \<open>The content of an allow chain and of the deny chain, in matching order.\<close>

definition allow_chain_specs :: "IpType \<Rightarrow> ChainType \<Rightarrow> string \<Rightarrow> u32 list \<Rightarrow> string list" where
  "allow_chain_specs fam chain maxUid uids =
     [''-j ohfw_allowed_list_box''] @ map (uid_spec chain) uids
     @ [''-m owner --uid-owner 0-9999 -j RETURN'', ''-m owner ! --uid-owner 0-'' @ maxUid @ '' -j RETURN'']
     @ pass_specs fam @ [''-j DROP'']"

definition deny_chain_specs :: "IpType \<Rightarrow> u32 list \<Rightarrow> string list" where
  "deny_chain_specs fam uids = pass_specs fam @ map (uid_spec CHAIN_OHFW_UNDOZABLE) uids"

definition is_fw_chain :: "ChainType \<Rightarrow> bool" where
  "is_fw_chain chain = (IsFirewallChian chain = NETMANAGER_SUCCESS)"

definition is_family :: "IpType \<Rightarrow> bool" where
  "is_family fam = (fam \<noteq> IPTYPE_IPV4V6)"

definition fw_ready :: "IpType \<Rightarrow> IptablesWrapper \<Rightarrow> bool" where
  "fw_ready fam w = (is_family fam \<and> queue_alive w \<and> family_access fam w)"

text \<open>
  The tasks of a list of commands, and the commands that set the chains up the first time.
\<close>

definition pair_tasks :: "IptablesWrapper \<Rightarrow> (IpType \<times> string) list \<Rightarrow> IptTask list" where
  "pair_tasks w cs = concat (map (\<lambda>c. tasks_of w (fst c) (snd c)) cs)"

definition fw_init_pairs :: "FirewallManager \<Rightarrow> (IpType \<times> string) list" where
  "fw_init_pairs f =
     (if fw_chainInitFlag f then []
      else both (map (\<lambda>chain. ''-t filter -N '' @ Fw_FetchChainName chain) fw_chains
             @ [''-t filter -A INPUT -j ohfw_INPUT'', ''-t filter -A OUTPUT -j ohfw_OUTPUT'']))"

definition add_specs :: "ChainType \<Rightarrow> string list \<Rightarrow> string list" where
  "add_specs chain specs = map (\<lambda>spec. ''-t filter -A '' @ Fw_FetchChainName chain @ '' '' @ spec) specs"

definition icmp_pairs :: "ChainType \<Rightarrow> (IpType \<times> string) list" where
  "icmp_pairs chain = map (Pair IPTYPE_IPV6)
     (add_specs chain [''-p icmpv6 --icmpv6-type 135 -j RETURN'', ''-p icmpv6 --icmpv6-type 136 -j RETURN''])"

definition allow_pairs :: "ChainType \<Rightarrow> string \<Rightarrow> u32 list \<Rightarrow> (IpType \<times> string) list" where
  "allow_pairs chain maxUid uids =
     both ((''-t filter -F '' @ Fw_FetchChainName chain) # add_specs chain [''-j ohfw_allowed_list_box'']
           @ add_specs chain (map (uid_spec chain) uids)
           @ add_specs chain [''-m owner --uid-owner 0-9999 -j RETURN'', ''-m owner ! --uid-owner 0-'' @ maxUid @ '' -j RETURN'',
                 ''-i lo -j RETURN'', ''-o lo -j RETURN'', ''-p tcp --tcp-flags RST RST -j RETURN''])
     @ icmp_pairs chain @ both (add_specs chain [''-j DROP''])"

definition deny_pairs :: "u32 list \<Rightarrow> (IpType \<times> string) list" where
  "deny_pairs uids =
     both ((''-t filter -F '' @ Fw_FetchChainName CHAIN_OHFW_UNDOZABLE) # add_specs CHAIN_OHFW_UNDOZABLE
             [''-i lo -j RETURN'', ''-o lo -j RETURN'', ''-p tcp --tcp-flags RST RST -j RETURN''])
     @ icmp_pairs CHAIN_OHFW_UNDOZABLE
     @ both (add_specs CHAIN_OHFW_UNDOZABLE (map (uid_spec CHAIN_OHFW_UNDOZABLE) uids))"

definition fw_emit :: "FirewallManager \<Rightarrow> (IpType \<times> string) list \<Rightarrow> IptablesWrapper \<Rightarrow> IptablesWrapper" where
  "fw_emit f cs w = submit (pair_tasks w (fw_init_pairs f @ cs)) w"

text \<open>
  \<open>SetUidRule\<close> adds on \<open>RULE_DENY\<close> for the deny chain and on \<open>RULE_ALLOW\<close> for the others, and
  removes on any other rule value.
\<close>

definition adds_uid :: "ChainType \<Rightarrow> FirewallRule \<Rightarrow> bool" where
  "adds_uid chain rule = (if chain = CHAIN_OHFW_UNDOZABLE then rule = RULE_DENY else rule = RULE_ALLOW)"

text \<open>
  An enabled chain is a uid list: the rule value that adds and the one that removes for
  the chain's type.
\<close>

definition add_rule :: "ChainType \<Rightarrow> FirewallRule" where
  "add_rule chain = (if chain = CHAIN_OHFW_UNDOZABLE then RULE_DENY else RULE_ALLOW)"

definition del_rule :: "ChainType \<Rightarrow> FirewallRule" where
  "del_rule chain = (if chain = CHAIN_OHFW_UNDOZABLE then RULE_ALLOW else RULE_DENY)"

definition uid_list_inv :: "ChainType \<Rightarrow> fw_state \<Rightarrow> bool" where
  "uid_list_inv chain s = (queue_alive (snd s) \<and> is_fw_chain chain
     \<and> chain_enable (firewallChainStatus (fst s) chain) \<and> distinct (chain_uids (firewallChainStatus (fst s) chain)))"

text \<open>
  The counts of rules against the counts recorded: never more, and the same for a chain that was not cleared behind the
  status of the manager.
\<close>

definition tracks :: "bool \<Rightarrow> nat \<Rightarrow> nat \<Rightarrow> bool" where
  "tracks exact n m = (n \<le> m \<and> (exact \<longrightarrow> n = m))"

definition fw_inv :: "IpType \<Rightarrow> ChainType set \<Rightarrow> fw_state \<Rightarrow> bool" where
  "fw_inv fam cleared s = (fw_ready fam (snd s) \<and> (\<forall>chain. is_fw_chain chain \<longrightarrow>
     (\<forall>uid. tracks (chain \<notin> cleared) (count_list (chain_rules fam (Fw_FetchChainName chain) (snd s)) (uid_spec chain uid))
           (count_list (chain_uids (firewallChainStatus (fst s) chain)) uid))
   \<and> tracks (chain \<notin> cleared) (count_list (chain_rules fam (Fw_FetchChainName CHAIN_OHFW_OUTPUT) (snd s)) (jump_spec chain))
       (of_bool (chain_enable (firewallChainStatus (fst s) chain)))))"

text \<open>
  Every public operation, and tasks for chains of other managers. The first component holds the chains
  cleared by \<open>ClearAllRules\<close> and not disabled since.
\<close>

fun fw_owned :: "IptTask \<Rightarrow> bool" where
  "fw_owned (ExecuteCommand c) = (take 5 (drop 34 c) = ''ohfw_'' \<or> take 5 (drop 35 c) = ''ohfw_'')"
| "fw_owned _ = False"

inductive fw_step :: "ChainType set \<times> fw_state \<Rightarrow> ChainType set \<times> fw_state \<Rightarrow> bool" where
  step_allowed: "fw_step (cleared, s) (cleared, snd (SetUidsAllowedListChain chain uids s))"
| step_denied: "fw_step (cleared, s) (cleared, snd (SetUidsDeniedListChain chain uids s))"
| step_enable: "fw_step (cleared, s) (cleared, snd (EnableChain chain True s))"
| step_disable: "fw_step (cleared, s) (cleared - {chain}, snd (EnableChain chain False s))"
| step_rule: "fw_step (cleared, s) (cleared, snd (SetUidRule chain uid rule s))"
| step_clear: "fw_step (cleared, s) (UNIV, snd (ClearAllRules s))"
| step_fw_other: "\<forall>t \<in> set ts. \<not> fw_owned t \<Longrightarrow> fw_step (cleared, f, w) (cleared, f, submit ts w)"

inductive fw_reachable :: "string option \<Rightarrow> (string \<Rightarrow> bool) \<Rightarrow> ChainType set \<times> fw_state \<Rightarrow> bool" for uid_map file_exists where
  fw_start: "fw_reachable uid_map file_exists ({}, FirewallManager_ctor uid_map, IptablesWrapper_ctor file_exists)"
| fw_next: "fw_reachable uid_map file_exists s \<Longrightarrow> fw_step s s' \<Longrightarrow> fw_reachable uid_map file_exists s'"

section \<open>Lemmas\<close>

lemma chain_name_word [simp]: "no_space (Fw_FetchChainName chain)"
  by (cases chain) (simp_all add: Fw_FetchChainName_def no_space_def)

lemma is_fw_chain_cases:
  "is_fw_chain chain \<longleftrightarrow> chain \<in> {CHAIN_OHFW_DOZABLE, CHAIN_OHFW_POWERSAVING, CHAIN_OHFW_UNDOZABLE, CHAIN_OHFW_ALLOWED_LIST_BOX}"
  by (auto simp: is_fw_chain_def IsFirewallChian_def)

lemma chain_name_inj [simp]:
  "is_fw_chain c \<Longrightarrow> is_fw_chain d \<Longrightarrow> Fw_FetchChainName c = Fw_FetchChainName d \<longleftrightarrow> c = d"
  "is_fw_chain c \<Longrightarrow> Fw_FetchChainName CHAIN_OHFW_OUTPUT \<noteq> Fw_FetchChainName c"
  "is_fw_chain c \<Longrightarrow> Fw_FetchChainName c \<noteq> Fw_FetchChainName CHAIN_OHFW_OUTPUT"
  by (auto simp: is_fw_chain_cases Fw_FetchChainName_def)

lemma uid_spec_inj: "inj (uid_spec chain)"
  by (rule injI) (simp add: uid_spec_def)

lemma uid_spec_eq [simp]: "uid_spec chain u = uid_spec chain v \<longleftrightarrow> u = v"
  using uid_spec_inj by (simp add: inj_eq)

lemma both_simps [simp]:
  "both [] = []" "both (c # cs) = (IPTYPE_IPV4V6, c) # both cs" "both (as @ bs) = both as @ both bs"
  by (simp_all add: both_def)

lemma seen_by_both [simp]: "seen_by fam (both cs) = cs"
  by (simp add: both_def seen_by_def comp_def)

lemma pair_tasks_submit [simp]: "pair_tasks (submit ts w) cs = pair_tasks w cs"
  by (simp add: pair_tasks_def)

lemma pair_tasks_append [simp]: "pair_tasks w (as @ bs) = pair_tasks w as @ pair_tasks w bs"
  by (simp add: pair_tasks_def)

lemma fw_run_alive: "queue_alive w \<Longrightarrow> fw_run cs w = (False, submit (pair_tasks w cs) w)"
  using ipt.run_all [of w cs] by (simp add: fw_run_def pair_tasks_def case_prod_unfold)

lemma chain_rules_pairs:
  "fw_ready fam w \<Longrightarrow> chain_rules fam ch (submit (pair_tasks w cs) w) =
     apply_commands ch (seen_by fam cs) (chain_rules fam ch w)"
  by (simp add: fw_ready_def is_family_def chain_rules_submit pair_tasks_def family_commands_pairs)

lemma fw_ready_submit [simp]: "fw_ready fam (submit ts w) = fw_ready fam w"
  by (simp add: fw_ready_def)

lemma fw_ready_alive: "fw_ready fam w \<Longrightarrow> queue_alive w"
  by (simp add: fw_ready_def)

lemma pair_tasks_simps [simp]:
  "pair_tasks w [] = []" "pair_tasks w (c # cs) = tasks_of w (fst c) (snd c) @ pair_tasks w cs"
  by (simp_all add: pair_tasks_def)

lemma not_fw_chain: "\<not> is_fw_chain chain \<longleftrightarrow> IsFirewallChian chain = NETMANAGER_ERROR"
  by (simp add: is_fw_chain_def IsFirewallChian_def)

lemma Fw_CheckChainInitialization_eq:
  assumes "queue_alive w"
  shows "Fw_CheckChainInitialization (f, w) =
    (f\<lparr> fw_chainInitFlag := True \<rparr>, submit (pair_tasks w (fw_init_pairs f)) w)"
proof -
  have new: "map Fw_IptablesNewChain fw_chains =
      map (\<lambda>c. RunCommand IPTYPE_IPV4V6 (''-t filter -N '' @ Fw_FetchChainName c)) fw_chains"
    by (simp add: Fw_IptablesNewChain_def)
  have "run_chain (map Fw_IptablesNewChain fw_chains) w
      = fw_run (both (map (\<lambda>chain. ''-t filter -N '' @ Fw_FetchChainName chain) fw_chains)) w"
    by (simp add: new fw_run_def both_def comp_def)
  with assms show ?thesis
    by (simp add: Fw_CheckChainInitialization_def Fw_InitChain_def Fw_InitDefaultRules_def fw_run_alive
        fw_init_pairs_def Fw_FetchChainName_def [of CHAIN_OHFW_INPUT] Fw_FetchChainName_def [of CHAIN_OHFW_OUTPUT]
        pair_tasks_def)
qed

subsection \<open>What each operation does when the queue is there\<close>

lemma to_string_9999: "to_string 9999 = ''9999''"
  by (simp add: to_string.simps)

lemma SetUidsAllowedListChain_eq:
  assumes "queue_alive w" "chain \<in> {CHAIN_OHFW_DOZABLE, CHAIN_OHFW_POWERSAVING}"
  shows "SetUidsAllowedListChain chain uids (f, w) =
    (NETMANAGER_SUCCESS, set_status chain (\<lambda>st. st\<lparr> chain_uids := uids \<rparr>) (f\<lparr> fw_chainInitFlag := True \<rparr>),
     fw_emit f (allow_pairs chain (strMaxUid f) uids) w)"
proof -
  have "target_of chain = ''RETURN''" using assms by (auto simp: target_of_def)
  with assms show ?thesis
    by (auto simp: SetUidsAllowedListChain_def Fw_CheckChainInitialization_eq SetFireWallCommand_def fw_run_alive
        fw_emit_def allow_pairs_def add_specs_def icmp_pairs_def uid_spec_def Let_def to_string_9999
        Fw_FetchChainName_def [of CHAIN_OHFW_ALLOWED_LIST_BOX] comp_def)
qed

lemma SetUidsDeniedListChain_eq:
  assumes "queue_alive w"
  shows "SetUidsDeniedListChain CHAIN_OHFW_UNDOZABLE uids (f, w) =
    (NETMANAGER_SUCCESS,
     set_status CHAIN_OHFW_UNDOZABLE (\<lambda>st. st\<lparr> chain_uids := uids \<rparr>) (f\<lparr> fw_chainInitFlag := True \<rparr>),
     fw_emit f (deny_pairs uids) w)"
  using assms
  by (simp add: SetUidsDeniedListChain_def Fw_CheckChainInitialization_eq SetFireWallCommand_def fw_run_alive
      fw_emit_def deny_pairs_def add_specs_def icmp_pairs_def uid_spec_def Let_def target_of_def comp_def)

lemma EnableChain_eq:
  assumes "queue_alive w" "is_fw_chain chain"
  shows "EnableChain chain enable (f, w) =
    (if enable \<and> chain_enable (firewallChainStatus f chain)
     then (NETMANAGER_ERROR, f\<lparr> fw_chainInitFlag := True \<rparr>, fw_emit f [] w)
     else (NETMANAGER_SUCCESS,
       set_status chain (\<lambda>st. if enable then st\<lparr> chain_enable := True \<rparr> else st\<lparr> chain_uids := [], chain_enable := False \<rparr>)
         (f\<lparr> fw_chainInitFlag := True, firewallType := FetchChainType chain \<rparr>),
       fw_emit f (both (if enable then add_specs CHAIN_OHFW_OUTPUT [jump_spec chain]
            else [''-t filter -D '' @ Fw_FetchChainName CHAIN_OHFW_OUTPUT @ '' '' @ jump_spec chain,
                  ''-t filter -F '' @ Fw_FetchChainName chain])) w))"
  using assms
  by (simp add: EnableChain_def is_fw_chain_def Fw_CheckChainInitialization_eq fw_run_alive fw_emit_def
      add_specs_def jump_spec_def set_status_def Let_def)

lemma EnableChain_other: "\<not> is_fw_chain chain \<Longrightarrow> EnableChain chain enable s = (NETMANAGER_ERROR, s)"
  by (simp add: EnableChain_def not_fw_chain)

lemma SetUidRule_eq:
  assumes "queue_alive w" "is_fw_chain chain" "chain_enable (firewallChainStatus f chain)"
  shows "SetUidRule chain uid rule (f, w) =
    (let uids = chain_uids (firewallChainStatus f chain); name = Fw_FetchChainName chain in
     if adds_uid chain rule = (uid \<in> set uids)
     then (NETMANAGER_ERROR, f\<lparr> fw_chainInitFlag := True \<rparr>, fw_emit f [] w)
     else (NETMANAGER_SUCCESS,
       set_status chain (\<lambda>st. st\<lparr> chain_uids := (if adds_uid chain rule then uids @ [uid] else remove1 uid uids) \<rparr>)
         (f\<lparr> fw_chainInitFlag := True \<rparr>),
       fw_emit f (both
         [if \<not> adds_uid chain rule then ''-t filter -D '' @ name @ '' '' @ uid_spec chain uid
          else if chain = CHAIN_OHFW_UNDOZABLE then ''-t filter -A '' @ name @ '' '' @ uid_spec chain uid
          else ''-t filter -I '' @ name @ '' '' @ uid_spec chain uid]) w))"
proof -
  have "chain = CHAIN_OHFW_DOZABLE \<or> chain = CHAIN_OHFW_POWERSAVING \<or> chain = CHAIN_OHFW_UNDOZABLE
      \<or> chain = CHAIN_OHFW_ALLOWED_LIST_BOX"
    using assms(2) by (auto simp: is_fw_chain_cases)
  with assms show ?thesis
    by (elim disjE) (auto simp: SetUidRule_def is_fw_chain_def Fw_CheckChainInitialization_eq RunCommand_alive
        IptablesSetRule_def fw_emit_def adds_uid_def uid_spec_def target_of_def Let_def FetchChainType_def pair_tasks_def
        simp del: unat_u32_inj)
qed

lemma SetUidRule_refused:
  "\<not> is_fw_chain chain \<or> \<not> chain_enable (firewallChainStatus (fst s) chain) \<Longrightarrow>
     SetUidRule chain uid rule s = (NETMANAGER_ERROR, s)"
  unfolding not_fw_chain SetUidRule_def by (elim disjE) simp_all

subsection \<open>Content after an operation\<close>


lemma apply_add_specs [simp]:
  "no_space ch \<Longrightarrow> apply_commands ch (add_specs chain specs) rules
     = (if Fw_FetchChainName chain = ch then rules @ specs else rules)"
  using apply_map_add [of ch "Fw_FetchChainName chain" "\<lambda>x. x" specs rules] by (simp add: add_specs_def)

lemma fw_init_neutral:
  "apply_commands (Fw_FetchChainName d) (seen_by fam (fw_init_pairs f)) rules = rules"
proof -
  have "apply_command (Fw_FetchChainName d) rules ''-t filter -A INPUT -j ohfw_INPUT'' = rules"
    "apply_command (Fw_FetchChainName d) rules ''-t filter -A OUTPUT -j ohfw_OUTPUT'' = rules" for rules
    by (cases d; simp add: apply_command_def Fw_FetchChainName_def)+
  then show ?thesis by (simp add: fw_init_pairs_def fw_chains_def)
qed

lemma chain_rules_emit:
  assumes "fw_ready fam w"
  shows "chain_rules fam (Fw_FetchChainName d) (fw_emit f cs w) =
    apply_commands (Fw_FetchChainName d) (seen_by fam cs) (chain_rules fam (Fw_FetchChainName d) w)"
proof -
  have "fw_emit f cs w = submit (pair_tasks w (fw_init_pairs f @ cs)) w" by (simp add: fw_emit_def)
  with assms show ?thesis
    by (simp only: chain_rules_pairs seen_by_simps apply_commands_append fw_init_neutral)
qed

lemma allow_pairs_content:
  assumes "is_fw_chain chain" "is_family fam"
  shows "apply_commands (Fw_FetchChainName d) (seen_by fam (allow_pairs chain maxUid uids)) rules =
    (if Fw_FetchChainName chain = Fw_FetchChainName d then allow_chain_specs fam chain maxUid uids else rules)"
  using assms by (cases fam) (simp_all add: allow_pairs_def icmp_pairs_def allow_chain_specs_def pass_specs_def is_family_def)

lemma deny_pairs_content:
  assumes "is_family fam"
  shows "apply_commands (Fw_FetchChainName d) (seen_by fam (deny_pairs uids)) rules =
    (if Fw_FetchChainName CHAIN_OHFW_UNDOZABLE = Fw_FetchChainName d then deny_chain_specs fam uids else rules)"
  using assms by (cases fam) (simp_all add: deny_pairs_def icmp_pairs_def deny_chain_specs_def pass_specs_def is_family_def)

lemma count_uid_specs [simp]: "count_list (map (uid_spec chain) uids) (uid_spec chain u) = count_list uids u"
  by (rule count_list_map_inj [OF uid_spec_inj])

lemma count_allow_chain:
  "chain \<in> {CHAIN_OHFW_DOZABLE, CHAIN_OHFW_POWERSAVING} \<Longrightarrow>
     count_list (allow_chain_specs fam chain maxUid uids) (uid_spec chain u) = count_list uids u"
  by (auto simp: allow_chain_specs_def pass_specs_def) (simp_all add: uid_spec_def)

lemma count_deny_chain:
  "count_list (deny_chain_specs fam uids) (uid_spec CHAIN_OHFW_UNDOZABLE u) = count_list uids u"
  by (auto simp: deny_chain_specs_def pass_specs_def) (simp_all add: uid_spec_def)

subsection \<open>Preservation\<close>

lemma tracks_simps [simp]:
  "tracks b n n" "tracks b 0 m \<longleftrightarrow> b \<longrightarrow> m = 0" "tracks True n m \<longleftrightarrow> n = m" "tracks b n 0 \<longleftrightarrow> n = 0"
  by (auto simp: tracks_def)

lemma tracks_count: "tracks b n m \<Longrightarrow> tracks b (n + k) (m + k)" "tracks b n m \<Longrightarrow> tracks b (n - k) (m - k)" "tracks b n m \<Longrightarrow> tracks b (Suc n) (Suc m)"
  by (auto simp: tracks_def)

lemma fw_inv_emit:
  assumes inv: "fw_inv fam cleared (f, w)"
    and uids: "\<And>d u. is_fw_chain d \<Longrightarrow> tracks (d \<notin> cleared')
      (count_list (apply_commands (Fw_FetchChainName d) (seen_by fam cs) (chain_rules fam (Fw_FetchChainName d) w)) (uid_spec d u))
      (count_list (chain_uids (firewallChainStatus f' d)) u)"
    and jump: "\<And>d. is_fw_chain d \<Longrightarrow> tracks (d \<notin> cleared')
      (count_list (apply_commands (Fw_FetchChainName CHAIN_OHFW_OUTPUT) (seen_by fam cs)
        (chain_rules fam (Fw_FetchChainName CHAIN_OHFW_OUTPUT) w)) (jump_spec d))
      (of_bool (chain_enable (firewallChainStatus f' d)))"
  shows "fw_inv fam cleared' (f', fw_emit f cs w)"
proof -
  have rdy: "fw_ready fam w" using inv by (simp add: fw_inv_def)
  then have "fw_ready fam (fw_emit f cs w)" by (simp add: fw_emit_def)
  with uids jump show ?thesis by (simp add: fw_inv_def chain_rules_emit [OF rdy])
qed

lemma fw_invD:
  assumes "fw_inv fam cleared (f, w)"
  shows "fw_ready fam w" "queue_alive w" "is_family fam"
    "is_fw_chain d \<Longrightarrow> tracks (d \<notin> cleared) (count_list (chain_rules fam (Fw_FetchChainName d) w) (uid_spec d u))
       (count_list (chain_uids (firewallChainStatus f d)) u)"
    "is_fw_chain d \<Longrightarrow> tracks (d \<notin> cleared) (count_list (chain_rules fam (Fw_FetchChainName CHAIN_OHFW_OUTPUT) w) (jump_spec d))
       (of_bool (chain_enable (firewallChainStatus f d)))"
  using assms by (simp_all add: fw_inv_def fw_ready_def del: tracks_simps)

lemma fw_inv_disabled:
  assumes "fw_inv fam cleared (f, w)" "is_fw_chain d" "\<not> chain_enable (firewallChainStatus f d)"
  shows "count_list (chain_rules fam (Fw_FetchChainName CHAIN_OHFW_OUTPUT) w) (jump_spec d) = 0"
  using fw_invD(5) [OF assms(1, 2)] assms(3) by (simp add: tracks_def)

lemma fw_inv_jump:
  assumes "fw_inv fam cleared (f, w)" "is_fw_chain d"
  shows "count_list (chain_rules fam (Fw_FetchChainName CHAIN_OHFW_OUTPUT) w) (jump_spec d) \<le> 1"
  using fw_invD(5) [OF assms] by (auto simp: tracks_def of_bool_def split: if_splits)

lemma set_status_simps [simp]:
  "firewallChainStatus (set_status chain g f) d =
     (if d = chain then g (firewallChainStatus f chain) else firewallChainStatus f d)"
  by (simp add: set_status_def)

lemma fw_inv_SetUidsAllowedListChain:
  assumes inv: "fw_inv fam cleared (f, w)"
  shows "fw_inv fam cleared (snd (SetUidsAllowedListChain chain uids (f, w)))"
proof (cases "chain \<in> {CHAIN_OHFW_DOZABLE, CHAIN_OHFW_POWERSAVING}")
  case True
  note facts = fw_invD [OF inv]
  have "is_fw_chain chain" using True by (auto simp: is_fw_chain_cases)
  with True facts show ?thesis
    by (simp only: SetUidsAllowedListChain_eq [OF facts(2) True] snd_conv)
      (rule fw_inv_emit [OF inv], auto simp: allow_pairs_content count_allow_chain)
next
  case False
  with inv show ?thesis by (simp add: SetUidsAllowedListChain_def)
qed

lemma fw_inv_SetUidsDeniedListChain:
  assumes inv: "fw_inv fam cleared (f, w)"
  shows "fw_inv fam cleared (snd (SetUidsDeniedListChain chain uids (f, w)))"
proof (cases "chain = CHAIN_OHFW_UNDOZABLE")
  case True
  note facts = fw_invD [OF inv]
  have "is_fw_chain chain" using True by (auto simp: is_fw_chain_cases)
  with True facts show ?thesis
    by (simp only: SetUidsDeniedListChain_eq [OF facts(2)] snd_conv)
      (rule fw_inv_emit [OF inv], auto simp: deny_pairs_content count_deny_chain)
next
  case False
  with inv show ?thesis by (simp add: SetUidsDeniedListChain_def)
qed

lemma jump_spec_eq [simp]: "is_fw_chain c \<Longrightarrow> is_fw_chain d \<Longrightarrow> jump_spec c = jump_spec d \<longleftrightarrow> c = d"
  by (simp add: jump_spec_def)

lemma fw_inv_refused: "fw_inv fam cleared (f, w) \<Longrightarrow> fw_inv fam cleared (f\<lparr> fw_chainInitFlag := True \<rparr>, fw_emit f [] w)"
  by (rule fw_inv_emit) (auto simp: fw_invD)

lemma fw_inv_less:
  assumes "fw_inv fam cleared s" "\<not> is_fw_chain chain"
  shows "fw_inv fam (cleared - {chain}) s"
proof -
  have "(d \<in> cleared \<longrightarrow> d = chain) \<longleftrightarrow> d \<notin> cleared" if "is_fw_chain d" for d using that assms(2) by auto
  then show ?thesis using assms(1) by (simp add: fw_inv_def cong: imp_cong)
qed

lemma fw_inv_enable:
  assumes inv: "fw_inv fam cleared (f, w)"
  shows "fw_inv fam cleared (snd (EnableChain chain True (f, w)))"
proof (cases "is_fw_chain chain")
  case True
  note facts = fw_invD [OF inv]
  show ?thesis
  proof (cases "chain_enable (firewallChainStatus f chain)")
    case refused: True
    then show ?thesis using fw_inv_refused [OF inv] True facts by (simp add: EnableChain_eq)
  next
    case False
    then show ?thesis
      unfolding EnableChain_eq [OF facts(2) True]
      using True facts(1) facts(4, 5) fw_inv_disabled [OF inv True False]
      by (simp only: simp_thms if_False if_True snd_conv) (rule fw_inv_emit [OF inv], auto)
  qed
next
  case False
  with inv show ?thesis by (simp add: EnableChain_other)
qed

lemma fw_inv_disable:
  assumes inv: "fw_inv fam cleared (f, w)"
  shows "fw_inv fam (cleared - {chain}) (snd (EnableChain chain False (f, w)))"
proof (cases "is_fw_chain chain")
  case True
  note facts = fw_invD [OF inv]
  show ?thesis
    unfolding EnableChain_eq [OF facts(2) True]
    using True facts(1) facts(4, 5) fw_inv_jump [OF inv True]
    by (simp only: simp_thms if_False snd_conv) (rule fw_inv_emit [OF inv], auto simp: count_list_remove1)
next
  case False
  with inv show ?thesis by (simp add: EnableChain_other fw_inv_less)
qed

lemma fw_inv_SetUidRule:
  assumes inv: "fw_inv fam cleared (f, w)"
  shows "fw_inv fam cleared (snd (SetUidRule chain uid rule (f, w)))"
proof (cases "is_fw_chain chain \<and> chain_enable (firewallChainStatus f chain)")
  case True
  note facts = fw_invD [OF inv]
  let ?uids = "chain_uids (firewallChainStatus f chain)"
  show ?thesis
  proof (cases "adds_uid chain rule = (uid \<in> set ?uids)")
    case refused: True
    then show ?thesis using fw_inv_refused [OF inv] True facts by (simp add: SetUidRule_eq)
  next
    case False
    have ch: "is_fw_chain chain" "chain_enable (firewallChainStatus f chain)" using True by simp_all
    show ?thesis unfolding SetUidRule_eq [OF facts(2) ch] Let_def if_not_P [OF False] snd_conv
    proof (rule fw_inv_emit [OF inv], goal_cases)
      case (1 d u)
      then show ?case using ch facts(4) [of d u]
        by (cases "adds_uid chain rule"; cases "chain = CHAIN_OHFW_UNDOZABLE"; cases "d = chain"; cases "u = uid")
          (simp_all add: count_list_remove1 tracks_count)
    next
      case (2 d)
      then show ?case using ch facts(5) [of d]
        by (cases "adds_uid chain rule"; cases "chain = CHAIN_OHFW_UNDOZABLE"; cases "d = chain") simp_all
    qed
  qed
next
  case False
  with inv show ?thesis by (subst SetUidRule_refused) auto
qed

lemma clear_eq:
  assumes "fw_ready fam w"
  shows "\<exists>w1. ClearAllRules (f, w) = (NETMANAGER_SUCCESS, f, w1) \<and> fw_ready fam w1
    \<and> (\<forall>d. is_fw_chain d \<or> d = CHAIN_OHFW_OUTPUT \<longrightarrow> chain_rules fam (Fw_FetchChainName d) w1 = [])"
proof -
  let ?cs = "both (map (\<lambda>c. ''-t filter -F '' @ Fw_FetchChainName c)
    [CHAIN_OHFW_DOZABLE, CHAIN_OHFW_POWERSAVING, CHAIN_OHFW_UNDOZABLE, CHAIN_OHFW_INPUT, CHAIN_OHFW_OUTPUT,
     CHAIN_OHFW_FORWARD, CHAIN_OHFW_ALLOWED_LIST_BOX])"
  let ?w1 = "submit (pair_tasks w ?cs) w"
  have "ClearAllRules (f, w) = (NETMANAGER_SUCCESS, f, ?w1)"
    using assms by (simp add: ClearAllRules_def fw_run_alive fw_ready_alive)
  moreover have "fw_ready fam ?w1" using assms by simp
  moreover have "chain_rules fam (Fw_FetchChainName d) ?w1 = []" if "is_fw_chain d \<or> d = CHAIN_OHFW_OUTPUT" for d
    using that chain_rules_pairs [OF assms, of "Fw_FetchChainName d" ?cs]
    by (auto simp: is_fw_chain_cases Fw_FetchChainName_def)
  ultimately show ?thesis by blast
qed

lemma fw_inv_clear:
  assumes inv: "fw_inv fam cleared (f, w)"
  shows "fw_inv fam UNIV (snd (ClearAllRules (f, w)))"
proof -
  obtain w1 where "ClearAllRules (f, w) = (NETMANAGER_SUCCESS, f, w1)" "fw_ready fam w1"
    "\<forall>d. is_fw_chain d \<or> d = CHAIN_OHFW_OUTPUT \<longrightarrow> chain_rules fam (Fw_FetchChainName d) w1 = []"
    using clear_eq [OF fw_invD(1) [OF inv]] by blast
  then show ?thesis by (simp add: fw_inv_def)
qed

lemma foreign_command:
  assumes "\<not> fw_owned t" "is_family fam" "is_fw_chain d \<or> d = CHAIN_OHFW_OUTPUT" "cmd \<in> set (task_command fam t)"
  shows "apply_command (Fw_FetchChainName d) rules cmd = rules"
proof -
  obtain n where n: "Fw_FetchChainName d = ''ohfw_'' @ n"
    using assms(3) by (auto simp: is_fw_chain_cases Fw_FetchChainName_def)
  have t: "t = ExecuteCommand (family_path fam @ cmd)"
    using assms(4) by (cases t) (auto simp: strip_prefix_Some [symmetric] split: option.splits)
  have no: "cmd \<noteq> op @ Fw_FetchChainName d @ s" if "length op = 13" for op s
    using assms(1,2) that by (cases fam) (auto simp: t n family_path_def is_family_def)
  have "strip_prefix (op @ Fw_FetchChainName d @ x) cmd = None" if "length op = 13" for op x
    using no [OF that] by (cases "strip_prefix (op @ Fw_FetchChainName d @ x) cmd") (auto simp: strip_prefix_Some)
  from no [of "''-t filter -F ''" "[]"] this [of "''-t filter -A ''" "'' ''"]
    this [of "''-t filter -I ''" "'' ''"] this [of "''-t filter -D ''" "'' ''"]
  show ?thesis by (simp add: apply_command_def)
qed

lemma foreign_commands:
  assumes "\<forall>t \<in> set ts. \<not> fw_owned t" "is_family fam" "is_fw_chain d \<or> d = CHAIN_OHFW_OUTPUT"
  shows "apply_commands (Fw_FetchChainName d) (family_commands fam ts) rules = rules"
proof -
  have "apply_commands (Fw_FetchChainName d) cs rules = rules"
    if "\<forall>c \<in> set cs. \<exists>t. \<not> fw_owned t \<and> c \<in> set (task_command fam t)" for cs
    using that foreign_command [OF _ assms(2,3)] by (induction cs) auto
  from this [of "family_commands fam ts"] assms(1) show ?thesis by (auto simp: family_commands_def)
qed

lemma fw_inv_foreign:
  "fw_inv fam cleared (f, w) \<Longrightarrow> \<forall>t \<in> set ts. \<not> fw_owned t \<Longrightarrow> fw_inv fam cleared (f, submit ts w)"
  by (simp add: fw_inv_def chain_rules_submit fw_ready_def foreign_commands)

lemma fw_inv_step: "fw_step x y \<Longrightarrow> fw_inv fam (fst x) (snd x) \<Longrightarrow> fw_inv fam (fst y) (snd y)"
proof (induction rule: fw_step.induct)
  case (step_allowed cleared s chain uids)
  then show ?case using fw_inv_SetUidsAllowedListChain by (cases s) simp
next
  case (step_denied cleared s chain uids)
  then show ?case using fw_inv_SetUidsDeniedListChain by (cases s) simp
next
  case (step_enable cleared s chain)
  then show ?case using fw_inv_enable by (cases s) simp
next
  case (step_disable cleared s chain)
  then show ?case using fw_inv_disable by (cases s) simp
next
  case (step_rule cleared s chain uid rule)
  then show ?case using fw_inv_SetUidRule by (cases s) simp
next
  case (step_clear cleared s)
  then show ?case using fw_inv_clear by (cases s) simp
next
  case (step_fw_other ts cleared f w)
  then show ?case using fw_inv_foreign by simp
qed

lemma fw_inv_start:
  assumes "is_family fam" "family_access fam (IptablesWrapper_ctor file_exists)"
  shows "fw_inv fam {} (FirewallManager_ctor uid_map, IptablesWrapper_ctor file_exists)"
  using assms by (simp add: fw_inv_def fw_ready_def FirewallManager_ctor_def chain_rules_def)
    (simp add: IptablesWrapper_ctor_def queue_alive_def submitted_def)

lemma fw_inv_reachable:
  "fw_reachable uid_map file_exists x \<Longrightarrow> is_family fam \<Longrightarrow>
     family_access fam (IptablesWrapper_ctor file_exists) \<Longrightarrow> fw_inv fam (fst x) (snd x)"
  by (induction rule: fw_reachable.induct) (auto intro: fw_inv_start fw_inv_step)

subsection \<open>The uid list of an enabled chain\<close>

lemma add_del_rule [simp]: "adds_uid chain (add_rule chain)" "\<not> adds_uid chain (del_rule chain)"
  by (simp_all add: adds_uid_def add_rule_def del_rule_def)

lemma queue_alive_emit [simp]: "queue_alive (fw_emit f cs w) = queue_alive w"
  by (simp add: fw_emit_def)

interpretation chain_list: uid_list
  "\<lambda>s. set (chain_uids (firewallChainStatus (fst s) chain))"
  "\<lambda>u s. snd (SetUidRule chain u (add_rule chain) s)"
  "\<lambda>u s. snd (SetUidRule chain u (del_rule chain) s)"
  "uid_list_inv chain" for chain
  by unfold_locales (auto simp: uid_list_inv_def SetUidRule_eq Let_def split: if_splits)

section \<open>Properties\<close>

text \<open>
  C16. In every state the firewall manager reaches, and for each address family whose tool exists, the rules of the four chains never
  exceed what is recorded: a chain holds at most one rule per entry of the uid list recorded for it, and
  \<open>ohfw_OUTPUT\<close> jumps to it at most once, and not at all if it is recorded as disabled. For a chain that was not cleared
  by \<open>ClearAllRules\<close>, or was disabled since, there is exactly one rule per recorded entry, and exactly one jump if it is recorded as
  enabled.
\<close>

theorem firewall_chains_match_status:
  assumes "fw_reachable uid_map file_exists (cleared, f, w)"
    and "is_family fam" "family_access fam (IptablesWrapper_ctor file_exists)" "is_fw_chain chain"
    and "rules = count_list (chain_rules fam (Fw_FetchChainName chain) w) (uid_spec chain uid)"
      "jumps = count_list (chain_rules fam (Fw_FetchChainName CHAIN_OHFW_OUTPUT) w) (''-j '' @ Fw_FetchChainName chain)"
  shows "rules \<le> count_list (chain_uids (firewallChainStatus f chain)) uid
    \<and> jumps \<le> (if chain_enable (firewallChainStatus f chain) then 1 else 0)
    \<and> (chain \<notin> cleared \<longrightarrow> rules = count_list (chain_uids (firewallChainStatus f chain)) uid
         \<and> jumps = (if chain_enable (firewallChainStatus f chain) then 1 else 0))"
proof -
  have "fw_inv fam cleared (f, w)" using fw_inv_reachable [OF assms(1-3)] by simp
  from fw_invD(4, 5) [OF this assms(4)] show ?thesis using assms(5, 6) by (simp add: tracks_def jump_spec_def of_bool_def)
qed

theorem firewall_chains_match_status_witness:
  "\<exists>cleared f w. fw_reachable None (\<lambda>_. True) (cleared, f, w) \<and> CHAIN_OHFW_POWERSAVING \<in> cleared
    \<and> count_list (chain_rules IPTYPE_IPV6 ''ohfw_OUTPUT'' w) ''-j ohfw_dozable'' = 1
    \<and> count_list (chain_rules IPTYPE_IPV6 ''ohfw_dozable'' w) ''-m owner --uid-owner 20001 -j RETURN'' = 1"
proof -
  let ?c = CHAIN_OHFW_DOZABLE
  define s0 where "s0 = (FirewallManager_ctor None, IptablesWrapper_ctor (\<lambda>_. True))"
  define s1 where "s1 = snd (EnableChain ?c True s0)"
  define s2 where "s2 = snd (ClearAllRules s1)"
  define s3 where "s3 = snd (EnableChain ?c False s2)"
  define s4 where "s4 = snd (EnableChain ?c True s3)"
  define s5 where "s5 = snd (SetUidRule ?c 20001 RULE_ALLOW s4)"
  have fam: "is_family IPTYPE_IPV6" "family_access IPTYPE_IPV6 (IptablesWrapper_ctor (\<lambda>_. True))" "is_fw_chain ?c"
    by (simp_all add: is_family_def family_access_def IptablesWrapper_ctor_def is_fw_chain_cases)
  have r0: "fw_reachable None (\<lambda>_. True) ({}, s0)" unfolding s0_def by (rule fw_start)
  then have r1: "fw_reachable None (\<lambda>_. True) ({}, s1)" unfolding s1_def by (rule fw_next) (rule step_enable)
  then have r2: "fw_reachable None (\<lambda>_. True) (UNIV, s2)" unfolding s2_def by (rule fw_next) (rule step_clear)
  then have r3: "fw_reachable None (\<lambda>_. True) (UNIV - {?c}, s3)" unfolding s3_def by (rule fw_next) (rule step_disable)
  then have r4: "fw_reachable None (\<lambda>_. True) (UNIV - {?c}, s4)" unfolding s4_def by (rule fw_next) (rule step_enable)
  then have r: "fw_reachable None (\<lambda>_. True) (UNIV - {?c}, fst s5, snd s5)" unfolding s5_def prod.collapse by (rule fw_next) (rule step_rule)
  have alive: "queue_alive (snd s)" if "fw_reachable None (\<lambda>_. True) (cleared, s)" for cleared s
    using fw_inv_reachable [OF that fam(1, 2)] fw_invD(2) [of IPTYPE_IPV6 cleared "fst s" "snd s"] by simp
  have "chain_uids (firewallChainStatus (fst s3) ?c) = []" "\<not> chain_enable (firewallChainStatus (fst s3) ?c)"
    unfolding s3_def using EnableChain_eq [OF alive [OF r2] fam(3), of False "fst s2"] by simp_all
  then have "chain_uids (firewallChainStatus (fst s4) ?c) = []" "chain_enable (firewallChainStatus (fst s4) ?c)"
    unfolding s4_def using EnableChain_eq [OF alive [OF r3] fam(3), of True "fst s3"] by simp_all
  then have st: "chain_enable (firewallChainStatus (fst s5) ?c)" "chain_uids (firewallChainStatus (fst s5) ?c) = [20001]"
    unfolding s5_def using SetUidRule_eq [OF alive [OF r4] fam(3), of "fst s4" 20001 RULE_ALLOW] by (simp_all add: adds_uid_def Let_def)
  have n: "Fw_FetchChainName ?c = ''ohfw_dozable''" "Fw_FetchChainName CHAIN_OHFW_OUTPUT = ''ohfw_OUTPUT''" "uid_spec ?c 20001 = ''-m owner --uid-owner 20001 -j RETURN''"
    by (simp_all add: Fw_FetchChainName_def uid_spec_def target_of_def to_string.simps)
  from firewall_chains_match_status [OF r fam refl refl, of 20001] st n
  have "count_list (chain_rules IPTYPE_IPV6 ''ohfw_OUTPUT'' (snd s5)) ''-j ohfw_dozable'' = 1"
    "count_list (chain_rules IPTYPE_IPV6 ''ohfw_dozable'' (snd s5)) ''-m owner --uid-owner 20001 -j RETURN'' = 1"
    by simp_all
  then show ?thesis using r by blast
qed

text \<open>
  Setting the uid list of an allow chain leaves in it, in this order: the jump to the
  allowed list box, one \<open>RETURN\<close> rule per uid, the rules for system uids, for uids above the
  maximum, for loopback, for TCP resets and (IPv6) neighbour discovery, and the final
  \<open>DROP\<close>, whatever the chain held before. The list is recorded and no other chain of the
  manager changes. Other chains are refused.
\<close>

theorem SetUidsAllowedListChain_content:
  assumes "fw_ready fam w" "is_fw_chain d"
  shows "case SetUidsAllowedListChain chain uids (f, w) of (r, f', w') \<Rightarrow>
     if chain = CHAIN_OHFW_DOZABLE \<or> chain = CHAIN_OHFW_POWERSAVING then
       r = NETMANAGER_SUCCESS
     \<and> chain_rules fam (Fw_FetchChainName d) w'
         = (if d = chain then allow_chain_specs fam chain (strMaxUid f) uids else chain_rules fam (Fw_FetchChainName d) w)
     \<and> chain_uids (firewallChainStatus f' d) = (if d = chain then uids else chain_uids (firewallChainStatus f d))
     \<and> chain_enable (firewallChainStatus f' d) = chain_enable (firewallChainStatus f d)
     else r = NETMANAGER_ERROR \<and> f' = f \<and> w' = w"
proof (cases "chain \<in> {CHAIN_OHFW_DOZABLE, CHAIN_OHFW_POWERSAVING}")
  case True
  then have "is_fw_chain chain" by (auto simp: is_fw_chain_cases)
  with True assms show ?thesis
    unfolding SetUidsAllowedListChain_eq [OF fw_ready_alive [OF assms(1)] True]
    by (auto simp: chain_rules_emit allow_pairs_content fw_ready_def)
next
  case False
  then show ?thesis by (simp add: SetUidsAllowedListChain_def)
qed

theorem SetUidsAllowedListChain_content_witness:
  "chain_rules IPTYPE_IPV4 ''ohfw_powersaving''
     (snd (snd (SetUidsAllowedListChain CHAIN_OHFW_POWERSAVING [20001]
       (FirewallManager_ctor None, IptablesWrapper_ctor (\<lambda>_. True)))))
   = allow_chain_specs IPTYPE_IPV4 CHAIN_OHFW_POWERSAVING (ReadMaxUidConfig None) [20001]"
  using SetUidsAllowedListChain_content [where fam = IPTYPE_IPV4 and w = "IptablesWrapper_ctor (\<lambda>_. True)"
      and d = CHAIN_OHFW_POWERSAVING and chain = CHAIN_OHFW_POWERSAVING and uids = "[20001]" and f = "FirewallManager_ctor None"]
  by (simp add: fw_ready_def is_family_def family_access_def IptablesWrapper_ctor_def queue_alive_def
      is_fw_chain_cases FirewallManager_ctor_def Fw_FetchChainName_def [of CHAIN_OHFW_POWERSAVING] case_prod_unfold)

text \<open>
  Setting the uid list of the deny chain leaves in it the rules that let loopback, TCP
  resets and neighbour discovery through, then one \<open>DROP\<close> rule per uid; the list is
  recorded, and every chain but \<open>ohfw_undozable\<close> is refused.
\<close>

theorem SetUidsDeniedListChain_content:
  assumes "fw_ready fam w" "is_fw_chain d"
  shows "case SetUidsDeniedListChain chain uids (f, w) of (r, f', w') \<Rightarrow>
     if chain = CHAIN_OHFW_UNDOZABLE then
       r = NETMANAGER_SUCCESS
     \<and> chain_rules fam (Fw_FetchChainName d) w'
         = (if d = chain then deny_chain_specs fam uids else chain_rules fam (Fw_FetchChainName d) w)
     \<and> chain_uids (firewallChainStatus f' d) = (if d = chain then uids else chain_uids (firewallChainStatus f d))
     else r = NETMANAGER_ERROR \<and> f' = f \<and> w' = w"
proof (cases "chain = CHAIN_OHFW_UNDOZABLE")
  case True
  then have "is_fw_chain chain" by (auto simp: is_fw_chain_cases)
  with True assms show ?thesis
    by (auto simp: SetUidsDeniedListChain_eq [OF fw_ready_alive [OF assms(1)]] chain_rules_emit deny_pairs_content fw_ready_def)
next
  case False
  then show ?thesis by (simp add: SetUidsDeniedListChain_def)
qed

theorem SetUidsDeniedListChain_content_witness:
  "chain_rules IPTYPE_IPV4 ''ohfw_undozable''
     (snd (snd (SetUidsDeniedListChain CHAIN_OHFW_UNDOZABLE [20001]
       (FirewallManager_ctor None, IptablesWrapper_ctor (\<lambda>_. True)))))
   = deny_chain_specs IPTYPE_IPV4 [20001]"
  using SetUidsDeniedListChain_content [where fam = IPTYPE_IPV4 and w = "IptablesWrapper_ctor (\<lambda>_. True)"
      and d = CHAIN_OHFW_UNDOZABLE and chain = CHAIN_OHFW_UNDOZABLE and uids = "[20001]" and f = "FirewallManager_ctor None"]
  by (simp add: fw_ready_def is_family_def family_access_def IptablesWrapper_ctor_def queue_alive_def
      is_fw_chain_cases FirewallManager_ctor_def Fw_FetchChainName_def [of CHAIN_OHFW_UNDOZABLE] case_prod_unfold)

text \<open>
  On an enabled chain \<open>SetUidRule\<close> adds the uid exactly when the rule value is the adding
  one of the chain (\<open>RULE_DENY\<close> for the deny chain, \<open>RULE_ALLOW\<close> for the others) and the uid
  is not listed, removes it when the value is another one and the uid is listed, and
  fails otherwise. An added rule goes to the front of an allow chain and to the end of
  the deny chain; a removal deletes the first equal rule. On a chain that is not enabled
  it fails and changes nothing.
\<close>

theorem SetUidRule_behaviour:
  assumes "fw_ready fam w" "is_fw_chain chain"
  shows "case SetUidRule chain uid rule (f, w) of (r, f', w') \<Rightarrow>
     let uids = chain_uids (firewallChainStatus f chain);
         adding = (if chain = CHAIN_OHFW_UNDOZABLE then rule = RULE_DENY else rule = RULE_ALLOW);
         before = chain_rules fam (Fw_FetchChainName chain) w;
         after = chain_rules fam (Fw_FetchChainName chain) w' in
     if \<not> chain_enable (firewallChainStatus f chain) then r = NETMANAGER_ERROR \<and> f' = f \<and> w' = w
     else if adding = (uid \<in> set uids) then
       r = NETMANAGER_ERROR \<and> chain_uids (firewallChainStatus f' chain) = uids \<and> after = before
     else r = NETMANAGER_SUCCESS
       \<and> chain_uids (firewallChainStatus f' chain) = (if adding then uids @ [uid] else remove1 uid uids)
       \<and> after = (if \<not> adding then remove1 (uid_spec chain uid) before
                  else if chain = CHAIN_OHFW_UNDOZABLE then before @ [uid_spec chain uid]
                  else uid_spec chain uid # before)"
proof (cases "chain_enable (firewallChainStatus f chain)")
  case True
  show ?thesis
    unfolding SetUidRule_eq [OF fw_ready_alive [OF assms(1)] assms(2) True]
    using assms True
    by (cases "adds_uid chain rule"; cases "chain = CHAIN_OHFW_UNDOZABLE")
      (simp_all add: chain_rules_emit Let_def adds_uid_def [symmetric], simp_all add: adds_uid_def)
next
  case False
  then show ?thesis by (simp add: SetUidRule_refused)
qed

theorem SetUidRule_behaviour_witness:
  "fst (SetUidRule CHAIN_OHFW_DOZABLE 20001 RULE_ALLOW (FirewallManager_ctor None, IptablesWrapper_ctor (\<lambda>_. True)))
   = NETMANAGER_ERROR"
  using SetUidRule_behaviour [where fam = IPTYPE_IPV4 and w = "IptablesWrapper_ctor (\<lambda>_. True)"
      and chain = CHAIN_OHFW_DOZABLE and uid = 20001 and rule = RULE_ALLOW and f = "FirewallManager_ctor None"]
  by (simp add: fw_ready_def is_family_def family_access_def IptablesWrapper_ctor_def queue_alive_def
      is_fw_chain_cases FirewallManager_ctor_def case_prod_unfold)

text \<open>
  Enabling a chain is refused exactly when it is recorded as enabled; otherwise the jump
  is appended to \<open>ohfw_OUTPUT\<close>. Disabling always succeeds, removes one jump, empties the
  chain and forgets its uids. Chains outside the four are refused.
\<close>

theorem EnableChain_behaviour:
  assumes "fw_ready fam w"
  shows "case EnableChain chain enable (f, w) of (r, f', w') \<Rightarrow>
     let jumps = chain_rules fam (Fw_FetchChainName CHAIN_OHFW_OUTPUT);
         status = firewallChainStatus f chain; status' = firewallChainStatus f' chain in
     if \<not> is_fw_chain chain then r = NETMANAGER_ERROR \<and> f' = f \<and> w' = w
     else if enable \<and> chain_enable status then r = NETMANAGER_ERROR \<and> status' = status \<and> jumps w' = jumps w
     else r = NETMANAGER_SUCCESS \<and> chain_enable status' = enable
       \<and> jumps w' = (if enable then jumps w @ [''-j '' @ Fw_FetchChainName chain]
                     else remove1 (''-j '' @ Fw_FetchChainName chain) (jumps w))
       \<and> (\<not> enable \<longrightarrow> chain_uids status' = [] \<and> chain_rules fam (Fw_FetchChainName chain) w' = [])"
proof (cases "is_fw_chain chain")
  case True
  show ?thesis
    unfolding EnableChain_eq [OF fw_ready_alive [OF assms(1)] True]
    using assms True by (cases enable) (simp_all add: chain_rules_emit Let_def jump_spec_def)
next
  case False
  then show ?thesis by (simp add: EnableChain_other)
qed

theorem EnableChain_behaviour_witness:
  "fst (EnableChain CHAIN_OHFW_DOZABLE True (FirewallManager_ctor None, IptablesWrapper_ctor (\<lambda>_. True)))
   = NETMANAGER_SUCCESS"
  using EnableChain_behaviour [where fam = IPTYPE_IPV4 and w = "IptablesWrapper_ctor (\<lambda>_. True)"
      and chain = CHAIN_OHFW_DOZABLE and enable = True and f = "FirewallManager_ctor None"]
  by (simp add: fw_ready_def is_family_def family_access_def IptablesWrapper_ctor_def queue_alive_def
      is_fw_chain_cases FirewallManager_ctor_def case_prod_unfold Let_def)

text \<open>
  \<open>ClearAllRules\<close> empties every chain and the jumps of \<open>ohfw_OUTPUT\<close> but keeps the recorded
  status: a chain that was enabled has no jump any more, and enabling it again is refused
  without restoring the jump.
\<close>

theorem ClearAllRules_forgets_jump:
  assumes "fw_ready fam w" "is_fw_chain chain" "chain_enable (firewallChainStatus f chain)"
  shows "\<exists>w1 w2 f2. ClearAllRules (f, w) = (NETMANAGER_SUCCESS, f, w1)
     \<and> chain_rules fam (Fw_FetchChainName CHAIN_OHFW_OUTPUT) w1 = []
     \<and> chain_rules fam (Fw_FetchChainName chain) w1 = []
     \<and> EnableChain chain True (f, w1) = (NETMANAGER_ERROR, f2, w2)
     \<and> chain_rules fam (Fw_FetchChainName CHAIN_OHFW_OUTPUT) w2 = []"
proof -
  obtain w1 where clear: "ClearAllRules (f, w) = (NETMANAGER_SUCCESS, f, w1)" "fw_ready fam w1"
    "\<forall>d. is_fw_chain d \<or> d = CHAIN_OHFW_OUTPUT \<longrightarrow> chain_rules fam (Fw_FetchChainName d) w1 = []"
    using clear_eq [OF assms(1)] by blast
  have "EnableChain chain True (f, w1) = (NETMANAGER_ERROR, f\<lparr> fw_chainInitFlag := True \<rparr>, fw_emit f [] w1)"
    using assms clear(2) by (simp add: EnableChain_eq fw_ready_alive)
  moreover have "chain_rules fam (Fw_FetchChainName CHAIN_OHFW_OUTPUT) (fw_emit f [] w1) = []"
    using chain_rules_emit [OF clear(2), of CHAIN_OHFW_OUTPUT f "[]"] clear(3) by simp
  ultimately show ?thesis using clear assms(2) by blast
qed

theorem ClearAllRules_forgets_jump_witness:
  "\<exists>w1. ClearAllRules (set_status CHAIN_OHFW_DOZABLE (\<lambda>st. st\<lparr> chain_enable := True \<rparr>) (FirewallManager_ctor None),
            IptablesWrapper_ctor (\<lambda>_. True))
       = (NETMANAGER_SUCCESS, set_status CHAIN_OHFW_DOZABLE (\<lambda>st. st\<lparr> chain_enable := True \<rparr>) (FirewallManager_ctor None), w1)"
  using ClearAllRules_forgets_jump [where fam = IPTYPE_IPV4 and w = "IptablesWrapper_ctor (\<lambda>_. True)"
      and chain = CHAIN_OHFW_DOZABLE and f = "set_status CHAIN_OHFW_DOZABLE (\<lambda>st. st\<lparr> chain_enable := True \<rparr>) (FirewallManager_ctor None)"]
  by (auto simp: fw_ready_def is_family_def family_access_def IptablesWrapper_ctor_def queue_alive_def is_fw_chain_cases)

text \<open>
  The maximal uid is the last blank-separated field of \<open>/proc/self/uid_map\<close> with
  whatever follows it: a line end after the field stays part of the value, and so becomes
  part of the rule of every allow chain.
\<close>

theorem ReadMaxUidConfig_keeps_line_end:
  assumes "no_space field" "field \<noteq> []"
  shows "ReadMaxUidConfig (Some (front @ '' '' @ field @ [CHR 0x0A])) = field @ [CHR 0x0A]"
proof -
  have "takeWhile (\<lambda>c. c \<noteq> CHR '' '') (rev field @ CHR '' '' # rev front) = rev field"
    using assms(1) by (subst takeWhile_append2) (auto simp: no_space_def)
  then show ?thesis by (simp add: ReadMaxUidConfig_def)
qed

theorem ReadMaxUidConfig_keeps_line_end_witness:
  "ReadMaxUidConfig (Some (''0 0 4294967295'' @ [CHR 0x0A])) = ''4294967295'' @ [CHR 0x0A]"
  using ReadMaxUidConfig_keeps_line_end [of "''4294967295''" "''0 0''"] by (simp add: no_space_def)

end
