(* ===== verification/Native.thy ===== *)
theory Native
  imports Bandwidth Firewall_Native
begin

text \<open>
  The native daemon as the policy service reaches it: \<open>NetManagerNative\<close>
  (\<open>services/netmanagernative/src/netsys/net_manager_native.cpp\<close>) holds the bandwidth and the
  firewall manager, which share one iptables wrapper; \<open>NetsysPolicyWrapper\<close>
  (\<open>services/netpolicymanager/src/common/netsys_policy_wrapper.cpp\<close>) calls it through the
  remote proxy of \<open>NetsysNativeClient\<close>. When there is no proxy a call returns an error code
  and does nothing; when there is one it has the effect and the result of the daemon's
  function.
\<close>

section \<open>State\<close>

abbreviation NETMANAGER_ERR_GET_PROXY_FAIL :: int where "NETMANAGER_ERR_GET_PROXY_FAIL \<equiv> 2100208"

record netsys =
  ns_proxy :: bool
  ns_bw :: BandwidthManager
  ns_fw :: FirewallManager
  ns_ipt :: IptablesWrapper

section \<open>The daemon\<close>

definition on_bandwidth :: "(bw_state \<Rightarrow> int \<times> bw_state) \<Rightarrow> netsys \<Rightarrow> int \<times> netsys" where
  "on_bandwidth f n = (case f (ns_bw n, ns_ipt n) of (r, b, w) \<Rightarrow> (r, n\<lparr> ns_bw := b, ns_ipt := w \<rparr>))"

definition on_firewall :: "(fw_state \<Rightarrow> int \<times> fw_state) \<Rightarrow> netsys \<Rightarrow> int \<times> netsys" where
  "on_firewall f n = (case f (ns_fw n, ns_ipt n) of (r, b, w) \<Rightarrow> (r, n\<lparr> ns_fw := b, ns_ipt := w \<rparr>))"

fun FirewallSetUidRule_loop :: "ChainType \<Rightarrow> u32 list \<Rightarrow> FirewallRule \<Rightarrow> fw_state \<Rightarrow> fw_state" where
  "FirewallSetUidRule_loop chain [] rule s = s"
| "FirewallSetUidRule_loop chain (uid # uids) rule s =
     FirewallSetUidRule_loop chain uids rule (snd (SetUidRule chain uid rule s))"

definition Native_FirewallSetUidRule :: "u32 \<Rightarrow> u32 list \<Rightarrow> u32 \<Rightarrow> netsys \<Rightarrow> int \<times> netsys" where
  "Native_FirewallSetUidRule chain uids firewallRule =
     on_firewall (\<lambda>s. (NETMANAGER_SUCCESS, FirewallSetUidRule_loop (ChainType_cast chain) uids firewallRule s))"

section \<open>Calls of the policy service\<close>

definition via_proxy :: "(netsys \<Rightarrow> int \<times> netsys) \<Rightarrow> netsys \<Rightarrow> int \<times> netsys" where
  "via_proxy f n = (if \<not> ns_proxy n then (NETMANAGER_ERR_GET_PROXY_FAIL, n) else f n)"

definition BandwidthEnableDataSaver :: "bool \<Rightarrow> netsys \<Rightarrow> int \<times> netsys" where
  "BandwidthEnableDataSaver enable = via_proxy (on_bandwidth (EnableDataSaver enable))"

definition BandwidthSetIfaceQuota :: "string \<Rightarrow> int \<Rightarrow> netsys \<Rightarrow> int \<times> netsys" where
  "BandwidthSetIfaceQuota ifName bytes = via_proxy (on_bandwidth (SetIfaceQuota ifName bytes))"

definition BandwidthRemoveIfaceQuota :: "string \<Rightarrow> netsys \<Rightarrow> int \<times> netsys" where
  "BandwidthRemoveIfaceQuota ifName = via_proxy (on_bandwidth (RemoveIfaceQuota ifName))"

definition BandwidthAddDeniedList :: "u32 \<Rightarrow> netsys \<Rightarrow> int \<times> netsys" where
  "BandwidthAddDeniedList uid = via_proxy (on_bandwidth (AddDeniedList uid))"

definition BandwidthRemoveDeniedList :: "u32 \<Rightarrow> netsys \<Rightarrow> int \<times> netsys" where
  "BandwidthRemoveDeniedList uid = via_proxy (on_bandwidth (RemoveDeniedList uid))"

definition BandwidthAddAllowedList :: "u32 \<Rightarrow> netsys \<Rightarrow> int \<times> netsys" where
  "BandwidthAddAllowedList uid = via_proxy (on_bandwidth (AddAllowedList uid))"

definition BandwidthRemoveAllowedList :: "u32 \<Rightarrow> netsys \<Rightarrow> int \<times> netsys" where
  "BandwidthRemoveAllowedList uid = via_proxy (on_bandwidth (RemoveAllowedList uid))"

definition PowerSaveUpdataAllowedList :: "u32 \<Rightarrow> u32 \<Rightarrow> netsys \<Rightarrow> int \<times> netsys" where
  "PowerSaveUpdataAllowedList uid firewallRule = via_proxy (Native_FirewallSetUidRule 19 [uid] firewallRule)"

definition FirewallSetUidsAllowedListChain :: "u32 \<Rightarrow> u32 list \<Rightarrow> netsys \<Rightarrow> int \<times> netsys" where
  "FirewallSetUidsAllowedListChain chain uids =
     via_proxy (on_firewall (SetUidsAllowedListChain (ChainType_cast chain) uids))"

definition FirewallSetUidsDeniedListChain :: "u32 \<Rightarrow> u32 list \<Rightarrow> netsys \<Rightarrow> int \<times> netsys" where
  "FirewallSetUidsDeniedListChain chain uids =
     via_proxy (on_firewall (SetUidsDeniedListChain (ChainType_cast chain) uids))"

definition FirewallSetUidRule :: "u32 \<Rightarrow> u32 list \<Rightarrow> u32 \<Rightarrow> netsys \<Rightarrow> int \<times> netsys" where
  "FirewallSetUidRule chain uids firewallRule = via_proxy (Native_FirewallSetUidRule chain uids firewallRule)"

definition FirewallEnableChain :: "u32 \<Rightarrow> bool \<Rightarrow> netsys \<Rightarrow> int \<times> netsys" where
  "FirewallEnableChain chain enable = via_proxy (on_firewall (EnableChain (ChainType_cast chain) enable))"

definition ClearFirewallAllRules :: "netsys \<Rightarrow> int \<times> netsys" where
  "ClearFirewallAllRules = via_proxy (on_firewall ClearAllRules)"

section \<open>Lemmas\<close>

lemma ns_proxy_kept [simp]:
  "ns_proxy (snd (via_proxy (on_bandwidth f) n)) = ns_proxy n"
  "ns_proxy (snd (via_proxy (on_firewall g) n)) = ns_proxy n"
  by (simp_all add: via_proxy_def on_bandwidth_def on_firewall_def split: prod.splits)

lemma ns_bw_firewall [simp]: "ns_bw (snd (via_proxy (on_firewall g) n)) = ns_bw n"
  by (simp add: via_proxy_def on_firewall_def split: prod.splits)

lemma ns_bw_bandwidth:
  "ns_proxy n \<Longrightarrow> ns_bw (snd (via_proxy (on_bandwidth f) n)) = fst (snd (f (ns_bw n, ns_ipt n)))"
  by (simp add: via_proxy_def on_bandwidth_def split: prod.splits)

lemma ChainType_cast_values:
  "ChainType_cast 16 = CHAIN_OHFW_DOZABLE" "ChainType_cast 17 = CHAIN_OHFW_POWERSAVING"
  "ChainType_cast 18 = CHAIN_OHFW_UNDOZABLE" "ChainType_cast 19 = CHAIN_OHFW_ALLOWED_LIST_BOX"
  by (simp_all add: ChainType_cast_def ChainType_values_def)

end
