(* ===== verification/Parcel.thy ===== *)
theory Parcel
  imports Prelude "HOL-Library.Monad_Syntax"
begin

text \<open>
  The parcels through which the clients and the services exchange structures. The parcel
  class belongs to another repository, so its functions are a parameter: a record of the
  writers and readers the code calls. What the code relies on is \<open>parcel_fifo\<close>: a value
  written is appended to the content, and a read takes the oldest value when it has the
  type that is read. A writer may refuse (\<open>None\<close> is the code's \<open>false\<close>).
\<close>

datatype parcel_item =
    Int32 int | Int64 int | Uint32 u32 | Str string | Bool bool

record 'p parcel_api =
  Write :: "parcel_item \<Rightarrow> 'p \<Rightarrow> 'p option"
  ReadInt32 :: "'p \<Rightarrow> (int \<times> 'p) option"
  ReadInt64 :: "'p \<Rightarrow> (int \<times> 'p) option"
  ReadUint32 :: "'p \<Rightarrow> (u32 \<times> 'p) option"
  ReadString :: "'p \<Rightarrow> (string \<times> 'p) option"
  ReadBool :: "'p \<Rightarrow> (bool \<times> 'p) option"

definition parcel_fifo :: "'p parcel_api \<Rightarrow> ('p \<Rightarrow> parcel_item list) \<Rightarrow> bool" where
  "parcel_fifo api content =
     ((\<forall>i p p'. Write api i p = Some p' \<longrightarrow> content p' = content p @ [i])
    \<and> (\<forall>p v rest. content p = Int32 v # rest \<longrightarrow> (\<exists>p'. ReadInt32 api p = Some (v, p') \<and> content p' = rest))
    \<and> (\<forall>p v rest. content p = Int64 v # rest \<longrightarrow> (\<exists>p'. ReadInt64 api p = Some (v, p') \<and> content p' = rest))
    \<and> (\<forall>p v rest. content p = Uint32 v # rest \<longrightarrow> (\<exists>p'. ReadUint32 api p = Some (v, p') \<and> content p' = rest))
    \<and> (\<forall>p v rest. content p = Str v # rest \<longrightarrow> (\<exists>p'. ReadString api p = Some (v, p') \<and> content p' = rest))
    \<and> (\<forall>p v rest. content p = Bool v # rest \<longrightarrow> (\<exists>p'. ReadBool api p = Some (v, p') \<and> content p' = rest)))"

text \<open>A sequence of writes that stops at the first refusal.\<close>

fun write_all :: "'p parcel_api \<Rightarrow> parcel_item list \<Rightarrow> 'p \<Rightarrow> 'p option" where
  "write_all api [] p = Some p"
| "write_all api (i # is) p = Option.bind (Write api i p) (write_all api is)"

text \<open>A list as a parcel: the instance used to show that the assumption can hold.\<close>

definition list_parcel :: "parcel_item list parcel_api" where
  "list_parcel =
     \<lparr> Write = (\<lambda>i p. Some (p @ [i])),
       ReadInt32 = (\<lambda>p. case p of Int32 v # r \<Rightarrow> Some (v, r) | _ \<Rightarrow> None),
       ReadInt64 = (\<lambda>p. case p of Int64 v # r \<Rightarrow> Some (v, r) | _ \<Rightarrow> None),
       ReadUint32 = (\<lambda>p. case p of Uint32 v # r \<Rightarrow> Some (v, r) | _ \<Rightarrow> None),
       ReadString = (\<lambda>p. case p of Str v # r \<Rightarrow> Some (v, r) | _ \<Rightarrow> None),
       ReadBool = (\<lambda>p. case p of Bool v # r \<Rightarrow> Some (v, r) | _ \<Rightarrow> None) \<rparr>"

lemma list_parcel_fifo: "parcel_fifo list_parcel (\<lambda>p. p)"
  by (auto simp: parcel_fifo_def list_parcel_def)

lemma list_parcel_write: "write_all list_parcel is p = Some (p @ is)"
  by (induction "is" arbitrary: p) (simp_all add: list_parcel_def)

lemma write_all_content:
  "parcel_fifo api content \<Longrightarrow> write_all api is p = Some p' \<Longrightarrow> content p' = content p @ is"
  by (induction "is" arbitrary: p) (auto simp: parcel_fifo_def bind_eq_Some_conv)

lemma write_all_append:
  "write_all api (is @ js) p = Option.bind (write_all api is p) (write_all api js)"
proof (induction "is" arbitrary: p)
  case (Cons i "is")
  then show ?case by (cases "Write api i p") simp_all
qed simp

text \<open>
  Reading forwards: if the content starts with an item of the right type, the read succeeds
  and the continuation runs on the rest.
\<close>

lemma parcel_reads:
  assumes "parcel_fifo api content"
  shows "content p = Int32 v # r \<Longrightarrow> (\<And>p'. content p' = r \<Longrightarrow> \<exists>z. f (v, p') = Some z \<and> Q z)
           \<Longrightarrow> \<exists>z. Option.bind (ReadInt32 api p) f = Some z \<and> Q z"
    and "content p = Int64 v # r \<Longrightarrow> (\<And>p'. content p' = r \<Longrightarrow> \<exists>z. f (v, p') = Some z \<and> Q z)
           \<Longrightarrow> \<exists>z. Option.bind (ReadInt64 api p) f = Some z \<and> Q z"
    and "content p = Uint32 u # r \<Longrightarrow> (\<And>p'. content p' = r \<Longrightarrow> \<exists>z. g (u, p') = Some z \<and> Q z)
           \<Longrightarrow> \<exists>z. Option.bind (ReadUint32 api p) g = Some z \<and> Q z"
    and "content p = Str s # r \<Longrightarrow> (\<And>p'. content p' = r \<Longrightarrow> \<exists>z. h (s, p') = Some z \<and> Q z)
           \<Longrightarrow> \<exists>z. Option.bind (ReadString api p) h = Some z \<and> Q z"
    and "content p = Bool b # r \<Longrightarrow> (\<And>p'. content p' = r \<Longrightarrow> \<exists>z. k (b, p') = Some z \<and> Q z)
           \<Longrightarrow> \<exists>z. Option.bind (ReadBool api p) k = Some z \<and> Q z"
  using assms unfolding parcel_fifo_def by (metis (no_types, lifting) bind.bind_lunit)+

end
