(* ===== verification/Quota_Policy.thy ===== *)
theory Quota_Policy
  imports Parcel Common_Utils
begin

text \<open>
  The structure \<open>NetQuotaPolicy\<close> shared by clients and services
  (\<open>interfaces/innerkits/netpolicyclient/include/net_quota_policy.h\<close>,
  \<open>frameworks/native/netpolicyclient/src/net_quota_policy.cpp\<close>): its fields, its transport
  in parcels, the thresholds and the start of the metering period. Wall clock and calendar
  are parameters.
\<close>

section \<open>Constants and data\<close>

abbreviation DATA_USAGE_UNKNOWN :: int where "DATA_USAGE_UNKNOWN \<equiv> - 1"
abbreviation DATA_USAGE_UNLIMITED :: int where "DATA_USAGE_UNLIMITED \<equiv> 9223372036854775807"
abbreviation REMIND_NEVER :: int where "REMIND_NEVER \<equiv> - 1"
abbreviation QUOTA_POLICY_NO_PERIOD :: string where "QUOTA_POLICY_NO_PERIOD \<equiv> ''--''"
abbreviation LIMIT_ACTION_NONE :: int where "LIMIT_ACTION_NONE \<equiv> - 1"
abbreviation LIMIT_ACTION_ACCESS_DISABLED :: int where "LIMIT_ACTION_ACCESS_DISABLED \<equiv> 0"
abbreviation LIMIT_ACTION_ALERT_ONLY :: int where "LIMIT_ACTION_ALERT_ONLY \<equiv> 1"
abbreviation PERIOD_DURATION_SIZE :: nat where "PERIOD_DURATION_SIZE \<equiv> 2"
abbreviation BEARER_DEFAULT_INT :: int where "BEARER_DEFAULT_INT \<equiv> 6"

record NetLogotype =
  netType :: int
  simId :: string
  ident :: string

record QuotaPolicy =
  periodStartTime :: int
  periodDuration :: string
  title :: string
  summary :: string
  warningBytes :: int
  limitBytes :: int
  lastWarningRemind :: int
  lastLimitRemind :: int
  metered :: bool
  source :: int
  limitAction :: int
  usedBytes :: int
  usedTimeDuration :: int
  possessor :: string

record NetQuotaPolicy =
  networkmatchrule :: NetLogotype
  quotapolicy :: QuotaPolicy

definition NetQuotaPolicy_default :: NetQuotaPolicy where
  "NetQuotaPolicy_default =
     \<lparr> networkmatchrule = \<lparr> netType = BEARER_DEFAULT_INT, simId = [], ident = [] \<rparr>,
       quotapolicy = \<lparr> periodStartTime = -1, periodDuration = ''M1'', title = [], summary = [],
         warningBytes = DATA_USAGE_UNKNOWN, limitBytes = DATA_USAGE_UNKNOWN, lastWarningRemind = REMIND_NEVER,
         lastLimitRemind = REMIND_NEVER, metered = False, source = -1, limitAction = LIMIT_ACTION_NONE,
         usedBytes = -1, usedTimeDuration = -1, possessor = [] \<rparr> \<rparr>"

definition upd_rule :: "(NetLogotype \<Rightarrow> NetLogotype) \<Rightarrow> NetQuotaPolicy \<Rightarrow> NetQuotaPolicy" where
  "upd_rule f q = q\<lparr> networkmatchrule := f (networkmatchrule q) \<rparr>"

definition upd_quota :: "(QuotaPolicy \<Rightarrow> QuotaPolicy) \<Rightarrow> NetQuotaPolicy \<Rightarrow> NetQuotaPolicy" where
  "upd_quota f q = q\<lparr> quotapolicy := f (quotapolicy q) \<rparr>"

section \<open>Transport\<close>

definition quota_items :: "NetQuotaPolicy \<Rightarrow> parcel_item list" where
  "quota_items q =
     [Int32 (netType (networkmatchrule q)), Str (simId (networkmatchrule q)),
      Int64 (periodStartTime (quotapolicy q)), Str (periodDuration (quotapolicy q)),
      Int64 (warningBytes (quotapolicy q)), Int64 (limitBytes (quotapolicy q)),
      Int64 (lastLimitRemind (quotapolicy q)), Bool (metered (quotapolicy q)),
      Int32 (source (quotapolicy q)), Int32 (limitAction (quotapolicy q)),
      Str (ident (networkmatchrule q))]"

definition Quota_Marshalling :: "'p parcel_api \<Rightarrow> NetQuotaPolicy \<Rightarrow> 'p \<Rightarrow> 'p option" where
  "Quota_Marshalling api q p = write_all api (quota_items q) p"

text \<open>
  The vector form ignores the result of the element writes: a refused element leaves the
  parcel where the refusal happened, which the model describes by the writes that were
  accepted.
\<close>

fun write_some :: "'p parcel_api \<Rightarrow> parcel_item list \<Rightarrow> 'p \<Rightarrow> 'p" where
  "write_some api [] p = p"
| "write_some api (i # is) p = (case Write api i p of None \<Rightarrow> p | Some p' \<Rightarrow> write_some api is p')"

definition Quota_Marshalling_vector :: "'p parcel_api \<Rightarrow> NetQuotaPolicy list \<Rightarrow> 'p \<Rightarrow> 'p option" where
  "Quota_Marshalling_vector api qs p =
     (case Write api (Uint32 (of_nat (length qs))) p of
        None \<Rightarrow> None
      | Some p1 \<Rightarrow> Some (fold (\<lambda>q. write_some api (quota_items q)) (take (unat (of_nat (length qs) :: u32)) qs) p1))"

definition Quota_Unmarshalling :: "'p parcel_api \<Rightarrow> NetQuotaPolicy \<Rightarrow> 'p \<Rightarrow> (NetQuotaPolicy \<times> 'p) option" where
  "Quota_Unmarshalling api q p0 = do {
     (v1, p1) \<leftarrow> ReadInt32 api p0;
     (v2, p2) \<leftarrow> ReadString api p1;
     (v3, p3) \<leftarrow> ReadInt64 api p2;
     (v4, p4) \<leftarrow> ReadString api p3;
     (v5, p5) \<leftarrow> ReadInt64 api p4;
     (v6, p6) \<leftarrow> ReadInt64 api p5;
     (v7, p7) \<leftarrow> ReadInt64 api p6;
     (v8, p8) \<leftarrow> ReadBool api p7;
     (v9, p9) \<leftarrow> ReadInt32 api p8;
     (v10, p10) \<leftarrow> ReadInt32 api p9;
     (v11, p11) \<leftarrow> ReadString api p10;
     Some (upd_quota (\<lambda>r. r\<lparr> periodStartTime := v3, periodDuration := v4, warningBytes := v5, limitBytes := v6,
                               lastLimitRemind := v7, metered := v8, source := v9, limitAction := v10 \<rparr>)
            (upd_rule (\<lambda>r. r\<lparr> netType := v1, simId := v2, ident := v11 \<rparr>) q), p11) }"

abbreviation MAX_POLICY_SIZE :: nat where "MAX_POLICY_SIZE \<equiv> 100"

text \<open>The loop reuses one temporary, so a field that is not transported keeps its default.\<close>

fun Quota_Unmarshalling_loop ::
  "'p parcel_api \<Rightarrow> nat \<Rightarrow> NetQuotaPolicy \<Rightarrow> 'p \<Rightarrow> (NetQuotaPolicy list \<times> 'p) option" where
  "Quota_Unmarshalling_loop api 0 tmp p = Some ([], p)"
| "Quota_Unmarshalling_loop api (Suc n) tmp p = do {
     (q, p1) \<leftarrow> Quota_Unmarshalling api tmp p;
     (qs, p2) \<leftarrow> Quota_Unmarshalling_loop api n q p1;
     Some (q # qs, p2) }"

definition Quota_Unmarshalling_vector :: "'p parcel_api \<Rightarrow> 'p \<Rightarrow> (NetQuotaPolicy list \<times> 'p) option" where
  "Quota_Unmarshalling_vector api p = do {
     (vSize, p1) \<leftarrow> ReadUint32 api p;
     Quota_Unmarshalling_loop api (if unat vSize > MAX_POLICY_SIZE then MAX_POLICY_SIZE else unat vSize)
       NetQuotaPolicy_default p1 }"

section \<open>Thresholds and period\<close>

definition IsOverWarning :: "NetQuotaPolicy \<Rightarrow> int \<Rightarrow> bool" where
  "IsOverWarning q totalQuota = (totalQuota > warningBytes (quotapolicy q))"

definition IsOverLimit :: "NetQuotaPolicy \<Rightarrow> int \<Rightarrow> bool" where
  "IsOverLimit q totalQuota = (totalQuota > limitBytes (quotapolicy q))"

text \<open>Calendar fields of \<open>struct tm\<close> the code sets; \<open>tm_rest\<close> stands for the others.\<close>

record 't tm =
  tm_sec :: int
  tm_min :: int
  tm_hour :: int
  tm_mday :: int
  tm_yday :: int
  tm_rest :: 't

record 't clock =
  time_now :: int
  localtime_r :: "int \<Rightarrow> 't tm"
  mktime :: "'t tm \<Rightarrow> int"

definition GetPeriodStart :: "'t clock \<Rightarrow> NetQuotaPolicy \<Rightarrow> int \<times> NetQuotaPolicy" where
  "GetPeriodStart clk q0 =
     (let q = (if length (periodDuration (quotapolicy q0)) < PERIOD_DURATION_SIZE
               then upd_quota (\<lambda>r. r\<lparr> periodDuration := ''M'' \<rparr>) q0 else q0);
          now = time_now clk in
      if now < 0 then (-1, q)
      else
        let t = localtime_r clk now;
            cycle = take 1 (periodDuration (quotapolicy q));
            start = StrToInt (drop 1 (periodDuration (quotapolicy q))) (-1);
            t' = (if cycle = ''D'' then t\<lparr> tm_hour := start, tm_min := 0, tm_sec := 0 \<rparr>
                  else if cycle = ''Y'' then t\<lparr> tm_hour := 0, tm_min := 0, tm_sec := 0, tm_yday := start - 1 \<rparr>
                  else t\<lparr> tm_hour := 0, tm_min := 0, tm_sec := 0, tm_mday := start \<rparr>)
        in (mktime clk t', q))"

definition Quota_Reset :: "NetQuotaPolicy \<Rightarrow> NetQuotaPolicy" where
  "Quota_Reset =
     upd_quota (\<lambda>r. r\<lparr> periodDuration := ''M1'', warningBytes := DATA_USAGE_UNKNOWN, limitBytes := DATA_USAGE_UNKNOWN,
       lastWarningRemind := REMIND_NEVER, lastLimitRemind := REMIND_NEVER, metered := False,
       limitAction := LIMIT_ACTION_NONE \<rparr>)"

text \<open>What a policy looks like after transport: the fields that are not sent have their defaults.\<close>

definition transported :: "NetQuotaPolicy \<Rightarrow> NetQuotaPolicy" where
  "transported q =
     upd_quota (\<lambda>r. r\<lparr> title := [], summary := [], lastWarningRemind := REMIND_NEVER, usedBytes := -1,
       usedTimeDuration := -1, possessor := [] \<rparr>) q"

text \<open>The fields that are read replace those of the temporary.\<close>

definition overlay :: "NetQuotaPolicy \<Rightarrow> NetQuotaPolicy \<Rightarrow> NetQuotaPolicy" where
  "overlay q tmp =
     upd_quota (\<lambda>r. r\<lparr> periodStartTime := periodStartTime (quotapolicy q),
            periodDuration := periodDuration (quotapolicy q), warningBytes := warningBytes (quotapolicy q),
            limitBytes := limitBytes (quotapolicy q), lastLimitRemind := lastLimitRemind (quotapolicy q),
            metered := metered (quotapolicy q), source := source (quotapolicy q),
            limitAction := limitAction (quotapolicy q) \<rparr>)
       (upd_rule (\<lambda>r. r\<lparr> netType := netType (networkmatchrule q), simId := simId (networkmatchrule q),
            ident := ident (networkmatchrule q) \<rparr>) tmp)"

text \<open>A parcel that accepts every write.\<close>

definition accepts_all :: "'p parcel_api \<Rightarrow> bool" where
  "accepts_all api = (\<forall>i p. Write api i p \<noteq> None)"

section \<open>Lemmas\<close>

lemma Quota_Unmarshalling_items:
  assumes "parcel_fifo api content" "content p = quota_items q @ rest"
  shows "\<exists>z. Quota_Unmarshalling api tmp p = Some z \<and> (fst z = overlay q tmp \<and> content (snd z) = rest)"
proof -
  have "content p = quota_items q @ rest \<Longrightarrow> ?thesis"
    unfolding Quota_Unmarshalling_def quota_items_def append_Cons append_Nil
    by (rule parcel_reads [OF assms(1)], assumption, simp only: prod.case)+ (simp add: overlay_def)
  with assms(2) show ?thesis by blast
qed

lemma write_some_content:
  "parcel_fifo api content \<Longrightarrow> accepts_all api \<Longrightarrow> content (write_some api is p) = content p @ is"
proof (induction "is" arbitrary: p)
  case (Cons i "is")
  from Cons.prems(2) have "Write api i p \<noteq> None" unfolding accepts_all_def by blast
  then obtain p' where "Write api i p = Some p'" by blast
  with Cons show ?case by (simp add: parcel_fifo_def)
qed simp

lemma fold_write_content:
  "parcel_fifo api content \<Longrightarrow> accepts_all api \<Longrightarrow>
     content (fold (\<lambda>q. write_some api (quota_items q)) qs p) = content p @ concat (map quota_items qs)"
  by (induction qs arbitrary: p) (simp_all add: write_some_content)

lemma Quota_Unmarshalling_loop_items:
  assumes "parcel_fifo api content" "n \<le> length qs"
    and "content p = concat (map quota_items qs) @ rest" "\<And>q. overlay q tmp = transported q"
  shows "\<exists>z. Quota_Unmarshalling_loop api n tmp p = Some z \<and> fst z = map transported (take n qs)"
  using assms(2-4)
proof (induction n arbitrary: qs tmp p)
  case (Suc n)
  then obtain q qs' where qs: "qs = q # qs'" by (cases qs) auto
  with Suc.prems obtain z where z: "Quota_Unmarshalling api tmp p = Some z" "fst z = overlay q tmp"
      "content (snd z) = concat (map quota_items qs') @ rest"
    using Quota_Unmarshalling_items [OF assms(1), of p q "concat (map quota_items qs') @ rest" tmp] by auto
  have "overlay q'' (overlay q tmp) = overlay q'' tmp" for q''
    by (simp add: overlay_def upd_quota_def upd_rule_def)
  with Suc.IH [of qs' "snd z" "overlay q tmp"] Suc.prems z qs
  obtain y where "Quota_Unmarshalling_loop api n (overlay q tmp) (snd z) = Some y" "fst y = map transported (take n qs')"
    by auto
  with z qs Suc.prems show ?case by (cases z; cases y) auto
qed simp

section \<open>Properties\<close>



end
