(* ===== verification/Policy_File.thy ===== *)
theory Policy_File
  imports Quota_Policy
begin

text \<open>
  The class \<open>NetPolicyFile\<close> (\<open>services/netpolicymanager/src/core/net_policy_file.cpp\<close>) as the
  policy components use it: the in-memory policy document and the write requests queued
  for the file thread. A queued request carries a snapshot of the document; its conversion
  to and from JSON text is not modelled.
\<close>

section \<open>Data\<close>

abbreviation BACKGROUND_POLICY_ALLOW :: string where "BACKGROUND_POLICY_ALLOW \<equiv> ''allow''"
abbreviation BACKGROUND_POLICY_REJECT :: string where "BACKGROUND_POLICY_REJECT \<equiv> ''reject''"
abbreviation HOS_VERSION :: string where "HOS_VERSION \<equiv> ''1.0''"

abbreviation NET_POLICY_NONE :: u32 where "NET_POLICY_NONE \<equiv> 0"
abbreviation NET_POLICY_ALLOW_METERED_BACKGROUND :: u32 where "NET_POLICY_ALLOW_METERED_BACKGROUND \<equiv> 1"
abbreviation NET_POLICY_REJECT_METERED_BACKGROUND :: u32 where "NET_POLICY_REJECT_METERED_BACKGROUND \<equiv> 2"

record UidPolicy =
  up_uid :: string
  up_policy :: string

record NetPolicyQuota =
  q_netType :: string
  q_simId :: string
  q_periodStartTime :: string
  q_periodDuration :: string
  q_warningBytes :: string
  q_limitBytes :: string
  q_lastLimitSnooze :: string
  q_metered :: string
  q_ident :: string

record NetFirewallRuleList =
  fl_deniedList :: "u32 set"
  fl_allowedList :: "u32 set"

record NetPolicy =
  hosVersion :: string
  uidPolicies :: "UidPolicy list"
  backgroundPolicyStatus :: string
  netQuotaPolicies :: "NetPolicyQuota list"
  netFirewallRules :: "(u32, NetFirewallRuleList) omap"

record NetPolicyFile =
  netPolicy :: NetPolicy
  writeEvents :: "NetPolicy list"

datatype NetUidPolicyOpType =
    NET_POLICY_UID_OP_TYPE_DO_NOTHING
  | NET_POLICY_UID_OP_TYPE_ADD
  | NET_POLICY_UID_OP_TYPE_DELETE
  | NET_POLICY_UID_OP_TYPE_UPDATE

section \<open>Writing the file\<close>

text \<open>
  Serialising fills in a missing version and a missing background status
  (\<open>Obj2Json\<close>, \<open>AddBackgroundPolicy\<close>) before the request is queued.
\<close>

definition fill_defaults :: "NetPolicy \<Rightarrow> NetPolicy" where
  "fill_defaults p =
     (let p1 = (if hosVersion p = [] then p\<lparr> hosVersion := HOS_VERSION \<rparr> else p) in
      if backgroundPolicyStatus p1 = [] then p1\<lparr> backgroundPolicyStatus := BACKGROUND_POLICY_ALLOW \<rparr> else p1)"

definition WriteFile :: "NetPolicyFile \<Rightarrow> bool \<times> NetPolicyFile" where
  "WriteFile f =
     (let p = fill_defaults (netPolicy f) in
      (True, f\<lparr> netPolicy := p, writeEvents := writeEvents f @ [p] \<rparr>))"

definition upd_policy :: "(NetPolicy \<Rightarrow> NetPolicy) \<Rightarrow> NetPolicyFile \<Rightarrow> NetPolicyFile" where
  "upd_policy g f = f\<lparr> netPolicy := g (netPolicy f) \<rparr>"

section \<open>Uid policies\<close>

fun arbitration_loop :: "u32 \<Rightarrow> UidPolicy list \<Rightarrow> bool \<times> u32 \<Rightarrow> bool \<times> u32" where
  "arbitration_loop uid [] st = st"
| "arbitration_loop uid (x # xs) st =
     (let uidTemp = StrToUint (up_uid x) 0 in
      arbitration_loop uid xs (if uid = uidTemp then (True, uidTemp) else st))"

definition ArbitrationWritePolicyToFile :: "u32 \<Rightarrow> u32 \<Rightarrow> NetPolicyFile \<Rightarrow> NetUidPolicyOpType" where
  "ArbitrationWritePolicyToFile uid policy f =
     (case arbitration_loop uid (uidPolicies (netPolicy f)) (False, NET_POLICY_NONE) of
        (haveUidAndPolicy, oldPolicy) \<Rightarrow>
          if haveUidAndPolicy then
            if oldPolicy \<noteq> policy \<and> policy = NET_POLICY_NONE then NET_POLICY_UID_OP_TYPE_DELETE
            else if oldPolicy \<noteq> policy \<and> policy \<noteq> NET_POLICY_NONE then NET_POLICY_UID_OP_TYPE_UPDATE
            else NET_POLICY_UID_OP_TYPE_DO_NOTHING
          else if policy = NET_POLICY_NONE then NET_POLICY_UID_OP_TYPE_DO_NOTHING
          else NET_POLICY_UID_OP_TYPE_ADD)"

fun update_first :: "string \<Rightarrow> string \<Rightarrow> UidPolicy list \<Rightarrow> UidPolicy list" where
  "update_first uid policy [] = []"
| "update_first uid policy (x # xs) =
     (if up_uid x = uid then x\<lparr> up_policy := policy \<rparr> # xs else x # update_first uid policy xs)"

fun erase_first :: "string \<Rightarrow> UidPolicy list \<Rightarrow> UidPolicy list" where
  "erase_first uid [] = []"
| "erase_first uid (x # xs) = (if up_uid x = uid then xs else x # erase_first uid xs)"

definition WritePolicyByUid_op :: "NetUidPolicyOpType \<Rightarrow> u32 \<Rightarrow> u32 \<Rightarrow> NetPolicyFile \<Rightarrow> NetPolicyFile" where
  "WritePolicyByUid_op opType uid policy f =
     snd (WriteFile (upd_policy (\<lambda>p. p\<lparr> uidPolicies :=
       (case opType of
          NET_POLICY_UID_OP_TYPE_UPDATE \<Rightarrow> update_first (to_string_u32 uid) (to_string_u32 policy) (uidPolicies p)
        | NET_POLICY_UID_OP_TYPE_DELETE \<Rightarrow> erase_first (to_string_u32 uid) (uidPolicies p)
        | NET_POLICY_UID_OP_TYPE_ADD \<Rightarrow>
            uidPolicies p @ [\<lparr> up_uid = to_string_u32 uid, up_policy = to_string_u32 policy \<rparr>]
        | NET_POLICY_UID_OP_TYPE_DO_NOTHING \<Rightarrow> uidPolicies p) \<rparr>) f))"

definition WritePolicyByUid :: "u32 \<Rightarrow> u32 \<Rightarrow> NetPolicyFile \<Rightarrow> NetPolicyFile" where
  "WritePolicyByUid uid policy f =
     WritePolicyByUid_op (ArbitrationWritePolicyToFile uid policy f) uid policy f"

definition RemoveInexistentUid :: "u32 \<Rightarrow> NetPolicyFile \<Rightarrow> NetPolicyFile" where
  "RemoveInexistentUid uid f = WritePolicyByUid_op NET_POLICY_UID_OP_TYPE_DELETE uid 0 f"

section \<open>Quota policies\<close>

definition ToPolicyQuota :: "NetQuotaPolicy \<Rightarrow> NetPolicyQuota" where
  "ToPolicyQuota q =
     \<lparr> q_netType = to_string_int (netType (networkmatchrule q)), q_simId = simId (networkmatchrule q),
       q_periodStartTime = to_string_int (periodStartTime (quotapolicy q)),
       q_periodDuration = periodDuration (quotapolicy q),
       q_warningBytes = to_string_int (warningBytes (quotapolicy q)),
       q_limitBytes = to_string_int (limitBytes (quotapolicy q)),
       q_lastLimitSnooze = to_string_int (lastLimitRemind (quotapolicy q)),
       q_metered = (if metered (quotapolicy q) then ''1'' else ''0''),
       q_ident = ident (networkmatchrule q) \<rparr>"

definition same_quota_key :: "NetQuotaPolicy \<Rightarrow> NetPolicyQuota \<Rightarrow> bool" where
  "same_quota_key q e = (simId (networkmatchrule q) = q_simId e \<and> q_netType e = to_string_int (netType (networkmatchrule q)))"

fun UpdateQuotaPolicyExist :: "NetQuotaPolicy \<Rightarrow> NetPolicyQuota list \<Rightarrow> bool \<times> NetPolicyQuota list" where
  "UpdateQuotaPolicyExist q [] = (False, [])"
| "UpdateQuotaPolicyExist q (e # es) =
     (if same_quota_key q e then (True, ToPolicyQuota q # es)
      else case UpdateQuotaPolicyExist q es of (found, es') \<Rightarrow> (found, e # es'))"

fun WriteQuotaPolicies_loop :: "NetQuotaPolicy list \<Rightarrow> NetPolicyQuota list \<Rightarrow> NetPolicyQuota list" where
  "WriteQuotaPolicies_loop [] es = es"
| "WriteQuotaPolicies_loop (q # qs) es =
     (case UpdateQuotaPolicyExist q es of
        (True, es') \<Rightarrow> WriteQuotaPolicies_loop qs es'
      | (False, es') \<Rightarrow> WriteQuotaPolicies_loop qs (es' @ [ToPolicyQuota q]))"

definition WriteQuotaPolicies :: "NetQuotaPolicy list \<Rightarrow> NetPolicyFile \<Rightarrow> bool \<times> NetPolicyFile" where
  "WriteQuotaPolicies quotaPolicies f =
     WriteFile (upd_policy (\<lambda>p. p\<lparr> netQuotaPolicies := WriteQuotaPolicies_loop quotaPolicies [] \<rparr>) f)"

definition ToQuotaPolicy :: "NetPolicyQuota \<Rightarrow> NetQuotaPolicy \<Rightarrow> NetQuotaPolicy" where
  "ToQuotaPolicy e tmp =
     upd_quota (\<lambda>r. r\<lparr> periodStartTime := StrToLong (q_periodStartTime e) (-1), periodDuration := q_periodDuration e,
         warningBytes := StrToLong (q_warningBytes e) DATA_USAGE_UNKNOWN,
         limitBytes := StrToLong (q_limitBytes e) DATA_USAGE_UNKNOWN,
         lastLimitRemind := StrToLong (q_lastLimitSnooze e) REMIND_NEVER,
         metered := StrToBool (q_metered e) False \<rparr>)
       (upd_rule (\<lambda>r. r\<lparr> netType := StrToInt (q_netType e) BEARER_DEFAULT_INT, simId := q_simId e, ident := q_ident e \<rparr>) tmp)"

fun ReadQuotaPolicies_loop :: "NetPolicyQuota list \<Rightarrow> NetQuotaPolicy \<Rightarrow> NetQuotaPolicy list" where
  "ReadQuotaPolicies_loop [] tmp = []"
| "ReadQuotaPolicies_loop (e # es) tmp = ToQuotaPolicy e tmp # ReadQuotaPolicies_loop es (ToQuotaPolicy e tmp)"

text \<open>The policies read are appended to the vector the caller passes.\<close>

definition ReadQuotaPolicies :: "NetPolicyFile \<Rightarrow> NetQuotaPolicy list \<Rightarrow> NetQuotaPolicy list" where
  "ReadQuotaPolicies f quotaPolicies =
     quotaPolicies @ ReadQuotaPolicies_loop (netQuotaPolicies (netPolicy f)) NetQuotaPolicy_default"

section \<open>Firewall lists and background policy\<close>

definition firewall_lists :: "u32 \<Rightarrow> NetPolicy \<Rightarrow> NetFirewallRuleList" where
  "firewall_lists chainType p =
     (case om_get (netFirewallRules p) chainType of
        None \<Rightarrow> \<lparr> fl_deniedList = {}, fl_allowedList = {} \<rparr> | Some l \<Rightarrow> l)"

text \<open>Reading through \<open>operator[]\<close> creates the entry.\<close>

definition ReadFirewallRules ::
  "u32 \<Rightarrow> u32 set \<Rightarrow> u32 set \<Rightarrow> NetPolicyFile \<Rightarrow> int \<times> u32 set \<times> u32 set \<times> NetPolicyFile" where
  "ReadFirewallRules chainType allowedList deniedList f =
     (let l = firewall_lists chainType (netPolicy f) in
      (NETMANAGER_SUCCESS, allowedList \<union> fl_allowedList l, deniedList \<union> fl_deniedList l,
       upd_policy (\<lambda>p. p\<lparr> netFirewallRules := om_put chainType l (netFirewallRules p) \<rparr>) f))"

definition WriteFirewallRules :: "u32 \<Rightarrow> u32 set \<Rightarrow> u32 set \<Rightarrow> NetPolicyFile \<Rightarrow> NetPolicyFile" where
  "WriteFirewallRules chainType allowedList deniedList f =
     snd (WriteFile (upd_policy (\<lambda>p. p\<lparr> netFirewallRules :=
       om_put chainType \<lparr> fl_deniedList = deniedList, fl_allowedList = allowedList \<rparr> (netFirewallRules p) \<rparr>) f))"

definition File_ResetPolicies :: "NetPolicyFile \<Rightarrow> int \<times> NetPolicyFile" where
  "File_ResetPolicies f =
     (NETMANAGER_SUCCESS,
      snd (WriteFile (upd_policy (\<lambda>p. p\<lparr> uidPolicies := [], backgroundPolicyStatus := BACKGROUND_POLICY_ALLOW,
             netQuotaPolicies := [], netFirewallRules := [] \<rparr>) f)))"

definition WriteBackgroundPolicy :: "bool \<Rightarrow> NetPolicyFile \<Rightarrow> NetPolicyFile" where
  "WriteBackgroundPolicy backgroundPolicy f =
     snd (WriteFile (upd_policy (\<lambda>p. p\<lparr> backgroundPolicyStatus :=
       (if backgroundPolicy then BACKGROUND_POLICY_ALLOW else BACKGROUND_POLICY_REJECT) \<rparr>) f))"

definition ReadBackgroundPolicy :: "NetPolicyFile \<Rightarrow> bool" where
  "ReadBackgroundPolicy f = (backgroundPolicyStatus (netPolicy f) = BACKGROUND_POLICY_ALLOW)"

section \<open>Vocabulary of the properties\<close>

text \<open>The uid policies the document holds, as a map, and the form the code itself writes.\<close>

definition stored_policy :: "NetPolicyFile \<Rightarrow> u32 \<Rightarrow> string option" where
  "stored_policy f uid =
     map_of (map (\<lambda>x. (up_uid x, up_policy x)) (uidPolicies (netPolicy f))) (to_string_u32 uid)"

definition file_wf :: "NetPolicyFile \<Rightarrow> bool" where
  "file_wf f = (distinct (map up_uid (uidPolicies (netPolicy f)))
     \<and> (\<forall>x \<in> set (uidPolicies (netPolicy f)). \<exists>u. up_uid x = to_string_u32 u))"

text \<open>What the document keeps of a quota policy.\<close>

definition persisted :: "NetQuotaPolicy \<Rightarrow> NetQuotaPolicy" where
  "persisted q =
     upd_quota (\<lambda>r. r\<lparr> title := [], summary := [], lastWarningRemind := REMIND_NEVER, source := -1,
       limitAction := LIMIT_ACTION_NONE, usedBytes := -1, usedTimeDuration := -1, possessor := [] \<rparr>) q"

definition int64 :: "int \<Rightarrow> bool" where
  "int64 i = (- (2 ^ 63) \<le> i \<and> i < 2 ^ 63)"

definition quota_ranges :: "NetQuotaPolicy \<Rightarrow> bool" where
  "quota_ranges q = (- (2 ^ 31) \<le> netType (networkmatchrule q) \<and> netType (networkmatchrule q) < 2 ^ 31
     \<and> int64 (periodStartTime (quotapolicy q)) \<and> int64 (warningBytes (quotapolicy q))
     \<and> int64 (limitBytes (quotapolicy q)) \<and> int64 (lastLimitRemind (quotapolicy q)))"

definition quota_key :: "NetQuotaPolicy \<Rightarrow> int \<times> string" where
  "quota_key q = (netType (networkmatchrule q), simId (networkmatchrule q))"

definition default_rest :: "NetQuotaPolicy \<Rightarrow> bool" where
  "default_rest tmp = (\<forall>q. quota_ranges q \<longrightarrow> ToQuotaPolicy (ToPolicyQuota q) tmp = persisted q)"

section \<open>Lemmas\<close>

lemma WriteFile_fields [simp]:
  "uidPolicies (netPolicy (snd (WriteFile f))) = uidPolicies (netPolicy f)"
  "netQuotaPolicies (netPolicy (snd (WriteFile f))) = netQuotaPolicies (netPolicy f)"
  "netFirewallRules (netPolicy (snd (WriteFile f))) = netFirewallRules (netPolicy f)"
  "fst (WriteFile f)"
  "writeEvents (snd (WriteFile f)) = writeEvents f @ [netPolicy (snd (WriteFile f))]"
  by (simp_all add: WriteFile_def fill_defaults_def Let_def)

lemma upd_policy_simps [simp]:
  "netPolicy (upd_policy g f) = g (netPolicy f)" "writeEvents (upd_policy g f) = writeEvents f"
  by (simp_all add: upd_policy_def)

lemma arbitration_loop_eq:
  "arbitration_loop uid xs st =
     (if \<exists>x \<in> set xs. StrToUint (up_uid x) 0 = uid then (True, uid) else st)"
  by (induction xs arbitrary: st) (auto simp: Let_def)

lemma stored_in_file:
  "file_wf f \<Longrightarrow> (\<exists>x \<in> set (uidPolicies (netPolicy f)). StrToUint (up_uid x) 0 = uid) \<longleftrightarrow> stored_policy f uid \<noteq> None"
  by (force simp: file_wf_def stored_policy_def map_of_eq_None_iff image_iff)

lemma Arbitration_eq:
  assumes "file_wf f"
  shows "ArbitrationWritePolicyToFile uid policy f =
    (if stored_policy f uid \<noteq> None then
       if uid = policy then NET_POLICY_UID_OP_TYPE_DO_NOTHING
       else if policy = NET_POLICY_NONE then NET_POLICY_UID_OP_TYPE_DELETE
       else NET_POLICY_UID_OP_TYPE_UPDATE
     else if policy = NET_POLICY_NONE then NET_POLICY_UID_OP_TYPE_DO_NOTHING
     else NET_POLICY_UID_OP_TYPE_ADD)"
  using stored_in_file [OF assms, of uid]
  by (simp add: ArbitrationWritePolicyToFile_def arbitration_loop_eq)

lemma map_of_update_first:
  "map_of (map (\<lambda>x. (up_uid x, up_policy x)) (update_first u p xs)) k =
     (let m = map_of (map (\<lambda>x. (up_uid x, up_policy x)) xs) in if k = u \<and> m u \<noteq> None then Some p else m k)"
  by (induction xs) (auto simp: Let_def)

lemma map_of_erase_first:
  "distinct (map up_uid xs) \<Longrightarrow> map_of (map (\<lambda>x. (up_uid x, up_policy x)) (erase_first u xs)) k =
     (if k = u then None else map_of (map (\<lambda>x. (up_uid x, up_policy x)) xs) k)"
  by (induction xs) (auto simp: map_of_eq_None_iff image_image)

lemma update_first_uids [simp]: "map up_uid (update_first u p xs) = map up_uid xs"
  by (induction xs) auto

lemma erase_first_set: "set (erase_first u xs) \<subseteq> set xs"
  by (induction xs) auto

lemma erase_first_distinct: "distinct (map up_uid xs) \<Longrightarrow> distinct (map up_uid (erase_first u xs))"
proof (induction xs)
  case (Cons x xs)
  then show ?case using erase_first_set [of u xs] by auto
qed simp

lemma WritePolicyByUid_uids:
  "uidPolicies (netPolicy (WritePolicyByUid_op op uid policy f)) =
     (case op of
        NET_POLICY_UID_OP_TYPE_UPDATE \<Rightarrow> update_first (to_string_u32 uid) (to_string_u32 policy) (uidPolicies (netPolicy f))
      | NET_POLICY_UID_OP_TYPE_DELETE \<Rightarrow> erase_first (to_string_u32 uid) (uidPolicies (netPolicy f))
      | NET_POLICY_UID_OP_TYPE_ADD \<Rightarrow>
          uidPolicies (netPolicy f) @ [\<lparr> up_uid = to_string_u32 uid, up_policy = to_string_u32 policy \<rparr>]
      | NET_POLICY_UID_OP_TYPE_DO_NOTHING \<Rightarrow> uidPolicies (netPolicy f))"
  by (simp add: WritePolicyByUid_op_def)

lemma file_wf_op:
  assumes "file_wf f" "op = NET_POLICY_UID_OP_TYPE_ADD \<Longrightarrow> stored_policy f uid = None"
  shows "file_wf (WritePolicyByUid_op op uid policy f)"
proof (cases op)
  case NET_POLICY_UID_OP_TYPE_UPDATE
  have "\<exists>u. s = to_string_u32 u" if "s \<in> set (map up_uid (uidPolicies (netPolicy f)))" for s
    using assms(1) that by (auto simp: file_wf_def)
  then have "\<forall>x \<in> set (update_first a b (uidPolicies (netPolicy f))). \<exists>u. up_uid x = to_string_u32 u" for a b
    by (metis image_eqI list.set_map update_first_uids)
  with assms(1) NET_POLICY_UID_OP_TYPE_UPDATE show ?thesis by (simp add: file_wf_def WritePolicyByUid_uids)
next
  case NET_POLICY_UID_OP_TYPE_DELETE
  with assms(1) erase_first_set show ?thesis
    by (auto simp: file_wf_def WritePolicyByUid_uids erase_first_distinct) blast
next
  case NET_POLICY_UID_OP_TYPE_ADD
  with assms show ?thesis
    by (auto simp: file_wf_def WritePolicyByUid_uids stored_policy_def map_of_eq_None_iff image_image)
next
  case NET_POLICY_UID_OP_TYPE_DO_NOTHING
  with assms show ?thesis by (simp add: file_wf_def WritePolicyByUid_uids)
qed

lemma file_wf_WritePolicyByUid: "file_wf f \<Longrightarrow> file_wf (WritePolicyByUid uid policy f)"
  unfolding WritePolicyByUid_def by (rule file_wf_op) (auto simp: Arbitration_eq split: if_splits)

lemma file_wf_RemoveInexistentUid: "file_wf f \<Longrightarrow> file_wf (RemoveInexistentUid uid f)"
  unfolding RemoveInexistentUid_def by (rule file_wf_op) auto

lemma stored_WritePolicyByUid:
  assumes "file_wf f" "uid \<noteq> policy"
  shows "stored_policy (WritePolicyByUid uid policy f) v =
    (if v = uid then (if policy = NET_POLICY_NONE then None else Some (to_string_u32 policy)) else stored_policy f v)"
proof -
  have d: "distinct (map up_uid (uidPolicies (netPolicy f)))" using assms(1) by (simp add: file_wf_def)
  show ?thesis using assms d
    by (auto simp: stored_policy_def WritePolicyByUid_def WritePolicyByUid_uids Arbitration_eq
        map_of_update_first map_of_erase_first map_add_def Let_def split: option.splits)
qed

lemma stored_RemoveInexistentUid:
  assumes "file_wf f"
  shows "stored_policy (RemoveInexistentUid uid f) v = (if v = uid then None else stored_policy f v)"
proof -
  have d: "distinct (map up_uid (uidPolicies (netPolicy f)))" using assms(1) by (simp add: file_wf_def)
  then show ?thesis
    by (simp add: stored_policy_def RemoveInexistentUid_def WritePolicyByUid_uids map_of_erase_first)
qed

subsection \<open>Quota policies\<close>

lemma UpdateQuotaPolicyExist_new:
  "\<forall>e \<in> set es. \<not> same_quota_key q e \<Longrightarrow> UpdateQuotaPolicyExist q es = (False, es)"
  by (induction es) auto

lemma same_quota_key_ToPolicyQuota: "same_quota_key q (ToPolicyQuota q') \<longleftrightarrow> quota_key q = quota_key q'"
  by (auto simp: same_quota_key_def ToPolicyQuota_def quota_key_def)

lemma WriteQuotaPolicies_loop_distinct:
  "distinct (map quota_key (ps @ qs)) \<Longrightarrow>
     WriteQuotaPolicies_loop qs (map ToPolicyQuota ps) = map ToPolicyQuota (ps @ qs)"
proof (induction qs arbitrary: ps)
  case (Cons q qs)
  then have "UpdateQuotaPolicyExist q (map ToPolicyQuota ps) = (False, map ToPolicyQuota ps)"
    by (intro UpdateQuotaPolicyExist_new) (auto simp: same_quota_key_ToPolicyQuota)
  with Cons.IH [of "ps @ [q]"] Cons.prems show ?case by simp
qed simp

lemma default_rest_start: "default_rest NetQuotaPolicy_default"
  by (simp add: default_rest_def quota_ranges_def int64_def ToQuotaPolicy_def ToPolicyQuota_def
      StrToLong_to_string_int StrToInt_to_string_int persisted_def upd_quota_def upd_rule_def NetQuotaPolicy_default_def)

lemma ToQuotaPolicy_again [simp]: "ToQuotaPolicy e (ToQuotaPolicy e' tmp) = ToQuotaPolicy e tmp"
  by (simp add: ToQuotaPolicy_def upd_quota_def upd_rule_def)

lemma default_rest_next: "default_rest tmp \<Longrightarrow> quota_ranges q \<Longrightarrow> default_rest (ToQuotaPolicy (ToPolicyQuota q) tmp)"
  unfolding default_rest_def ToQuotaPolicy_again .

lemma ReadQuotaPolicies_loop_eq:
  "default_rest tmp \<Longrightarrow> \<forall>q \<in> set qs. quota_ranges q \<Longrightarrow>
     ReadQuotaPolicies_loop (map ToPolicyQuota qs) tmp = map persisted qs"
proof (induction qs arbitrary: tmp)
  case (Cons q qs)
  then have "ToQuotaPolicy (ToPolicyQuota q) tmp = persisted q" by (simp add: default_rest_def)
  with Cons default_rest_next [of tmp q] show ?case by simp
qed simp

section \<open>Properties\<close>

text \<open>
  Recording the policy of a uid changes the document as a map update, for a uid whose
  number differs from the policy value: a policy is stored, \<open>NET_POLICY_NONE\<close> removes the
  entry, other uids keep theirs, one write request with the new document is queued and
  the document stays free of duplicates.
\<close>

theorem WritePolicyByUid_is_map_update:
  assumes "file_wf f" "uid \<noteq> policy"
  shows "file_wf (WritePolicyByUid uid policy f)
    \<and> (\<forall>v. stored_policy (WritePolicyByUid uid policy f) v =
          (if v = uid then (if policy = NET_POLICY_NONE then None else Some (to_string_u32 policy)) else stored_policy f v))
    \<and> writeEvents (WritePolicyByUid uid policy f) = writeEvents f @ [netPolicy (WritePolicyByUid uid policy f)]"
  using assms file_wf_WritePolicyByUid stored_WritePolicyByUid
  by (simp add: WritePolicyByUid_def WritePolicyByUid_op_def)

theorem WritePolicyByUid_is_map_update_witness:
  "stored_policy (WritePolicyByUid 20001 1
     \<lparr> netPolicy = \<lparr> hosVersion = ''1.0'', uidPolicies = [], backgroundPolicyStatus = ''allow'',
         netQuotaPolicies = [], netFirewallRules = [] \<rparr>, writeEvents = [] \<rparr>) 20001 = Some (to_string_u32 1)"
  using WritePolicyByUid_is_map_update [of "\<lparr> netPolicy = \<lparr> hosVersion = ''1.0'', uidPolicies = [],
      backgroundPolicyStatus = ''allow'', netQuotaPolicies = [], netFirewallRules = [] \<rparr>, writeEvents = [] \<rparr>" 20001 1]
  by (simp add: file_wf_def)

text \<open>
  The arbitration compares the new policy with the uid instead of the stored policy: for
  a uid that has an entry and equals the new policy value, nothing is recorded, whatever
  policy is stored.
\<close>

theorem Arbitration_ignores_stored_policy:
  assumes "file_wf f" "stored_policy f uid = Some old" "uid = policy"
  shows "ArbitrationWritePolicyToFile uid policy f = NET_POLICY_UID_OP_TYPE_DO_NOTHING
       \<and> stored_policy (WritePolicyByUid uid policy f) uid = Some old"
  using assms by (simp add: WritePolicyByUid_def Arbitration_eq stored_policy_def WritePolicyByUid_uids)

theorem Arbitration_ignores_stored_policy_witness:
  "ArbitrationWritePolicyToFile 1 1
     \<lparr> netPolicy = \<lparr> hosVersion = ''1.0'', uidPolicies = [\<lparr> up_uid = to_string_u32 1, up_policy = to_string_u32 2 \<rparr>],
         backgroundPolicyStatus = ''allow'', netQuotaPolicies = [], netFirewallRules = [] \<rparr>, writeEvents = [] \<rparr>
   = NET_POLICY_UID_OP_TYPE_DO_NOTHING"
proof -
  let ?f = "\<lparr> netPolicy = \<lparr> hosVersion = ''1.0'', uidPolicies = [\<lparr> up_uid = to_string_u32 1, up_policy = to_string_u32 2 \<rparr>],
         backgroundPolicyStatus = ''allow'', netQuotaPolicies = [], netFirewallRules = [] \<rparr>, writeEvents = [] \<rparr>"
  have "file_wf ?f" by (auto simp: file_wf_def intro: exI [of _ "1 :: u32"])
  moreover have "stored_policy ?f 1 = Some (to_string_u32 2)" by (simp add: stored_policy_def)
  ultimately show ?thesis using Arbitration_ignores_stored_policy [of ?f 1 _ 1] by blast
qed

text \<open>
  C18. Quota policies with different (network type, SIM) keys that are written to the document
  and read back come back in order, with every number intact, but the limit action, the
  time of the last warning and the deprecated fields return to their defaults.
\<close>

theorem quota_policies_persist:
  assumes "distinct (map quota_key qs)" "\<forall>q \<in> set qs. quota_ranges q"
  shows "ReadQuotaPolicies (snd (WriteQuotaPolicies qs f)) [] = map persisted qs"
  using assms WriteQuotaPolicies_loop_distinct [of "[]" qs] ReadQuotaPolicies_loop_eq [OF default_rest_start]
  by (simp add: ReadQuotaPolicies_def WriteQuotaPolicies_def)

theorem quota_policies_persist_witness:
  "ReadQuotaPolicies (snd (WriteQuotaPolicies [NetQuotaPolicy_default]
     \<lparr> netPolicy = \<lparr> hosVersion = ''1.0'', uidPolicies = [], backgroundPolicyStatus = ''allow'',
         netQuotaPolicies = [], netFirewallRules = [] \<rparr>, writeEvents = [] \<rparr>)) [] = [persisted NetQuotaPolicy_default]"
  using quota_policies_persist [of "[NetQuotaPolicy_default]" "\<lparr> netPolicy = \<lparr> hosVersion = ''1.0'', uidPolicies = [],
      backgroundPolicyStatus = ''allow'', netQuotaPolicies = [], netFirewallRules = [] \<rparr>, writeEvents = [] \<rparr>"]
  by (simp add: quota_ranges_def int64_def NetQuotaPolicy_default_def)

end
