(* ===== verification/Policy_Callback.thy ===== *)
theory Policy_Callback
  imports Quota_Policy
begin

text \<open>
  The class \<open>NetPolicyCallback\<close>
  (\<open>services/netpolicymanager/src/core/net_policy_callback.cpp\<close>): the registered observers
  of the policy service and the notifications they get. An observer is the identity of
  its remote object; a null reference is \<open>None\<close>. \<open>delivered\<close> is the history of the calls
  made on observers.
\<close>

section \<open>State and operations\<close>

abbreviation LIMIT_CALLBACK_NUM :: nat where "LIMIT_CALLBACK_NUM \<equiv> 200"
abbreviation POLICY_ERR_INVALID_POLICY :: int where "POLICY_ERR_INVALID_POLICY \<equiv> 2104003"
abbreviation POLICY_ERR_INVALID_QUOTA_POLICY :: int where "POLICY_ERR_INVALID_QUOTA_POLICY \<equiv> 2104004"
abbreviation POLICY_ERR_QUOTA_POLICY_NOT_EXIST :: int where "POLICY_ERR_QUOTA_POLICY_NOT_EXIST \<equiv> 2104005"

datatype PolicyNotice =
    NetUidPolicyChange u32 u32
  | NetUidRuleChange u32 u32
  | NetBackgroundPolicyChange bool
  | NetQuotaPolicyChange "NetQuotaPolicy list"
  | NetMeteredIfacesChange "string list"

record NetPolicyCallback =
  pc_callbacks :: "nat list"
  delivered :: "(nat \<times> PolicyNotice) list"

definition RegisterNetPolicyCallback :: "nat option \<Rightarrow> NetPolicyCallback \<Rightarrow> int \<times> NetPolicyCallback" where
  "RegisterNetPolicyCallback callback c =
     (case callback of
        None \<Rightarrow> (NETMANAGER_ERR_PARAMETER_ERROR, c)
      | Some cb \<Rightarrow>
          if length (pc_callbacks c) \<ge> LIMIT_CALLBACK_NUM then (NETMANAGER_ERR_PARAMETER_ERROR, c)
          else if cb \<in> set (pc_callbacks c) then (NETMANAGER_ERR_PARAMETER_ERROR, c)
          else (NETMANAGER_SUCCESS, c\<lparr> pc_callbacks := pc_callbacks c @ [cb] \<rparr>))"

definition UnregisterNetPolicyCallback :: "nat option \<Rightarrow> NetPolicyCallback \<Rightarrow> int \<times> NetPolicyCallback" where
  "UnregisterNetPolicyCallback callback c =
     (case callback of
        None \<Rightarrow> (NETMANAGER_ERR_PARAMETER_ERROR, c)
      | Some cb \<Rightarrow> (NETMANAGER_SUCCESS, c\<lparr> pc_callbacks := filter (\<lambda>x. x \<noteq> cb) (pc_callbacks c) \<rparr>))"

definition deliver :: "PolicyNotice \<Rightarrow> NetPolicyCallback \<Rightarrow> NetPolicyCallback" where
  "deliver n c = c\<lparr> delivered := delivered c @ map (\<lambda>cb. (cb, n)) (pc_callbacks c) \<rparr>"

definition NotifyNetUidPolicyChange :: "u32 \<Rightarrow> u32 \<Rightarrow> NetPolicyCallback \<Rightarrow> int \<times> NetPolicyCallback" where
  "NotifyNetUidPolicyChange uid policy c = (NETMANAGER_SUCCESS, deliver (NetUidPolicyChange uid policy) c)"

definition NotifyNetUidRuleChange :: "u32 \<Rightarrow> u32 \<Rightarrow> NetPolicyCallback \<Rightarrow> int \<times> NetPolicyCallback" where
  "NotifyNetUidRuleChange uid rule c = (NETMANAGER_SUCCESS, deliver (NetUidRuleChange uid rule) c)"

definition NotifyNetBackgroundPolicyChange :: "bool \<Rightarrow> NetPolicyCallback \<Rightarrow> int \<times> NetPolicyCallback" where
  "NotifyNetBackgroundPolicyChange isAllowed c =
     (NETMANAGER_SUCCESS, deliver (NetBackgroundPolicyChange isAllowed) c)"

definition NotifyNetQuotaPolicyChange :: "NetQuotaPolicy list \<Rightarrow> NetPolicyCallback \<Rightarrow> int \<times> NetPolicyCallback" where
  "NotifyNetQuotaPolicyChange quotaPolicies c =
     (if quotaPolicies = [] then (POLICY_ERR_QUOTA_POLICY_NOT_EXIST, c)
      else (NETMANAGER_SUCCESS, deliver (NetQuotaPolicyChange quotaPolicies) c))"

definition NotifyNetMeteredIfacesChange :: "string list \<Rightarrow> NetPolicyCallback \<Rightarrow> int \<times> NetPolicyCallback" where
  "NotifyNetMeteredIfacesChange ifaces c = (NETMANAGER_SUCCESS, deliver (NetMeteredIfacesChange ifaces) c)"

definition callbacks_ok :: "NetPolicyCallback \<Rightarrow> bool" where
  "callbacks_ok c = (distinct (pc_callbacks c) \<and> length (pc_callbacks c) \<le> LIMIT_CALLBACK_NUM)"

section \<open>Lemmas\<close>

lemma pc_callbacks_deliver [simp]: "pc_callbacks (deliver n c) = pc_callbacks c"
  by (simp add: deliver_def)

lemma callbacks_ok_register: "callbacks_ok c \<Longrightarrow> callbacks_ok (snd (RegisterNetPolicyCallback cb c))"
  by (auto simp: RegisterNetPolicyCallback_def callbacks_ok_def split: option.split)

lemma callbacks_ok_unregister: "callbacks_ok c \<Longrightarrow> callbacks_ok (snd (UnregisterNetPolicyCallback cb c))"
  by (auto simp: UnregisterNetPolicyCallback_def callbacks_ok_def intro: le_trans [OF length_filter_le] split: option.split)

end
