(* ===== verification/Policy_Rule.thy ===== *)
theory Policy_Rule
  imports Native Policy_File Policy_Callback
begin

unbundle bit_operations_syntax

text \<open>
  The class \<open>NetPolicyRule\<close> (\<open>services/netpolicymanager/src/core/net_policy_rule.cpp\<close>): the
  policy of each application uid, the rule derived from it and from the state of the
  device, and the control of the bandwidth boxes that follows from the rule. The rule is
  found in a table of 20-bit words (condition, rule, control); the properties give the
  decision the table makes, show that every entry is kept up to date by the events that
  recompute it, and relate the entries to the boxes of the native daemon.
\<close>

section \<open>Constants\<close>

abbreviation NET_RULE_NONE :: u32 where "NET_RULE_NONE \<equiv> 0"
abbreviation NET_RULE_ALLOW_METERED_FOREGROUND :: u32 where "NET_RULE_ALLOW_METERED_FOREGROUND \<equiv> 1"
abbreviation NET_RULE_ALLOW_METERED :: u32 where "NET_RULE_ALLOW_METERED \<equiv> 2"
abbreviation NET_RULE_REJECT_METERED :: u32 where "NET_RULE_REJECT_METERED \<equiv> 4"
abbreviation NET_RULE_ALLOW_ALL :: u32 where "NET_RULE_ALLOW_ALL \<equiv> 32"
abbreviation NET_RULE_REJECT_ALL :: u32 where "NET_RULE_REJECT_ALL \<equiv> 64"

abbreviation NET_BACKGROUND_POLICY_ENABLE :: u32 where "NET_BACKGROUND_POLICY_ENABLE \<equiv> 1"
abbreviation NET_BACKGROUND_POLICY_DISABLE :: u32 where "NET_BACKGROUND_POLICY_DISABLE \<equiv> 2"
abbreviation NET_BACKGROUND_POLICY_TRUSTLIST :: u32 where "NET_BACKGROUND_POLICY_TRUSTLIST \<equiv> 3"

abbreviation POLICY_TRANS_CONDITION_UID_POLICY_NONE :: u32 where "POLICY_TRANS_CONDITION_UID_POLICY_NONE \<equiv> 0b1"
abbreviation POLICY_TRANS_CONDITION_FOREGROUND :: u32 where "POLICY_TRANS_CONDITION_FOREGROUND \<equiv> 0b1000"
abbreviation POLICY_TRANS_CONDITION_BACKGROUND_RESTRICT :: u32 where "POLICY_TRANS_CONDITION_BACKGROUND_RESTRICT \<equiv> 0b10000"
abbreviation POLICY_TRANS_CONDITION_IDLE_ALLOWEDLIST :: u32 where "POLICY_TRANS_CONDITION_IDLE_ALLOWEDLIST \<equiv> 0b100000"
abbreviation POLICY_TRANS_CONDITION_IDLE_MODE :: u32 where "POLICY_TRANS_CONDITION_IDLE_MODE \<equiv> 0b1000000"
abbreviation POLICY_TRANS_CONDITION_POWERSAVE_ALLOWEDLIST :: u32 where "POLICY_TRANS_CONDITION_POWERSAVE_ALLOWEDLIST \<equiv> 0b10000000"
abbreviation POLICY_TRANS_CONDITION_POWERSAVE_MODE :: u32 where "POLICY_TRANS_CONDITION_POWERSAVE_MODE \<equiv> 0b100000000"
abbreviation POLICY_TRANS_CONDITION_ADMIN_RESTRICT :: u32 where "POLICY_TRANS_CONDITION_ADMIN_RESTRICT \<equiv> 0b1000000000"

abbreviation POLICY_TRANS_CONDITION_MASK :: u32 where "POLICY_TRANS_CONDITION_MASK \<equiv> 0b11111111110000000000"
abbreviation POLICY_TRANS_RULE_MASK :: u32 where "POLICY_TRANS_RULE_MASK \<equiv> 0b00000000001111111000"
abbreviation POLICY_TRANS_NET_CTRL_MASK :: u32 where "POLICY_TRANS_NET_CTRL_MASK \<equiv> 0b00000000000000000111"

abbreviation POLICY_TRANS_CTRL_NONE :: u32 where "POLICY_TRANS_CTRL_NONE \<equiv> 0"
abbreviation POLICY_TRANS_CTRL_REMOVE_ALL :: u32 where "POLICY_TRANS_CTRL_REMOVE_ALL \<equiv> 1"
abbreviation POLICY_TRANS_CTRL_ADD_DENIEDLIST :: u32 where "POLICY_TRANS_CTRL_ADD_DENIEDLIST \<equiv> 2"
abbreviation POLICY_TRANS_CTRL_ADD_ALLOWEDLIST :: u32 where "POLICY_TRANS_CTRL_ADD_ALLOWEDLIST \<equiv> 4"

definition POLICY_TRANS_MAP :: "u32 list" where
  "POLICY_TRANS_MAP =
     [0b00011000000100000000, 0b10000000000000100010, 0b00010000001000000000, 0b00000010100000010100,
      0b00000011000000001100, 0b00000010010000001100, 0b01000000001000000000, 0b00000100100000010100,
      0b00000100010000100010, 0b00000000010000000001, 0b00000001000000100010, 0b00000000000000000001]"

section \<open>State\<close>

record UidPolicyRule =
  upr_policy :: u32
  upr_rule :: u32
  upr_netsys :: u32

record NetPolicyRule =
  uidPolicyRules :: "(u32, UidPolicyRule) omap"
  backgroundAllow :: bool
  deviceIdleMode :: bool
  powerSaveMode :: bool
  deviceIdleAllowedList :: "u32 set"
  powerSaveAllowedList :: "u32 set"
  foregroundUidList :: "u32 set"

text \<open>What the policy components share: the native daemon, the policy file, the observers.\<close>

record policy_world =
  pw_netsys :: netsys
  pw_file :: NetPolicyFile
  pw_cb :: NetPolicyCallback

type_synonym rule_state = "NetPolicyRule \<times> policy_world"

definition NetPolicyRule_ctor :: NetPolicyRule where
  "NetPolicyRule_ctor =
     \<lparr> uidPolicyRules = [], backgroundAllow = True, deviceIdleMode = False, powerSaveMode = False,
       deviceIdleAllowedList = {}, powerSaveAllowedList = {}, foregroundUidList = {} \<rparr>"

text \<open>Calls on the daemon and on the observers whose result is ignored.\<close>

definition netsys_call :: "(netsys \<Rightarrow> int \<times> netsys) \<Rightarrow> policy_world \<Rightarrow> policy_world" where
  "netsys_call f w = w\<lparr> pw_netsys := snd (f (pw_netsys w)) \<rparr>"

definition notify :: "(NetPolicyCallback \<Rightarrow> int \<times> NetPolicyCallback) \<Rightarrow> policy_world \<Rightarrow> policy_world" where
  "notify f w = w\<lparr> pw_cb := snd (f (pw_cb w)) \<rparr>"

definition on_file :: "(NetPolicyFile \<Rightarrow> NetPolicyFile) \<Rightarrow> policy_world \<Rightarrow> policy_world" where
  "on_file f w = w\<lparr> pw_file := f (pw_file w) \<rparr>"

section \<open>Conditions\<close>

definition IsIdleMode :: "NetPolicyRule \<Rightarrow> bool" where
  "IsIdleMode p = deviceIdleMode p"

definition InIdleAllowedList :: "u32 \<Rightarrow> NetPolicyRule \<Rightarrow> bool" where
  "InIdleAllowedList uid p = (uid \<in> deviceIdleAllowedList p)"

definition IsLimitByAdmin :: bool where
  "IsLimitByAdmin = False"

definition IsForeground :: "u32 \<Rightarrow> NetPolicyRule \<Rightarrow> bool" where
  "IsForeground uid p = (uid \<in> foregroundUidList p)"

definition IsPowerSave :: "NetPolicyRule \<Rightarrow> bool" where
  "IsPowerSave p = powerSaveMode p"

definition InPowerSaveAllowedList :: "u32 \<Rightarrow> NetPolicyRule \<Rightarrow> bool" where
  "InPowerSaveAllowedList uid p = (uid \<in> powerSaveAllowedList p)"

definition IsLimitedBackground :: "NetPolicyRule \<Rightarrow> bool" where
  "IsLimitedBackground p = (\<not> backgroundAllow p)"

definition IsValidNetPolicy :: "u32 \<Rightarrow> bool" where
  "IsValidNetPolicy policy =
     (policy = NET_POLICY_NONE \<or> policy = NET_POLICY_ALLOW_METERED_BACKGROUND \<or> policy = NET_POLICY_REJECT_METERED_BACKGROUND)"

definition ChangePolicyToPolicyTransitionCondition :: "u32 \<Rightarrow> u32" where
  "ChangePolicyToPolicyTransitionCondition policy =
     (if policy = NET_POLICY_NONE then POLICY_TRANS_CONDITION_UID_POLICY_NONE else push_bit 1 policy)"

definition BuildTransCondition :: "u32 \<Rightarrow> u32 \<Rightarrow> NetPolicyRule \<Rightarrow> u32" where
  "BuildTransCondition uid policy p =
     (let c0 = ChangePolicyToPolicyTransitionCondition policy;
          c1 = (if IsIdleMode p then c0 OR POLICY_TRANS_CONDITION_IDLE_MODE else c0);
          c2 = (if InIdleAllowedList uid p then c1 OR POLICY_TRANS_CONDITION_IDLE_ALLOWEDLIST else c1);
          c3 = (if IsLimitByAdmin then c2 OR POLICY_TRANS_CONDITION_ADMIN_RESTRICT else c2);
          c4 = (if IsPowerSave p then c3 OR POLICY_TRANS_CONDITION_POWERSAVE_MODE else c3);
          c5 = (if InPowerSaveAllowedList uid p then c4 OR POLICY_TRANS_CONDITION_POWERSAVE_ALLOWEDLIST else c4);
          c6 = (if IsLimitedBackground p then c5 OR POLICY_TRANS_CONDITION_BACKGROUND_RESTRICT else c5);
          c7 = (if IsForeground uid p then c6 OR POLICY_TRANS_CONDITION_FOREGROUND else c6)
      in c7)"

definition MoveToConditionBit :: "u32 \<Rightarrow> u32" where
  "MoveToConditionBit value = drop_bit 10 value"

definition MoveToRuleBit :: "u32 \<Rightarrow> u32" where
  "MoveToRuleBit value = drop_bit 3 value"

fun match_loop :: "u32 \<Rightarrow> u32 list \<Rightarrow> u32" where
  "match_loop policyCondition [] = last POLICY_TRANS_MAP"
| "match_loop policyCondition (i # is) =
     (let condition = MoveToConditionBit (i AND POLICY_TRANS_CONDITION_MASK) in
      if policyCondition AND condition = condition then i else match_loop policyCondition is)"

definition GetMatchTransCondition :: "u32 \<Rightarrow> u32" where
  "GetMatchTransCondition policyCondition = match_loop policyCondition POLICY_TRANS_MAP"

section \<open>Applying a decision\<close>

definition ProcessCtrlNone :: "u32 \<Rightarrow> NetPolicyRule \<Rightarrow> policy_world \<Rightarrow> policy_world" where
  "ProcessCtrlNone uid p w =
     (if IsPowerSave p then netsys_call (PowerSaveUpdataAllowedList uid RULE_DENY) w else w)"

definition ProcessCtrlAddAllowedList :: "u32 \<Rightarrow> NetPolicyRule \<Rightarrow> policy_world \<Rightarrow> policy_world" where
  "ProcessCtrlAddAllowedList uid p w =
     (let w1 = netsys_call (BandwidthRemoveDeniedList uid) w;
          w2 = netsys_call (BandwidthAddAllowedList uid) w1 in
      if IsPowerSave p then netsys_call (PowerSaveUpdataAllowedList uid RULE_ALLOW) w2 else w2)"

definition NetsysCtrl :: "u32 \<Rightarrow> u32 \<Rightarrow> NetPolicyRule \<Rightarrow> policy_world \<Rightarrow> policy_world" where
  "NetsysCtrl uid netsysCtrl p w =
     (if netsysCtrl = POLICY_TRANS_CTRL_NONE then ProcessCtrlNone uid p w
      else if netsysCtrl = POLICY_TRANS_CTRL_REMOVE_ALL then
        netsys_call (BandwidthRemoveDeniedList uid) (netsys_call (BandwidthRemoveAllowedList uid) w)
      else if netsysCtrl = POLICY_TRANS_CTRL_ADD_DENIEDLIST then
        netsys_call (BandwidthRemoveAllowedList uid) (netsys_call (BandwidthAddDeniedList uid) w)
      else if netsysCtrl = POLICY_TRANS_CTRL_ADD_ALLOWEDLIST then ProcessCtrlAddAllowedList uid p w
      else w)"

definition TransConditionToRuleAndNetsys ::
  "NetPolicyRule \<Rightarrow> u32 \<Rightarrow> UidPolicyRule \<Rightarrow> policy_world \<Rightarrow> UidPolicyRule \<times> policy_world" where
  "TransConditionToRuleAndNetsys p uid r w =
     (let policyCondition = BuildTransCondition uid (upr_policy r) p;
          conditionValue = GetMatchTransCondition policyCondition;
          rule = MoveToRuleBit (conditionValue AND POLICY_TRANS_RULE_MASK);
          netsys = conditionValue AND POLICY_TRANS_NET_CTRL_MASK;
          w1 = (if upr_netsys r \<noteq> netsys then NetsysCtrl uid netsys p w else w);
          w2 = on_file (WritePolicyByUid uid (upr_policy r)) w1;
          w3 = (if upr_rule r = rule then w2 else notify (NotifyNetUidRuleChange uid rule) w2)
      in (r\<lparr> upr_rule := rule, upr_netsys := netsys \<rparr>, w3))"

section \<open>Recomputing rules\<close>

fun trans_entries ::
  "NetPolicyRule \<Rightarrow> (u32 \<times> UidPolicyRule) list \<Rightarrow> policy_world \<Rightarrow> (u32 \<times> UidPolicyRule) list \<times> policy_world" where
  "trans_entries p [] w = ([], w)"
| "trans_entries p ((uid, r) # es) w =
     (case TransConditionToRuleAndNetsys p uid r w of (r', w1) \<Rightarrow>
      case trans_entries p es w1 of (es', w2) \<Rightarrow> ((uid, r') # es', w2))"

definition TransPolicyToRule_all :: "rule_state \<Rightarrow> rule_state" where
  "TransPolicyToRule_all s =
     (case s of (p, w) \<Rightarrow>
      case trans_entries p (uidPolicyRules p) w of (es, w') \<Rightarrow> (p\<lparr> uidPolicyRules := es \<rparr>, w'))"

definition trans_uid :: "u32 \<Rightarrow> UidPolicyRule \<Rightarrow> rule_state \<Rightarrow> rule_state" where
  "trans_uid uid r s =
     (case s of (p, w) \<Rightarrow>
      case TransConditionToRuleAndNetsys p uid r w of (r', w') \<Rightarrow>
        (p\<lparr> uidPolicyRules := om_put uid r' (uidPolicyRules p) \<rparr>, w'))"

definition TransPolicyToRule_uid :: "u32 \<Rightarrow> rule_state \<Rightarrow> rule_state" where
  "TransPolicyToRule_uid uid s =
     (case om_get (uidPolicyRules (fst s)) uid of None \<Rightarrow> s | Some r \<Rightarrow> trans_uid uid r s)"

definition TransPolicyToRule :: "u32 \<Rightarrow> u32 \<Rightarrow> rule_state \<Rightarrow> int \<times> rule_state" where
  "TransPolicyToRule uid policy s =
     (if \<not> IsValidNetPolicy policy then (POLICY_ERR_INVALID_POLICY, s)
      else case s of (p, w) \<Rightarrow>
        (case om_get (uidPolicyRules p) uid of
           None \<Rightarrow>
             (NETMANAGER_SUCCESS,
              trans_uid uid \<lparr> upr_policy = policy, upr_rule = 128, upr_netsys = 7 \<rparr>
                (p, notify (NotifyNetUidPolicyChange uid policy) w))
         | Some r \<Rightarrow>
             if upr_policy r \<noteq> policy
             then (NETMANAGER_SUCCESS,
                   trans_uid uid (r\<lparr> upr_policy := policy \<rparr>) (p, notify (NotifyNetUidPolicyChange uid policy) w))
             else (NETMANAGER_SUCCESS, trans_uid uid r (p, w))))"

fun init_loop :: "UidPolicy list \<Rightarrow> rule_state \<Rightarrow> rule_state" where
  "init_loop [] s = s"
| "init_loop (i # is) s =
     init_loop is (snd (TransPolicyToRule (StrToUint (up_uid i) 0) (StrToUint (up_policy i) 0) s))"

text \<open>
  The loop of \<open>Init\<close> runs over the vector of the file while \<open>WritePolicyByUid\<close> writes to it;
  the model runs over the vector as it was read.
\<close>

definition Rule_Init :: "rule_state \<Rightarrow> rule_state" where
  "Rule_Init s =
     (case s of (p, w) \<Rightarrow>
      init_loop (uidPolicies (netPolicy (pw_file w)))
        (p\<lparr> backgroundAllow := ReadBackgroundPolicy (pw_file w) \<rparr>, w))"

section \<open>Queries and requests\<close>

definition GetPolicyByUid :: "u32 \<Rightarrow> NetPolicyRule \<Rightarrow> int \<times> u32" where
  "GetPolicyByUid uid p =
     (case om_get (uidPolicyRules p) uid of
        None \<Rightarrow> (NETMANAGER_SUCCESS, NET_POLICY_NONE) | Some r \<Rightarrow> (NETMANAGER_SUCCESS, upr_policy r))"

definition GetUidsByPolicy :: "u32 \<Rightarrow> u32 list \<Rightarrow> NetPolicyRule \<Rightarrow> int \<times> u32 list" where
  "GetUidsByPolicy policy uids p =
     (if \<not> IsValidNetPolicy policy then (POLICY_ERR_INVALID_POLICY, uids)
      else (NETMANAGER_SUCCESS, uids @ map fst (filter (\<lambda>e. upr_policy (snd e) = policy) (uidPolicyRules p))))"

definition IsUidNetAllowed :: "u32 \<Rightarrow> bool \<Rightarrow> NetPolicyRule \<Rightarrow> int \<times> bool" where
  "IsUidNetAllowed uid isMetered p =
     (let rule = (case om_get (uidPolicyRules p) uid of None \<Rightarrow> NET_RULE_NONE | Some r \<Rightarrow> upr_rule r) in
      if rule = NET_RULE_REJECT_ALL then (NETMANAGER_SUCCESS, False)
      else if \<not> isMetered then (NETMANAGER_SUCCESS, True)
      else if rule = NET_RULE_REJECT_METERED then (NETMANAGER_SUCCESS, False)
      else if rule = NET_RULE_ALLOW_METERED then (NETMANAGER_SUCCESS, True)
      else if rule = NET_RULE_ALLOW_METERED_FOREGROUND then (NETMANAGER_SUCCESS, True)
      else if \<not> backgroundAllow p then (NETMANAGER_SUCCESS, False)
      else (NETMANAGER_SUCCESS, True))"

definition SetBackgroundPolicy :: "bool \<Rightarrow> rule_state \<Rightarrow> int \<times> rule_state" where
  "SetBackgroundPolicy allow s =
     (case s of (p, w) \<Rightarrow>
      if backgroundAllow p \<noteq> allow then
        case TransPolicyToRule_all
               (p\<lparr> backgroundAllow := allow \<rparr>, notify (NotifyNetBackgroundPolicyChange allow) w)
        of (p1, w1) \<Rightarrow>
          (NETMANAGER_SUCCESS, p1,
           netsys_call (BandwidthEnableDataSaver (\<not> allow)) (on_file (WriteBackgroundPolicy allow) w1))
      else (NETMANAGER_ERR_PARAMETER_ERROR, s))"

definition GetBackgroundPolicyByUid :: "u32 \<Rightarrow> NetPolicyRule \<Rightarrow> int \<times> u32" where
  "GetBackgroundPolicyByUid uid p =
     (let policy = snd (GetPolicyByUid uid p) in
      if policy AND NET_POLICY_REJECT_METERED_BACKGROUND \<noteq> 0 then (NETMANAGER_SUCCESS, NET_BACKGROUND_POLICY_DISABLE)
      else if backgroundAllow p then (NETMANAGER_SUCCESS, NET_BACKGROUND_POLICY_ENABLE)
      else if policy AND NET_POLICY_ALLOW_METERED_BACKGROUND \<noteq> 0 then (NETMANAGER_SUCCESS, NET_BACKGROUND_POLICY_TRUSTLIST)
      else (NETMANAGER_SUCCESS, NET_BACKGROUND_POLICY_DISABLE))"

fun reset_loop :: "u32 list \<Rightarrow> rule_state \<Rightarrow> rule_state" where
  "reset_loop [] s = s"
| "reset_loop (uid # uids) s = reset_loop uids (snd (TransPolicyToRule uid NET_POLICY_NONE s))"

definition Rule_ResetPolicies :: "rule_state \<Rightarrow> int \<times> rule_state" where
  "Rule_ResetPolicies s = SetBackgroundPolicy True (reset_loop (map fst (uidPolicyRules (fst s))) s)"

definition GetBackgroundPolicy :: "NetPolicyRule \<Rightarrow> int \<times> bool" where
  "GetBackgroundPolicy p = (NETMANAGER_SUCCESS, backgroundAllow p)"

definition Rule_DeleteUid :: "u32 \<Rightarrow> rule_state \<Rightarrow> rule_state" where
  "Rule_DeleteUid uid s =
     (case s of (p, w) \<Rightarrow>
      (p\<lparr> uidPolicyRules := om_del uid (uidPolicyRules p) \<rparr>,
       netsys_call (BandwidthRemoveAllowedList uid)
         (netsys_call (BandwidthRemoveDeniedList uid) (on_file (RemoveInexistentUid uid) w))))"

definition UpdateForegroundUidList :: "u32 \<Rightarrow> bool \<Rightarrow> NetPolicyRule \<Rightarrow> NetPolicyRule" where
  "UpdateForegroundUidList uid isForeground p =
     (if isForeground then p\<lparr> foregroundUidList := insert uid (foregroundUidList p) \<rparr>
      else p\<lparr> foregroundUidList := foregroundUidList p - {uid} \<rparr>)"

section \<open>Events\<close>

text \<open>The messages of \<open>NetPolicyEventHandler\<close> with the part of \<open>PolicyEvent\<close> they carry.\<close>

datatype PolicyMessage =
    MSG_DEVICE_IDLE_LIST_UPDATED "u32 set"
  | MSG_DEVICE_IDLE_MODE_CHANGED bool
  | MSG_POWER_SAVE_MODE_CHANGED bool
  | MSG_POWER_SAVE_LIST_UPDATED "u32 set"
  | MSG_UID_REMOVED u32
  | MSG_UID_STATE_FOREGROUND u32
  | MSG_UID_STATE_BACKGROUND u32

definition Rule_HandleEvent :: "PolicyMessage \<Rightarrow> rule_state \<Rightarrow> rule_state" where
  "Rule_HandleEvent msg s =
     (case s of (p, w) \<Rightarrow>
      (case msg of
         MSG_DEVICE_IDLE_LIST_UPDATED l \<Rightarrow> (p\<lparr> deviceIdleAllowedList := l \<rparr>, w)
       | MSG_DEVICE_IDLE_MODE_CHANGED m \<Rightarrow> TransPolicyToRule_all (p\<lparr> deviceIdleMode := m \<rparr>, w)
       | MSG_POWER_SAVE_MODE_CHANGED m \<Rightarrow> TransPolicyToRule_all (p\<lparr> powerSaveMode := m \<rparr>, w)
       | MSG_POWER_SAVE_LIST_UPDATED l \<Rightarrow> (p\<lparr> powerSaveAllowedList := l \<rparr>, w)
       | MSG_UID_REMOVED uid \<Rightarrow> Rule_DeleteUid uid (p, w)
       | MSG_UID_STATE_FOREGROUND uid \<Rightarrow> TransPolicyToRule_uid uid (UpdateForegroundUidList uid True p, w)
       | MSG_UID_STATE_BACKGROUND uid \<Rightarrow> TransPolicyToRule_uid uid (UpdateForegroundUidList uid False p, w)))"

section \<open>The decision of the table\<close>

text \<open>
  Rule and control for a uid, written as a decision on the policy, the device modes and
  the lists.
\<close>

definition decide :: "u32 \<Rightarrow> bool \<Rightarrow> bool \<Rightarrow> bool \<Rightarrow> bool \<Rightarrow> bool \<Rightarrow> u32 \<times> u32" where
  "decide policy idle idleAllowed foreground powerSave limitedBackground =
     (if idle then (if idleAllowed then NET_RULE_ALLOW_ALL else NET_RULE_REJECT_ALL, POLICY_TRANS_CTRL_NONE)
      else if foreground then
        (if policy = NET_POLICY_ALLOW_METERED_BACKGROUND then NET_RULE_ALLOW_METERED
         else NET_RULE_ALLOW_METERED_FOREGROUND, POLICY_TRANS_CTRL_ADD_ALLOWEDLIST)
      else if powerSave then (NET_RULE_REJECT_ALL, POLICY_TRANS_CTRL_NONE)
      else if policy = NET_POLICY_REJECT_METERED_BACKGROUND then (NET_RULE_REJECT_METERED, POLICY_TRANS_CTRL_ADD_DENIEDLIST)
      else if \<not> limitedBackground then (NET_RULE_NONE, POLICY_TRANS_CTRL_REMOVE_ALL)
      else if policy = NET_POLICY_ALLOW_METERED_BACKGROUND then (NET_RULE_ALLOW_METERED, POLICY_TRANS_CTRL_ADD_ALLOWEDLIST)
      else (NET_RULE_REJECT_METERED, POLICY_TRANS_CTRL_ADD_DENIEDLIST))"

definition decision :: "NetPolicyRule \<Rightarrow> u32 \<Rightarrow> u32 \<Rightarrow> u32 \<times> u32" where
  "decision p uid policy =
     decide policy (deviceIdleMode p) (uid \<in> deviceIdleAllowedList p) (uid \<in> foregroundUidList p)
       (powerSaveMode p) (\<not> backgroundAllow p)"

definition decode :: "u32 \<Rightarrow> u32 \<times> u32" where
  "decode v = (MoveToRuleBit (v AND POLICY_TRANS_RULE_MASK), v AND POLICY_TRANS_NET_CTRL_MASK)"

definition table_decision :: "u32 \<Rightarrow> u32 \<times> u32" where
  "table_decision condition = decode (GetMatchTransCondition condition)"

section \<open>Vocabulary of the properties\<close>

definition denied :: "policy_world \<Rightarrow> u32 set" where
  "denied w = deniedListUids (ns_bw (pw_netsys w))"

definition allowed :: "policy_world \<Rightarrow> u32 set" where
  "allowed w = allowedListUids (ns_bw (pw_netsys w))"

definition online :: "policy_world \<Rightarrow> bool" where
  "online w = ns_proxy (pw_netsys w)"

definition data_saver :: "policy_world \<Rightarrow> bool" where
  "data_saver w = dataSaverEnable (ns_bw (pw_netsys w))"

text \<open>What the last control applied to a uid says about its place in the boxes.\<close>

definition ctrl_ok :: "u32 \<Rightarrow> u32 \<Rightarrow> policy_world \<Rightarrow> bool" where
  "ctrl_ok ctrl uid w =
     ((ctrl = POLICY_TRANS_CTRL_REMOVE_ALL \<longrightarrow> uid \<notin> denied w \<and> uid \<notin> allowed w)
    \<and> (ctrl = POLICY_TRANS_CTRL_ADD_DENIEDLIST \<longrightarrow> uid \<in> denied w \<and> uid \<notin> allowed w)
    \<and> (ctrl = POLICY_TRANS_CTRL_ADD_ALLOWEDLIST \<longrightarrow> uid \<notin> denied w \<and> uid \<in> allowed w))"

definition fresh_entry :: "NetPolicyRule \<Rightarrow> u32 \<Rightarrow> UidPolicyRule \<Rightarrow> bool" where
  "fresh_entry p uid r = ((upr_rule r, upr_netsys r) = decision p uid (upr_policy r))"

definition all_fresh :: "NetPolicyRule \<Rightarrow> bool" where
  "all_fresh p = (\<forall>uid r. om_get (uidPolicyRules p) uid = Some r \<longrightarrow> fresh_entry p uid r)"

fun entry_ok :: "UidPolicyRule option \<Rightarrow> u32 \<Rightarrow> policy_world \<Rightarrow> bool" where
  "entry_ok None uid w = (uid \<notin> denied w \<and> uid \<notin> allowed w)"
| "entry_ok (Some r) uid w = (IsValidNetPolicy (upr_policy r) \<and> ctrl_ok (upr_netsys r) uid w)"

definition rule_inv :: "rule_state \<Rightarrow> bool" where
  "rule_inv s =
     (online (snd s) \<and> om_wf (uidPolicyRules (fst s)) \<and> denied (snd s) \<inter> allowed (snd s) = {}
    \<and> (\<forall>uid. entry_ok (om_get (uidPolicyRules (fst s)) uid) uid (snd s)))"

text \<open>The two invariants together; \<open>c\<close> says whether freshness is claimed.\<close>

definition policy_ok :: "bool \<Rightarrow> rule_state \<Rightarrow> bool" where
  "policy_ok c s = (rule_inv s \<and> (c \<longrightarrow> all_fresh (fst s)))"

text \<open>
  The requests and events the component handles, interleaved with changes of the shared world by
  other components that leave the boxes alone. The index of a step is false for an event after
  which the rules are not recomputed although the decision may differ: a new idle list in idle
  mode.
\<close>

definition recomputed :: "PolicyMessage \<Rightarrow> NetPolicyRule \<Rightarrow> bool" where
  "recomputed msg p = (case msg of MSG_DEVICE_IDLE_LIST_UPDATED l \<Rightarrow> \<not> deviceIdleMode p | _ \<Rightarrow> True)"

inductive rule_step :: "bool \<Rightarrow> rule_state \<Rightarrow> rule_state \<Rightarrow> bool" where
  rule_policy: "rule_step True s (snd (TransPolicyToRule uid policy s))"
| rule_background: "rule_step True s (snd (SetBackgroundPolicy allow s))"
| rule_reset: "rule_step True s (snd (Rule_ResetPolicies s))"
| rule_event: "rule_step (recomputed msg (fst s)) s (Rule_HandleEvent msg s)"
| rule_world: "denied w' = denied w \<Longrightarrow> allowed w' = allowed w \<Longrightarrow> online w' = online w \<Longrightarrow> rule_step True (p, w) (p, w')"

text \<open>Start: no uid is in a box, and the policies of the file are loaded.\<close>

inductive rule_reachable :: "bool \<Rightarrow> rule_state \<Rightarrow> bool" where
  rule_start: "online w \<Longrightarrow> denied w = {} \<Longrightarrow> allowed w = {} \<Longrightarrow> rule_reachable True (Rule_Init (NetPolicyRule_ctor, w))"
| rule_next: "rule_reachable c s \<Longrightarrow> rule_step c' s s' \<Longrightarrow> rule_reachable (c \<and> c') s'"

inductive_cases rule_stepE: "rule_step c s s'"

text \<open>An example: a device after its first boot, then with one uid whose policy is to reject.\<close>

definition first_boot :: policy_world where
  "first_boot =
     \<lparr> pw_netsys = \<lparr> ns_proxy = True, ns_bw = BandwidthManager_ctor, ns_fw = FirewallManager_ctor None, ns_ipt = IptablesWrapper_ctor (\<lambda>_. True) \<rparr>,
       pw_file = \<lparr> netPolicy = \<lparr> hosVersion = ''1.0'', uidPolicies = [], backgroundPolicyStatus = ''allow'', netQuotaPolicies = [],
         netFirewallRules = [] \<rparr>, writeEvents = [] \<rparr>,
       pw_cb = \<lparr> pc_callbacks = [], delivered = [] \<rparr> \<rparr>"

definition first_running :: rule_state where
  "first_running = snd (TransPolicyToRule 20001 NET_POLICY_REJECT_METERED_BACKGROUND (Rule_Init (NetPolicyRule_ctor, first_boot)))"

section \<open>Lemmas\<close>

subsection \<open>The table\<close>

lemma and_one: "i < 32 \<Longrightarrow> (c :: u32) AND 2 ^ i = 2 ^ i \<longleftrightarrow> bit c i"
  by (auto simp: bit_eq_iff [of "c AND 2 ^ i"] bit_and_iff bit_exp_iff)

lemma and_two:
  "i < 32 \<Longrightarrow> j < 32 \<Longrightarrow> (c :: u32) AND (2 ^ i OR 2 ^ j) = 2 ^ i OR 2 ^ j \<longleftrightarrow> bit c i \<and> bit c j"
  by (auto simp: bit_eq_iff [of "c AND (2 ^ i OR 2 ^ j)"] bit_and_iff bit_or_iff bit_exp_iff)

lemma if_or: "(if b then x OR k else x) = x OR (if b then k else (0 :: u32))"
  by simp

lemma bit_if: "bit (if b then k else (0 :: u32)) n \<longleftrightarrow> b \<and> bit k n"
  by simp

text \<open>Which bits of the condition are set.\<close>

lemma condition_bits:
  fixes policy uid :: u32 and p :: NetPolicyRule
  assumes "IsValidNetPolicy policy"
  defines "c \<equiv> BuildTransCondition uid policy p"
  shows "bit c 0 \<longleftrightarrow> policy = NET_POLICY_NONE"
    "bit c 1 \<longleftrightarrow> policy = NET_POLICY_ALLOW_METERED_BACKGROUND"
    "bit c 2 \<longleftrightarrow> policy = NET_POLICY_REJECT_METERED_BACKGROUND"
    "bit c 3 \<longleftrightarrow> uid \<in> foregroundUidList p" "bit c 4 \<longleftrightarrow> \<not> backgroundAllow p"
    "bit c 5 \<longleftrightarrow> uid \<in> deviceIdleAllowedList p" "bit c 6 \<longleftrightarrow> deviceIdleMode p"
    "bit c 8 \<longleftrightarrow> powerSaveMode p" "bit c 9 \<longleftrightarrow> False"
proof -
  have policy: "policy = 0 \<or> policy = 1 \<or> policy = 2" using assms(1) by (auto simp: IsValidNetPolicy_def)
  have c: "c = ChangePolicyToPolicyTransitionCondition policy OR (if deviceIdleMode p then 64 else 0)
      OR (if uid \<in> deviceIdleAllowedList p then 32 else 0) OR (if powerSaveMode p then 256 else 0)
      OR (if uid \<in> powerSaveAllowedList p then 128 else 0) OR (if \<not> backgroundAllow p then 16 else 0)
      OR (if uid \<in> foregroundUidList p then 8 else 0)"
    by (simp only: c_def BuildTransCondition_def Let_def IsIdleMode_def InIdleAllowedList_def IsLimitByAdmin_def
        IsPowerSave_def InPowerSaveAllowedList_def IsLimitedBackground_def IsForeground_def if_or if_False or.assoc or.left_neutral)
  show "bit c 0 \<longleftrightarrow> policy = NET_POLICY_NONE"
    "bit c 1 \<longleftrightarrow> policy = NET_POLICY_ALLOW_METERED_BACKGROUND"
    "bit c 2 \<longleftrightarrow> policy = NET_POLICY_REJECT_METERED_BACKGROUND"
    "bit c 3 \<longleftrightarrow> uid \<in> foregroundUidList p" "bit c 4 \<longleftrightarrow> \<not> backgroundAllow p"
    "bit c 5 \<longleftrightarrow> uid \<in> deviceIdleAllowedList p" "bit c 6 \<longleftrightarrow> deviceIdleMode p"
    "bit c 8 \<longleftrightarrow> powerSaveMode p" "bit c 9 \<longleftrightarrow> False"
    using policy by (elim disjE; simp add: c bit_or_iff bit_if ChangePolicyToPolicyTransitionCondition_def)+
qed

lemma match_table:
  "GetMatchTransCondition c =
     (if bit c 5 \<and> bit c 6 then 0b00011000000100000000
      else if bit c 9 then 0b10000000000000100010
      else if bit c 6 then 0b00010000001000000000
      else if bit c 1 \<and> bit c 3 then 0b00000010100000010100
      else if bit c 2 \<and> bit c 3 then 0b00000011000000001100
      else if bit c 0 \<and> bit c 3 then 0b00000010010000001100
      else if bit c 8 then 0b01000000001000000000
      else if bit c 1 \<and> bit c 4 then 0b00000100100000010100
      else if bit c 0 \<and> bit c 4 then 0b00000100010000100010
      else if bit c 0 then 0b00000000010000000001
      else if bit c 2 then 0b00000001000000100010
      else 0b00000000000000000001)"
proof -
  have one: "c AND 512 = 512 \<longleftrightarrow> bit c 9" "c AND 64 = 64 \<longleftrightarrow> bit c 6" "c AND 256 = 256 \<longleftrightarrow> bit c 8"
    "c AND 1 = 1 \<longleftrightarrow> bit c 0" "c AND 4 = 4 \<longleftrightarrow> bit c 2"
    using and_one [of 9 c] and_one [of 6 c] and_one [of 8 c] and_one [of 0 c] and_one [of 2 c] by simp_all
  have two: "c AND 96 = 96 \<longleftrightarrow> bit c 5 \<and> bit c 6" "c AND 10 = 10 \<longleftrightarrow> bit c 1 \<and> bit c 3"
    "c AND 12 = 12 \<longleftrightarrow> bit c 2 \<and> bit c 3" "c AND 9 = 9 \<longleftrightarrow> bit c 0 \<and> bit c 3"
    "c AND 18 = 18 \<longleftrightarrow> bit c 1 \<and> bit c 4" "c AND 17 = 17 \<longleftrightarrow> bit c 0 \<and> bit c 4"
    using and_two [of 5 6 c] and_two [of 1 3 c] and_two [of 2 3 c] and_two [of 0 3 c] and_two [of 1 4 c] and_two [of 0 4 c]
    by simp_all
  show ?thesis
    by (simp only: GetMatchTransCondition_def POLICY_TRANS_MAP_def match_loop.simps MoveToConditionBit_def Let_def)
      (simp add: one two del: and.right_neutral)
qed

lemma decode_rows:
  "decode 0b00011000000100000000 = (32, 0)" "decode 0b10000000000000100010 = (4, 2)"
  "decode 0b00010000001000000000 = (64, 0)" "decode 0b00000010100000010100 = (2, 4)"
  "decode 0b00000011000000001100 = (1, 4)" "decode 0b00000010010000001100 = (1, 4)"
  "decode 0b01000000001000000000 = (64, 0)" "decode 0b00000100100000010100 = (2, 4)"
  "decode 0b00000100010000100010 = (4, 2)" "decode 0b00000000010000000001 = (0, 1)"
  "decode 0b00000001000000100010 = (4, 2)" "decode 0b00000000000000000001 = (0, 1)"
  by (simp_all add: decode_def MoveToRuleBit_def)

lemma table_decision_eq:
  assumes "IsValidNetPolicy policy"
  shows "table_decision (BuildTransCondition uid policy p) = decision p uid policy"
proof -
  have "policy = 0 \<or> policy = 1 \<or> policy = 2" using assms by (auto simp: IsValidNetPolicy_def)
  then show ?thesis
    unfolding table_decision_def match_table condition_bits [OF assms] if_distrib [of decode] decode_rows
      decision_def decide_def
    by (elim disjE) simp_all
qed

lemma Trans_eq:
  assumes "IsValidNetPolicy (upr_policy r)"
  shows "TransConditionToRuleAndNetsys p uid r w =
    (case decision p uid (upr_policy r) of (rule, netsys) \<Rightarrow>
       let w1 = (if upr_netsys r \<noteq> netsys then NetsysCtrl uid netsys p w else w);
           w2 = on_file (WritePolicyByUid uid (upr_policy r)) w1;
           w3 = (if upr_rule r = rule then w2 else notify (NotifyNetUidRuleChange uid rule) w2)
       in (r\<lparr> upr_rule := rule, upr_netsys := netsys \<rparr>, w3))"
  unfolding table_decision_eq [OF assms, symmetric] table_decision_def decode_def TransConditionToRuleAndNetsys_def Let_def
  by simp

lemma decide_ctrl: "snd (decide policy i ia fg ps lb) \<in> {0, 1, 2, 4}"
  by (simp add: decide_def)

subsection \<open>Effect on the boxes\<close>

lemma world_file_cb [simp]:
  "denied (on_file f w) = denied w" "allowed (on_file f w) = allowed w" "online (on_file f w) = online w"
  "denied (notify g w) = denied w" "allowed (notify g w) = allowed w" "online (notify g w) = online w"
  by (simp_all add: denied_def allowed_def online_def on_file_def notify_def)

lemma netsys_call_boxes [simp]:
  assumes "online w"
  shows "denied (netsys_call (BandwidthAddDeniedList u) w) = insert u (denied w)"
    "denied (netsys_call (BandwidthRemoveDeniedList u) w) = denied w - {u}"
    "denied (netsys_call (BandwidthAddAllowedList u) w) = denied w"
    "denied (netsys_call (BandwidthRemoveAllowedList u) w) = denied w"
    "allowed (netsys_call (BandwidthAddDeniedList u) w) = allowed w"
    "allowed (netsys_call (BandwidthRemoveDeniedList u) w) = allowed w"
    "allowed (netsys_call (BandwidthAddAllowedList u) w) = insert u (allowed w)"
    "allowed (netsys_call (BandwidthRemoveAllowedList u) w) = allowed w - {u}"
    "denied (netsys_call (BandwidthEnableDataSaver e) w) = denied w"
    "allowed (netsys_call (BandwidthEnableDataSaver e) w) = allowed w"
  using assms
  by (simp_all add: netsys_call_def denied_def allowed_def online_def ns_bw_bandwidth
      BandwidthAddDeniedList_def BandwidthRemoveDeniedList_def BandwidthAddAllowedList_def
      BandwidthRemoveAllowedList_def BandwidthEnableDataSaver_def)

lemma netsys_call_firewall [simp]:
  "denied (netsys_call (PowerSaveUpdataAllowedList u r) w) = denied w"
  "allowed (netsys_call (PowerSaveUpdataAllowedList u r) w) = allowed w"
  by (simp_all add: netsys_call_def denied_def allowed_def PowerSaveUpdataAllowedList_def Native_FirewallSetUidRule_def)

lemma netsys_call_online [simp]:
  "online (netsys_call (BandwidthAddDeniedList u) w) = online w"
  "online (netsys_call (BandwidthRemoveDeniedList u) w) = online w"
  "online (netsys_call (BandwidthAddAllowedList u) w) = online w"
  "online (netsys_call (BandwidthRemoveAllowedList u) w) = online w"
  "online (netsys_call (BandwidthEnableDataSaver e) w) = online w"
  "online (netsys_call (PowerSaveUpdataAllowedList u r) w) = online w"
  by (simp_all add: netsys_call_def online_def PowerSaveUpdataAllowedList_def Native_FirewallSetUidRule_def
      BandwidthAddDeniedList_def BandwidthRemoveDeniedList_def BandwidthAddAllowedList_def
      BandwidthRemoveAllowedList_def BandwidthEnableDataSaver_def)

lemma NetsysCtrl_boxes:
  assumes "online w" "c \<in> {0, 1, 2, 4}"
  shows "denied (NetsysCtrl uid c p w) = (if c = 0 then denied w else if c = 2 then insert uid (denied w) else denied w - {uid})"
    and "allowed (NetsysCtrl uid c p w) = (if c = 0 then allowed w else if c = 4 then insert uid (allowed w) else allowed w - {uid})"
    and "online (NetsysCtrl uid c p w)"
  using assms by (auto simp: NetsysCtrl_def ProcessCtrlNone_def ProcessCtrlAddAllowedList_def Let_def)

lemma decision_ctrl: "snd (decision p uid policy) \<in> {0, 1, 2, 4}"
  unfolding decision_def by (rule decide_ctrl)

text \<open>One uid is recomputed: its entry is fresh, its place in the boxes follows, no other uid moves.\<close>

lemma Trans_boxes:
  assumes "online w" "IsValidNetPolicy (upr_policy r)" "ctrl_ok (upr_netsys r) uid w" "denied w \<inter> allowed w = {}"
    and "TransConditionToRuleAndNetsys p uid r w = (r', w')"
  shows "online w'" "upr_policy r' = upr_policy r" "fresh_entry p uid r'" "ctrl_ok (upr_netsys r') uid w'"
    "denied w' \<inter> allowed w' = {}" "v \<noteq> uid \<Longrightarrow> v \<in> denied w' \<longleftrightarrow> v \<in> denied w" "v \<noteq> uid \<Longrightarrow> v \<in> allowed w' \<longleftrightarrow> v \<in> allowed w"
proof -
  obtain rule c where d: "decision p uid (upr_policy r) = (rule, c)" by fastforce
  then have c: "c \<in> {0, 1, 2, 4}" using decision_ctrl [of p uid "upr_policy r"] by simp
  let ?w1 = "if upr_netsys r \<noteq> c then NetsysCtrl uid c p w else w"
  have r': "r' = r\<lparr> upr_rule := rule, upr_netsys := c \<rparr>"
    and w': "denied w' = denied ?w1" "allowed w' = allowed ?w1" "online w' = online ?w1"
    using assms(5) unfolding Trans_eq [OF assms(2)] d by (auto simp: Let_def split: if_splits)
  note b = NetsysCtrl_boxes [OF assms(1) c, of uid p]
  show "online w'" using assms(1) b by (simp add: w')
  show "upr_policy r' = upr_policy r" "fresh_entry p uid r'" by (simp_all add: r' fresh_entry_def d)
  show "ctrl_ok (upr_netsys r') uid w'"
    using assms(3) c b by (auto simp: r' ctrl_ok_def w')
  show "denied w' \<inter> allowed w' = {}" using assms(4) b by (auto simp: w')
  show "v \<noteq> uid \<Longrightarrow> v \<in> denied w' \<longleftrightarrow> v \<in> denied w" "v \<noteq> uid \<Longrightarrow> v \<in> allowed w' \<longleftrightarrow> v \<in> allowed w"
    using b by (auto simp: w')
qed

subsection \<open>The invariants\<close>

lemma rule_inv_modes [simp]:
  "rule_inv (p\<lparr> backgroundAllow := b \<rparr>, w) = rule_inv (p, w)"
  "rule_inv (p\<lparr> deviceIdleMode := b \<rparr>, w) = rule_inv (p, w)"
  "rule_inv (p\<lparr> powerSaveMode := b \<rparr>, w) = rule_inv (p, w)"
  "rule_inv (p\<lparr> deviceIdleAllowedList := l \<rparr>, w) = rule_inv (p, w)"
  "rule_inv (p\<lparr> powerSaveAllowedList := l \<rparr>, w) = rule_inv (p, w)"
  "rule_inv (p\<lparr> foregroundUidList := l \<rparr>, w) = rule_inv (p, w)"
  by (simp_all add: rule_inv_def)

lemma entry_ok_same:
  "(uid \<in> denied w' \<longleftrightarrow> uid \<in> denied w) \<Longrightarrow> (uid \<in> allowed w' \<longleftrightarrow> uid \<in> allowed w) \<Longrightarrow> entry_ok e uid w' = entry_ok e uid w"
  by (cases e) (simp_all add: ctrl_ok_def)

lemma rule_inv_world:
  assumes "denied w' = denied w" "allowed w' = allowed w" "online w' = online w"
  shows "rule_inv (p, w') = rule_inv (p, w)"
  by (simp add: rule_inv_def assms entry_ok_same [of _ w' w])

lemma fresh_entry_rules [simp]: "fresh_entry (p\<lparr> uidPolicyRules := m \<rparr>) uid r = fresh_entry p uid r"
  by (simp add: fresh_entry_def decision_def)

lemma rule_invD:
  assumes "rule_inv (p, w)"
  shows "online w" "om_wf (uidPolicyRules p)" "denied w \<inter> allowed w = {}" "entry_ok (om_get (uidPolicyRules p) uid) uid w"
  using assms by (simp_all add: rule_inv_def)

lemma trans_uid_ok:
  assumes "rule_inv (p, w)" "IsValidNetPolicy (upr_policy r)" "ctrl_ok (upr_netsys r) uid w"
  obtains r' w' where "trans_uid uid r (p, w) = (p\<lparr> uidPolicyRules := om_put uid r' (uidPolicyRules p) \<rparr>, w')"
    "upr_policy r' = upr_policy r" "fresh_entry p uid r'"
    "rule_inv (p\<lparr> uidPolicyRules := om_put uid r' (uidPolicyRules p) \<rparr>, w')"
proof -
  obtain r' w' where t: "TransConditionToRuleAndNetsys p uid r w = (r', w')" by fastforce
  note i = rule_invD [OF assms(1)]
  note b = Trans_boxes [OF i(1) assms(2, 3) i(3) t]
  have "rule_inv (p\<lparr> uidPolicyRules := om_put uid r' (uidPolicyRules p) \<rparr>, w')"
    unfolding rule_inv_def
  proof (simp add: b(1, 2, 4, 5) om_wf_put i(2) assms(2), intro allI impI)
    fix v assume v: "v \<noteq> uid"
    show "entry_ok (om_get (uidPolicyRules p) v) v w'"
      using i(4) [of v] entry_ok_same [of v w' w, OF b(6, 7) [OF v]] by simp
  qed
  with that t b(2, 3) show thesis by (simp add: trans_uid_def)
qed

lemma trans_entries_ok:
  assumes "trans_entries p es w = (es', w')" "online w" "denied w \<inter> allowed w = {}" "distinct (map fst es)"
    and "\<forall>(uid, r) \<in> set es. IsValidNetPolicy (upr_policy r) \<and> ctrl_ok (upr_netsys r) uid w"
  shows "map (\<lambda>(u, r). (u, upr_policy r)) es' = map (\<lambda>(u, r). (u, upr_policy r)) es \<and> online w' \<and> denied w' \<inter> allowed w' = {}
    \<and> (\<forall>(uid, r) \<in> set es'. IsValidNetPolicy (upr_policy r) \<and> ctrl_ok (upr_netsys r) uid w' \<and> fresh_entry p uid r)
    \<and> (\<forall>v. v \<notin> fst ` set es \<longrightarrow> (v \<in> denied w' \<longleftrightarrow> v \<in> denied w) \<and> (v \<in> allowed w' \<longleftrightarrow> v \<in> allowed w))"
  using assms
proof (induction es arbitrary: w es' w')
  case Nil
  then show ?case by simp
next
  case (Cons e es)
  obtain uid r where e: "e = (uid, r)" by fastforce
  obtain r1 w1 where t: "TransConditionToRuleAndNetsys p uid r w = (r1, w1)" by fastforce
  obtain es2 w2 where t2: "trans_entries p es w1 = (es2, w2)" by fastforce
  have res: "es' = (uid, r1) # es2" "w' = w2" using Cons.prems(1) by (simp_all add: e t t2)
  have v: "IsValidNetPolicy (upr_policy r)" "ctrl_ok (upr_netsys r) uid w" "uid \<notin> fst ` set es"
    using Cons.prems(4, 5) by (auto simp: e)
  note b = Trans_boxes [OF Cons.prems(2) v(1, 2) Cons.prems(3) t]
  have "\<forall>(u, x) \<in> set es. IsValidNetPolicy (upr_policy x) \<and> ctrl_ok (upr_netsys x) u w1"
  proof (clarify)
    fix u x assume m: "(u, x) \<in> set es"
    with v(3) have u: "u \<noteq> uid" by force
    show "IsValidNetPolicy (upr_policy x) \<and> ctrl_ok (upr_netsys x) u w1"
      using Cons.prems(5) m entry_ok_same [of u w1 w "Some x", OF b(6, 7) [OF u]] by auto
  qed
  from Cons.IH [OF t2 b(1, 5) _ this] Cons.prems(4)
  have ih: "map (\<lambda>(u, r). (u, upr_policy r)) es2 = map (\<lambda>(u, r). (u, upr_policy r)) es" "online w2" "denied w2 \<inter> allowed w2 = {}"
    "\<forall>(uid, r) \<in> set es2. IsValidNetPolicy (upr_policy r) \<and> ctrl_ok (upr_netsys r) uid w2 \<and> fresh_entry p uid r"
    "\<And>v. v \<notin> fst ` set es \<Longrightarrow> (v \<in> denied w2 \<longleftrightarrow> v \<in> denied w1) \<and> (v \<in> allowed w2 \<longleftrightarrow> v \<in> allowed w1)"
    by (auto simp: e)
  have "ctrl_ok (upr_netsys r1) uid w2" using b(4) ih(5) [OF v(3)] by (simp add: ctrl_ok_def)
  with ih b v show ?case by (auto simp: res e)
qed

lemma all_fresh_put:
  "all_fresh p \<Longrightarrow> fresh_entry p uid r \<Longrightarrow> all_fresh (p\<lparr> uidPolicyRules := om_put uid r (uidPolicyRules p) \<rparr>)"
  by (simp add: all_fresh_def)

lemma TransPolicyToRule_all_ok:
  assumes "rule_inv (p, w)"
  shows "policy_ok c (TransPolicyToRule_all (p, w))"
proof -
  obtain es w' where t: "trans_entries p (uidPolicyRules p) w = (es, w')" by fastforce
  note i = rule_invD [OF assms]
  have "\<forall>(uid, r) \<in> set (uidPolicyRules p). IsValidNetPolicy (upr_policy r) \<and> ctrl_ok (upr_netsys r) uid w"
  proof (clarify)
    fix uid r assume "(uid, r) \<in> set (uidPolicyRules p)"
    with om_wf_distinct [OF i(2)] have "om_get (uidPolicyRules p) uid = Some r" by simp
    then show "IsValidNetPolicy (upr_policy r) \<and> ctrl_ok (upr_netsys r) uid w" using i(4) [of uid] by simp
  qed
  note k = trans_entries_ok [OF t i(1, 3) om_wf_distinct [OF i(2)] this]
  then have "map fst (map (\<lambda>(u, r). (u, upr_policy r)) es) = map fst (map (\<lambda>(u, r). (u, upr_policy r)) (uidPolicyRules p))" by simp
  then have keys: "map fst es = map fst (uidPolicyRules p)" by (simp add: comp_def case_prod_beta)
  have sets: "fst ` set es = fst ` set (uidPolicyRules p)" using arg_cong [OF keys, of set] by simp
  have "entry_ok (om_get es v) v w' \<and> (\<forall>r. om_get es v = Some r \<longrightarrow> fresh_entry p v r)" for v
  proof (cases "om_get es v")
    case None
    then have v: "v \<notin> fst ` set (uidPolicyRules p)" using sets by (simp add: map_of_eq_None_iff)
    then have "om_get (uidPolicyRules p) v = None" by (simp add: map_of_eq_None_iff)
    with i(4) [of v] k v None show ?thesis by simp
  next
    case (Some r)
    with k show ?thesis by (auto dest: map_of_SomeD)
  qed
  with k i(2) show ?thesis
    by (simp add: policy_ok_def rule_inv_def all_fresh_def TransPolicyToRule_all_def t om_wf_def keys)
qed

lemma TransPolicyToRule_all_keys:
  "rule_inv (p, w) \<Longrightarrow> fst ` set (uidPolicyRules (fst (TransPolicyToRule_all (p, w)))) = fst ` set (uidPolicyRules p)"
proof -
  have "map fst (fst (trans_entries p es w)) = map fst es" for es w
    by (induction es arbitrary: w) (auto simp: case_prod_beta)
  from arg_cong [OF this, of set] show ?thesis by (simp add: TransPolicyToRule_all_def case_prod_beta)
qed

lemma TransPolicyToRule_all_policies:
  assumes "rule_inv (p, w)"
  shows "map_option upr_policy (om_get (uidPolicyRules (fst (TransPolicyToRule_all (p, w)))) v) =
    map_option upr_policy (om_get (uidPolicyRules p) v)"
proof -
  have "map_option upr_policy (om_get (fst (trans_entries p es w)) v) = map_option upr_policy (om_get es v)"
    if "\<forall>(u, r) \<in> set es. IsValidNetPolicy (upr_policy r)" for es w
    using that
  proof (induction es arbitrary: w)
    case (Cons e es)
    then show ?case by (cases e) (simp add: case_prod_beta Trans_eq Let_def)
  qed simp
  moreover have "\<forall>(u, r) \<in> set (uidPolicyRules p). IsValidNetPolicy (upr_policy r)"
    using rule_invD(4) [OF assms] om_wf_distinct [OF rule_invD(2) [OF assms]]
    by (metis (mono_tags, lifting) case_prodI2 entry_ok.simps(2) map_of_is_SomeI)
  ultimately show ?thesis by (simp add: TransPolicyToRule_all_def case_prod_beta)
qed

lemma trans_uid_policy_ok:
  assumes "rule_inv (p, w)" "IsValidNetPolicy (upr_policy r)" "ctrl_ok (upr_netsys r) uid w"
    and "c \<Longrightarrow> \<forall>v x. v \<noteq> uid \<longrightarrow> om_get (uidPolicyRules p) v = Some x \<longrightarrow> fresh_entry p v x"
  shows "policy_ok c (trans_uid uid r (p, w))"
proof -
  obtain r' w' where t: "trans_uid uid r (p, w) = (p\<lparr> uidPolicyRules := om_put uid r' (uidPolicyRules p) \<rparr>, w')"
    "fresh_entry p uid r'" "rule_inv (p\<lparr> uidPolicyRules := om_put uid r' (uidPolicyRules p) \<rparr>, w')"
    using trans_uid_ok [OF assms(1-3)] by metis
  then show ?thesis using assms(4) by (simp add: policy_ok_def all_fresh_def)
qed

lemma TransPolicyToRule_ok:
  assumes "policy_ok c s"
  shows "policy_ok c (snd (TransPolicyToRule uid policy s))"
proof (cases "IsValidNetPolicy policy")
  case True
  obtain p w where s: "s = (p, w)" by fastforce
  have i: "rule_inv (p, w)" and f: "c \<Longrightarrow> all_fresh p" using assms by (simp_all add: policy_ok_def s)
  have n: "rule_inv (p, notify g w)" for g by (subst rule_inv_world [where w = w]) (simp_all add: i)
  have o: "c \<Longrightarrow> \<forall>v x. v \<noteq> uid \<longrightarrow> om_get (uidPolicyRules p) v = Some x \<longrightarrow> fresh_entry p v x"
    using f by (simp add: all_fresh_def)
  show ?thesis
  proof (cases "om_get (uidPolicyRules p) uid")
    case None
    show ?thesis
      using trans_uid_policy_ok [OF n _ _ o, where r = "\<lparr> upr_policy = policy, upr_rule = 128, upr_netsys = 7 \<rparr>"] True
      by (simp add: TransPolicyToRule_def s None ctrl_ok_def)
  next
    case (Some r)
    then have r: "IsValidNetPolicy (upr_policy r)" "ctrl_ok (upr_netsys r) uid w" using rule_invD(4) [OF i, of uid] by simp_all
    show ?thesis
      using trans_uid_policy_ok [OF i r o] trans_uid_policy_ok [OF n _ _ o, where r = "r\<lparr> upr_policy := policy \<rparr>"] True r
      by (simp add: TransPolicyToRule_def s Some ctrl_ok_def)
  qed
qed (simp add: TransPolicyToRule_def assms)

lemma TransPolicyToRule_uid_ok:
  assumes "rule_inv (p, w)" "c \<Longrightarrow> \<forall>v x. v \<noteq> uid \<longrightarrow> om_get (uidPolicyRules p) v = Some x \<longrightarrow> fresh_entry p v x"
  shows "policy_ok c (TransPolicyToRule_uid uid (p, w))"
proof (cases "om_get (uidPolicyRules p) uid")
  case None
  then show ?thesis using assms
    by (simp add: TransPolicyToRule_uid_def policy_ok_def all_fresh_def) (metis option.distinct(1))
next
  case (Some r)
  then show ?thesis using rule_invD(4) [OF assms(1), of uid] trans_uid_policy_ok [OF assms(1) _ _ assms(2)]
    by (simp add: TransPolicyToRule_uid_def)
qed

lemma decision_fresh:
  "\<not> deviceIdleMode p \<Longrightarrow> fresh_entry (p\<lparr> deviceIdleAllowedList := l \<rparr>) uid r = fresh_entry p uid r"
  "fresh_entry (p\<lparr> powerSaveAllowedList := l \<rparr>) uid r = fresh_entry p uid r"
  "v \<noteq> uid \<Longrightarrow> fresh_entry (UpdateForegroundUidList uid b p) v r = fresh_entry p v r"
  by (simp_all add: fresh_entry_def decision_def decide_def UpdateForegroundUidList_def)

lemma UpdateForegroundUidList_frame [simp]:
  "uidPolicyRules (UpdateForegroundUidList uid b p) = uidPolicyRules p"
  "rule_inv (UpdateForegroundUidList uid b p, w) = rule_inv (p, w)"
  by (simp_all add: UpdateForegroundUidList_def)

lemma foreground_ok:
  assumes "policy_ok c (p, w)"
  shows "policy_ok c (TransPolicyToRule_uid uid (UpdateForegroundUidList uid b p, w))"
  by (rule TransPolicyToRule_uid_ok) (use assms in \<open>simp_all add: policy_ok_def all_fresh_def decision_fresh\<close>)

lemma SetBackgroundPolicy_ok:
  assumes "policy_ok c s"
  shows "policy_ok c (snd (SetBackgroundPolicy allow s))"
proof (cases "backgroundAllow (fst s) = allow")
  case False
  obtain p w where s: "s = (p, w)" by fastforce
  let ?s1 = "(p\<lparr> backgroundAllow := allow \<rparr>, notify (NotifyNetBackgroundPolicyChange allow) w)"
  obtain p1 w1 where t: "TransPolicyToRule_all ?s1 = (p1, w1)" by fastforce
  have "rule_inv ?s1"
    using assms by (simp add: s policy_ok_def rule_inv_world [of "notify (NotifyNetBackgroundPolicyChange allow) w" w])
  from TransPolicyToRule_all_ok [OF this] have k: "policy_ok c (p1, w1)" unfolding t .
  then have o: "online w1" by (simp add: policy_ok_def rule_inv_def)
  have "rule_inv (p1, netsys_call (BandwidthEnableDataSaver (\<not> allow)) (on_file (WriteBackgroundPolicy allow) w1)) = rule_inv (p1, w1)"
    by (rule rule_inv_world) (simp_all add: o)
  with k False t show ?thesis by (simp add: SetBackgroundPolicy_def s policy_ok_def)
qed (use assms in \<open>auto simp: SetBackgroundPolicy_def split: prod.split\<close>)

lemma Rule_DeleteUid_ok:
  assumes "policy_ok c s"
  shows "policy_ok c (Rule_DeleteUid uid s)"
proof -
  obtain p w where s: "s = (p, w)" by fastforce
  have i: "rule_inv (p, w)" using assms by (simp add: policy_ok_def s)
  let ?w = "netsys_call (BandwidthRemoveAllowedList uid) (netsys_call (BandwidthRemoveDeniedList uid) (on_file (RemoveInexistentUid uid) w))"
  note v = rule_invD [OF i]
  have b: "denied ?w = denied w - {uid}" "allowed ?w = allowed w - {uid}" "online ?w" by (simp_all add: v(1))
  have "rule_inv (p\<lparr> uidPolicyRules := om_del uid (uidPolicyRules p) \<rparr>, ?w)"
    unfolding rule_inv_def
  proof (simp add: b v(1) om_wf_del v(2), intro conjI allI impI)
    show "(denied w - {uid}) \<inter> (allowed w - {uid}) = {}" using v(3) by blast
    fix u assume "u \<noteq> uid"
    then show "entry_ok (om_get (uidPolicyRules p) u) u ?w" using v(4) [of u] entry_ok_same [of u ?w w] by (simp add: b)
  qed
  then show ?thesis using assms by (simp add: policy_ok_def all_fresh_def Rule_DeleteUid_def s)
qed

lemma reset_loop_ok: "policy_ok c s \<Longrightarrow> policy_ok c (reset_loop uids s)"
  by (induction uids arbitrary: s) (simp_all add: TransPolicyToRule_ok)

lemma init_loop_ok: "policy_ok c s \<Longrightarrow> policy_ok c (init_loop is s)"
  by (induction "is" arbitrary: s) (simp_all add: TransPolicyToRule_ok)

lemma Rule_HandleEvent_ok:
  assumes "policy_ok c s"
  shows "policy_ok (c \<and> recomputed msg (fst s)) (Rule_HandleEvent msg s)"
proof -
  obtain p w where s: "s = (p, w)" by fastforce
  have i: "rule_inv (p, w)" using assms by (simp add: policy_ok_def s)
  show ?thesis
  proof (cases msg)
    case (MSG_UID_REMOVED u)
    then show ?thesis using Rule_DeleteUid_ok [OF assms] by (simp add: Rule_HandleEvent_def s recomputed_def)
  next
    case (MSG_UID_STATE_FOREGROUND u)
    then show ?thesis using foreground_ok assms by (simp add: Rule_HandleEvent_def s recomputed_def)
  next
    case (MSG_UID_STATE_BACKGROUND u)
    then show ?thesis using foreground_ok assms by (simp add: Rule_HandleEvent_def s recomputed_def)
  next
    case (MSG_DEVICE_IDLE_MODE_CHANGED m)
    then show ?thesis using i by (simp add: Rule_HandleEvent_def s TransPolicyToRule_all_ok)
  next
    case (MSG_POWER_SAVE_MODE_CHANGED m)
    then show ?thesis using i by (simp add: Rule_HandleEvent_def s TransPolicyToRule_all_ok)
  qed (use assms i in \<open>simp_all add: Rule_HandleEvent_def s recomputed_def policy_ok_def all_fresh_def decision_fresh\<close>)
qed

lemma Rule_Init_ok:
  assumes "online w" "denied w = {}" "allowed w = {}"
  shows "policy_ok c (Rule_Init (NetPolicyRule_ctor, w))"
  unfolding Rule_Init_def
  by (simp, rule init_loop_ok)
    (simp add: policy_ok_def rule_inv_def all_fresh_def NetPolicyRule_ctor_def assms)

lemma rule_step_ok: "rule_step c' s s' \<Longrightarrow> policy_ok c s \<Longrightarrow> policy_ok (c \<and> c') s'"
proof (erule rule_stepE)
  fix w' w p
  assume "policy_ok c s" "c'" "s = (p, w)" "s' = (p, w')" "denied w' = denied w" "allowed w' = allowed w" "online w' = online w"
  then show ?thesis using rule_inv_world [of w' w p] by (simp add: policy_ok_def)
qed (simp_all add: TransPolicyToRule_ok SetBackgroundPolicy_ok Rule_ResetPolicies_def reset_loop_ok Rule_HandleEvent_ok)

lemma rule_reachable_ok: "rule_reachable c s \<Longrightarrow> policy_ok c s"
  by (induction rule: rule_reachable.induct) (simp_all add: Rule_Init_ok rule_step_ok)

subsection \<open>Round trip of a policy\<close>

lemma TransPolicyToRule_get:
  assumes "rule_inv s" "IsValidNetPolicy policy"
  shows "map_option upr_policy (om_get (uidPolicyRules (fst (snd (TransPolicyToRule uid policy s)))) v) =
    (if v = uid then Some policy else map_option upr_policy (om_get (uidPolicyRules (fst s)) v))"
  using assms
  by (auto simp: TransPolicyToRule_def trans_uid_def Trans_eq case_prod_beta Let_def split: option.split)

lemma TransPolicyToRule_modes:
  "backgroundAllow (fst (snd (TransPolicyToRule uid policy s))) = backgroundAllow (fst s)"
  by (auto simp: TransPolicyToRule_def trans_uid_def case_prod_beta Let_def split: option.split)

lemma reset_loop_get:
  assumes "rule_inv s"
  shows "map_option upr_policy (om_get (uidPolicyRules (fst (reset_loop uids s))) v) =
    (if v \<in> set uids then Some NET_POLICY_NONE else map_option upr_policy (om_get (uidPolicyRules (fst s)) v))"
  using assms
proof (induction uids arbitrary: s)
  case (Cons u us)
  have "rule_inv (snd (TransPolicyToRule u NET_POLICY_NONE s))"
    using TransPolicyToRule_ok [of False s] Cons.prems by (simp add: policy_ok_def)
  with Cons show ?case by (simp add: TransPolicyToRule_get IsValidNetPolicy_def)
qed simp

lemma reset_loop_modes: "backgroundAllow (fst (reset_loop uids s)) = backgroundAllow (fst s)"
  by (induction uids arbitrary: s) (simp_all add: TransPolicyToRule_modes)

subsection \<open>The data saver\<close>

lemma data_saver_frame [simp]:
  "data_saver (on_file f w) = data_saver w" "data_saver (notify g w) = data_saver w"
  "data_saver (netsys_call (PowerSaveUpdataAllowedList u r) w) = data_saver w"
  by (simp_all add: data_saver_def on_file_def notify_def netsys_call_def PowerSaveUpdataAllowedList_def Native_FirewallSetUidRule_def)

lemma data_saver_bandwidth [simp]:
  assumes "online w"
  shows "data_saver (netsys_call (BandwidthAddDeniedList u) w) = data_saver w"
    "data_saver (netsys_call (BandwidthRemoveDeniedList u) w) = data_saver w"
    "data_saver (netsys_call (BandwidthAddAllowedList u) w) = data_saver w"
    "data_saver (netsys_call (BandwidthRemoveAllowedList u) w) = data_saver w"
    "data_saver (netsys_call (BandwidthEnableDataSaver e) w) = e"
  using assms
  by (simp_all add: netsys_call_def data_saver_def online_def ns_bw_bandwidth
      BandwidthAddDeniedList_def BandwidthRemoveDeniedList_def BandwidthAddAllowedList_def
      BandwidthRemoveAllowedList_def BandwidthEnableDataSaver_def)

lemma NetsysCtrl_data_saver: "online w \<Longrightarrow> data_saver (NetsysCtrl uid c p w) = data_saver w"
  by (simp add: NetsysCtrl_def ProcessCtrlNone_def ProcessCtrlAddAllowedList_def Let_def)

lemma Trans_data_saver: "online w \<Longrightarrow> data_saver (snd (TransConditionToRuleAndNetsys p uid r w)) = data_saver w"
  by (simp add: TransConditionToRuleAndNetsys_def Let_def NetsysCtrl_data_saver)

lemma TransPolicyToRule_data_saver:
  "online (snd s) \<Longrightarrow> data_saver (snd (snd (TransPolicyToRule uid policy s))) = data_saver (snd s)"
  by (cases s) (simp add: TransPolicyToRule_def trans_uid_def case_prod_beta Trans_data_saver split: option.split)

lemma init_loop_data_saver:
  "policy_ok c s \<Longrightarrow> data_saver (snd (init_loop is s)) = data_saver (snd s)"
proof (induction "is" arbitrary: s)
  case (Cons i "is")
  have "online (snd s)" using Cons.prems by (simp add: policy_ok_def rule_inv_def)
  then show ?case using Cons TransPolicyToRule_ok [OF Cons.prems] by (simp add: TransPolicyToRule_data_saver)
qed simp

lemma TransPolicyToRule_all_modes: "backgroundAllow (fst (TransPolicyToRule_all s)) = backgroundAllow (fst s)"
  by (simp add: TransPolicyToRule_all_def case_prod_beta)

lemma init_loop_modes: "backgroundAllow (fst (init_loop is s)) = backgroundAllow (fst s)"
  by (induction "is" arbitrary: s) (simp_all add: TransPolicyToRule_modes)

lemma SetBackgroundPolicy_saver:
  assumes "policy_ok c s" "backgroundAllow (fst s) \<noteq> allow"
  shows "data_saver (snd (snd (SetBackgroundPolicy allow s))) = (\<not> allow)"
proof -
  obtain q v where s: "s = (q, v)" by fastforce
  have "rule_inv (q\<lparr> backgroundAllow := allow \<rparr>, notify g v)" for g
    using assms(1) rule_inv_world [of "notify g v" v q] by (simp add: policy_ok_def s)
  then have "online (snd (TransPolicyToRule_all (q\<lparr> backgroundAllow := allow \<rparr>, notify g v)))" for g
    using TransPolicyToRule_all_ok [of "q\<lparr> backgroundAllow := allow \<rparr>" "notify g v" True] by (simp add: policy_ok_def rule_inv_def)
  then show ?thesis using assms(2) by (simp add: s SetBackgroundPolicy_def case_prod_beta)
qed

lemma SetBackgroundPolicy_get:
  assumes "rule_inv s"
  shows "fst (SetBackgroundPolicy allow s) = (if backgroundAllow (fst s) = allow then NETMANAGER_ERR_PARAMETER_ERROR else NETMANAGER_SUCCESS)"
    and "backgroundAllow (fst (snd (SetBackgroundPolicy allow s))) = allow"
    and "map_option upr_policy (om_get (uidPolicyRules (fst (snd (SetBackgroundPolicy allow s)))) v) =
      map_option upr_policy (om_get (uidPolicyRules (fst s)) v)"
proof -
  obtain p w where s: "s = (p, w)" by fastforce
  have "rule_inv (p\<lparr> backgroundAllow := allow \<rparr>, notify g w)" for g
    using assms rule_inv_world [of "notify g w" w p] by (simp add: s)
  from TransPolicyToRule_all_policies [OF this]
  show "fst (SetBackgroundPolicy allow s) = (if backgroundAllow (fst s) = allow then NETMANAGER_ERR_PARAMETER_ERROR else NETMANAGER_SUCCESS)"
    "backgroundAllow (fst (snd (SetBackgroundPolicy allow s))) = allow"
    "map_option upr_policy (om_get (uidPolicyRules (fst (snd (SetBackgroundPolicy allow s)))) v) =
      map_option upr_policy (om_get (uidPolicyRules (fst s)) v)"
    by (simp_all add: s SetBackgroundPolicy_def case_prod_beta TransPolicyToRule_all_modes)
qed

subsection \<open>The example\<close>

lemma first_boot_boxes: "online first_boot" "denied first_boot = {}" "allowed first_boot = {}"
  by (simp_all add: first_boot_def online_def denied_def allowed_def BandwidthManager_ctor_def)

lemma first_running_reachable: "rule_reachable True first_running"
  using rule_next [OF rule_start [OF first_boot_boxes] rule_policy] by (simp add: first_running_def)

lemma first_running_policy:
  "map_option upr_policy (om_get (uidPolicyRules (fst first_running)) 20001) = Some NET_POLICY_REJECT_METERED_BACKGROUND"
  using TransPolicyToRule_get [of "Rule_Init (NetPolicyRule_ctor, first_boot)"] Rule_Init_ok [OF first_boot_boxes, of True]
  by (simp add: first_running_def policy_ok_def IsValidNetPolicy_def)

lemma first_running_modes:
  "\<not> deviceIdleMode (fst first_running)" "foregroundUidList (fst first_running) = {}" "\<not> powerSaveMode (fst first_running)"
  "backgroundAllow (fst first_running)"
  by (simp_all add: first_running_def Rule_Init_def first_boot_def NetPolicyRule_ctor_def TransPolicyToRule_def trans_uid_def
      case_prod_beta Let_def IsValidNetPolicy_def ReadBackgroundPolicy_def)

section \<open>Properties\<close>

text \<open>
  C10. The twelve-row table of condition masks, searched by \<open>GetMatchTransCondition\<close>, computes
  the decision on policy, idle mode, foreground, power saving and background restriction
  that \<open>decide\<close> spells out, for every valid policy and every state; membership in the
  power-save allow list, although it is a bit of the condition, has no influence.
\<close>

theorem policy_table_is_decision:
  assumes "IsValidNetPolicy (upr_policy r)"
  shows "TransConditionToRuleAndNetsys p uid r w =
    (case decide (upr_policy r) (IsIdleMode p) (InIdleAllowedList uid p) (IsForeground uid p) (IsPowerSave p) (IsLimitedBackground p)
     of (rule, netsys) \<Rightarrow>
       let w1 = (if upr_netsys r \<noteq> netsys then NetsysCtrl uid netsys p w else w);
           w2 = on_file (WritePolicyByUid uid (upr_policy r)) w1;
           w3 = (if upr_rule r = rule then w2 else notify (NotifyNetUidRuleChange uid rule) w2)
       in (r\<lparr> upr_rule := rule, upr_netsys := netsys \<rparr>, w3))"
  using Trans_eq [OF assms]
  by (simp add: decision_def IsIdleMode_def InIdleAllowedList_def IsForeground_def IsPowerSave_def IsLimitedBackground_def)

theorem policy_table_is_decision_witness:
  "upr_rule (fst (TransConditionToRuleAndNetsys NetPolicyRule_ctor 20001
     \<lparr> upr_policy = NET_POLICY_REJECT_METERED_BACKGROUND, upr_rule = 128, upr_netsys = 7 \<rparr> first_boot)) = NET_RULE_REJECT_METERED"
  using policy_table_is_decision [of "\<lparr> upr_policy = NET_POLICY_REJECT_METERED_BACKGROUND, upr_rule = 128, upr_netsys = 7 \<rparr>"
      NetPolicyRule_ctor 20001 first_boot]
  by (simp add: IsValidNetPolicy_def decide_def IsIdleMode_def IsForeground_def IsPowerSave_def NetPolicyRule_ctor_def)

text \<open>
  C19. In every state the component reaches, the denied and the allowed box of the bandwidth
  manager are disjoint, a uid without an entry is in neither, and the control stored in an
  entry tells which box holds the uid: none after a removal, exactly the denied one after a
  denial, exactly the allowed one after an admission.
\<close>

theorem policy_entries_match_boxes:
  assumes "rule_reachable c (p, w)"
  shows "denied w \<inter> allowed w = {} \<and>
    (case om_get (uidPolicyRules p) uid of
       None \<Rightarrow> uid \<notin> denied w \<and> uid \<notin> allowed w
     | Some r \<Rightarrow> IsValidNetPolicy (upr_policy r) \<and>
         (upr_netsys r = POLICY_TRANS_CTRL_REMOVE_ALL \<longrightarrow> uid \<notin> denied w \<and> uid \<notin> allowed w) \<and>
         (upr_netsys r = POLICY_TRANS_CTRL_ADD_DENIEDLIST \<longrightarrow> uid \<in> denied w \<and> uid \<notin> allowed w) \<and>
         (upr_netsys r = POLICY_TRANS_CTRL_ADD_ALLOWEDLIST \<longrightarrow> uid \<notin> denied w \<and> uid \<in> allowed w))"
proof -
  have "rule_inv (p, w)" using rule_reachable_ok [OF assms] by (simp add: policy_ok_def)
  from rule_invD(3) [OF this] rule_invD(4) [OF this, of uid] show ?thesis
    by (cases "om_get (uidPolicyRules p) uid") (simp_all add: ctrl_ok_def)
qed

theorem policy_entries_match_boxes_witness:
  "denied (snd (Rule_HandleEvent (MSG_UID_STATE_FOREGROUND 20001) first_running)) \<inter>
   allowed (snd (Rule_HandleEvent (MSG_UID_STATE_FOREGROUND 20001) first_running)) = {}"
proof -
  obtain p w where s: "Rule_HandleEvent (MSG_UID_STATE_FOREGROUND 20001) first_running = (p, w)" by fastforce
  have "rule_reachable True (Rule_HandleEvent (MSG_UID_STATE_FOREGROUND 20001) first_running)"
    using rule_next [OF first_running_reachable rule_event [of "MSG_UID_STATE_FOREGROUND 20001"]] by (simp add: recomputed_def)
  then show ?thesis using policy_entries_match_boxes [of True p w] by (simp add: s)
qed

text \<open>
  What the service answers for a uid with a policy, in every state reached without a change
  of the idle list in idle mode: in idle mode only a listed uid has network, on metered
  networks only while the background is allowed; a foreground uid always has it; in
  power-save mode no other uid has; otherwise a uid has metered network by its own
  policy, or, with no policy of its own, by the background policy.
\<close>

theorem IsUidNetAllowed_answers:
  assumes "rule_reachable True (p, w)" "GetPolicyByUid uid p = (0, policy)" "uid \<in> dom (om_get (uidPolicyRules p))"
  shows "IsUidNetAllowed uid isMetered p =
    (NETMANAGER_SUCCESS,
     if deviceIdleMode p then uid \<in> deviceIdleAllowedList p \<and> (isMetered \<longrightarrow> backgroundAllow p)
     else if uid \<in> foregroundUidList p then True
     else if powerSaveMode p then False
     else isMetered \<longrightarrow> policy = NET_POLICY_ALLOW_METERED_BACKGROUND \<or> policy = NET_POLICY_NONE \<and> backgroundAllow p)"
proof -
  have k: "rule_inv (p, w)" "all_fresh p" using rule_reachable_ok [OF assms(1)] by (simp_all add: policy_ok_def)
  obtain r where r: "om_get (uidPolicyRules p) uid = Some r" using assms(3) by blast
  have "IsValidNetPolicy (upr_policy r)" using rule_invD(4) [OF k(1), of uid] r by simp
  moreover have "upr_rule r = fst (decision p uid (upr_policy r))"
    using k(2) r by (simp add: all_fresh_def fresh_entry_def) (metis fst_conv)
  moreover have "upr_policy r = policy" using assms(2) r by (simp add: GetPolicyByUid_def)
  ultimately show ?thesis
    by (auto simp: IsUidNetAllowed_def r Let_def decision_def decide_def IsValidNetPolicy_def)
qed

theorem IsUidNetAllowed_answers_witness:
  "IsUidNetAllowed 20001 True (fst first_running) = (NETMANAGER_SUCCESS, False)"
proof -
  obtain p w where s: "first_running = (p, w)" by fastforce
  then have r: "rule_reachable True (p, w)" using first_running_reachable by simp
  have "map_option upr_policy (om_get (uidPolicyRules p) 20001) = Some NET_POLICY_REJECT_METERED_BACKGROUND"
    using first_running_policy by (simp add: s)
  then obtain x where x: "om_get (uidPolicyRules p) 20001 = Some x" "upr_policy x = NET_POLICY_REJECT_METERED_BACKGROUND" by auto
  show ?thesis
    using IsUidNetAllowed_answers [OF r, of 20001 NET_POLICY_REJECT_METERED_BACKGROUND True] x first_running_modes
    by (auto simp: s GetPolicyByUid_def)
qed

text \<open>
  A new idle allow list that arrives in idle mode changes no answer: a uid that the new list
  admits stays rejected and one that it drops stays admitted, until the mode changes.
\<close>

theorem idle_list_update_is_stale:
  assumes "rule_reachable True (p, w)" "deviceIdleMode p" "uid \<in> dom (om_get (uidPolicyRules p))"
  shows "IsUidNetAllowed uid False (fst (Rule_HandleEvent (MSG_DEVICE_IDLE_LIST_UPDATED l) (p, w))) =
      (NETMANAGER_SUCCESS, uid \<in> deviceIdleAllowedList p)
    \<and> IsUidNetAllowed uid False
        (fst (Rule_HandleEvent (MSG_DEVICE_IDLE_MODE_CHANGED True) (Rule_HandleEvent (MSG_DEVICE_IDLE_LIST_UPDATED l) (p, w)))) =
      (NETMANAGER_SUCCESS, uid \<in> l)"
proof -
  have k: "rule_inv (p, w)" "all_fresh p" using rule_reachable_ok [OF assms(1)] by (simp_all add: policy_ok_def)
  let ?q = "p\<lparr> deviceIdleAllowedList := l, deviceIdleMode := True \<rparr>"
  have t: "policy_ok True (TransPolicyToRule_all (?q, w))" using k(1) by (intro TransPolicyToRule_all_ok) simp
  have ans: "IsUidNetAllowed uid False x = (NETMANAGER_SUCCESS, uid \<in> deviceIdleAllowedList x)"
    if "all_fresh x" "deviceIdleMode x" "uid \<in> dom (om_get (uidPolicyRules x))" for x
    using that by (auto simp: IsUidNetAllowed_def all_fresh_def fresh_entry_def decision_def decide_def Let_def split: if_splits)
  obtain r where r: "om_get (uidPolicyRules p) uid = Some r" using assms(3) by blast
  have "fst ` set (uidPolicyRules (fst (TransPolicyToRule_all (?q, w)))) = fst ` set (uidPolicyRules p)"
    using TransPolicyToRule_all_keys [of ?q w] k(1) by simp
  then have "uid \<in> dom (om_get (uidPolicyRules (fst (TransPolicyToRule_all (?q, w)))))"
    using assms(3) by (simp add: dom_map_of_conv_image_fst)
  moreover have "deviceIdleMode (fst (TransPolicyToRule_all (?q, w)))" "deviceIdleAllowedList (fst (TransPolicyToRule_all (?q, w))) = l"
    by (simp_all add: TransPolicyToRule_all_def case_prod_beta)
  ultimately have "IsUidNetAllowed uid False (fst (TransPolicyToRule_all (?q, w))) = (NETMANAGER_SUCCESS, uid \<in> l)"
    using ans t by (simp add: policy_ok_def)
  moreover have "IsUidNetAllowed uid False (p\<lparr> deviceIdleAllowedList := l \<rparr>) = IsUidNetAllowed uid False p"
    by (simp add: IsUidNetAllowed_def)
  ultimately show ?thesis using ans [OF k(2) assms(2, 3)] by (simp add: Rule_HandleEvent_def)
qed

theorem idle_list_update_is_stale_witness:
  "IsUidNetAllowed 20001 False (fst (Rule_HandleEvent (MSG_DEVICE_IDLE_LIST_UPDATED {20001})
     (Rule_HandleEvent (MSG_DEVICE_IDLE_MODE_CHANGED True) first_running))) = (NETMANAGER_SUCCESS, False)"
proof -
  let ?s = "Rule_HandleEvent (MSG_DEVICE_IDLE_MODE_CHANGED True) first_running"
  obtain q w0 where q: "first_running = (q, w0)" by fastforce
  obtain p w where s: "?s = (p, w)" by fastforce
  have r: "rule_reachable True (p, w)"
    using rule_next [OF first_running_reachable rule_event [of "MSG_DEVICE_IDLE_MODE_CHANGED True"]]
    by (simp add: recomputed_def s)
  have p: "p = fst (TransPolicyToRule_all (q\<lparr> deviceIdleMode := True \<rparr>, w0))"
    using s by (simp add: q Rule_HandleEvent_def)
  have "rule_inv (q, w0)" using rule_reachable_ok [OF first_running_reachable] by (simp add: policy_ok_def q)
  then have "fst ` set (uidPolicyRules p) = fst ` set (uidPolicyRules q)" using TransPolicyToRule_all_keys by (simp add: p)
  moreover have "20001 \<in> dom (om_get (uidPolicyRules q))" using first_running_policy by (auto simp: q)
  ultimately have d: "20001 \<in> dom (om_get (uidPolicyRules p))" by (simp add: dom_map_of_conv_image_fst)
  have "deviceIdleAllowedList q = {}"
    using q by (auto simp: first_running_def Rule_Init_def first_boot_def NetPolicyRule_ctor_def TransPolicyToRule_def trans_uid_def
      case_prod_beta Let_def IsValidNetPolicy_def)
  then have l: "deviceIdleMode p" "deviceIdleAllowedList p = {}" by (simp_all add: p TransPolicyToRule_all_def case_prod_beta)
  show ?thesis using idle_list_update_is_stale [OF r l(1) d, of "{20001}"] by (simp add: s l)
qed

text \<open>
  Setting a policy: an invalid value is refused and changes nothing; a valid one is
  accepted, is what \<open>GetPolicyByUid\<close> answers from then on, and leaves the policies of the
  other uids alone.
\<close>

theorem set_policy_get_policy:
  assumes "rule_reachable c s"
  shows "if IsValidNetPolicy policy
     then fst (TransPolicyToRule uid policy s) = NETMANAGER_SUCCESS \<and>
       GetPolicyByUid v (fst (snd (TransPolicyToRule uid policy s))) =
         (if v = uid then (NETMANAGER_SUCCESS, policy) else GetPolicyByUid v (fst s))
     else TransPolicyToRule uid policy s = (POLICY_ERR_INVALID_POLICY, s)"
proof -
  have i: "rule_inv s" using rule_reachable_ok [OF assms] by (simp add: policy_ok_def)
  have "fst (TransPolicyToRule uid policy s) = NETMANAGER_SUCCESS" if "IsValidNetPolicy policy"
    using that by (simp add: TransPolicyToRule_def case_prod_beta split: option.split)
  moreover have g: "snd (GetPolicyByUid v p) = (case map_option upr_policy (om_get (uidPolicyRules p) v) of None \<Rightarrow> 0 | Some x \<Rightarrow> x)"
    "fst (GetPolicyByUid v p) = 0" for p
    by (simp_all add: GetPolicyByUid_def split: option.split)
  ultimately show ?thesis
    using TransPolicyToRule_get [OF i, of policy uid v] by (simp add: TransPolicyToRule_def prod_eq_iff g)
qed

theorem set_policy_get_policy_witness:
  "GetPolicyByUid 20002 (fst (snd (TransPolicyToRule 20002 NET_POLICY_ALLOW_METERED_BACKGROUND first_running))) =
     (NETMANAGER_SUCCESS, NET_POLICY_ALLOW_METERED_BACKGROUND)"
  using set_policy_get_policy [OF first_running_reachable, of NET_POLICY_ALLOW_METERED_BACKGROUND 20002 20002]
  by (simp add: IsValidNetPolicy_def)

text \<open>
  A restart forgets the data saver: \<open>SetBackgroundPolicy\<close> switches it on exactly when the
  background is rejected, but \<open>Init\<close> takes the rejection over from the file without
  switching it on, and repeating the request is then refused as a parameter error.
\<close>

theorem restart_forgets_data_saver:
  assumes "online w" "denied w = {}" "allowed w = {}" "\<not> data_saver w" "\<not> ReadBackgroundPolicy (pw_file w)"
  defines "s \<equiv> Rule_Init (NetPolicyRule_ctor, w)"
  shows "GetBackgroundPolicy (fst s) = (NETMANAGER_SUCCESS, False) \<and> \<not> data_saver (snd s)
    \<and> SetBackgroundPolicy False s = (NETMANAGER_ERR_PARAMETER_ERROR, s)
    \<and> data_saver (snd (snd (SetBackgroundPolicy False (snd (SetBackgroundPolicy True s)))))"
proof -
  let ?s0 = "(NetPolicyRule_ctor\<lparr> backgroundAllow := False \<rparr>, w)"
  have s: "s = init_loop (uidPolicies (netPolicy (pw_file w))) ?s0" using assms(5) by (simp add: s_def Rule_Init_def)
  have ok: "policy_ok True ?s0"
    by (simp add: policy_ok_def rule_inv_def all_fresh_def NetPolicyRule_ctor_def assms)
  have bg: "backgroundAllow (fst s) = False" and ds: "\<not> data_saver (snd s)"
    using init_loop_data_saver [OF ok] assms(4) by (simp_all add: s init_loop_modes)
  have sok: "policy_ok True s" unfolding s by (rule init_loop_ok [OF ok])
  let ?t = "snd (SetBackgroundPolicy True s)"
  have tok: "policy_ok True ?t" by (rule SetBackgroundPolicy_ok [OF sok])
  have "backgroundAllow (fst ?t)" using sok by (simp add: SetBackgroundPolicy_get policy_ok_def)
  then have "data_saver (snd (snd (SetBackgroundPolicy False ?t)))" using SetBackgroundPolicy_saver [OF tok, of False] by simp
  with bg ds show ?thesis by (cases s) (simp add: GetBackgroundPolicy_def SetBackgroundPolicy_def)
qed

theorem restart_forgets_data_saver_witness:
  "\<not> data_saver (snd (Rule_Init (NetPolicyRule_ctor, on_file (WriteBackgroundPolicy False) first_boot)))"
proof -
  let ?w = "on_file (WriteBackgroundPolicy False) first_boot"
  have "\<not> data_saver ?w" by (simp add: data_saver_def first_boot_def on_file_def BandwidthManager_ctor_def)
  moreover have "\<not> ReadBackgroundPolicy (pw_file ?w)"
    by (simp add: ReadBackgroundPolicy_def WriteBackgroundPolicy_def first_boot_def on_file_def WriteFile_def upd_policy_def
        fill_defaults_def Let_def)
  ultimately show ?thesis using restart_forgets_data_saver [of ?w] by (simp add: first_boot_boxes)
qed

text \<open>
  \<open>ResetPolicies\<close> sets every known uid to no policy and allows the background, but reports
  a parameter error unless the background was rejected before.
\<close>

theorem ResetPolicies_result:
  assumes "rule_reachable c s"
  shows "fst (Rule_ResetPolicies s) = (if backgroundAllow (fst s) then NETMANAGER_ERR_PARAMETER_ERROR else NETMANAGER_SUCCESS)
    \<and> backgroundAllow (fst (snd (Rule_ResetPolicies s)))
    \<and> GetPolicyByUid uid (fst (snd (Rule_ResetPolicies s))) = (NETMANAGER_SUCCESS, NET_POLICY_NONE)"
proof -
  have i: "rule_inv s" using rule_reachable_ok [OF assms] by (simp add: policy_ok_def)
  let ?t = "reset_loop (map fst (uidPolicyRules (fst s))) s"
  have m: "map_option upr_policy (om_get (uidPolicyRules (fst ?t)) uid) \<in> {None, Some NET_POLICY_NONE}"
    using reset_loop_get [OF i, of "map fst (uidPolicyRules (fst s))" uid] by (simp add: map_of_eq_None_iff)
  have b: "backgroundAllow (fst ?t) = backgroundAllow (fst s)" by (rule reset_loop_modes)
  have ti: "rule_inv ?t" using reset_loop_ok [of False s] i by (simp add: policy_ok_def)
  have g: "GetPolicyByUid uid q = (NETMANAGER_SUCCESS, NET_POLICY_NONE)"
    if "map_option upr_policy (om_get (uidPolicyRules q) uid) \<in> {None, Some NET_POLICY_NONE}" for q
    using that by (auto simp: GetPolicyByUid_def)
  show ?thesis
    unfolding Rule_ResetPolicies_def
    by (intro conjI g) (use m b SetBackgroundPolicy_get [OF ti, of True] in simp_all)
qed

theorem ResetPolicies_result_witness:
  "fst (Rule_ResetPolicies first_running) = NETMANAGER_ERR_PARAMETER_ERROR"
  using ResetPolicies_result [OF first_running_reachable, of 20001] first_running_modes by simp

end
