(* ===== verification/Policy_Firewall.thy ===== *)
theory Policy_Firewall
  imports Policy_Rule
begin

text \<open>
  The firewall part of the policy service: \<open>FirewallRule\<close>
  (\<open>services/netpolicymanager/src/firewall_rule/firewall_rule.cpp\<close>) keeps the allowed and denied
  uids of one chain and hands them to the daemon, \<open>NetPolicyFirewall\<close>
  (\<open>services/netpolicymanager/src/core/net_policy_firewall.cpp\<close>) keeps the trust lists of
  device idle and power saving and the three modes. Messages to the other policy
  components and broadcasts to the system are traces of the state. The chain objects are singletons of the process, made by the
  one call of \<open>Init\<close> it has. A null \<open>FirewallRule\<close> is None;
  an operation that dereferences one without a check returns None.
\<close>

unbundle bit_operations_syntax

section \<open>One chain: FirewallRule\<close>

abbreviation FIREWALL_CHAIN_DEVICE_IDLE :: u32 where "FIREWALL_CHAIN_DEVICE_IDLE \<equiv> 16"
abbreviation FIREWALL_CHAIN_POWER_SAVE :: u32 where "FIREWALL_CHAIN_POWER_SAVE \<equiv> 17"
abbreviation FIREWALL_CHAIN_IDLE_DENY :: u32 where "FIREWALL_CHAIN_IDLE_DENY \<equiv> 18"
abbreviation FIREWALL_RULE_ALLOW :: u32 where "FIREWALL_RULE_ALLOW \<equiv> 1"
abbreviation FIREWALL_RULE_DENY :: u32 where "FIREWALL_RULE_DENY \<equiv> 2"
abbreviation MAX_LIST_SIZE :: nat where "MAX_LIST_SIZE \<equiv> 1000"

record FirewallRuleObj =
  fr_chainType :: u32
  fr_allowedList :: "u32 list"
  fr_deniedList :: "u32 list"

definition FirewallRule_ctor :: "u32 \<Rightarrow> FirewallRuleObj" where
  "FirewallRule_ctor chainType = \<lparr> fr_chainType = chainType, fr_allowedList = [], fr_deniedList = [] \<rparr>"

definition CreateFirewallRule :: "u32 \<Rightarrow> FirewallRuleObj option" where
  "CreateFirewallRule chain =
     (if chain = FIREWALL_CHAIN_DEVICE_IDLE \<or> chain = FIREWALL_CHAIN_POWER_SAVE \<or> chain = FIREWALL_CHAIN_IDLE_DENY
      then Some (FirewallRule_ctor chain) else None)"

definition SetAllowedList_uid :: "u32 \<Rightarrow> u32 \<Rightarrow> FirewallRuleObj \<Rightarrow> FirewallRuleObj" where
  "SetAllowedList_uid rule uid r =
     (if rule = FIREWALL_RULE_ALLOW then
        (if uid \<notin> set (fr_allowedList r) then r\<lparr> fr_allowedList := fr_allowedList r @ [uid] \<rparr> else r)
      else r\<lparr> fr_allowedList := remove1 uid (fr_allowedList r) \<rparr>)"

definition SetAllowedList_uids :: "u32 list \<Rightarrow> u32 \<Rightarrow> FirewallRuleObj \<Rightarrow> policy_world \<Rightarrow> FirewallRuleObj \<times> policy_world" where
  "SetAllowedList_uids uids rule r w =
     (let r' = fold (SetAllowedList_uid rule) uids r in
      (r', netsys_call (FirewallSetUidRule (fr_chainType r') uids rule) w))"

definition SetAllowedList :: "FirewallRuleObj \<Rightarrow> policy_world \<Rightarrow> policy_world" where
  "SetAllowedList r w = netsys_call (FirewallSetUidsAllowedListChain (fr_chainType r) (fr_allowedList r)) w"

definition SetAllowedList_set :: "u32 set \<Rightarrow> FirewallRuleObj \<Rightarrow> policy_world \<Rightarrow> FirewallRuleObj \<times> policy_world" where
  "SetAllowedList_set uids r w =
     (let r' = fold (SetAllowedList_uid FIREWALL_RULE_ALLOW) (sorted_list_of_set uids) r in (r', SetAllowedList r' w))"

definition ClearAllowedList :: "FirewallRuleObj \<Rightarrow> policy_world \<Rightarrow> FirewallRuleObj \<times> policy_world" where
  "ClearAllowedList r w =
     (let r' = r\<lparr> fr_allowedList := [] \<rparr> in
      (r', netsys_call (FirewallSetUidsAllowedListChain (fr_chainType r') (fr_allowedList r')) w))"

definition SetDeniedList_uid :: "u32 \<Rightarrow> u32 \<Rightarrow> FirewallRuleObj \<Rightarrow> policy_world \<Rightarrow> FirewallRuleObj \<times> policy_world" where
  "SetDeniedList_uid uid rule r w =
     (let r' = (if rule = FIREWALL_RULE_DENY then
                  (if uid \<notin> set (fr_deniedList r) then r\<lparr> fr_deniedList := fr_deniedList r @ [uid] \<rparr> else r)
                else r\<lparr> fr_deniedList := removeAll uid (fr_deniedList r) \<rparr>) in
      (r', netsys_call (FirewallSetUidRule (fr_chainType r') [uid] rule) w))"

definition SetDeniedList_step :: "u32 \<Rightarrow> u32 \<Rightarrow> u32 list \<Rightarrow> u32 list" where
  "SetDeniedList_step rule it deniedList =
     (if rule = FIREWALL_RULE_DENY \<and> it \<notin> set deniedList then deniedList @ [it] else removeAll it deniedList)"

definition SetDeniedList :: "FirewallRuleObj \<Rightarrow> policy_world \<Rightarrow> policy_world" where
  "SetDeniedList r w = netsys_call (FirewallSetUidsDeniedListChain (fr_chainType r) (fr_deniedList r)) w"

definition SetDeniedList_uids :: "u32 list \<Rightarrow> u32 \<Rightarrow> FirewallRuleObj \<Rightarrow> policy_world \<Rightarrow> FirewallRuleObj \<times> policy_world" where
  "SetDeniedList_uids uids rule r w =
     (let r' = r\<lparr> fr_deniedList := fold (SetDeniedList_step rule) uids (fr_deniedList r) \<rparr> in (r', SetDeniedList r' w))"

definition ClearDeniedList :: "FirewallRuleObj \<Rightarrow> policy_world \<Rightarrow> FirewallRuleObj \<times> policy_world" where
  "ClearDeniedList r w =
     (let r' = r\<lparr> fr_deniedList := [] \<rparr> in
      (r', netsys_call (FirewallSetUidsDeniedListChain (fr_chainType r') (fr_deniedList r')) w))"

definition SetUidFirewallRule :: "u32 \<Rightarrow> bool \<Rightarrow> FirewallRuleObj \<Rightarrow> policy_world \<Rightarrow> policy_world" where
  "SetUidFirewallRule uid isAllowed r w =
     netsys_call (FirewallSetUidRule (fr_chainType r) [uid] (if isAllowed then FIREWALL_RULE_ALLOW else FIREWALL_RULE_DENY)) w"

definition EnableFirewall :: "bool \<Rightarrow> FirewallRuleObj \<Rightarrow> policy_world \<Rightarrow> policy_world" where
  "EnableFirewall enable r w = netsys_call (FirewallEnableChain (fr_chainType r) enable) w"

definition RemoveFromAllowedList :: "u32 \<Rightarrow> FirewallRuleObj \<Rightarrow> FirewallRuleObj" where
  "RemoveFromAllowedList uid r = r\<lparr> fr_allowedList := remove1 uid (fr_allowedList r) \<rparr>"

definition RemoveFromDeniedList :: "u32 \<Rightarrow> FirewallRuleObj \<Rightarrow> policy_world \<Rightarrow> FirewallRuleObj \<times> policy_world" where
  "RemoveFromDeniedList uid r w =
     (let r' = r\<lparr> fr_deniedList := remove1 uid (fr_deniedList r) \<rparr> in
      (r', netsys_call (FirewallSetUidsDeniedListChain (fr_chainType r') (fr_deniedList r')) w))"

definition Rule_ClearFirewallAllRules :: "policy_world \<Rightarrow> policy_world" where
  "Rule_ClearFirewallAllRules w = netsys_call ClearFirewallAllRules w"

section \<open>NetPolicyFirewall\<close>

record NetPolicyFirewall =
  deviceIdleFirewallRule :: "FirewallRuleObj option"
  powerSaveFirewallRule :: "FirewallRuleObj option"
  idleDenyFirewallRule :: "FirewallRuleObj option"
  pf_deviceIdleMode :: bool
  pf_powerSaveMode :: bool
  pf_idleDenyMode :: bool
  pf_deviceIdleAllowedList :: "u32 set"
  pf_deviceIdleDeniedList :: "u32 set"
  pf_powerSaveAllowedList :: "u32 set"
  pf_powerSaveDeniedList :: "u32 set"
  pf_events :: "PolicyMessage list"
  pf_broadcasts :: "string list"

type_synonym pf_state = "NetPolicyFirewall \<times> policy_world"

definition NetPolicyFirewall_ctor :: NetPolicyFirewall where
  "NetPolicyFirewall_ctor =
     \<lparr> deviceIdleFirewallRule = None, powerSaveFirewallRule = None, idleDenyFirewallRule = None,
       pf_deviceIdleMode = False, pf_powerSaveMode = False, pf_idleDenyMode = False,
       pf_deviceIdleAllowedList = {}, pf_deviceIdleDeniedList = {}, pf_powerSaveAllowedList = {}, pf_powerSaveDeniedList = {},
       pf_events = [], pf_broadcasts = [] \<rparr>"

text \<open>Who calls and when: the IPC skeleton, the bundle manager and the clock.\<close>

record caller =
  ca_pid :: u32
  ca_uid :: u32
  ca_bundle :: string
  ca_time :: nat

fun uids_items :: "u32 list \<Rightarrow> string" where
  "uids_items [] = []"
| "uids_items [u] = [CHR 0x22] @ to_string_u32 u @ [CHR 0x22]"
| "uids_items (u # us) = [CHR 0x22] @ to_string_u32 u @ [CHR 0x22] @ '','' @ uids_items us"

definition GetUidsBundleStr :: "u32 list \<Rightarrow> string" where
  "GetUidsBundleStr uids = ''['' @ uids_items uids @ '']''"

definition json_key :: "string \<Rightarrow> string" where
  "json_key k = [CHR 0x22] @ k @ [CHR 0x22] @ '':''"

definition policy_report :: "caller \<Rightarrow> string \<Rightarrow> u32 \<Rightarrow> bool \<Rightarrow> FirewallRuleObj \<Rightarrow> string" where
  "policy_report c callingFnc chainType enable rule =
     ''{'' @ json_key ''callingFnc'' @ [CHR 0x22] @ callingFnc @ [CHR 0x22] @ '','' @
     json_key ''callingBundle'' @ [CHR 0x22] @ ca_bundle c @ [CHR 0x22] @ '','' @
     json_key ''timestamp'' @ to_string (ca_time c) @ '','' @
     json_key ''callingUid'' @ to_string_u32 (ca_uid c) @ '','' @
     json_key ''callingPid'' @ to_string_u32 (ca_pid c) @ '','' @
     json_key ''chainType'' @ to_string_u32 chainType @ '','' @
     json_key ''enable'' @ (if enable then ''1'' else ''0'') @ '','' @
     json_key ''allowList'' @ GetUidsBundleStr (fr_allowedList rule) @ '','' @
     json_key ''deniedList'' @ GetUidsBundleStr (fr_deniedList rule) @ ''}''"

definition ReportFirewallPolicyChange ::
  "caller \<Rightarrow> string \<Rightarrow> u32 \<Rightarrow> bool \<Rightarrow> FirewallRuleObj option \<Rightarrow> NetPolicyFirewall \<Rightarrow> NetPolicyFirewall" where
  "ReportFirewallPolicyChange c callingFnc chainType enable rule f =
     (case rule of None \<Rightarrow> f
      | Some r \<Rightarrow> f\<lparr> pf_broadcasts := pf_broadcasts f @ [policy_report c callingFnc chainType enable r] \<rparr>)"

definition pf_SendEvent :: "PolicyMessage \<Rightarrow> NetPolicyFirewall \<Rightarrow> NetPolicyFirewall" where
  "pf_SendEvent msg f = f\<lparr> pf_events := pf_events f @ [msg] \<rparr>"

definition Firewall_Init :: "pf_state \<Rightarrow> pf_state" where
  "Firewall_Init s =
     (case s of (f, w) \<Rightarrow>
      let idle = CreateFirewallRule FIREWALL_CHAIN_DEVICE_IDLE;
          save = CreateFirewallRule FIREWALL_CHAIN_POWER_SAVE;
          f1 = f\<lparr> deviceIdleFirewallRule := idle, powerSaveFirewallRule := save,
                  idleDenyFirewallRule := CreateFirewallRule FIREWALL_CHAIN_IDLE_DENY \<rparr>
      in case (idle, save) of
        (Some i, Some p) \<Rightarrow>
          (case ReadFirewallRules FIREWALL_CHAIN_DEVICE_IDLE (pf_deviceIdleAllowedList f1) (pf_deviceIdleDeniedList f1) (pw_file w)
           of (_, ia, den, file1) \<Rightarrow>
           case ReadFirewallRules FIREWALL_CHAIN_POWER_SAVE (pf_powerSaveAllowedList f1) (pf_powerSaveDeniedList f1) file1
           of (_, pa, pd, file2) \<Rightarrow>
           case SetAllowedList_set ia i (w\<lparr> pw_file := file2 \<rparr>) of (i', w1) \<Rightarrow>
           case SetAllowedList_set pa p w1 of (p', w2) \<Rightarrow>
             (f1\<lparr> pf_deviceIdleAllowedList := ia, pf_deviceIdleDeniedList := den, pf_powerSaveAllowedList := pa,
                  pf_powerSaveDeniedList := pd, deviceIdleFirewallRule := Some i', powerSaveFirewallRule := Some p' \<rparr>, w2))
      | _ \<Rightarrow> (f1, w))"

definition update_list :: "u32 list \<Rightarrow> bool \<Rightarrow> u32 set \<Rightarrow> u32 set" where
  "update_list uids isAllowed l = fold (\<lambda>uid l. if isAllowed then insert uid l else l - {uid}) uids l"

definition UpdateFirewallPolicyList :: "u32 \<Rightarrow> u32 list \<Rightarrow> bool \<Rightarrow> NetPolicyFirewall \<Rightarrow> NetPolicyFirewall" where
  "UpdateFirewallPolicyList chainType uids isAllowed f =
     (if chainType = FIREWALL_CHAIN_DEVICE_IDLE then
        f\<lparr> pf_deviceIdleAllowedList := update_list uids isAllowed (pf_deviceIdleAllowedList f) \<rparr>
      else if chainType = FIREWALL_CHAIN_POWER_SAVE then
        f\<lparr> pf_powerSaveAllowedList := update_list uids isAllowed (pf_powerSaveAllowedList f) \<rparr>
      else f)"

definition SetDeviceIdleTrustlist :: "caller \<Rightarrow> u32 list \<Rightarrow> bool \<Rightarrow> pf_state \<Rightarrow> (int \<times> pf_state) option" where
  "SetDeviceIdleTrustlist c uids isAllowed s =
     (case s of (f, w) \<Rightarrow>
      if card (pf_powerSaveAllowedList f) > MAX_LIST_SIZE then Some (NETMANAGER_ERR_PARAMETER_ERROR, s)
      else let f1 = UpdateFirewallPolicyList FIREWALL_CHAIN_DEVICE_IDLE uids isAllowed f;
               w1 = on_file (WriteFirewallRules FIREWALL_CHAIN_DEVICE_IDLE (pf_deviceIdleAllowedList f1) (pf_deviceIdleDeniedList f1)) w
           in case deviceIdleFirewallRule f1 of
             None \<Rightarrow> None
           | Some r \<Rightarrow>
               (case SetAllowedList_uids uids (if isAllowed then FIREWALL_RULE_ALLOW else FIREWALL_RULE_DENY) r w1 of (r', w2) \<Rightarrow>
                let f2 = f1\<lparr> deviceIdleFirewallRule := Some r' \<rparr>;
                    f3 = ReportFirewallPolicyChange c ''SetDeviceIdleTrustlist'' FIREWALL_CHAIN_DEVICE_IDLE
                           (pf_deviceIdleMode f2) (deviceIdleFirewallRule f2) f2
                in Some (NETMANAGER_SUCCESS, pf_SendEvent (MSG_DEVICE_IDLE_LIST_UPDATED (pf_deviceIdleAllowedList f3)) f3, w2)))"

definition SetPowerSaveTrustlist :: "caller \<Rightarrow> u32 list \<Rightarrow> bool \<Rightarrow> pf_state \<Rightarrow> int \<times> pf_state" where
  "SetPowerSaveTrustlist c uids isAllowed s =
     (case s of (f, w) \<Rightarrow>
      if card (pf_powerSaveAllowedList f) > MAX_LIST_SIZE then (NETMANAGER_ERR_PARAMETER_ERROR, s)
      else let f1 = UpdateFirewallPolicyList FIREWALL_CHAIN_POWER_SAVE uids isAllowed f;
               w1 = on_file (WriteFirewallRules FIREWALL_CHAIN_POWER_SAVE (pf_powerSaveAllowedList f1) (pf_powerSaveDeniedList f1)) w
           in case powerSaveFirewallRule f1 of
             None \<Rightarrow> (NETMANAGER_ERR_LOCAL_PTR_NULL, f1, w1)
           | Some r \<Rightarrow>
               (case SetAllowedList_uids uids (if isAllowed then FIREWALL_RULE_ALLOW else FIREWALL_RULE_DENY) r w1 of (r', w2) \<Rightarrow>
                let f2 = f1\<lparr> powerSaveFirewallRule := Some r' \<rparr>;
                    f3 = ReportFirewallPolicyChange c ''SetPowerSaveTrustlist'' FIREWALL_CHAIN_POWER_SAVE
                           (pf_powerSaveMode f2) (powerSaveFirewallRule f2) f2
                in (NETMANAGER_SUCCESS, pf_SendEvent (MSG_POWER_SAVE_LIST_UPDATED (pf_powerSaveAllowedList f3)) f3, w2)))"

definition GetDeviceIdleTrustlist :: "NetPolicyFirewall \<Rightarrow> u32 list \<Rightarrow> int \<times> u32 list" where
  "GetDeviceIdleTrustlist f uids =
     (case deviceIdleFirewallRule f of None \<Rightarrow> (NETMANAGER_ERR_LOCAL_PTR_NULL, uids) | Some r \<Rightarrow> (NETMANAGER_SUCCESS, fr_allowedList r))"

definition GetPowerSaveTrustlist :: "NetPolicyFirewall \<Rightarrow> u32 list \<Rightarrow> int \<times> u32 list" where
  "GetPowerSaveTrustlist f uids =
     (case powerSaveFirewallRule f of None \<Rightarrow> (NETMANAGER_ERR_LOCAL_PTR_NULL, uids) | Some r \<Rightarrow> (NETMANAGER_SUCCESS, fr_allowedList r))"

definition UpdateDeviceIdlePolicy :: "caller \<Rightarrow> bool \<Rightarrow> pf_state \<Rightarrow> int \<times> pf_state" where
  "UpdateDeviceIdlePolicy c enable s =
     (case s of (f, w) \<Rightarrow>
      if pf_deviceIdleMode f = enable then (NETMANAGER_ERR_STATUS_EXIST, s)
      else case deviceIdleFirewallRule f of
        None \<Rightarrow> (NETMANAGER_ERR_LOCAL_PTR_NULL, s)
      | Some r \<Rightarrow>
          let w1 = EnableFirewall enable r (if enable then SetAllowedList r w else w);
              f1 = ReportFirewallPolicyChange c ''UpdateDeviceIdlePolicy'' FIREWALL_CHAIN_DEVICE_IDLE enable (Some r)
                     (f\<lparr> pf_deviceIdleMode := enable \<rparr>)
          in (NETMANAGER_SUCCESS, pf_SendEvent (MSG_DEVICE_IDLE_MODE_CHANGED enable) f1, w1))"

definition UpdatePowerSavePolicy :: "caller \<Rightarrow> bool \<Rightarrow> pf_state \<Rightarrow> int \<times> pf_state" where
  "UpdatePowerSavePolicy c enable s =
     (case s of (f, w) \<Rightarrow>
      if pf_powerSaveMode f = enable then (NETMANAGER_ERR_STATUS_EXIST, s)
      else case powerSaveFirewallRule f of
        None \<Rightarrow> (NETMANAGER_ERR_LOCAL_PTR_NULL, s)
      | Some r \<Rightarrow>
          let w1 = EnableFirewall enable r (if enable then SetAllowedList r w else Rule_ClearFirewallAllRules w);
              f1 = ReportFirewallPolicyChange c ''UpdatePowerSavePolicy'' FIREWALL_CHAIN_POWER_SAVE enable (Some r)
                     (f\<lparr> pf_powerSaveMode := enable \<rparr>)
          in (NETMANAGER_SUCCESS, pf_SendEvent (MSG_POWER_SAVE_MODE_CHANGED enable) f1, w1))"

definition UpdateIdleDenyPolicy :: "caller \<Rightarrow> bool \<Rightarrow> pf_state \<Rightarrow> int \<times> pf_state" where
  "UpdateIdleDenyPolicy c enable s =
     (case s of (f, w) \<Rightarrow>
      if pf_idleDenyMode f = enable then (NETMANAGER_ERR_STATUS_EXIST, s)
      else case idleDenyFirewallRule f of
        None \<Rightarrow> (NETMANAGER_ERR_LOCAL_PTR_NULL, s)
      | Some r \<Rightarrow>
          (NETMANAGER_SUCCESS,
           (ReportFirewallPolicyChange c ''UpdateIdleDenyPolicy'' FIREWALL_CHAIN_IDLE_DENY enable (Some r) f)\<lparr> pf_idleDenyMode := enable \<rparr>,
           EnableFirewall enable r w))"

definition Policy_SetUidsDeniedListChain :: "caller \<Rightarrow> u32 list \<Rightarrow> bool \<Rightarrow> pf_state \<Rightarrow> int \<times> pf_state" where
  "Policy_SetUidsDeniedListChain c uids isAdd s =
     (case s of (f, w) \<Rightarrow>
      if length uids > MAX_LIST_SIZE then (NETMANAGER_ERR_PARAMETER_ERROR, s)
      else case idleDenyFirewallRule f of
        None \<Rightarrow> (NETMANAGER_ERR_LOCAL_PTR_NULL, s)
      | Some r \<Rightarrow>
          (case SetDeniedList_uids uids (if isAdd then FIREWALL_RULE_DENY else FIREWALL_RULE_ALLOW) r w of (r', w') \<Rightarrow>
             (NETMANAGER_SUCCESS,
              ReportFirewallPolicyChange c ''SetUidsDeniedListChain'' FIREWALL_CHAIN_IDLE_DENY (pf_idleDenyMode f) (Some r')
                (f\<lparr> idleDenyFirewallRule := Some r' \<rparr>), w')))"

definition clear_lists :: "caller \<Rightarrow> pf_state \<Rightarrow> pf_state" where
  "clear_lists c s =
     (case s of (f, w) \<Rightarrow>
      let f1 = f\<lparr> pf_deviceIdleAllowedList := {}, pf_deviceIdleDeniedList := {} \<rparr>;
          w1 = on_file (WriteFirewallRules FIREWALL_CHAIN_DEVICE_IDLE {} {}) w;
          f2 = f1\<lparr> pf_powerSaveAllowedList := {}, pf_powerSaveDeniedList := {} \<rparr>;
          w2 = on_file (WriteFirewallRules FIREWALL_CHAIN_POWER_SAVE {} {}) w1;
          s3 = snd (UpdateDeviceIdlePolicy c False (f2, w2));
          s4 = snd (UpdatePowerSavePolicy c False s3)
      in snd (UpdateIdleDenyPolicy c False s4))"

definition Firewall_ResetPolicies :: "caller \<Rightarrow> pf_state \<Rightarrow> pf_state" where
  "Firewall_ResetPolicies c s =
     (case s of (f, w) \<Rightarrow>
      case deviceIdleFirewallRule f of None \<Rightarrow> s
      | Some i \<Rightarrow>
        (case ClearAllowedList i w of (i1, w1) \<Rightarrow>
         case ClearDeniedList i1 w1 of (i2, w2) \<Rightarrow>
         let f1 = f\<lparr> deviceIdleFirewallRule := Some i2 \<rparr> in
         case powerSaveFirewallRule f1 of None \<Rightarrow> (f1, w2)
         | Some p \<Rightarrow>
           (case ClearAllowedList p w2 of (p1, w3) \<Rightarrow>
            case ClearDeniedList p1 w3 of (p2, w4) \<Rightarrow>
            let f2 = f1\<lparr> powerSaveFirewallRule := Some p2 \<rparr> in
            case idleDenyFirewallRule f2 of None \<Rightarrow> (f2, w4)
            | Some d \<Rightarrow>
              (case ClearDeniedList d w4 of (d1, w5) \<Rightarrow> clear_lists c (f2\<lparr> idleDenyFirewallRule := Some d1 \<rparr>, w5)))))"

definition Firewall_DeleteUid :: "caller \<Rightarrow> u32 \<Rightarrow> pf_state \<Rightarrow> pf_state option" where
  "Firewall_DeleteUid c uid s =
     (case SetDeviceIdleTrustlist c [uid] False s of None \<Rightarrow> None
      | Some (_, s1) \<Rightarrow>
        (case SetPowerSaveTrustlist c [uid] False s1 of (_, f2, w2) \<Rightarrow>
         case (deviceIdleFirewallRule f2, powerSaveFirewallRule f2) of
           (Some i, Some p) \<Rightarrow>
             Some (f2\<lparr> deviceIdleFirewallRule := Some (RemoveFromAllowedList uid i),
                       powerSaveFirewallRule := Some (RemoveFromAllowedList uid p) \<rparr>, w2)
         | _ \<Rightarrow> None))"

definition Firewall_HandleEvent :: "caller \<Rightarrow> PolicyMessage \<Rightarrow> pf_state \<Rightarrow> pf_state option" where
  "Firewall_HandleEvent c msg s =
     (case msg of
        MSG_UID_REMOVED uid \<Rightarrow> Firewall_DeleteUid c uid s
      | MSG_POWER_SAVE_MODE_CHANGED m \<Rightarrow> Some (snd (UpdatePowerSavePolicy c m s))
      | _ \<Rightarrow> Some s)"

section \<open>Vocabulary of the properties\<close>

definition file_lists :: "u32 \<Rightarrow> policy_world \<Rightarrow> NetFirewallRuleList" where
  "file_lists chainType w = firewall_lists chainType (netPolicy (pw_file w))"

text \<open>
  The trust list of the component and the document agree, and the list of a chain object is a part of it. The chain's list is all of it
  as long as the power-save list is within its bound: beyond it, removing a package takes its uid out of the chain objects only.
\<close>

definition bounded :: "NetPolicyFirewall \<Rightarrow> bool" where
  "bounded f = (card (pf_powerSaveAllowedList f) \<le> MAX_LIST_SIZE)"

definition chain_agrees :: "bool \<Rightarrow> u32 \<Rightarrow> FirewallRuleObj option \<Rightarrow> u32 set \<Rightarrow> u32 set \<Rightarrow> policy_world \<Rightarrow> bool" where
  "chain_agrees exact chainType r allowedSet deniedSet w =
     (case r of None \<Rightarrow> False
      | Some r \<Rightarrow> fr_chainType r = chainType \<and> distinct (fr_allowedList r) \<and> set (fr_allowedList r) \<subseteq> allowedSet
          \<and> (exact \<longrightarrow> set (fr_allowedList r) = allowedSet)
          \<and> file_lists chainType w = \<lparr> fl_deniedList = deniedSet, fl_allowedList = allowedSet \<rparr>)"

definition pf_inv :: "pf_state \<Rightarrow> bool" where
  "pf_inv s =
     (case s of (f, w) \<Rightarrow>
        chain_agrees (bounded f) FIREWALL_CHAIN_DEVICE_IDLE (deviceIdleFirewallRule f) (pf_deviceIdleAllowedList f) (pf_deviceIdleDeniedList f) w
      \<and> chain_agrees (bounded f) FIREWALL_CHAIN_POWER_SAVE (powerSaveFirewallRule f) (pf_powerSaveAllowedList f) (pf_powerSaveDeniedList f) w
      \<and> (case idleDenyFirewallRule f of None \<Rightarrow> False
         | Some d \<Rightarrow> fr_chainType d = FIREWALL_CHAIN_IDLE_DENY \<and> distinct (fr_deniedList d)))"

text \<open>The operations of the component, interleaved with changes of the world by the other components.\<close>

inductive pf_step :: "pf_state \<Rightarrow> pf_state \<Rightarrow> bool" where
  pf_idle_list: "SetDeviceIdleTrustlist c uids isAllowed s = Some (r, s') \<Longrightarrow> pf_step s s'"
| pf_save_list: "SetPowerSaveTrustlist c uids isAllowed s = (r, s') \<Longrightarrow> pf_step s s'"
| pf_idle_mode: "UpdateDeviceIdlePolicy c enable s = (r, s') \<Longrightarrow> pf_step s s'"
| pf_save_mode: "UpdatePowerSavePolicy c enable s = (r, s') \<Longrightarrow> pf_step s s'"
| pf_deny_mode: "UpdateIdleDenyPolicy c enable s = (r, s') \<Longrightarrow> pf_step s s'"
| pf_deny_list: "Policy_SetUidsDeniedListChain c uids isAdd s = (r, s') \<Longrightarrow> pf_step s s'"
| pf_reset: "pf_step s (Firewall_ResetPolicies c s)"
| pf_event: "Firewall_HandleEvent c msg s = Some s' \<Longrightarrow> pf_step s s'"
| pf_world: "file_lists FIREWALL_CHAIN_DEVICE_IDLE w' = file_lists FIREWALL_CHAIN_DEVICE_IDLE w \<Longrightarrow>
    file_lists FIREWALL_CHAIN_POWER_SAVE w' = file_lists FIREWALL_CHAIN_POWER_SAVE w \<Longrightarrow> pf_step (f, w) (f, w')"

inductive pf_reachable :: "pf_state \<Rightarrow> bool" where
  pf_start: "finite (fl_allowedList (file_lists FIREWALL_CHAIN_DEVICE_IDLE w)) \<Longrightarrow>
    finite (fl_allowedList (file_lists FIREWALL_CHAIN_POWER_SAVE w)) \<Longrightarrow> pf_reachable (Firewall_Init (NetPolicyFirewall_ctor, w))"
| pf_next: "pf_reachable s \<Longrightarrow> pf_step s s' \<Longrightarrow> pf_reachable s'"

section \<open>Lemmas\<close>

subsection \<open>Lists of a chain\<close>

lemma SetAllowedList_uid_fields [simp]:
  "fr_chainType (SetAllowedList_uid rule u r) = fr_chainType r" "fr_deniedList (SetAllowedList_uid rule u r) = fr_deniedList r"
  by (simp_all add: SetAllowedList_uid_def)

lemma fold_SetAllowedList_fields [simp]:
  "fr_chainType (fold (SetAllowedList_uid rule) us r) = fr_chainType r"
  "fr_deniedList (fold (SetAllowedList_uid rule) us r) = fr_deniedList r"
  by (induction us arbitrary: r) simp_all

lemma SetAllowedList_uid_list:
  assumes "distinct (fr_allowedList r)"
  shows "distinct (fr_allowedList (SetAllowedList_uid rule u r))"
    and "set (fr_allowedList (SetAllowedList_uid rule u r)) =
      (if rule = FIREWALL_RULE_ALLOW then insert u (set (fr_allowedList r)) else set (fr_allowedList r) - {u})"
  using assms by (auto simp: SetAllowedList_uid_def)

lemma fold_SetAllowedList_list:
  assumes "distinct (fr_allowedList r)"
  shows "distinct (fr_allowedList (fold (SetAllowedList_uid rule) us r))
    \<and> set (fr_allowedList (fold (SetAllowedList_uid rule) us r)) = update_list us (rule = FIREWALL_RULE_ALLOW) (set (fr_allowedList r))"
  using assms by (induction us arbitrary: r) (simp_all add: update_list_def SetAllowedList_uid_list)

lemma update_list_eq: "update_list us b l = (if b then l \<union> set us else l - set us)"
  by (induction us arbitrary: l) (auto simp: update_list_def)

lemma SetDeniedList_step_distinct: "distinct l \<Longrightarrow> distinct (SetDeniedList_step rule it l)"
  by (simp add: SetDeniedList_step_def distinct_removeAll)

lemma fold_SetDeniedList_distinct: "distinct l \<Longrightarrow> distinct (fold (SetDeniedList_step rule) us l)"
  by (induction us arbitrary: l) (simp_all add: SetDeniedList_step_distinct)

lemma fold_SetDeniedList_member:
  "u \<in> set (fold (SetDeniedList_step rule) us l) \<longleftrightarrow>
   (if rule = FIREWALL_RULE_DENY then (u \<in> set l) \<noteq> odd (count_list us u) else u \<in> set l \<and> u \<notin> set us)"
  by (induction us arbitrary: l) (auto simp: SetDeniedList_step_def)

subsection \<open>The document\<close>

lemma file_lists_netsys [simp]: "file_lists ch (netsys_call g w) = file_lists ch w"
  by (simp add: file_lists_def netsys_call_def)

lemma file_lists_world [simp]:
  "file_lists ch (SetAllowedList r w) = file_lists ch w" "file_lists ch (SetDeniedList r w) = file_lists ch w"
  "file_lists ch (EnableFirewall b r w) = file_lists ch w" "file_lists ch (Rule_ClearFirewallAllRules w) = file_lists ch w"
  by (simp_all add: SetAllowedList_def SetDeniedList_def EnableFirewall_def Rule_ClearFirewallAllRules_def)

lemma file_lists_write [simp]:
  "file_lists ch (on_file (WriteFirewallRules ch' a d) w) =
     (if ch = ch' then \<lparr> fl_deniedList = d, fl_allowedList = a \<rparr> else file_lists ch w)"
  by (simp add: file_lists_def on_file_def WriteFirewallRules_def WriteFile_def upd_policy_def firewall_lists_def
      fill_defaults_def Let_def)

lemma file_lists_read:
  "firewall_lists ch (netPolicy (snd (snd (snd (ReadFirewallRules ch' a d file))))) = firewall_lists ch (netPolicy file)"
  by (simp add: ReadFirewallRules_def upd_policy_def firewall_lists_def Let_def)

subsection \<open>The invariant\<close>

lemma report_fields [simp]:
  "deviceIdleFirewallRule (ReportFirewallPolicyChange c n ch e r f) = deviceIdleFirewallRule f"
  "powerSaveFirewallRule (ReportFirewallPolicyChange c n ch e r f) = powerSaveFirewallRule f"
  "idleDenyFirewallRule (ReportFirewallPolicyChange c n ch e r f) = idleDenyFirewallRule f"
  "pf_deviceIdleAllowedList (ReportFirewallPolicyChange c n ch e r f) = pf_deviceIdleAllowedList f"
  "pf_deviceIdleDeniedList (ReportFirewallPolicyChange c n ch e r f) = pf_deviceIdleDeniedList f"
  "pf_powerSaveAllowedList (ReportFirewallPolicyChange c n ch e r f) = pf_powerSaveAllowedList f"
  "pf_powerSaveDeniedList (ReportFirewallPolicyChange c n ch e r f) = pf_powerSaveDeniedList f"
  by (simp_all add: ReportFirewallPolicyChange_def split: option.split)

lemma send_fields [simp]:
  "deviceIdleFirewallRule (pf_SendEvent m f) = deviceIdleFirewallRule f"
  "powerSaveFirewallRule (pf_SendEvent m f) = powerSaveFirewallRule f"
  "idleDenyFirewallRule (pf_SendEvent m f) = idleDenyFirewallRule f"
  "pf_deviceIdleAllowedList (pf_SendEvent m f) = pf_deviceIdleAllowedList f"
  "pf_deviceIdleDeniedList (pf_SendEvent m f) = pf_deviceIdleDeniedList f"
  "pf_powerSaveAllowedList (pf_SendEvent m f) = pf_powerSaveAllowedList f"
  "pf_powerSaveDeniedList (pf_SendEvent m f) = pf_powerSaveDeniedList f"
  by (simp_all add: pf_SendEvent_def)

lemma chain_agrees_Some [simp]:
  "chain_agrees b ch None a d w = False"
  "chain_agrees b ch (Some r) a d w = (fr_chainType r = ch \<and> distinct (fr_allowedList r) \<and> set (fr_allowedList r) \<subseteq> a
     \<and> (b \<longrightarrow> set (fr_allowedList r) = a) \<and> file_lists ch w = \<lparr> fl_deniedList = d, fl_allowedList = a \<rparr>)"
  by (simp_all add: chain_agrees_def)

lemma bounded_fields [simp]:
  "bounded (ReportFirewallPolicyChange c n ch e r f) = bounded f" "bounded (pf_SendEvent m f) = bounded f"
  by (simp_all add: bounded_def)

lemma pf_invE:
  assumes "pf_inv (f, w)"
  obtains i p d where "deviceIdleFirewallRule f = Some i" "powerSaveFirewallRule f = Some p" "idleDenyFirewallRule f = Some d"
  using assms by (auto simp: pf_inv_def chain_agrees_def split: option.splits)

lemma pf_inv_world:
  assumes "pf_inv (f, w)" "file_lists FIREWALL_CHAIN_DEVICE_IDLE w' = file_lists FIREWALL_CHAIN_DEVICE_IDLE w"
    "file_lists FIREWALL_CHAIN_POWER_SAVE w' = file_lists FIREWALL_CHAIN_POWER_SAVE w"
  shows "pf_inv (f, w')"
  using assms by (auto simp: pf_inv_def chain_agrees_def split: option.splits)

lemma SetDeviceIdleTrustlist_ok:
  assumes "pf_inv s" "SetDeviceIdleTrustlist c uids b s = Some (r, s')"
  shows "pf_inv s'"
proof -
  obtain f w where s: "s = (f, w)" by fastforce
  obtain i p d where r: "deviceIdleFirewallRule f = Some i" "powerSaveFirewallRule f = Some p" "idleDenyFirewallRule f = Some d"
    using pf_invE assms(1) s by blast
  show ?thesis
    using assms fold_SetAllowedList_list [of i "if b then FIREWALL_RULE_ALLOW else FIREWALL_RULE_DENY" uids]
    by (auto simp: s r SetDeviceIdleTrustlist_def UpdateFirewallPolicyList_def SetAllowedList_uids_def pf_inv_def bounded_def Let_def
        split: if_splits)
qed

lemma SetPowerSaveTrustlist_ok:
  assumes "pf_inv s"
  shows "pf_inv (snd (SetPowerSaveTrustlist c uids b s))"
proof -
  obtain f w where s: "s = (f, w)" by fastforce
  obtain i p d where r: "deviceIdleFirewallRule f = Some i" "powerSaveFirewallRule f = Some p" "idleDenyFirewallRule f = Some d"
    using pf_invE assms(1) s by blast
  show ?thesis
    using assms fold_SetAllowedList_list [of p "if b then FIREWALL_RULE_ALLOW else FIREWALL_RULE_DENY" uids]
    by (auto simp: s r SetPowerSaveTrustlist_def UpdateFirewallPolicyList_def SetAllowedList_uids_def pf_inv_def bounded_def Let_def)
qed

lemma modes_ok:
  assumes "pf_inv s"
  shows "pf_inv (snd (UpdateDeviceIdlePolicy c b s))" "pf_inv (snd (UpdatePowerSavePolicy c b s))" "pf_inv (snd (UpdateIdleDenyPolicy c b s))"
proof -
  obtain f w where s: "s = (f, w)" by fastforce
  obtain i p d where r: "deviceIdleFirewallRule f = Some i" "powerSaveFirewallRule f = Some p" "idleDenyFirewallRule f = Some d"
    using pf_invE assms(1) s by blast
  show "pf_inv (snd (UpdateDeviceIdlePolicy c b s))" "pf_inv (snd (UpdatePowerSavePolicy c b s))" "pf_inv (snd (UpdateIdleDenyPolicy c b s))"
    using assms by (auto simp: s r UpdateDeviceIdlePolicy_def UpdatePowerSavePolicy_def UpdateIdleDenyPolicy_def pf_inv_def bounded_def Let_def)
qed

lemma denied_ok:
  assumes "pf_inv s"
  shows "pf_inv (snd (Policy_SetUidsDeniedListChain c uids b s))"
proof -
  obtain f w where s: "s = (f, w)" by fastforce
  obtain i p d where r: "deviceIdleFirewallRule f = Some i" "powerSaveFirewallRule f = Some p" "idleDenyFirewallRule f = Some d"
    using pf_invE assms(1) s by blast
  show ?thesis
    using assms by (auto simp: s r Policy_SetUidsDeniedListChain_def SetDeniedList_uids_def pf_inv_def bounded_def Let_def fold_SetDeniedList_distinct)
qed

lemma clear_lists_ok:
  assumes "pf_inv (f, w)" "deviceIdleFirewallRule f = Some i" "fr_allowedList i' = []" "fr_chainType i' = fr_chainType i"
    "powerSaveFirewallRule f = Some p" "fr_allowedList p' = []" "fr_chainType p' = fr_chainType p"
    "idleDenyFirewallRule f = Some d" "fr_deniedList d' = []" "fr_chainType d' = fr_chainType d"
  shows "pf_inv (clear_lists c (f\<lparr> deviceIdleFirewallRule := Some i', powerSaveFirewallRule := Some p', idleDenyFirewallRule := Some d' \<rparr>, w'))"
proof -
  let ?f = "f\<lparr> deviceIdleFirewallRule := Some i', powerSaveFirewallRule := Some p', idleDenyFirewallRule := Some d',
    pf_deviceIdleAllowedList := {}, pf_deviceIdleDeniedList := {}, pf_powerSaveAllowedList := {}, pf_powerSaveDeniedList := {} \<rparr>"
  let ?w = "on_file (WriteFirewallRules FIREWALL_CHAIN_POWER_SAVE {} {}) (on_file (WriteFirewallRules FIREWALL_CHAIN_DEVICE_IDLE {} {}) w')"
  have "pf_inv (?f, ?w)" using assms by (simp add: pf_inv_def)
  then show ?thesis by (simp add: clear_lists_def Let_def modes_ok)
qed

lemma Firewall_ResetPolicies_ok:
  assumes "pf_inv s"
  shows "pf_inv (Firewall_ResetPolicies c s)"
proof -
  obtain f w where s: "s = (f, w)" by fastforce
  obtain i p d where r: "deviceIdleFirewallRule f = Some i" "powerSaveFirewallRule f = Some p" "idleDenyFirewallRule f = Some d"
    using pf_invE assms(1) s by blast
  show ?thesis
    using assms clear_lists_ok [where f = f and w = w and i = i and p = p and d = d]
    by (simp add: s r Firewall_ResetPolicies_def ClearAllowedList_def ClearDeniedList_def Let_def)
qed

lemma SetDeviceIdle_remove:
  assumes "pf_inv (f, w)" "card (pf_powerSaveAllowedList f) \<le> MAX_LIST_SIZE"
  obtains f' w' i where "SetDeviceIdleTrustlist c uids b (f, w) = Some (NETMANAGER_SUCCESS, f', w')"
    "pf_powerSaveAllowedList f' = pf_powerSaveAllowedList f" "pf_inv (f', w')" "deviceIdleFirewallRule f' = Some i"
    "set (fr_allowedList i) = update_list uids b (pf_deviceIdleAllowedList f)" "pf_deviceIdleAllowedList f' = update_list uids b (pf_deviceIdleAllowedList f)"
proof -
  obtain i p d where r: "deviceIdleFirewallRule f = Some i" "powerSaveFirewallRule f = Some p" "idleDenyFirewallRule f = Some d"
    using pf_invE assms(1) by blast
  obtain f' w' where e: "SetDeviceIdleTrustlist c uids b (f, w) = Some (NETMANAGER_SUCCESS, f', w')"
    "pf_powerSaveAllowedList f' = pf_powerSaveAllowedList f" "pf_deviceIdleAllowedList f' = update_list uids b (pf_deviceIdleAllowedList f)"
    using assms(2) by (auto simp: SetDeviceIdleTrustlist_def UpdateFirewallPolicyList_def SetAllowedList_uids_def r Let_def)
  moreover from this have v: "pf_inv (f', w')" using SetDeviceIdleTrustlist_ok [OF assms(1)] by blast
  moreover obtain j where "deviceIdleFirewallRule f' = Some j" using pf_invE [OF v] by blast
  ultimately show thesis using that assms(2) by (auto simp: pf_inv_def bounded_def)
qed

lemma SetPowerSave_remove:
  assumes "pf_inv (f, w)" "card (pf_powerSaveAllowedList f) \<le> MAX_LIST_SIZE"
  obtains f' w' p where "SetPowerSaveTrustlist c uids b (f, w) = (NETMANAGER_SUCCESS, f', w')" "pf_inv (f', w')"
    "deviceIdleFirewallRule f' = deviceIdleFirewallRule f" "pf_deviceIdleAllowedList f' = pf_deviceIdleAllowedList f"
    "powerSaveFirewallRule f' = Some p" "set (fr_allowedList p) = update_list uids b (pf_powerSaveAllowedList f)"
    "pf_powerSaveAllowedList f' = update_list uids b (pf_powerSaveAllowedList f)"
proof -
  obtain i p d where r: "deviceIdleFirewallRule f = Some i" "powerSaveFirewallRule f = Some p" "idleDenyFirewallRule f = Some d"
    using pf_invE assms(1) by blast
  let ?p = "fold (SetAllowedList_uid (if b then FIREWALL_RULE_ALLOW else FIREWALL_RULE_DENY)) uids p"
  obtain f' w' where e: "SetPowerSaveTrustlist c uids b (f, w) = (NETMANAGER_SUCCESS, f', w')"
    "deviceIdleFirewallRule f' = deviceIdleFirewallRule f" "pf_deviceIdleAllowedList f' = pf_deviceIdleAllowedList f"
    "powerSaveFirewallRule f' = Some ?p" "pf_powerSaveAllowedList f' = update_list uids b (pf_powerSaveAllowedList f)"
    using assms(2) by (auto simp: SetPowerSaveTrustlist_def UpdateFirewallPolicyList_def SetAllowedList_uids_def r Let_def)
  moreover from this have "pf_inv (f', w')" using SetPowerSaveTrustlist_ok [OF assms(1), of c uids b] by simp
  moreover have "distinct (fr_allowedList p)" "set (fr_allowedList p) = pf_powerSaveAllowedList f"
    using assms by (simp_all add: pf_inv_def bounded_def r)
  then have "set (fr_allowedList ?p) = update_list uids b (pf_powerSaveAllowedList f)"
    using fold_SetAllowedList_list [of p "if b then FIREWALL_RULE_ALLOW else FIREWALL_RULE_DENY" uids] by (simp split: if_splits)
  ultimately show thesis using that by blast
qed

lemma Firewall_DeleteUid_bounded:
  assumes "pf_inv (f, w)" "card (pf_powerSaveAllowedList f) \<le> MAX_LIST_SIZE"
  obtains f' w' where "Firewall_DeleteUid c uid (f, w) = Some (f', w')" "pf_inv (f', w')"
    "pf_deviceIdleAllowedList f' = pf_deviceIdleAllowedList f - {uid}" "pf_powerSaveAllowedList f' = pf_powerSaveAllowedList f - {uid}"
proof -
  obtain f1 w1 i where s1: "SetDeviceIdleTrustlist c [uid] False (f, w) = Some (NETMANAGER_SUCCESS, f1, w1)"
    "pf_powerSaveAllowedList f1 = pf_powerSaveAllowedList f" "pf_inv (f1, w1)" "deviceIdleFirewallRule f1 = Some i"
    "set (fr_allowedList i) = pf_deviceIdleAllowedList f - {uid}" "pf_deviceIdleAllowedList f1 = pf_deviceIdleAllowedList f - {uid}"
    by (rule SetDeviceIdle_remove [OF assms, of c "[uid]" False]) (simp add: update_list_eq)
  have b: "card (pf_powerSaveAllowedList f1) \<le> MAX_LIST_SIZE" using s1(2) assms(2) by simp
  obtain f2 w2 p where e2: "SetPowerSaveTrustlist c [uid] False (f1, w1) = (NETMANAGER_SUCCESS, f2, w2)" "pf_inv (f2, w2)"
    "deviceIdleFirewallRule f2 = deviceIdleFirewallRule f1" "powerSaveFirewallRule f2 = Some p"
    "set (fr_allowedList p) = update_list [uid] False (pf_powerSaveAllowedList f1)"
    "pf_powerSaveAllowedList f2 = update_list [uid] False (pf_powerSaveAllowedList f1)" "pf_deviceIdleAllowedList f2 = pf_deviceIdleAllowedList f1"
    by (rule SetPowerSave_remove [OF s1(3) b, of c "[uid]" False])
  then have s2: "SetPowerSaveTrustlist c [uid] False (f1, w1) = (NETMANAGER_SUCCESS, f2, w2)" "pf_inv (f2, w2)"
    "deviceIdleFirewallRule f2 = Some i" "powerSaveFirewallRule f2 = Some p" "set (fr_allowedList p) = pf_powerSaveAllowedList f - {uid}"
    using s1(2, 4) by (simp_all add: update_list_eq)
  have "remove1 uid (fr_allowedList i) = fr_allowedList i" "remove1 uid (fr_allowedList p) = fr_allowedList p"
    using s1(5) s2(5) by (simp_all add: remove1_idem)
  then have id: "RemoveFromAllowedList uid i = i" "RemoveFromAllowedList uid p = p" by (simp_all add: RemoveFromAllowedList_def)
  have "f2\<lparr> deviceIdleFirewallRule := Some i, powerSaveFirewallRule := Some p \<rparr> = f2" using s2(3, 4) by simp
  then have "Firewall_DeleteUid c uid (f, w) = Some (f2, w2)" by (simp add: Firewall_DeleteUid_def s1(1) s2 id)
  moreover have "pf_deviceIdleAllowedList f2 = pf_deviceIdleAllowedList f - {uid}" "pf_powerSaveAllowedList f2 = pf_powerSaveAllowedList f - {uid}"
    using e2(6, 7) s1(2, 6) by (simp_all add: update_list_eq)
  ultimately show thesis using that s2(2) by blast
qed

text \<open>Beyond the bound only the chain objects change.\<close>

lemma Firewall_DeleteUid_oversized:
  assumes "pf_inv (f, w)" "\<not> bounded f"
  obtains i p where "deviceIdleFirewallRule f = Some i" "powerSaveFirewallRule f = Some p"
    "Firewall_DeleteUid c uid (f, w) = Some (f\<lparr> deviceIdleFirewallRule := Some (RemoveFromAllowedList uid i),
       powerSaveFirewallRule := Some (RemoveFromAllowedList uid p) \<rparr>, w)"
proof -
  obtain i p where "deviceIdleFirewallRule f = Some i" "powerSaveFirewallRule f = Some p" using pf_invE [OF assms(1)] by blast
  then show thesis
    using that assms(2) by (simp add: bounded_def Firewall_DeleteUid_def SetDeviceIdleTrustlist_def SetPowerSaveTrustlist_def)
qed

lemma Firewall_DeleteUid_ok:
  assumes "pf_inv (f, w)" "Firewall_DeleteUid c uid (f, w) = Some s'"
  shows "pf_inv s'"
proof (cases "bounded f")
  case True
  then have "card (pf_powerSaveAllowedList f) \<le> MAX_LIST_SIZE" by (simp add: bounded_def)
  from Firewall_DeleteUid_bounded [OF assms(1) this, of c uid] assms(2) show ?thesis by (metis option.inject)
next
  case False
  obtain i p where r: "deviceIdleFirewallRule f = Some i" "powerSaveFirewallRule f = Some p"
    "s' = (f\<lparr> deviceIdleFirewallRule := Some (RemoveFromAllowedList uid i), powerSaveFirewallRule := Some (RemoveFromAllowedList uid p) \<rparr>, w)"
    using Firewall_DeleteUid_oversized [OF assms(1) False, of c uid] assms(2) by (metis option.inject)
  have "L - {uid} \<subseteq> A" if "L \<subseteq> A" for L A :: "u32 set" using that by blast
  then show ?thesis using assms(1) False by (simp add: pf_inv_def r RemoveFromAllowedList_def bounded_def)
qed

lemma Firewall_HandleEvent_ok:
  assumes "pf_inv s" "Firewall_HandleEvent c msg s = Some s'"
  shows "pf_inv s'"
proof (cases msg)
  case (MSG_UID_REMOVED uid)
  obtain f w where s: "s = (f, w)" by fastforce
  show ?thesis using Firewall_DeleteUid_ok [of f w c uid] assms by (auto simp: s MSG_UID_REMOVED Firewall_HandleEvent_def)
qed (use assms in \<open>auto simp: Firewall_HandleEvent_def modes_ok\<close>)

lemma pf_step_ok: "pf_step s s' \<Longrightarrow> pf_inv s \<Longrightarrow> pf_inv s'"
proof (induction rule: pf_step.induct)
  case (pf_idle_list c uids b s r s')
  then show ?case using SetDeviceIdleTrustlist_ok by blast
next
  case (pf_save_list c uids b s r s')
  then show ?case using SetPowerSaveTrustlist_ok [of s c uids b] by simp
next
  case (pf_idle_mode c b s r s')
  then show ?case using modes_ok(1) [of s c b] by simp
next
  case (pf_save_mode c b s r s')
  then show ?case using modes_ok(2) [of s c b] by simp
next
  case (pf_deny_mode c b s r s')
  then show ?case using modes_ok(3) [of s c b] by simp
next
  case (pf_deny_list c uids b s r s')
  then show ?case using denied_ok [of s c uids b] by simp
qed (simp_all add: Firewall_ResetPolicies_ok Firewall_HandleEvent_ok pf_inv_world)

lemma Firewall_Init_eq:
  assumes "finite (fl_allowedList (file_lists FIREWALL_CHAIN_DEVICE_IDLE w))" "finite (fl_allowedList (file_lists FIREWALL_CHAIN_POWER_SAVE w))"
  obtains f' w' where "Firewall_Init (NetPolicyFirewall_ctor, w) = (f', w')" "pf_inv (f', w')"
    "pf_deviceIdleAllowedList f' = fl_allowedList (file_lists FIREWALL_CHAIN_DEVICE_IDLE w)"
    "pf_powerSaveAllowedList f' = fl_allowedList (file_lists FIREWALL_CHAIN_POWER_SAVE w)"
    "\<exists>l. GetDeviceIdleTrustlist f' us = (NETMANAGER_SUCCESS, l) \<and> distinct l \<and> set l = fl_allowedList (file_lists FIREWALL_CHAIN_DEVICE_IDLE w)"
    "\<exists>l. GetPowerSaveTrustlist f' us = (NETMANAGER_SUCCESS, l) \<and> distinct l \<and> set l = fl_allowedList (file_lists FIREWALL_CHAIN_POWER_SAVE w)"
proof -
  obtain f' w' where e: "Firewall_Init (NetPolicyFirewall_ctor, w) = (f', w')" by fastforce
  let ?ch = "\<lambda>ch. fold (SetAllowedList_uid FIREWALL_RULE_ALLOW) (sorted_list_of_set (fl_allowedList (file_lists ch w))) (FirewallRule_ctor ch)"
  have l: "distinct (fr_allowedList (?ch ch)) \<and> set (fr_allowedList (?ch ch)) = set (sorted_list_of_set (fl_allowedList (file_lists ch w)))" for ch
    using fold_SetAllowedList_list [of "FirewallRule_ctor ch" FIREWALL_RULE_ALLOW "sorted_list_of_set (fl_allowedList (file_lists ch w))"]
    by (simp add: FirewallRule_ctor_def update_list_eq)
  have w': "file_lists ch w' = file_lists ch w" for ch
    using e by (auto simp: Firewall_Init_def CreateFirewallRule_def SetAllowedList_set_def Let_def
        ReadFirewallRules_def file_lists_def firewall_lists_def upd_policy_def SetAllowedList_def netsys_call_def)
  have f': "f' = NetPolicyFirewall_ctor\<lparr> deviceIdleFirewallRule := Some (?ch FIREWALL_CHAIN_DEVICE_IDLE),
      powerSaveFirewallRule := Some (?ch FIREWALL_CHAIN_POWER_SAVE), idleDenyFirewallRule := Some (FirewallRule_ctor FIREWALL_CHAIN_IDLE_DENY),
      pf_deviceIdleAllowedList := fl_allowedList (file_lists FIREWALL_CHAIN_DEVICE_IDLE w),
      pf_deviceIdleDeniedList := fl_deniedList (file_lists FIREWALL_CHAIN_DEVICE_IDLE w),
      pf_powerSaveAllowedList := fl_allowedList (file_lists FIREWALL_CHAIN_POWER_SAVE w),
      pf_powerSaveDeniedList := fl_deniedList (file_lists FIREWALL_CHAIN_POWER_SAVE w) \<rparr>"
    using e by (auto simp: Firewall_Init_def CreateFirewallRule_def NetPolicyFirewall_ctor_def SetAllowedList_set_def Let_def
        ReadFirewallRules_def file_lists_def firewall_lists_def upd_policy_def)
  have "pf_inv (f', w')"
    unfolding pf_inv_def f' by (simp add: l w' assms) (simp add: FirewallRule_ctor_def)
  then show thesis by (rule that [OF e]) (simp_all add: f' GetDeviceIdleTrustlist_def GetPowerSaveTrustlist_def l assms)
qed

lemma pf_reachable_ok: "pf_reachable s \<Longrightarrow> pf_inv s"
proof (induction rule: pf_reachable.induct)
  case (pf_start w)
  then show ?case using Firewall_Init_eq [of w] by metis
qed (rule pf_step_ok)

lemma pf_lists:
  assumes "pf_inv (f, w)"
  shows "\<exists>l. GetDeviceIdleTrustlist f us = (NETMANAGER_SUCCESS, l) \<and> distinct l \<and> set l \<subseteq> pf_deviceIdleAllowedList f
      \<and> (bounded f \<longrightarrow> set l = pf_deviceIdleAllowedList f)"
    and "\<exists>l. GetPowerSaveTrustlist f us = (NETMANAGER_SUCCESS, l) \<and> distinct l \<and> set l \<subseteq> pf_powerSaveAllowedList f
      \<and> (bounded f \<longrightarrow> set l = pf_powerSaveAllowedList f)"
    and "fl_allowedList (file_lists FIREWALL_CHAIN_DEVICE_IDLE w) = pf_deviceIdleAllowedList f"
    and "fl_allowedList (file_lists FIREWALL_CHAIN_POWER_SAVE w) = pf_powerSaveAllowedList f"
  using assms by (auto simp: pf_inv_def GetDeviceIdleTrustlist_def GetPowerSaveTrustlist_def chain_agrees_def split: option.splits)

text \<open>An example world and an example of a caller.\<close>

lemma first_boot_lists: "file_lists ch first_boot = \<lparr> fl_deniedList = {}, fl_allowedList = {} \<rparr>"
  by (simp add: file_lists_def first_boot_def firewall_lists_def)

lemma first_boot_pf: "pf_reachable (Firewall_Init (NetPolicyFirewall_ctor, first_boot))"
  by (rule pf_start) (simp_all add: first_boot_lists)

definition trusting_boot :: "u32 \<Rightarrow> pf_state" where
  "trusting_boot uid = snd (SetPowerSaveTrustlist \<lparr> ca_pid = 1, ca_uid = 2, ca_bundle = ''b'', ca_time = 3 \<rparr> [uid] True
     (Firewall_Init (NetPolicyFirewall_ctor, first_boot)))"

lemma trusting_boot_ok:
  "pf_reachable (trusting_boot uid)" "pf_powerSaveAllowedList (fst (trusting_boot uid)) = {uid}" "bounded (fst (trusting_boot uid))"
proof -
  let ?c = "\<lparr> ca_pid = 1, ca_uid = 2, ca_bundle = ''b'', ca_time = 3 \<rparr>"
  show "pf_reachable (trusting_boot uid)" unfolding trusting_boot_def
    by (rule pf_next [OF first_boot_pf], rule pf_save_list) (rule prod.collapse [symmetric])
  obtain f w where i: "Firewall_Init (NetPolicyFirewall_ctor, first_boot) = (f, w)" "pf_inv (f, w)" "pf_powerSaveAllowedList f = {}"
    by (rule Firewall_Init_eq [of first_boot]) (simp_all add: first_boot_lists)
  obtain a p d where "powerSaveFirewallRule f = Some p" by (rule pf_invE [OF i(2)])
  then show "pf_powerSaveAllowedList (fst (trusting_boot uid)) = {uid}"
    using i(1, 3) by (simp add: trusting_boot_def SetPowerSaveTrustlist_def UpdateFirewallPolicyList_def SetAllowedList_uids_def update_list_def Let_def)
  then show "bounded (fst (trusting_boot uid))" by (simp add: bounded_def)
qed

section \<open>Properties\<close>

text \<open>
  C14. In every reachable state, packages removed at any time, the trust list the component keeps is the one in the document
  that is written to the file, and the list of the chain object that the daemon receives and the getters return is a part of
  it without duplicates. As long as the power-save list is within its bound of a thousand uids, it is all of it, for both lists.
\<close>

theorem trust_lists_agree:
  assumes "pf_reachable (f, w)"
  shows "\<exists>idle save. GetDeviceIdleTrustlist f us = (NETMANAGER_SUCCESS, idle) \<and> distinct idle \<and> set idle \<subseteq> pf_deviceIdleAllowedList f
    \<and> fl_allowedList (file_lists FIREWALL_CHAIN_DEVICE_IDLE w) = pf_deviceIdleAllowedList f
    \<and> GetPowerSaveTrustlist f us = (NETMANAGER_SUCCESS, save) \<and> distinct save \<and> set save \<subseteq> pf_powerSaveAllowedList f
    \<and> fl_allowedList (file_lists FIREWALL_CHAIN_POWER_SAVE w) = pf_powerSaveAllowedList f
    \<and> (card (pf_powerSaveAllowedList f) \<le> MAX_LIST_SIZE \<longrightarrow> set idle = pf_deviceIdleAllowedList f \<and> set save = pf_powerSaveAllowedList f)"
  using pf_lists(1, 2) [OF pf_reachable_ok [OF assms], of us] pf_lists(3, 4) [OF pf_reachable_ok [OF assms]] unfolding bounded_def by metis

theorem trust_lists_agree_witness:
  "\<exists>f w save. trusting_boot 20001 = (f, w) \<and> GetPowerSaveTrustlist f [] = (NETMANAGER_SUCCESS, save) \<and> set save = {20001}
    \<and> fl_allowedList (file_lists FIREWALL_CHAIN_POWER_SAVE w) = {20001}"
proof -
  obtain f w where s: "trusting_boot 20001 = (f, w)" by fastforce
  have f: "pf_powerSaveAllowedList f = {20001}" "card (pf_powerSaveAllowedList f) \<le> MAX_LIST_SIZE"
    using trusting_boot_ok(2, 3) [of 20001] by (simp_all add: s bounded_def)
  have "pf_reachable (f, w)" using trusting_boot_ok(1) [of 20001] by (simp add: s)
  from trust_lists_agree [OF this, of "[]"] f s show ?thesis by metis
qed

text \<open>
  C20. The trust lists survive a restart: a new component that initialises itself from the document
  of a reachable one answers with exactly the uids the old component kept, without duplicates. These are the uids the old
  one answered with as long as its power-save list was within its bound.
\<close>

theorem trust_lists_survive_restart:
  assumes "pf_reachable (f, w)" "pw_file w' = pw_file w"
  shows "(\<exists>l l'. GetDeviceIdleTrustlist f us = (NETMANAGER_SUCCESS, l)
      \<and> GetDeviceIdleTrustlist (fst (Firewall_Init (NetPolicyFirewall_ctor, w'))) us = (NETMANAGER_SUCCESS, l') \<and> distinct l'
      \<and> set l' = pf_deviceIdleAllowedList f \<and> (card (pf_powerSaveAllowedList f) \<le> MAX_LIST_SIZE \<longrightarrow> set l = set l'))
    \<and> (\<exists>l l'. GetPowerSaveTrustlist f us = (NETMANAGER_SUCCESS, l)
      \<and> GetPowerSaveTrustlist (fst (Firewall_Init (NetPolicyFirewall_ctor, w'))) us = (NETMANAGER_SUCCESS, l') \<and> distinct l'
      \<and> set l' = pf_powerSaveAllowedList f \<and> (card (pf_powerSaveAllowedList f) \<le> MAX_LIST_SIZE \<longrightarrow> set l = set l'))"
proof -
  have inv: "pf_inv (f, w)" by (rule pf_reachable_ok [OF assms(1)])
  have e: "file_lists ch w' = file_lists ch w" for ch by (simp add: file_lists_def assms(2))
  obtain f' v where i: "Firewall_Init (NetPolicyFirewall_ctor, w') = (f', v)"
    "\<exists>l. GetDeviceIdleTrustlist f' us = (NETMANAGER_SUCCESS, l) \<and> distinct l \<and> set l = pf_deviceIdleAllowedList f"
    "\<exists>l. GetPowerSaveTrustlist f' us = (NETMANAGER_SUCCESS, l) \<and> distinct l \<and> set l = pf_powerSaveAllowedList f"
    by (rule Firewall_Init_eq [of w' us]) (use pf_lists(3, 4) [OF inv] in \<open>simp_all add: e\<close>)
  from pf_lists(1, 2) [OF inv, of us] i show ?thesis unfolding bounded_def by auto
qed

theorem trust_lists_survive_restart_witness:
  "\<exists>l'. GetPowerSaveTrustlist (fst (Firewall_Init (NetPolicyFirewall_ctor, first_boot\<lparr> pw_file := pw_file (snd (trusting_boot 20001)) \<rparr>))) []
     = (NETMANAGER_SUCCESS, l') \<and> set l' = {20001}"
proof -
  obtain f w where s: "trusting_boot 20001 = (f, w)" by fastforce
  have f: "pf_powerSaveAllowedList f = {20001}" "pf_reachable (f, w)" using trusting_boot_ok(1, 2) [of 20001] by (simp_all add: s)
  from trust_lists_survive_restart [OF f(2), of "first_boot\<lparr> pw_file := pw_file w \<rparr>" "[]"] f(1) show ?thesis by (auto simp: s)
qed

text \<open>
  Adding uids to the idle-deny chain toggles them: after a request to deny a list of uids, a
  uid is denied exactly if it was denied before and occurs an even number of times in the
  list, or was not and occurs an odd number of times; so denying a denied uid admits
  it. A request to allow removes exactly the listed uids.
\<close>

theorem denied_list_toggles:
  assumes "pf_reachable (f, w)" "length uids \<le> MAX_LIST_SIZE" "idleDenyFirewallRule f = Some d"
  shows "\<exists>f' d' w'. Policy_SetUidsDeniedListChain c uids isAdd (f, w) = (NETMANAGER_SUCCESS, f', w')
    \<and> idleDenyFirewallRule f' = Some d' \<and> distinct (fr_deniedList d')
    \<and> w' = netsys_call (FirewallSetUidsDeniedListChain FIREWALL_CHAIN_IDLE_DENY (fr_deniedList d')) w
    \<and> (\<forall>uid. uid \<in> set (fr_deniedList d') \<longleftrightarrow>
         (if isAdd then (uid \<in> set (fr_deniedList d)) \<noteq> odd (count_list uids uid)
          else uid \<in> set (fr_deniedList d) \<and> uid \<notin> set uids))"
proof -
  have "fr_chainType d = FIREWALL_CHAIN_IDLE_DENY" "distinct (fr_deniedList d)"
    using pf_reachable_ok [OF assms(1)] assms(3) by (simp_all add: pf_inv_def)
  with assms(2, 3) show ?thesis
    by (simp add: Policy_SetUidsDeniedListChain_def SetDeniedList_uids_def Let_def SetDeniedList_def fold_SetDeniedList_member
        fold_SetDeniedList_distinct)
qed

theorem denied_list_toggles_witness:
  "\<exists>f' d' w'. Policy_SetUidsDeniedListChain \<lparr> ca_pid = 1, ca_uid = 2, ca_bundle = ''b'', ca_time = 3 \<rparr> [20001, 20001] True
     (Firewall_Init (NetPolicyFirewall_ctor, first_boot)) = (NETMANAGER_SUCCESS, f', w')
   \<and> idleDenyFirewallRule f' = Some d' \<and> 20001 \<notin> set (fr_deniedList d')"
proof -
  obtain f w where s: "Firewall_Init (NetPolicyFirewall_ctor, first_boot) = (f, w)" by fastforce
  have "idleDenyFirewallRule (fst (Firewall_Init (NetPolicyFirewall_ctor, first_boot))) = Some (FirewallRule_ctor FIREWALL_CHAIN_IDLE_DENY)"
    by (simp add: Firewall_Init_def CreateFirewallRule_def Let_def case_prod_beta)
  then have d: "idleDenyFirewallRule f = Some (FirewallRule_ctor FIREWALL_CHAIN_IDLE_DENY)" by (simp add: s)
  show ?thesis
    using denied_list_toggles [of f w "[20001, 20001]" _ "\<lparr> ca_pid = 1, ca_uid = 2, ca_bundle = ''b'', ca_time = 3 \<rparr>" True, OF _ _ d]
      first_boot_pf by (auto simp: s FirewallRule_ctor_def)
qed

text \<open>
  Once the power-save list holds more than a thousand uids, both trust lists are frozen: every
  change, a removal included, is refused, although the request names the other list or
  would shrink this one. Removing a package then takes its uid out of the chain objects only:
  the component and the document keep it.
\<close>

theorem oversized_list_freezes:
  assumes "pf_reachable (f, w)" "card (pf_powerSaveAllowedList f) > MAX_LIST_SIZE"
    "GetDeviceIdleTrustlist f us = (NETMANAGER_SUCCESS, idle)" "GetPowerSaveTrustlist f us = (NETMANAGER_SUCCESS, save)"
  shows "SetDeviceIdleTrustlist c uids isAllowed (f, w) = Some (NETMANAGER_ERR_PARAMETER_ERROR, f, w)
    \<and> SetPowerSaveTrustlist c uids isAllowed (f, w) = (NETMANAGER_ERR_PARAMETER_ERROR, f, w)
    \<and> (\<exists>f' idle' save'. Firewall_HandleEvent c (MSG_UID_REMOVED uid) (f, w) = Some (f', w)
         \<and> pf_deviceIdleAllowedList f' = pf_deviceIdleAllowedList f \<and> pf_powerSaveAllowedList f' = pf_powerSaveAllowedList f
         \<and> GetDeviceIdleTrustlist f' us = (NETMANAGER_SUCCESS, idle') \<and> set idle' = set idle - {uid}
         \<and> GetPowerSaveTrustlist f' us = (NETMANAGER_SUCCESS, save') \<and> set save' = set save - {uid})"
proof -
  have i: "pf_inv (f, w)" by (rule pf_reachable_ok [OF assms(1)])
  then obtain a p d where r: "deviceIdleFirewallRule f = Some a" "powerSaveFirewallRule f = Some p" by (rule pf_invE)
  have "distinct (fr_allowedList a)" "distinct (fr_allowedList p)" "fr_allowedList a = idle" "fr_allowedList p = save"
    using i r assms(3, 4) by (simp_all add: pf_inv_def GetDeviceIdleTrustlist_def GetPowerSaveTrustlist_def)
  with assms(2) r show ?thesis
    by (simp add: SetDeviceIdleTrustlist_def SetPowerSaveTrustlist_def Firewall_HandleEvent_def Firewall_DeleteUid_def
        GetDeviceIdleTrustlist_def GetPowerSaveTrustlist_def RemoveFromAllowedList_def set_remove1_eq)
qed

theorem oversized_list_freezes_witness:
  "\<exists>f w. card (pf_powerSaveAllowedList f) > MAX_LIST_SIZE
    \<and> fst (SetPowerSaveTrustlist \<lparr> ca_pid = 1, ca_uid = 2, ca_bundle = ''b'', ca_time = 3 \<rparr> [20001] False (f, w)) = NETMANAGER_ERR_PARAMETER_ERROR"
proof -
  obtain all :: "u32 list" where all: "set all = UNIV" using finite_list [OF finite] by blast
  let ?c = "\<lparr> ca_pid = 1, ca_uid = 2, ca_bundle = ''b'', ca_time = 3 \<rparr>"
  obtain f w where i: "Firewall_Init (NetPolicyFirewall_ctor, first_boot) = (f, w)" "pf_inv (f, w)" "pf_powerSaveAllowedList f = {}"
    by (rule Firewall_Init_eq [of first_boot]) (simp_all add: first_boot_lists)
  obtain f' w' p where s: "SetPowerSaveTrustlist ?c all True (f, w) = (NETMANAGER_SUCCESS, f', w')" "pf_inv (f', w')"
    "powerSaveFirewallRule f' = Some p" "set (fr_allowedList p) = update_list all True (pf_powerSaveAllowedList f)"
    by (rule SetPowerSave_remove [OF i(2), of ?c all True]) (simp_all add: i(3))
  then have "pf_powerSaveAllowedList f' = UNIV" using all by (auto simp: pf_inv_def update_list_eq)
  then have "card (pf_powerSaveAllowedList f') > MAX_LIST_SIZE" by (simp add: card_word)
  moreover have "pf_reachable (f', w')"
    using pf_next [OF _ pf_save_list [OF s(1)]] first_boot_pf by (simp add: i(1))
  moreover obtain idle save where "GetDeviceIdleTrustlist f' [] = (NETMANAGER_SUCCESS, idle)" "GetPowerSaveTrustlist f' [] = (NETMANAGER_SUCCESS, save)"
    using pf_lists(1, 2) [OF s(2), of "[]"] by metis
  ultimately have "card (pf_powerSaveAllowedList f') > MAX_LIST_SIZE
      \<and> fst (SetPowerSaveTrustlist ?c [20001] False (f', w')) = NETMANAGER_ERR_PARAMETER_ERROR"
    using oversized_list_freezes [of f' w' "[]" idle save ?c "[20001]" False] by simp
  then show ?thesis by blast
qed

end
