(* ===== verification/Policy_Traffic.thy ===== *)
theory Policy_Traffic
  imports Policy_Rule "HOL-Library.Signed_Division"
begin

text \<open>
  The traffic quotas of the policy service, \<open>NetPolicyTraffic\<close>
  (\<open>services/netpolicymanager/src/core/net_policy_traffic.cpp\<close>): validation and formalisation of
  quota policies, the quota left on a metered interface, the set of metered interfaces,
  reminders, reset, and the notifications. The clock, the traffic statistics and the
  interface of a network are an environment; byte counts are 64-bit and wrap as the source's
  arithmetic does on two's complement hardware.
\<close>

section \<open>State and environment\<close>

abbreviation POLICY_ERR_INVALID_QUOTA_POLICY :: int where "POLICY_ERR_INVALID_QUOTA_POLICY \<equiv> 2104004"
abbreviation LONG_MAX :: int where "LONG_MAX \<equiv> 9223372036854775807"
abbreviation BEARER_CELLULAR :: int where "BEARER_CELLULAR \<equiv> 0"
abbreviation BEARER_WIFI :: int where "BEARER_WIFI \<equiv> 1"
abbreviation BEARER_ETHERNET :: int where "BEARER_ETHERNET \<equiv> 3"
abbreviation REMIND_TYPE_WARNING :: u32 where "REMIND_TYPE_WARNING \<equiv> 1"
abbreviation REMIND_TYPE_LIMIT :: u32 where "REMIND_TYPE_LIMIT \<equiv> 2"

datatype quota_event =
    QuotaWarning int
  | QuotaLimitReminded int
  | QuotaLimit int

record NetPolicyTraffic =
  quotaPolicies :: "NetQuotaPolicy list"
  meteredIfaces :: "string list"
  quota_events :: "quota_event list"

type_synonym tr_state = "NetPolicyTraffic \<times> policy_world"

text \<open>
  The environment: the clock, \<open>GetIfaceNameByType\<close> (the empty name when there is no such
  interface) and \<open>GetIfaceStatsDetail\<close> (received and sent bytes of an interface in a period).
\<close>

record 't traffic_env =
  te_clock :: "'t clock"
  te_iface :: "int \<Rightarrow> string \<Rightarrow> string"
  te_stats :: "string \<Rightarrow> int \<Rightarrow> int \<Rightarrow> 64 word \<times> 64 word"

definition wrap64 :: "int \<Rightarrow> int" where
  "wrap64 x = signed_take_bit 63 x"

section \<open>Validation\<close>

definition IsValidNetType :: "int \<Rightarrow> bool" where
  "IsValidNetType t = (t = 0 \<or> t = 1 \<or> t = 2 \<or> t = 3 \<or> t = 4 \<or> t = 5)"

definition IsValidNetRemindType :: "u32 \<Rightarrow> bool" where
  "IsValidNetRemindType r = (r = REMIND_TYPE_WARNING \<or> r = REMIND_TYPE_LIMIT)"

definition IsValidPeriodDuration :: "string \<Rightarrow> bool" where
  "IsValidPeriodDuration d =
     (if d = [] \<or> length d < PERIOD_DURATION_SIZE then False
      else
        let cycle = take 1 d; start = StrToInt (drop 1 d) (-1) in
        if cycle = ''D'' \<and> start \<ge> 1 \<and> start \<le> 31 then True
        else if cycle = ''M'' \<and> start \<ge> 1 \<and> start \<le> 12 then True
        else if cycle = ''Y'' \<and> start \<ge> 1 \<and> start \<le> 366 then True
        else False)"

definition IsValidQuotaPolicy :: "NetQuotaPolicy \<Rightarrow> bool" where
  "IsValidQuotaPolicy q =
     (if \<not> IsValidNetType (netType (networkmatchrule q)) then False
      else if \<not> IsValidPeriodDuration (periodDuration (quotapolicy q)) then False else True)"

definition formalize :: "NetQuotaPolicy \<Rightarrow> NetQuotaPolicy" where
  "formalize q0 =
     (let q1 = (if limitBytes (quotapolicy q0) = DATA_USAGE_UNKNOWN
                then upd_quota (\<lambda>r. r\<lparr> limitAction := LIMIT_ACTION_ALERT_ONLY \<rparr>) q0
                else if warningBytes (quotapolicy q0) = DATA_USAGE_UNKNOWN
                then upd_quota (\<lambda>r. r\<lparr> warningBytes := wrap64 (limitBytes r * 90) sdiv 100 \<rparr>) q0
                else q0);
          q2 = (if limitAction (quotapolicy q1) = LIMIT_ACTION_ALERT_ONLY
                then upd_quota (\<lambda>r. r\<lparr> limitBytes := DATA_USAGE_UNLIMITED \<rparr>) q1 else q1);
          q3 = (if warningBytes (quotapolicy q2) > limitBytes (quotapolicy q2)
                then upd_quota (\<lambda>r. r\<lparr> warningBytes := DATA_USAGE_UNLIMITED \<rparr>) q2 else q2);
          q4 = (if limitBytes (quotapolicy q3) = DATA_USAGE_UNLIMITED
                then upd_quota (\<lambda>r. r\<lparr> limitAction := LIMIT_ACTION_ALERT_ONLY \<rparr>) q3 else q3)
      in q4)"

definition FormalizeQuotaPolicies :: "NetQuotaPolicy list \<Rightarrow> NetPolicyTraffic \<Rightarrow> NetPolicyTraffic" where
  "FormalizeQuotaPolicies qs t = t\<lparr> quotaPolicies := map formalize (filter IsValidQuotaPolicy qs) \<rparr>"

section \<open>Usage and remaining quota\<close>

definition GetMatchIfaces :: "'t traffic_env \<Rightarrow> NetQuotaPolicy \<Rightarrow> string" where
  "GetMatchIfaces e q =
     (let t = netType (networkmatchrule q);
          name = (if t = BEARER_CELLULAR then ''simId'' @ simId (networkmatchrule q)
                  else if t = BEARER_WIFI then ident (networkmatchrule q)
                  else if t = BEARER_ETHERNET then ident (networkmatchrule q) else [])
      in if t \<ge> BEARER_DEFAULT_INT then [] else te_iface e t name)"

definition GetTotalQuota :: "'t traffic_env \<Rightarrow> NetQuotaPolicy \<Rightarrow> int \<times> NetQuotaPolicy" where
  "GetTotalQuota e q =
     (let iface = GetMatchIfaces e q in
      case GetPeriodStart (te_clock e) q of (start, q') \<Rightarrow>
      let now = time_now (te_clock e) in
      if now < 0 then (0, q')
      else case te_stats e iface start now of (rx, tx) \<Rightarrow>
        let quota = sint (rx + tx) in (if quota < 0 then 0 else quota, q'))"

definition GetQuotaRemain :: "'t traffic_env \<Rightarrow> NetQuotaPolicy \<Rightarrow> int \<times> NetQuotaPolicy" where
  "GetQuotaRemain e q0 =
     (case GetPeriodStart (te_clock e) q0 of (start, q1) \<Rightarrow>
      case GetTotalQuota e q1 of (totalQuota, q2) \<Rightarrow>
      let hasLimit = (limitBytes (quotapolicy q2) \<noteq> DATA_USAGE_UNKNOWN) in
      if (hasLimit \<or> metered (quotapolicy q2)) \<and> hasLimit \<and> periodDuration (quotapolicy q2) \<noteq> QUOTA_POLICY_NO_PERIOD then
        if lastLimitRemind (quotapolicy q2) \<ge> start then (LONG_MAX, q2)
        else
          let quota = wrap64 (limitBytes (quotapolicy q2) - totalQuota) in (if quota < 0 then 0 else quota, q2)
      else (LONG_MAX, q2))"

fun set_quotas :: "'t traffic_env \<Rightarrow> NetQuotaPolicy list \<Rightarrow> policy_world \<Rightarrow> string list \<times> policy_world" where
  "set_quotas e [] w = ([], w)"
| "set_quotas e (q # qs) w =
     (let iface = GetMatchIfaces e q in
      if iface = [] \<or> \<not> metered (quotapolicy q) then set_quotas e qs w
      else
        let quotaRemain = fst (GetQuotaRemain e q);
            w1 = (if quotaRemain \<ge> 0 then netsys_call (BandwidthSetIfaceQuota iface quotaRemain) w else w)
        in case set_quotas e qs w1 of (ifaces, w2) \<Rightarrow> (iface # ifaces, w2))"

fun remove_quotas :: "string list \<Rightarrow> string list \<Rightarrow> policy_world \<Rightarrow> policy_world" where
  "remove_quotas [] new w = w"
| "remove_quotas (i # is) new w =
     remove_quotas is new (if i \<notin> set new then netsys_call (BandwidthRemoveIfaceQuota i) w else w)"

definition UpdateMeteredIfacesQuota :: "'t traffic_env \<Rightarrow> tr_state \<Rightarrow> string list \<times> policy_world" where
  "UpdateMeteredIfacesQuota e s =
     (case s of (t, w) \<Rightarrow>
      case set_quotas e (quotaPolicies t) w of (new, w1) \<Rightarrow> (new, remove_quotas (meteredIfaces t) new w1))"

definition UpdateMeteredIfaces :: "string list \<Rightarrow> tr_state \<Rightarrow> tr_state" where
  "UpdateMeteredIfaces new s =
     (case s of (t, w) \<Rightarrow> (t\<lparr> meteredIfaces := new \<rparr>, notify (NotifyNetMeteredIfacesChange new) w))"

text \<open>\<open>UpdateNetEnableStatus\<close> only logs: \<open>SetNetworkEnableStatus\<close> has no effect.\<close>

definition quota_notice :: "'t traffic_env \<Rightarrow> NetQuotaPolicy \<Rightarrow> quota_event list" where
  "quota_notice e q0 =
     (case GetPeriodStart (te_clock e) q0 of (start, q1) \<Rightarrow>
      case GetTotalQuota e q1 of (totalQuota, q) \<Rightarrow>
      if IsOverLimit q totalQuota then
        (if lastLimitRemind (quotapolicy q) > start then [QuotaLimitReminded totalQuota] else [QuotaLimit totalQuota])
      else if IsOverWarning q totalQuota \<and> lastWarningRemind (quotapolicy q) < start then [QuotaWarning totalQuota]
      else [])"

definition UpdateQuotaNotify :: "'t traffic_env \<Rightarrow> NetPolicyTraffic \<Rightarrow> NetPolicyTraffic" where
  "UpdateQuotaNotify e t = t\<lparr> quota_events := quota_events t @ concat (map (quota_notice e) (quotaPolicies t)) \<rparr>"

definition Traffic_WriteQuotaPolicies :: "tr_state \<Rightarrow> bool \<times> tr_state" where
  "Traffic_WriteQuotaPolicies s =
     (case s of (t, w) \<Rightarrow>
      case WriteQuotaPolicies (quotaPolicies t) (pw_file w) of (ok, f) \<Rightarrow> (ok, t, w\<lparr> pw_file := f \<rparr>))"

definition UpdateQuotaPoliciesInner :: "'t traffic_env \<Rightarrow> tr_state \<Rightarrow> int \<times> tr_state" where
  "UpdateQuotaPoliciesInner e s =
     (case UpdateMeteredIfacesQuota e s of (new, w1) \<Rightarrow>
      case UpdateMeteredIfaces new (fst s, w1) of (t2, w2) \<Rightarrow>
      case Traffic_WriteQuotaPolicies (UpdateQuotaNotify e t2, w2) of (ok, t3, w3) \<Rightarrow>
      if \<not> ok then (NETMANAGER_ERR_WRITE_DATA_FAIL, t3, w3)
      else (NETMANAGER_SUCCESS, t3, notify (NotifyNetQuotaPolicyChange (quotaPolicies t3)) w3))"

section \<open>Requests\<close>

definition UpdateQuotaPolicies :: "'t traffic_env \<Rightarrow> NetQuotaPolicy list \<Rightarrow> tr_state \<Rightarrow> int \<times> tr_state" where
  "UpdateQuotaPolicies e qs s =
     (if qs = [] then (POLICY_ERR_INVALID_QUOTA_POLICY, s)
      else UpdateQuotaPoliciesInner e (FormalizeQuotaPolicies qs (fst s), snd s))"

definition GetNetQuotaPolicies :: "NetPolicyTraffic \<Rightarrow> int \<times> NetQuotaPolicy list" where
  "GetNetQuotaPolicies t = (NETMANAGER_SUCCESS, quotaPolicies t)"

definition remind :: "'t traffic_env \<Rightarrow> int \<Rightarrow> string \<Rightarrow> u32 \<Rightarrow> NetQuotaPolicy \<Rightarrow> NetQuotaPolicy" where
  "remind e type sim remindType q =
     (if netType (networkmatchrule q) = type \<and> simId (networkmatchrule q) = sim then
        if remindType = REMIND_TYPE_WARNING then upd_quota (\<lambda>r. r\<lparr> lastWarningRemind := time_now (te_clock e) \<rparr>) q
        else upd_quota (\<lambda>r. r\<lparr> lastLimitRemind := time_now (te_clock e) \<rparr>) q
      else q)"

definition UpdateRemindPolicy :: "'t traffic_env \<Rightarrow> int \<Rightarrow> string \<Rightarrow> u32 \<Rightarrow> tr_state \<Rightarrow> int \<times> tr_state" where
  "UpdateRemindPolicy e type sim remindType s =
     (if \<not> IsValidNetType type then (NETMANAGER_ERR_PARAMETER_ERROR, s)
      else if \<not> IsValidNetRemindType remindType then (NETMANAGER_ERR_PARAMETER_ERROR, s)
      else case s of (t, w) \<Rightarrow>
        (NETMANAGER_SUCCESS,
         snd (UpdateQuotaPoliciesInner e (t\<lparr> quotaPolicies := map (remind e type sim remindType) (quotaPolicies t) \<rparr>, w))))"

definition IsMeteredIfaces :: "string \<Rightarrow> NetPolicyTraffic \<Rightarrow> bool" where
  "IsMeteredIfaces iface t = (iface \<in> set (meteredIfaces t))"

definition Traffic_ResetPolicies_sim :: "'t traffic_env \<Rightarrow> string \<Rightarrow> tr_state \<Rightarrow> int \<times> tr_state" where
  "Traffic_ResetPolicies_sim e sim s =
     (case s of (t, w) \<Rightarrow>
      UpdateQuotaPoliciesInner e
        (t\<lparr> quotaPolicies := map (\<lambda>q. if simId (networkmatchrule q) = sim then Quota_Reset q else q) (quotaPolicies t) \<rparr>, w))"

definition Traffic_ResetPolicies :: "'t traffic_env \<Rightarrow> tr_state \<Rightarrow> int \<times> tr_state" where
  "Traffic_ResetPolicies e s =
     (case s of (t, w) \<Rightarrow> UpdateQuotaPoliciesInner e (t\<lparr> quotaPolicies := map Quota_Reset (quotaPolicies t) \<rparr>, w))"

definition ReachedLimit :: "'t traffic_env \<Rightarrow> string \<Rightarrow> tr_state \<Rightarrow> tr_state" where
  "ReachedLimit e iface s = (if IsMeteredIfaces iface (fst s) then snd (UpdateQuotaPoliciesInner e s) else s)"

definition Traffic_ReadQuotaPolicies :: "'t traffic_env \<Rightarrow> tr_state \<Rightarrow> tr_state" where
  "Traffic_ReadQuotaPolicies e s =
     (case s of (t, w) \<Rightarrow>
      snd (UpdateQuotaPoliciesInner e (t\<lparr> quotaPolicies := ReadQuotaPolicies (pw_file w) (quotaPolicies t) \<rparr>, w)))"

definition IsQuotaPolicyExist :: "int \<Rightarrow> string \<Rightarrow> policy_world \<Rightarrow> bool" where
  "IsQuotaPolicyExist type sim w =
     (\<exists>q \<in> set (ReadQuotaPolicies (pw_file w) []). type = netType (networkmatchrule q) \<and> sim = simId (networkmatchrule q))"

section \<open>Vocabulary of the properties\<close>

text \<open>The quota the bandwidth manager has for an interface.\<close>

definition quota_of :: "policy_world \<Rightarrow> string \<Rightarrow> int option" where
  "quota_of w iface = om_get (ifaceQuotaBytes (ns_bw (pw_netsys w))) iface"

text \<open>The interfaces a list of policies makes metered, with the quota left on each.\<close>

definition metered_quotas :: "'t traffic_env \<Rightarrow> NetQuotaPolicy list \<Rightarrow> (string \<times> int) list" where
  "metered_quotas e qs =
     map (\<lambda>q. (GetMatchIfaces e q, fst (GetQuotaRemain e q)))
       (filter (\<lambda>q. GetMatchIfaces e q \<noteq> [] \<and> metered (quotapolicy q)) qs)"

text \<open>An example of an environment: no traffic, a clock at zero.\<close>

definition idle_env :: "unit traffic_env" where
  "idle_env = \<lparr> te_clock = \<lparr> time_now = 0, localtime_r = (\<lambda>_. \<lparr> tm_sec = 0, tm_min = 0, tm_hour = 0, tm_mday = 1, tm_yday = 0, tm_rest = () \<rparr>), mktime = (\<lambda>_. 0) \<rparr>,
     te_iface = (\<lambda>_ _. ''wlan0''), te_stats = (\<lambda>_ _ _. (0, 0)) \<rparr>"

section \<open>Lemmas\<close>

lemma wrap64_range: "- (2 ^ 63) \<le> wrap64 x" "wrap64 x < 2 ^ 63"
  unfolding wrap64_def by (rule signed_take_bit_int_greater_eq_minus_exp, rule signed_take_bit_int_less_exp)

lemma wrap64_id: "- (2 ^ 63) \<le> x \<Longrightarrow> x < 2 ^ 63 \<Longrightarrow> wrap64 x = x"
  unfolding wrap64_def by (rule signed_take_bit_int_eq_self)

lemma GetTotalQuota_range: "0 \<le> fst (GetTotalQuota e q)" "fst (GetTotalQuota e q) \<le> LONG_MAX"
proof -
  have "sint x \<le> LONG_MAX" for x :: "64 word" using sint_lt [of x] by simp
  then show "0 \<le> fst (GetTotalQuota e q)" "fst (GetTotalQuota e q) \<le> LONG_MAX"
    by (simp_all add: GetTotalQuota_def Let_def split: prod.splits)
qed

lemma GetPeriodStart_quota:
  "limitBytes (quotapolicy (snd (GetPeriodStart c q))) = limitBytes (quotapolicy q)"
  "lastLimitRemind (quotapolicy (snd (GetPeriodStart c q))) = lastLimitRemind (quotapolicy q)"
  "lastWarningRemind (quotapolicy (snd (GetPeriodStart c q))) = lastWarningRemind (quotapolicy q)"
  "warningBytes (quotapolicy (snd (GetPeriodStart c q))) = warningBytes (quotapolicy q)"
  "metered (quotapolicy (snd (GetPeriodStart c q))) = metered (quotapolicy q)"
  by (simp_all add: GetPeriodStart_def Let_def upd_quota_def)

lemma GetTotalQuota_policy: "snd (GetTotalQuota e q) = snd (GetPeriodStart (te_clock e) q)"
  by (simp add: GetTotalQuota_def Let_def split: prod.splits)

lemma GetPeriodStart_again: "length (periodDuration (quotapolicy q)) \<ge> PERIOD_DURATION_SIZE \<Longrightarrow> snd (GetPeriodStart c q) = q"
  by (simp add: GetPeriodStart_def Let_def)

lemma quota_fields:
  "om_get (ifaceQuotaBytes (fst (snd (SetIfaceQuota i n s)))) j =
     (if CheckIfaceName i \<and> j = i then Some n else om_get (ifaceQuotaBytes (fst s)) j)"
  "om_get (ifaceQuotaBytes (fst (snd (RemoveIfaceQuota i s)))) j =
     (if CheckIfaceName i \<and> j = i then None else om_get (ifaceQuotaBytes (fst s)) j)"
  by (auto simp: SetIfaceQuota_def SetIfaceQuotaDetail_def RemoveIfaceQuota_def Let_def case_prod_beta split: option.split)

lemma quota_of_call:
  assumes "online w"
  shows "quota_of (netsys_call (BandwidthSetIfaceQuota i n) w) j = (if CheckIfaceName i \<and> j = i then Some n else quota_of w j)"
    and "quota_of (netsys_call (BandwidthRemoveIfaceQuota i) w) j = (if CheckIfaceName i \<and> j = i then None else quota_of w j)"
    and "online (netsys_call (BandwidthSetIfaceQuota i n) w)" "online (netsys_call (BandwidthRemoveIfaceQuota i) w)"
  using assms
  by (simp_all add: quota_of_def netsys_call_def online_def BandwidthSetIfaceQuota_def BandwidthRemoveIfaceQuota_def ns_bw_bandwidth quota_fields)

lemma quota_of_frame [simp]: "quota_of (notify g w) i = quota_of w i" "quota_of (w\<lparr> pw_file := f \<rparr>) i = quota_of w i"
  by (simp_all add: quota_of_def notify_def)

lemma GetQuotaRemain_range: "0 \<le> fst (GetQuotaRemain e q)" "fst (GetQuotaRemain e q) \<le> LONG_MAX"
proof -
  have "wrap64 x \<le> LONG_MAX" for x using wrap64_range(2) [of x] by simp
  then show "0 \<le> fst (GetQuotaRemain e q)" "fst (GetQuotaRemain e q) \<le> LONG_MAX"
    by (simp_all add: GetQuotaRemain_def Let_def split: prod.splits)
qed

lemma set_quotas_eq:
  assumes "online w" "set_quotas e qs w = (new, w')"
  shows "new = map fst (metered_quotas e qs)" "online w'"
    "quota_of w' j = (if CheckIfaceName j then (case map_of (rev (metered_quotas e qs)) j of None \<Rightarrow> quota_of w j | Some n \<Rightarrow> Some n) else quota_of w j)"
  using assms
proof (induction qs arbitrary: w new w')
  case Nil
  case 1 then show ?case by (simp add: metered_quotas_def)
next
  case Nil
  case 2 then show ?case by simp
next
  case Nil
  case 3 then show ?case by (simp add: metered_quotas_def)
next
  case (Cons q qs)
  { case 1 then show ?case
      using Cons.IH(1) [OF quota_of_call(3) [OF 1(1)]] Cons.IH(1) [OF 1(1)]
      by (auto simp: metered_quotas_def Let_def GetQuotaRemain_range split: if_splits prod.splits) }
  { case 2 then show ?case
      using Cons.IH(2) [OF quota_of_call(3) [OF 2(1)]] Cons.IH(2) [OF 2(1)]
      by (auto simp: Let_def GetQuotaRemain_range split: if_splits prod.splits) }
  { case 3
    show ?case
    proof (cases "GetMatchIfaces e q = [] \<or> \<not> metered (quotapolicy q)")
      case True
      then have m: "metered_quotas e (q # qs) = metered_quotas e qs" by (auto simp: metered_quotas_def)
      show ?thesis using Cons.IH(3) [OF 3(1)] 3(2) True by (simp add: m)
    next
      case False
      let ?i = "GetMatchIfaces e q" and ?n = "fst (GetQuotaRemain e q)"
      have m: "metered_quotas e (q # qs) = (?i, ?n) # metered_quotas e qs" using False by (simp add: metered_quotas_def)
      obtain ifs w2 where r: "set_quotas e qs (netsys_call (BandwidthSetIfaceQuota ?i ?n) w) = (ifs, w2)" by fastforce
      have "w' = w2" using 3(2) False by (simp add: Let_def GetQuotaRemain_range r)
      then show ?thesis using Cons.IH(3) [OF quota_of_call(3) [OF 3(1)] r]
        by (simp add: m quota_of_call(1) [OF 3(1)] map_add_def split: option.split)
    qed }
qed

lemma remove_quotas_eq:
  assumes "online w"
  shows "quota_of (remove_quotas is new w) j = (if CheckIfaceName j \<and> j \<in> set is \<and> j \<notin> set new then None else quota_of w j)"
  using assms by (induction "is" arbitrary: w) (auto simp: quota_of_call)

lemma UpdateQuotaPoliciesInner_eq:
  assumes "online w" "UpdateQuotaPoliciesInner e (t, w) = (r, t', w')"
  shows "r = NETMANAGER_SUCCESS" "quotaPolicies t' = quotaPolicies t" "meteredIfaces t' = map fst (metered_quotas e (quotaPolicies t))"
    "quota_events t' = quota_events t @ concat (map (quota_notice e) (quotaPolicies t))"
    "quota_of w' j = (if CheckIfaceName j then
       (case map_of (rev (metered_quotas e (quotaPolicies t))) j of
          Some n \<Rightarrow> Some n | None \<Rightarrow> if j \<in> set (meteredIfaces t) then None else quota_of w j) else quota_of w j)"
proof -
  obtain new w1 where s: "set_quotas e (quotaPolicies t) w = (new, w1)" by fastforce
  note q = set_quotas_eq [OF assms(1) s]
  show "r = NETMANAGER_SUCCESS" "quotaPolicies t' = quotaPolicies t" "meteredIfaces t' = map fst (metered_quotas e (quotaPolicies t))"
    "quota_events t' = quota_events t @ concat (map (quota_notice e) (quotaPolicies t))"
    using assms(2)
    by (auto simp: UpdateQuotaPoliciesInner_def UpdateMeteredIfacesQuota_def s UpdateMeteredIfaces_def Traffic_WriteQuotaPolicies_def
        UpdateQuotaNotify_def WriteQuotaPolicies_def WriteFile_def Let_def q(1))
  have "quota_of w' j = quota_of (remove_quotas (meteredIfaces t) new w1) j"
    using assms(2)
    by (auto simp: UpdateQuotaPoliciesInner_def UpdateMeteredIfacesQuota_def s UpdateMeteredIfaces_def Traffic_WriteQuotaPolicies_def
        WriteQuotaPolicies_def WriteFile_def Let_def)
  moreover have "map_of (rev (metered_quotas e (quotaPolicies t))) j = None \<longleftrightarrow> j \<notin> set new"
    by (simp add: map_of_eq_None_iff q(1))
  ultimately show "quota_of w' j = (if CheckIfaceName j then
       (case map_of (rev (metered_quotas e (quotaPolicies t))) j of
          Some n \<Rightarrow> Some n | None \<Rightarrow> if j \<in> set (meteredIfaces t) then None else quota_of w j) else quota_of w j)"
    by (auto simp: remove_quotas_eq [OF q(2)] q(3) split: option.splits)
qed

lemma formalize_fields:
  "networkmatchrule (formalize q) = networkmatchrule q" "periodDuration (quotapolicy (formalize q)) = periodDuration (quotapolicy q)"
  "metered (quotapolicy (formalize q)) = metered (quotapolicy q)"
  by (simp_all add: formalize_def Let_def upd_quota_def)

lemma IsValidQuotaPolicy_formalize: "IsValidQuotaPolicy (formalize q) = IsValidQuotaPolicy q"
  by (simp add: IsValidQuotaPolicy_def formalize_fields)

lemma formalize_limits:
  assumes "limitBytes (quotapolicy q) \<le> DATA_USAGE_UNLIMITED"
  shows "limitAction (quotapolicy (formalize q)) = LIMIT_ACTION_ALERT_ONLY \<longleftrightarrow> limitBytes (quotapolicy (formalize q)) = DATA_USAGE_UNLIMITED"
    and "limitBytes (quotapolicy (formalize q)) \<noteq> DATA_USAGE_UNKNOWN"
    and "warningBytes (quotapolicy (formalize q)) \<le> limitBytes (quotapolicy (formalize q)) \<or>
      warningBytes (quotapolicy (formalize q)) = DATA_USAGE_UNLIMITED"
  by (auto simp: formalize_def Let_def upd_quota_def)

section \<open>Properties\<close>

text \<open>
  C21. After every update of the quotas the daemon limits exactly the metered interfaces: each
  interface of a metered policy has the remaining bytes of the last policy for it, each
  interface that was metered before and is not any more has no quota, and all other
  interfaces keep theirs; an ill-formed interface name has no effect.
\<close>

theorem metered_interfaces_have_quotas:
  assumes "online w" "UpdateQuotaPoliciesInner e (t, w) = (r, t', w')" "CheckIfaceName iface"
  shows "r = NETMANAGER_SUCCESS \<and> meteredIfaces t' = map fst (metered_quotas e (quotaPolicies t))
    \<and> quota_of w' iface =
       (if iface \<in> set (meteredIfaces t') then map_of (rev (metered_quotas e (quotaPolicies t))) iface
        else if iface \<in> set (meteredIfaces t) then None else quota_of w iface)
    \<and> (\<forall>n. quota_of w' iface = Some n \<longrightarrow> iface \<in> set (meteredIfaces t') \<longrightarrow> 0 \<le> n \<and> n \<le> LONG_MAX)"
proof -
  note u = UpdateQuotaPoliciesInner_eq [OF assms(1, 2)]
  have m: "iface \<in> set (meteredIfaces t') \<longleftrightarrow> map_of (rev (metered_quotas e (quotaPolicies t))) iface \<noteq> None"
    by (simp add: u(3) map_of_eq_None_iff)
  have "0 \<le> n \<and> n \<le> LONG_MAX" if "map_of (rev (metered_quotas e (quotaPolicies t))) iface = Some n" for n
    using map_of_SomeD [OF that] GetQuotaRemain_range by (auto simp: metered_quotas_def)
  then show ?thesis using u(1, 3) u(5) [of iface] assms(3) m by (auto split: option.splits)
qed

theorem metered_interfaces_have_quotas_witness:
  "quota_of (snd (snd (UpdateQuotaPoliciesInner idle_env
     (\<lparr> quotaPolicies = [], meteredIfaces = [''eth0''], quota_events = [] \<rparr>, first_boot)))) ''eth0'' = None"
proof -
  let ?t = "\<lparr> quotaPolicies = [], meteredIfaces = [''eth0''], quota_events = [] \<rparr>"
  obtain r t' w' where u: "UpdateQuotaPoliciesInner idle_env (?t, first_boot) = (r, t', w')" by (metis prod_cases3)
  have "CheckIfaceName ''eth0''" by code_simp
  then show ?thesis using metered_interfaces_have_quotas [OF first_boot_boxes(1) u] by (simp add: u metered_quotas_def)
qed

text \<open>
  C22. Formalised policies: only policies with a known network type and period are kept, in their
  order; a policy alerts only exactly if it is unlimited, always has a limit, and warns at or below
  the limit or never.
\<close>

theorem formalized_policies:
  assumes "\<forall>q \<in> set qs. limitBytes (quotapolicy q) \<le> DATA_USAGE_UNLIMITED"
  shows "quotaPolicies (FormalizeQuotaPolicies qs t) = map formalize (filter IsValidQuotaPolicy qs)
    \<and> (\<forall>q \<in> set (quotaPolicies (FormalizeQuotaPolicies qs t)).
         IsValidNetType (netType (networkmatchrule q)) \<and> IsValidPeriodDuration (periodDuration (quotapolicy q))
         \<and> limitBytes (quotapolicy q) \<noteq> DATA_USAGE_UNKNOWN
         \<and> (limitAction (quotapolicy q) = LIMIT_ACTION_ALERT_ONLY \<longleftrightarrow> limitBytes (quotapolicy q) = DATA_USAGE_UNLIMITED)
         \<and> (warningBytes (quotapolicy q) \<le> limitBytes (quotapolicy q) \<or> warningBytes (quotapolicy q) = DATA_USAGE_UNLIMITED))"
proof (intro conjI ballI)
  show "quotaPolicies (FormalizeQuotaPolicies qs t) = map formalize (filter IsValidQuotaPolicy qs)"
    by (simp add: FormalizeQuotaPolicies_def)
  fix q assume "q \<in> set (quotaPolicies (FormalizeQuotaPolicies qs t))"
  then obtain q0 where q: "q = formalize q0" "IsValidQuotaPolicy q0" "limitBytes (quotapolicy q0) \<le> DATA_USAGE_UNLIMITED"
    using assms by (auto simp: FormalizeQuotaPolicies_def)
  note l = formalize_limits [OF q(3), folded q(1)]
  show "limitBytes (quotapolicy q) \<noteq> DATA_USAGE_UNKNOWN"
    "limitAction (quotapolicy q) = LIMIT_ACTION_ALERT_ONLY \<longleftrightarrow> limitBytes (quotapolicy q) = DATA_USAGE_UNLIMITED"
    "warningBytes (quotapolicy q) \<le> limitBytes (quotapolicy q) \<or> warningBytes (quotapolicy q) = DATA_USAGE_UNLIMITED"
    by (rule l)+
  show "IsValidNetType (netType (networkmatchrule q))" "IsValidPeriodDuration (periodDuration (quotapolicy q))"
    using q(2) by (auto simp: q(1) formalize_fields IsValidQuotaPolicy_def split: if_splits)
qed

theorem formalized_policies_witness:
  "quotaPolicies (FormalizeQuotaPolicies [NetQuotaPolicy_default,
       upd_rule (\<lambda>r. r\<lparr> netType := BEARER_WIFI \<rparr>) (upd_quota (\<lambda>q. q\<lparr> periodDuration := ''M1'', limitBytes := 1000 \<rparr>) NetQuotaPolicy_default)]
     \<lparr> quotaPolicies = [], meteredIfaces = [], quota_events = [] \<rparr>) =
   [upd_rule (\<lambda>r. r\<lparr> netType := BEARER_WIFI \<rparr>)
      (upd_quota (\<lambda>q. q\<lparr> periodDuration := ''M1'', limitBytes := 1000, warningBytes := 900 \<rparr>) NetQuotaPolicy_default)]"
proof -
  let ?q = "upd_rule (\<lambda>r. r\<lparr> netType := BEARER_WIFI \<rparr>) (upd_quota (\<lambda>q. q\<lparr> periodDuration := ''M1'', limitBytes := 1000 \<rparr>) NetQuotaPolicy_default)"
  have v: "IsValidQuotaPolicy ?q" "\<not> IsValidQuotaPolicy NetQuotaPolicy_default" by code_simp+
  have f: "formalize ?q = upd_rule (\<lambda>r. r\<lparr> netType := BEARER_WIFI \<rparr>)
      (upd_quota (\<lambda>q. q\<lparr> periodDuration := ''M1'', limitBytes := 1000, warningBytes := 900 \<rparr>) NetQuotaPolicy_default)"
    by (simp add: formalize_def upd_rule_def upd_quota_def NetQuotaPolicy_default_def Let_def wrap64_def)
  show ?thesis
    using formalized_policies [of "[NetQuotaPolicy_default, ?q]" "\<lparr> quotaPolicies = [], meteredIfaces = [], quota_events = [] \<rparr>"] v f
    by (simp add: upd_rule_def upd_quota_def NetQuotaPolicy_default_def)
qed

text \<open>
  An unlimited policy without a warning threshold, which is what formalisation makes of a
  policy with neither, gets the threshold zero when it is set again: ninety percent of
  the largest 64-bit number overflows. From then on any traffic counts as over the
  threshold.
\<close>

theorem formalize_again_warns_always:
  assumes "limitBytes (quotapolicy q) = DATA_USAGE_UNKNOWN" "warningBytes (quotapolicy q) = DATA_USAGE_UNKNOWN"
  shows "limitBytes (quotapolicy (formalize q)) = DATA_USAGE_UNLIMITED \<and> warningBytes (quotapolicy (formalize q)) = DATA_USAGE_UNKNOWN
    \<and> warningBytes (quotapolicy (formalize (formalize q))) = 0
    \<and> (\<forall>total > 0. IsOverWarning (formalize (formalize q)) total)"
proof -
  have "wrap64 (DATA_USAGE_UNLIMITED * 90) sdiv 100 = 0"
  proof -
    have "wrap64 (DATA_USAGE_UNLIMITED * 90) = - 90" by (simp add: wrap64_def)
    then show ?thesis by (simp add: signed_divide_int_def)
  qed
  then show ?thesis using assms by (simp add: formalize_def Let_def upd_quota_def IsOverWarning_def)
qed

theorem formalize_again_warns_always_witness:
  "warningBytes (quotapolicy (formalize (formalize NetQuotaPolicy_default))) = 0"
  using formalize_again_warns_always [of NetQuotaPolicy_default] by (simp add: NetQuotaPolicy_default_def)

text \<open>
  A reset announces limits: \<open>Reset\<close> makes the limit unknown, which is below every usage, so
  each policy is reported as over its limit in the same call.
\<close>

theorem reset_announces_limits:
  assumes "online w" "\<forall>x. mktime (te_clock e) x \<ge> 0" "time_now (te_clock e) \<ge> 0"
  shows "\<exists>totals. length totals = length (quotaPolicies t)
    \<and> quota_events (fst (snd (Traffic_ResetPolicies e (t, w)))) = quota_events t @ map QuotaLimit totals"
proof -
  have "\<exists>n. quota_notice e (Quota_Reset q) = [QuotaLimit n]" for q
  proof -
    let ?q = "Quota_Reset q"
    have len: "length (periodDuration (quotapolicy ?q)) \<ge> PERIOD_DURATION_SIZE" by (simp add: Quota_Reset_def upd_quota_def)
    obtain start where p: "GetPeriodStart (te_clock e) ?q = (start, ?q)" using GetPeriodStart_again [OF len] by (metis prod.collapse)
    have s: "start \<ge> 0" using p assms(2, 3) by (auto simp: GetPeriodStart_def Let_def)
    obtain total where g: "GetTotalQuota e ?q = (total, ?q)" using GetTotalQuota_policy [of e ?q] p by (metis prod.collapse snd_conv)
    have "total \<ge> 0" using GetTotalQuota_range(1) [of e ?q] g by simp
    moreover have "limitBytes (quotapolicy ?q) = -1" "lastLimitRemind (quotapolicy ?q) = -1" by (simp_all add: Quota_Reset_def upd_quota_def)
    ultimately show ?thesis using s by (simp add: quota_notice_def p g IsOverLimit_def)
  qed
  then obtain n where n: "\<And>q. quota_notice e (Quota_Reset q) = [QuotaLimit (n q)]" by metis
  obtain r t' w' where u: "UpdateQuotaPoliciesInner e (t\<lparr> quotaPolicies := map Quota_Reset (quotaPolicies t) \<rparr>, w) = (r, t', w')"
    by (metis prod_cases3)
  have "quota_events t' = quota_events t @ map QuotaLimit (map n (quotaPolicies t))"
    using UpdateQuotaPoliciesInner_eq(4) [OF assms(1) u] by (simp add: n comp_def)
  then show ?thesis by (intro exI [of _ "map n (quotaPolicies t)"]) (simp add: Traffic_ResetPolicies_def u)
qed

theorem reset_announces_limits_witness:
  "\<exists>n. quota_events (fst (snd (Traffic_ResetPolicies idle_env
     (\<lparr> quotaPolicies = [NetQuotaPolicy_default], meteredIfaces = [], quota_events = [] \<rparr>, first_boot)))) = [QuotaLimit n]"
  using reset_announces_limits [OF first_boot_boxes(1), of idle_env
      "\<lparr> quotaPolicies = [NetQuotaPolicy_default], meteredIfaces = [], quota_events = [] \<rparr>"]
  by (auto simp: idle_env_def length_Suc_conv)

end
