(* ===== verification/Policy_Service.thy ===== *)
theory Policy_Service
  imports Policy_Firewall Policy_Traffic
begin

text \<open>
  The policy service: \<open>NetPolicyCore\<close> (\<open>services/netpolicymanager/src/core/net_policy_core.cpp\<close>)
  with its event queue, and the requests of \<open>NetPolicyService\<close>
  (\<open>services/netpolicymanager/src/net_policy_service.cpp\<close>) on the three components. The components
  share one world; a message that the firewall component sends waits in the queue with its
  sender and is later handed to the other components; a system event waits there without a
  sender and is handed to all. The queue is served in order. Of the factory
  reset, \<open>ResetNetAccessPolicy\<close> is not modelled: it reads a database of access policies and passes them to the
  daemon, which keeps them apart from the boxes. None stands
  for the dereference of a null pointer.
\<close>

section \<open>State\<close>

datatype event_sender = NoSender | FirewallCore

record policy_cores =
  co_traffic :: NetPolicyTraffic
  co_firewall :: NetPolicyFirewall
  co_rule :: NetPolicyRule

record NetPolicyService =
  sv_cores :: "policy_cores option"
  sv_world :: policy_world
  sv_queue :: "(event_sender \<times> PolicyMessage) list"
  sv_systemUids :: "u32 list"

definition NetPolicyTraffic_ctor :: NetPolicyTraffic where
  "NetPolicyTraffic_ctor = \<lparr> quotaPolicies = [], meteredIfaces = [], quota_events = [] \<rparr>"

text \<open>The cores are created in this order, each initialised before the next is made.\<close>

definition Service_Init :: "'t traffic_env \<Rightarrow> NetPolicyService \<Rightarrow> NetPolicyService" where
  "Service_Init e s =
     (case Traffic_ReadQuotaPolicies e (NetPolicyTraffic_ctor, sv_world s) of (t, w1) \<Rightarrow>
      case Firewall_Init (NetPolicyFirewall_ctor, w1) of (f, w2) \<Rightarrow>
      case Rule_Init (NetPolicyRule_ctor, w2) of (p, w3) \<Rightarrow>
        s\<lparr> sv_cores := Some \<lparr> co_traffic = t, co_firewall = f, co_rule = p \<rparr>, sv_world := w3 \<rparr>)"

definition on_rule :: "(rule_state \<Rightarrow> int \<times> rule_state) \<Rightarrow> NetPolicyService \<Rightarrow> int \<times> NetPolicyService" where
  "on_rule f s =
     (case sv_cores s of None \<Rightarrow> (NETMANAGER_ERR_LOCAL_PTR_NULL, s)
      | Some c \<Rightarrow>
          (case f (co_rule c, sv_world s) of (r, p, w) \<Rightarrow> (r, s\<lparr> sv_cores := Some (c\<lparr> co_rule := p \<rparr>), sv_world := w \<rparr>)))"

definition on_traffic :: "(tr_state \<Rightarrow> int \<times> tr_state) \<Rightarrow> NetPolicyService \<Rightarrow> int \<times> NetPolicyService" where
  "on_traffic f s =
     (case sv_cores s of None \<Rightarrow> (NETMANAGER_ERR_LOCAL_PTR_NULL, s)
      | Some c \<Rightarrow>
          (case f (co_traffic c, sv_world s) of (r, t, w) \<Rightarrow> (r, s\<lparr> sv_cores := Some (c\<lparr> co_traffic := t \<rparr>), sv_world := w \<rparr>)))"

text \<open>What the firewall component sends goes to the queue.\<close>

definition on_firewall_core :: "(pf_state \<Rightarrow> (int \<times> pf_state) option) \<Rightarrow> NetPolicyService \<Rightarrow> (int \<times> NetPolicyService) option" where
  "on_firewall_core f s =
     (case sv_cores s of None \<Rightarrow> Some (NETMANAGER_ERR_LOCAL_PTR_NULL, s)
      | Some c \<Rightarrow>
          (case f ((co_firewall c)\<lparr> pf_events := [] \<rparr>, sv_world s) of None \<Rightarrow> None
           | Some (r, fw, w) \<Rightarrow>
               Some (r, s\<lparr> sv_cores := Some (c\<lparr> co_firewall := fw \<rparr>), sv_world := w,
                           sv_queue := sv_queue s @ map (Pair FirewallCore) (pf_events fw) \<rparr>)))"

section \<open>Requests\<close>

definition SetPolicyByUid :: "u32 \<Rightarrow> u32 \<Rightarrow> NetPolicyService \<Rightarrow> int \<times> NetPolicyService" where
  "SetPolicyByUid uid policy = on_rule (TransPolicyToRule uid policy)"

definition Service_GetPolicyByUid :: "u32 \<Rightarrow> u32 \<Rightarrow> NetPolicyService \<Rightarrow> int \<times> u32" where
  "Service_GetPolicyByUid uid policy s =
     (case sv_cores s of None \<Rightarrow> (NETMANAGER_ERR_LOCAL_PTR_NULL, policy) | Some c \<Rightarrow> GetPolicyByUid uid (co_rule c))"

definition Service_GetUidsByPolicy :: "u32 \<Rightarrow> u32 list \<Rightarrow> NetPolicyService \<Rightarrow> int \<times> u32 list" where
  "Service_GetUidsByPolicy policy uids s =
     (case sv_cores s of None \<Rightarrow> (NETMANAGER_ERR_LOCAL_PTR_NULL, uids) | Some c \<Rightarrow> GetUidsByPolicy policy uids (co_rule c))"

definition Service_IsUidNetAllowed :: "u32 \<Rightarrow> bool \<Rightarrow> bool \<Rightarrow> NetPolicyService \<Rightarrow> int \<times> bool" where
  "Service_IsUidNetAllowed uid isMetered isAllowed s =
     (if uid \<in> set (sv_systemUids s) then (NETMANAGER_SUCCESS, True)
      else case sv_cores s of None \<Rightarrow> (NETMANAGER_ERR_LOCAL_PTR_NULL, isAllowed)
        | Some c \<Rightarrow> IsUidNetAllowed uid isMetered (co_rule c))"

definition Service_IsUidNetAllowed_iface :: "u32 \<Rightarrow> string \<Rightarrow> bool \<Rightarrow> NetPolicyService \<Rightarrow> int \<times> bool" where
  "Service_IsUidNetAllowed_iface uid ifaceName isAllowed s =
     (case sv_cores s of None \<Rightarrow> (0, isAllowed)
      | Some c \<Rightarrow>
          if IsMeteredIfaces ifaceName (co_traffic c) then Service_IsUidNetAllowed uid True isAllowed s
          else Service_IsUidNetAllowed uid False isAllowed s)"

definition SetNetQuotaPolicies :: "'t traffic_env \<Rightarrow> NetQuotaPolicy list \<Rightarrow> NetPolicyService \<Rightarrow> int \<times> NetPolicyService" where
  "SetNetQuotaPolicies e qs = on_traffic (UpdateQuotaPolicies e qs)"

definition Service_GetNetQuotaPolicies :: "NetQuotaPolicy list \<Rightarrow> NetPolicyService \<Rightarrow> int \<times> NetQuotaPolicy list" where
  "Service_GetNetQuotaPolicies qs s =
     (case sv_cores s of None \<Rightarrow> (NETMANAGER_ERR_LOCAL_PTR_NULL, qs) | Some c \<Rightarrow> GetNetQuotaPolicies (co_traffic c))"

definition Service_SetBackgroundPolicy :: "bool \<Rightarrow> NetPolicyService \<Rightarrow> int \<times> NetPolicyService" where
  "Service_SetBackgroundPolicy allow = on_rule (SetBackgroundPolicy allow)"

definition Service_GetBackgroundPolicy :: "bool \<Rightarrow> NetPolicyService \<Rightarrow> int \<times> bool" where
  "Service_GetBackgroundPolicy b s =
     (case sv_cores s of None \<Rightarrow> (NETMANAGER_ERR_LOCAL_PTR_NULL, b) | Some c \<Rightarrow> GetBackgroundPolicy (co_rule c))"

definition Service_GetBackgroundPolicyByUid :: "u32 \<Rightarrow> u32 \<Rightarrow> NetPolicyService \<Rightarrow> int \<times> u32" where
  "Service_GetBackgroundPolicyByUid uid b s =
     (case sv_cores s of None \<Rightarrow> (NETMANAGER_ERR_LOCAL_PTR_NULL, b) | Some c \<Rightarrow> GetBackgroundPolicyByUid uid (co_rule c))"

definition Service_UpdateRemindPolicy :: "'t traffic_env \<Rightarrow> int \<Rightarrow> string \<Rightarrow> u32 \<Rightarrow> NetPolicyService \<Rightarrow> int \<times> NetPolicyService" where
  "Service_UpdateRemindPolicy e type sim remindType = on_traffic (UpdateRemindPolicy e type sim remindType)"

definition Service_SetDeviceIdleTrustlist :: "caller \<Rightarrow> u32 list \<Rightarrow> bool \<Rightarrow> NetPolicyService \<Rightarrow> (int \<times> NetPolicyService) option" where
  "Service_SetDeviceIdleTrustlist c uids isAllowed = on_firewall_core (SetDeviceIdleTrustlist c uids isAllowed)"

definition Service_GetDeviceIdleTrustlist :: "u32 list \<Rightarrow> NetPolicyService \<Rightarrow> int \<times> u32 list" where
  "Service_GetDeviceIdleTrustlist uids s =
     (case sv_cores s of None \<Rightarrow> (NETMANAGER_ERR_LOCAL_PTR_NULL, uids) | Some c \<Rightarrow> GetDeviceIdleTrustlist (co_firewall c) uids)"

definition SetDeviceIdlePolicy :: "caller \<Rightarrow> bool \<Rightarrow> NetPolicyService \<Rightarrow> (int \<times> NetPolicyService) option" where
  "SetDeviceIdlePolicy c enable = on_firewall_core (Some \<circ> UpdateDeviceIdlePolicy c enable)"

definition Service_GetPowerSaveTrustlist :: "u32 list \<Rightarrow> NetPolicyService \<Rightarrow> int \<times> u32 list" where
  "Service_GetPowerSaveTrustlist uids s =
     (case sv_cores s of None \<Rightarrow> (NETMANAGER_ERR_LOCAL_PTR_NULL, uids) | Some c \<Rightarrow> GetPowerSaveTrustlist (co_firewall c) uids)"

definition Service_SetPowerSaveTrustlist :: "caller \<Rightarrow> u32 list \<Rightarrow> bool \<Rightarrow> NetPolicyService \<Rightarrow> (int \<times> NetPolicyService) option" where
  "Service_SetPowerSaveTrustlist c uids isAllowed = on_firewall_core (Some \<circ> SetPowerSaveTrustlist c uids isAllowed)"

definition SetPowerSavePolicy :: "caller \<Rightarrow> bool \<Rightarrow> NetPolicyService \<Rightarrow> (int \<times> NetPolicyService) option" where
  "SetPowerSavePolicy c enable = on_firewall_core (Some \<circ> UpdatePowerSavePolicy c enable)"

definition Service_SetUidsDeniedListChain :: "caller \<Rightarrow> u32 list \<Rightarrow> bool \<Rightarrow> NetPolicyService \<Rightarrow> (int \<times> NetPolicyService) option" where
  "Service_SetUidsDeniedListChain c uids isAdd = on_firewall_core (Some \<circ> Policy_SetUidsDeniedListChain c uids isAdd)"

definition SetIdleDenyPolicy :: "caller \<Rightarrow> bool \<Rightarrow> NetPolicyService \<Rightarrow> (int \<times> NetPolicyService) option" where
  "SetIdleDenyPolicy c enable = on_firewall_core (Some \<circ> UpdateIdleDenyPolicy c enable)"

text \<open>The two resets differ in what they reset of the quotas; of the second, \<open>ResetNetAccessPolicy\<close> works on a table of its own.\<close>

definition reset_cores :: "caller \<Rightarrow> (tr_state \<Rightarrow> int \<times> tr_state) \<Rightarrow> NetPolicyService \<Rightarrow> (int \<times> NetPolicyService) option" where
  "reset_cores c quotas s =
     (if sv_cores s = None then Some (NETMANAGER_ERR_LOCAL_PTR_NULL, s)
      else case on_rule Rule_ResetPolicies s of (_, s1) \<Rightarrow>
        (case on_firewall_core (\<lambda>x. Some (NETMANAGER_SUCCESS, Firewall_ResetPolicies c x)) s1 of None \<Rightarrow> None
         | Some (_, s2) \<Rightarrow> Some (NETMANAGER_SUCCESS, snd (on_traffic quotas s2))))"

definition Service_ResetPolicies :: "caller \<Rightarrow> 't traffic_env \<Rightarrow> string \<Rightarrow> NetPolicyService \<Rightarrow> (int \<times> NetPolicyService) option" where
  "Service_ResetPolicies c e sim = reset_cores c (Traffic_ResetPolicies_sim e sim)"

definition FactoryResetPolicies :: "caller \<Rightarrow> 't traffic_env \<Rightarrow> NetPolicyService \<Rightarrow> (int \<times> NetPolicyService) option" where
  "FactoryResetPolicies c e = reset_cores c (Traffic_ResetPolicies e)"

text \<open>The daemon is back after a crash: the policies are to be applied again.\<close>

definition OnNetSysRestart :: "NetPolicyService \<Rightarrow> NetPolicyService" where
  "OnNetSysRestart s =
     (if sv_cores s = None then s else snd (on_rule (\<lambda>x. (NETMANAGER_SUCCESS, TransPolicyToRule_all x)) s))"

section \<open>Events\<close>

definition Core_SendEvent :: "PolicyMessage \<Rightarrow> NetPolicyService \<Rightarrow> NetPolicyService" where
  "Core_SendEvent msg s = s\<lparr> sv_queue := sv_queue s @ [(NoSender, msg)] \<rparr>"

text \<open>The system events the core subscribes to; the parameter says whether power saving is compiled in.\<close>

datatype common_event =
    COMMON_EVENT_POWER_SAVE_MODE_CHANGED int
  | COMMON_EVENT_DEVICE_IDLE_MODE_CHANGED bool
  | COMMON_EVENT_PACKAGE_REMOVED int

abbreviation SAVE_MODE :: int where "SAVE_MODE \<equiv> 601"
abbreviation LOWPOWER_MODE :: int where "LOWPOWER_MODE \<equiv> 603"

definition OnReceiveEvent :: "bool \<Rightarrow> common_event \<Rightarrow> NetPolicyService \<Rightarrow> NetPolicyService" where
  "OnReceiveEvent powerSaveEnable ev s =
     (case ev of
        COMMON_EVENT_POWER_SAVE_MODE_CHANGED code \<Rightarrow>
          if powerSaveEnable then Core_SendEvent (MSG_POWER_SAVE_MODE_CHANGED (code = SAVE_MODE \<or> code = LOWPOWER_MODE)) s else s
      | COMMON_EVENT_DEVICE_IDLE_MODE_CHANGED sleeping \<Rightarrow> Core_SendEvent (MSG_DEVICE_IDLE_MODE_CHANGED sleeping) s
      | COMMON_EVENT_PACKAGE_REMOVED uid \<Rightarrow> if uid < 0 then s else Core_SendEvent (MSG_UID_REMOVED (of_int uid)) s)"

datatype ApplicationState = APP_STATE_FOREGROUND | APP_STATE_BACKGROUND | APP_STATE_OTHER

definition SendAppStatusMessage :: "ApplicationState \<Rightarrow> u32 list \<Rightarrow> NetPolicyService \<Rightarrow> NetPolicyService" where
  "SendAppStatusMessage st uids s =
     fold (\<lambda>uid s. case st of
         APP_STATE_FOREGROUND \<Rightarrow> Core_SendEvent (MSG_UID_STATE_FOREGROUND uid) s
       | APP_STATE_BACKGROUND \<Rightarrow> Core_SendEvent (MSG_UID_STATE_BACKGROUND uid) s
       | APP_STATE_OTHER \<Rightarrow> s) uids s"

definition firewall_event :: "caller \<Rightarrow> PolicyMessage \<Rightarrow> pf_state \<Rightarrow> (int \<times> pf_state) option" where
  "firewall_event c msg x = (case Firewall_HandleEvent c msg x of None \<Rightarrow> None | Some y \<Rightarrow> Some (NETMANAGER_SUCCESS, y))"

text \<open>The traffic component ignores every message.\<close>

definition Core_HandleEvent :: "caller \<Rightarrow> event_sender \<Rightarrow> PolicyMessage \<Rightarrow> NetPolicyService \<Rightarrow> NetPolicyService option" where
  "Core_HandleEvent c sender msg s =
     (case (if sender = FirewallCore then Some (NETMANAGER_SUCCESS, s) else on_firewall_core (firewall_event c msg) s) of
        None \<Rightarrow> None
      | Some (_, s1) \<Rightarrow>
          if sv_cores s1 = None then Some s1
          else Some (snd (on_rule (\<lambda>x. (NETMANAGER_SUCCESS, Rule_HandleEvent msg x)) s1)))"

text \<open>The queue hands out its oldest event.\<close>

definition ProcessEvent :: "caller \<Rightarrow> NetPolicyService \<Rightarrow> NetPolicyService option" where
  "ProcessEvent c s =
     (case sv_queue s of [] \<Rightarrow> Some s | (sender, msg) # q \<Rightarrow> Core_HandleEvent c sender msg (s\<lparr> sv_queue := q \<rparr>))"

section \<open>Vocabulary of the properties\<close>

text \<open>What the pending messages of the firewall component say, oldest first.\<close>

fun power_msgs :: "PolicyMessage list \<Rightarrow> bool list" where
  "power_msgs [] = []"
| "power_msgs (MSG_POWER_SAVE_MODE_CHANGED m # ms) = m # power_msgs ms"
| "power_msgs (_ # ms) = power_msgs ms"

fun idle_msgs :: "PolicyMessage list \<Rightarrow> u32 set list" where
  "idle_msgs [] = []"
| "idle_msgs (MSG_DEVICE_IDLE_LIST_UPDATED l # ms) = l # idle_msgs ms"
| "idle_msgs (_ # ms) = idle_msgs ms"

fun save_msgs :: "PolicyMessage list \<Rightarrow> u32 set list" where
  "save_msgs [] = []"
| "save_msgs (MSG_POWER_SAVE_LIST_UPDATED l # ms) = l # save_msgs ms"
| "save_msgs (_ # ms) = save_msgs ms"

definition firewall_msgs :: "(event_sender \<times> PolicyMessage) list \<Rightarrow> PolicyMessage list" where
  "firewall_msgs q = map snd (filter (\<lambda>e. fst e = FirewallCore) q)"

text \<open>The last pending value, or the current one if none is pending, is the wanted value.\<close>

definition settles :: "'a list \<Rightarrow> 'a \<Rightarrow> 'a \<Rightarrow> bool" where
  "settles pending cur wanted = ((if pending = [] then cur else last pending) = wanted)"

definition agree :: "bool \<Rightarrow> (event_sender \<times> PolicyMessage) list \<Rightarrow> NetPolicyRule \<Rightarrow> NetPolicyFirewall \<Rightarrow> bool" where
  "agree ls q p f =
     (powerSaveFirewallRule f \<noteq> None
    \<and> settles (power_msgs (firewall_msgs q)) (powerSaveMode p) (pf_powerSaveMode f)
    \<and> (ls \<longrightarrow> settles (idle_msgs (firewall_msgs q)) (deviceIdleAllowedList p) (pf_deviceIdleAllowedList f)
       \<and> settles (save_msgs (firewall_msgs q)) (powerSaveAllowedList p) (pf_powerSaveAllowedList f)))"

definition views_settle :: "bool \<Rightarrow> NetPolicyService \<Rightarrow> bool" where
  "views_settle ls s =
     (case sv_cores s of None \<Rightarrow> False | Some c \<Rightarrow> agree ls (sv_queue s) (co_rule c) (co_firewall c))"

text \<open>The system never sends a list.\<close>

definition system_msg :: "PolicyMessage \<Rightarrow> bool" where
  "system_msg msg = (case msg of MSG_DEVICE_IDLE_LIST_UPDATED _ \<Rightarrow> False | MSG_POWER_SAVE_LIST_UPDATED _ \<Rightarrow> False | _ \<Rightarrow> True)"

definition queue_ok :: "NetPolicyService \<Rightarrow> bool" where
  "queue_ok s = (\<forall>e \<in> set (sv_queue s). fst e = NoSender \<longrightarrow> system_msg (snd e))"

text \<open>Two worlds with the same boxes of the daemon.\<close>

definition same_boxes :: "policy_world \<Rightarrow> policy_world \<Rightarrow> bool" where
  "same_boxes w w' = (denied w' = denied w \<and> allowed w' = allowed w \<and> online w' = online w)"

text \<open>The boxes of the daemon match the entries of the rule component.\<close>

definition svc_boxes :: "NetPolicyService \<Rightarrow> bool" where
  "svc_boxes s = (case sv_cores s of None \<Rightarrow> False | Some c \<Rightarrow> rule_inv (co_rule c, sv_world s))"

text \<open>The part of the rule component that the messages of the firewall component set.\<close>

definition same_view :: "NetPolicyRule \<Rightarrow> NetPolicyRule \<Rightarrow> bool" where
  "same_view p p' = (powerSaveMode p' = powerSaveMode p \<and> deviceIdleAllowedList p' = deviceIdleAllowedList p
     \<and> powerSaveAllowedList p' = powerSaveAllowedList p)"

text \<open>What the firewall component has sent since its fields had the given values leads to its fields.\<close>

definition told :: "bool \<Rightarrow> NetPolicyFirewall \<Rightarrow> NetPolicyFirewall \<Rightarrow> bool" where
  "told ls f0 f =
     (powerSaveFirewallRule f \<noteq> None
    \<and> settles (power_msgs (pf_events f)) (pf_powerSaveMode f0) (pf_powerSaveMode f)
    \<and> (ls \<longrightarrow> settles (idle_msgs (pf_events f)) (pf_deviceIdleAllowedList f0) (pf_deviceIdleAllowedList f)
       \<and> settles (save_msgs (pf_events f)) (pf_powerSaveAllowedList f0) (pf_powerSaveAllowedList f)))"

text \<open>
  Everything that can happen to an initialised service, in environments from a given set. The
  first index is false for a reset, after which the trust lists are not reported; the second is false when the
  daemon restarts and comes back in a state of its own.
\<close>

inductive svc_step :: "'t traffic_env set \<Rightarrow> bool \<Rightarrow> bool \<Rightarrow> NetPolicyService \<Rightarrow> NetPolicyService \<Rightarrow> bool" for E where
  svc_policy: "svc_step E True True s (snd (SetPolicyByUid uid policy s))"
| svc_background: "svc_step E True True s (snd (Service_SetBackgroundPolicy allow s))"
| svc_quota: "e \<in> E \<Longrightarrow> svc_step E True True s (snd (SetNetQuotaPolicies e qs s))"
| svc_remind: "e \<in> E \<Longrightarrow> svc_step E True True s (snd (Service_UpdateRemindPolicy e type sim remindType s))"
| svc_idle_list: "Service_SetDeviceIdleTrustlist c uids b s = Some (r, s') \<Longrightarrow> svc_step E True True s s'"
| svc_save_list: "Service_SetPowerSaveTrustlist c uids b s = Some (r, s') \<Longrightarrow> svc_step E True True s s'"
| svc_idle_mode: "SetDeviceIdlePolicy c b s = Some (r, s') \<Longrightarrow> svc_step E True True s s'"
| svc_save_mode: "SetPowerSavePolicy c b s = Some (r, s') \<Longrightarrow> svc_step E True True s s'"
| svc_deny_list: "Service_SetUidsDeniedListChain c uids b s = Some (r, s') \<Longrightarrow> svc_step E True True s s'"
| svc_deny_mode: "SetIdleDenyPolicy c b s = Some (r, s') \<Longrightarrow> svc_step E True True s s'"
| svc_reset: "e \<in> E \<Longrightarrow> Service_ResetPolicies c e sim s = Some (r, s') \<Longrightarrow> svc_step E False True s s'"
| svc_common: "svc_step E True True s (OnReceiveEvent b ev s)"
| svc_app: "svc_step E True True s (SendAppStatusMessage st uids s)"
| svc_process: "ProcessEvent c s = Some s' \<Longrightarrow> svc_step E True True s s'"
| svc_factory: "e \<in> E \<Longrightarrow> FactoryResetPolicies c e s = Some (r, s') \<Longrightarrow> svc_step E False True s s'"
| svc_daemon: "svc_step E True False s (s\<lparr> sv_world := (sv_world s)\<lparr> pw_netsys := n \<rparr> \<rparr>)"
| svc_restart: "svc_step E True True s (OnNetSysRestart s)"

definition svc_start :: "policy_world \<Rightarrow> u32 list \<Rightarrow> NetPolicyService" where
  "svc_start w sys = \<lparr> sv_cores = None, sv_world = w, sv_queue = [], sv_systemUids = sys \<rparr>"

text \<open>The device boots: no uid is in a box of the daemon; the file is any document.\<close>

inductive svc_reachable :: "'t traffic_env set \<Rightarrow> policy_world \<Rightarrow> bool \<Rightarrow> bool \<Rightarrow> NetPolicyService \<Rightarrow> bool" for E w0 where
  svc_boot: "online w0 \<Longrightarrow> denied w0 = {} \<Longrightarrow> allowed w0 = {} \<Longrightarrow> finite (fl_allowedList (file_lists FIREWALL_CHAIN_DEVICE_IDLE w0)) \<Longrightarrow>
    finite (fl_allowedList (file_lists FIREWALL_CHAIN_POWER_SAVE w0)) \<Longrightarrow> e \<in> E \<Longrightarrow>
    svc_reachable E w0 True True (Service_Init e (svc_start w0 sys))"
| svc_next: "svc_reachable E w0 b k s \<Longrightarrow> svc_step E b' k' s s' \<Longrightarrow> svc_reachable E w0 (b \<and> b') (k \<and> k') s'"

text \<open>An example: the first boot of a device, then a request to reject a uid.\<close>

definition first_service :: NetPolicyService where
  "first_service = snd (SetPolicyByUid 20001 NET_POLICY_REJECT_METERED_BACKGROUND (Service_Init idle_env (svc_start first_boot [])))"

section \<open>Lemmas\<close>

subsection \<open>Messages\<close>

lemma msgs_append [simp]:
  "power_msgs (xs @ ys) = power_msgs xs @ power_msgs ys"
  "idle_msgs (xs @ ys) = idle_msgs xs @ idle_msgs ys"
  "save_msgs (xs @ ys) = save_msgs xs @ save_msgs ys"
  by (induction xs rule: power_msgs.induct) simp_all

lemma firewall_msgs_simps [simp]:
  "firewall_msgs [] = []" "firewall_msgs (xs @ ys) = firewall_msgs xs @ firewall_msgs ys"
  "firewall_msgs ((FirewallCore, m) # q) = m # firewall_msgs q" "firewall_msgs ((NoSender, m) # q) = firewall_msgs q"
  "firewall_msgs (map (Pair FirewallCore) ms) = ms"
  by (simp_all add: firewall_msgs_def comp_def)

lemma settles_simps [simp]: "settles [] cur x = (cur = x)" "settles (p @ [y]) cur x = (y = x)"
  by (simp_all add: settles_def)

lemma settles_compose: "settles p cur y \<Longrightarrow> settles p' y x \<Longrightarrow> settles (p @ p') cur x"
  by (simp add: settles_def split: if_splits)

lemma told_report [simp]: "told ls f0 (ReportFirewallPolicyChange c n ch e r f) = told ls f0 f"
  by (simp add: told_def ReportFirewallPolicyChange_def split: option.split)

lemma told_fields [simp]:
  "told ls f0 (f\<lparr> deviceIdleFirewallRule := r \<rparr>) = told ls f0 f" "told ls f0 f \<Longrightarrow> told ls f0 (f\<lparr> powerSaveFirewallRule := Some r1 \<rparr>)"
  "told ls f0 (f\<lparr> idleDenyFirewallRule := r \<rparr>) = told ls f0 f" "told ls f0 (f\<lparr> pf_idleDenyMode := b \<rparr>) = told ls f0 f"
  "told ls f0 (f\<lparr> pf_deviceIdleMode := b \<rparr>) = told ls f0 f"
  by (simp_all add: told_def)

lemma told_SetDeviceIdleTrustlist:
  "told ls f0 (fst s) \<Longrightarrow> SetDeviceIdleTrustlist c uids b s = Some (r, s') \<Longrightarrow> told ls f0 (fst s')"
  by (auto simp: SetDeviceIdleTrustlist_def UpdateFirewallPolicyList_def pf_SendEvent_def told_def Let_def ReportFirewallPolicyChange_def
      split: prod.splits option.splits if_splits)

lemma told_SetPowerSaveTrustlist:
  "told ls f0 (fst s) \<Longrightarrow> told ls f0 (fst (snd (SetPowerSaveTrustlist c uids b s)))"
  by (auto simp: SetPowerSaveTrustlist_def UpdateFirewallPolicyList_def pf_SendEvent_def told_def Let_def ReportFirewallPolicyChange_def
      split: prod.splits option.splits if_splits)

lemma told_modes:
  "told ls f0 (fst s) \<Longrightarrow> told ls f0 (fst (snd (UpdateDeviceIdlePolicy c b s)))"
  "told ls f0 (fst s) \<Longrightarrow> told ls f0 (fst (snd (UpdatePowerSavePolicy c b s)))"
  "told ls f0 (fst s) \<Longrightarrow> told ls f0 (fst (snd (UpdateIdleDenyPolicy c b s)))"
  by (auto simp: UpdateDeviceIdlePolicy_def UpdatePowerSavePolicy_def UpdateIdleDenyPolicy_def pf_SendEvent_def told_def Let_def
      ReportFirewallPolicyChange_def split: prod.splits option.splits if_splits)

lemma told_denied: "told ls f0 (fst s) \<Longrightarrow> told ls f0 (fst (snd (Policy_SetUidsDeniedListChain c uids b s)))"
  by (auto simp: Policy_SetUidsDeniedListChain_def split: prod.splits option.splits)

lemma told_reset: "told False f0 (fst s) \<Longrightarrow> told False f0 (fst (Firewall_ResetPolicies c s))"
proof -
  have c: "told False f0 (fst s) \<Longrightarrow> told False f0 (fst (clear_lists c s))" for s
    by (cases s) (simp add: clear_lists_def Let_def told_modes, intro told_modes, simp add: told_def)
  assume "told False f0 (fst s)"
  then show ?thesis
    by (cases s) (auto simp: Firewall_ResetPolicies_def Let_def intro!: c split: prod.splits option.splits)
qed

lemma told_DeleteUid:
  assumes "told ls f0 (fst s)" "Firewall_DeleteUid c uid s = Some s'"
  shows "told ls f0 (fst s')"
proof -
  obtain r1 s1 where s1: "SetDeviceIdleTrustlist c [uid] False s = Some (r1, s1)"
    using assms(2) by (auto simp: Firewall_DeleteUid_def split: option.splits)
  obtain r2 s2 where s2: "SetPowerSaveTrustlist c [uid] False s1 = (r2, s2)" by (metis surj_pair)
  have "told ls f0 (fst s2)" using told_SetPowerSaveTrustlist [OF told_SetDeviceIdleTrustlist [OF assms(1) s1], of c "[uid]" False] by (simp add: s2)
  then show ?thesis using assms(2) by (auto simp: Firewall_DeleteUid_def s1 s2 split: prod.splits option.splits)
qed

lemma told_event:
  assumes "told ls f0 (fst s)" "Firewall_HandleEvent c msg s = Some s'"
  shows "told ls f0 (fst s')"
proof (cases msg)
  case (MSG_UID_REMOVED uid)
  then show ?thesis using assms told_DeleteUid by (simp add: Firewall_HandleEvent_def)
next
  case (MSG_POWER_SAVE_MODE_CHANGED m)
  then show ?thesis using assms told_modes(2) [of ls f0 s c m] by (auto simp: Firewall_HandleEvent_def)
qed (use assms in \<open>simp_all add: Firewall_HandleEvent_def\<close>)

subsection \<open>Agreement of the components\<close>

lemma views_Some: "sv_cores s = Some c \<Longrightarrow> views_settle ls s = agree ls (sv_queue s) (co_rule c) (co_firewall c)"
  by (simp add: views_settle_def)

lemma views_cases:
  assumes "views_settle ls s"
  obtains c where "sv_cores s = Some c" "agree ls (sv_queue s) (co_rule c) (co_firewall c)"
  using assms by (auto simp: views_settle_def split: option.splits)

lemma agree_told: "agree ls q p f0 \<Longrightarrow> told ls f0 f \<Longrightarrow> agree ls (q @ map (Pair FirewallCore) (pf_events f)) p f"
  by (auto simp: agree_def told_def intro: settles_compose)

lemma agree_view: "agree ls q p f \<Longrightarrow> same_view p p' \<Longrightarrow> agree ls q p' f"
  by (simp add: agree_def same_view_def)

lemma agree_weaken: "agree ls q p f \<Longrightarrow> (ls' \<Longrightarrow> ls) \<Longrightarrow> agree ls' q p f"
  by (auto simp: agree_def)

lemma agree_events [simp]: "agree ls q p (f\<lparr> pf_events := es \<rparr>) = agree ls q p f"
  by (simp add: agree_def)

lemma agree_system [simp]: "agree ls (q @ [(NoSender, m)]) p f = agree ls q p f" "agree ls ((NoSender, m) # q) p f = agree ls q p f"
  by (simp_all add: agree_def)

lemma views_firewall:
  assumes "views_settle ls s" "on_firewall_core f s = Some (r, s')"
    and "\<And>x y r f0. told ls' f0 (fst x) \<Longrightarrow> f x = Some (r, y) \<Longrightarrow> told ls' f0 (fst y)" "ls' \<Longrightarrow> ls"
  shows "views_settle ls' s'"
proof -
  obtain c where c: "sv_cores s = Some c" "agree ls (sv_queue s) (co_rule c) (co_firewall c)" using assms(1) by (rule views_cases)
  let ?f0 = "(co_firewall c)\<lparr> pf_events := [] \<rparr>"
  obtain fw w where f: "f (?f0, sv_world s) = Some (r, fw, w)"
    and s': "s' = s\<lparr> sv_cores := Some (c\<lparr> co_firewall := fw \<rparr>), sv_world := w, sv_queue := sv_queue s @ map (Pair FirewallCore) (pf_events fw) \<rparr>"
    using assms(2) by (auto simp: on_firewall_core_def c split: option.splits)
  have a: "agree ls' (sv_queue s) (co_rule c) ?f0" using agree_weaken [OF c(2) assms(4)] by simp
  then have "told ls' ?f0 ?f0" by (simp add: told_def agree_def)
  from assms(3) [of _ "(?f0, sv_world s)", simplified, OF this f] have "told ls' ?f0 fw" by simp
  from agree_told [OF a this] show ?thesis by (simp add: views_Some s')
qed

lemma views_rule:
  assumes "views_settle ls s" "\<And>x. same_view (fst x) (fst (snd (f x)))"
  shows "views_settle ls (snd (on_rule f s))"
proof -
  obtain c where c: "sv_cores s = Some c" "agree ls (sv_queue s) (co_rule c) (co_firewall c)" using assms(1) by (rule views_cases)
  obtain r p w where f: "f (co_rule c, sv_world s) = (r, p, w)" by (metis prod_cases3)
  have "same_view (co_rule c) p" using assms(2) [of "(co_rule c, sv_world s)"] by (simp add: f)
  from agree_view [OF c(2) this] show ?thesis by (simp add: on_rule_def c(1) f views_Some)
qed

lemma views_traffic: "views_settle ls s \<Longrightarrow> views_settle ls (snd (on_traffic f s))"
  by (erule views_cases) (simp add: on_traffic_def views_Some split: prod.split)

lemma same_view_Trans: "same_view (fst s) (fst (snd (TransPolicyToRule uid policy s)))"
  by (auto simp: TransPolicyToRule_def trans_uid_def same_view_def split: prod.splits option.splits)

lemma same_view_all: "same_view (fst s) (fst (TransPolicyToRule_all s))"
  by (auto simp: TransPolicyToRule_all_def same_view_def split: prod.splits)

lemma same_view_background: "same_view (fst s) (fst (snd (SetBackgroundPolicy allow s)))"
  using same_view_all [of "((fst s)\<lparr> backgroundAllow := allow \<rparr>, notify (NotifyNetBackgroundPolicyChange allow) (snd s))"]
  by (auto simp: SetBackgroundPolicy_def same_view_def split: prod.splits)

lemma same_view_trans: "same_view a b \<Longrightarrow> same_view b c \<Longrightarrow> same_view a c"
  by (simp add: same_view_def)

lemma same_view_reset: "same_view (fst s) (fst (snd (Rule_ResetPolicies s)))"
proof -
  have "same_view (fst s) (fst (reset_loop us s))" for us
  proof (induction us arbitrary: s)
    case (Cons u us)
    then show ?case using same_view_trans [OF same_view_Trans Cons.IH] by simp
  qed (simp add: same_view_def)
  then show ?thesis unfolding Rule_ResetPolicies_def by (rule same_view_trans [OF _ same_view_background])
qed

lemma views_send: "views_settle ls s \<Longrightarrow> views_settle ls (Core_SendEvent msg s)"
  by (erule views_cases) (simp add: views_Some Core_SendEvent_def)

text \<open>A message takes effect in the rule component.\<close>

lemma Rule_HandleEvent_view:
  "powerSaveMode (fst (Rule_HandleEvent msg x)) = (case msg of MSG_POWER_SAVE_MODE_CHANGED m \<Rightarrow> m | _ \<Rightarrow> powerSaveMode (fst x))"
  "deviceIdleAllowedList (fst (Rule_HandleEvent msg x)) = (case msg of MSG_DEVICE_IDLE_LIST_UPDATED l \<Rightarrow> l | _ \<Rightarrow> deviceIdleAllowedList (fst x))"
  "powerSaveAllowedList (fst (Rule_HandleEvent msg x)) = (case msg of MSG_POWER_SAVE_LIST_UPDATED l \<Rightarrow> l | _ \<Rightarrow> powerSaveAllowedList (fst x))"
  by (auto simp: Rule_HandleEvent_def TransPolicyToRule_all_def TransPolicyToRule_uid_def trans_uid_def Rule_DeleteUid_def
      UpdateForegroundUidList_def split: prod.splits PolicyMessage.splits option.splits)

lemma settles_Cons: "settles (m # p) cur x = settles p m x"
  by (simp add: settles_def)

lemma agree_own:
  "agree ls ((FirewallCore, msg) # q) p f \<Longrightarrow> agree ls q (fst (Rule_HandleEvent msg (p, w))) f"
  by (cases msg) (simp_all add: agree_def Rule_HandleEvent_view settles_Cons)

text \<open>A system event: the firewall component has taken it first, and has the last word.\<close>

lemma agree_other:
  assumes "agree ls q p f" "system_msg msg" "\<And>m. msg = MSG_POWER_SAVE_MODE_CHANGED m \<Longrightarrow> pf_powerSaveMode f = m"
  shows "agree ls q (fst (Rule_HandleEvent msg (p, w))) f"
  using assms by (cases msg) (auto simp: agree_def Rule_HandleEvent_view system_msg_def settles_def)

lemma views_ProcessEvent:
  assumes "views_settle ls s" "\<forall>e \<in> set (sv_queue s). fst e = NoSender \<longrightarrow> system_msg (snd e)" "ProcessEvent k s = Some s'"
  shows "views_settle ls s' \<and> (\<forall>e \<in> set (sv_queue s'). fst e = NoSender \<longrightarrow> system_msg (snd e))"
proof -
  obtain c where c: "sv_cores s = Some c" "agree ls (sv_queue s) (co_rule c) (co_firewall c)" using assms(1) by (rule views_cases)
  show ?thesis
  proof (cases "sv_queue s")
    case Nil
    then show ?thesis using assms by (simp add: ProcessEvent_def)
  next
    case (Cons e q)
    obtain sender msg where e: "e = (sender, msg)" by fastforce
    note q = Cons [unfolded e]
    show ?thesis
    proof (cases sender)
      case FirewallCore
      obtain p w where r: "Rule_HandleEvent msg (co_rule c, sv_world s) = (p, w)" by fastforce
      have "s' = s\<lparr> sv_queue := q, sv_cores := Some (c\<lparr> co_rule := p \<rparr>), sv_world := w \<rparr>"
        using assms(3) by (simp add: ProcessEvent_def q FirewallCore Core_HandleEvent_def on_rule_def c(1) r)
      moreover have "agree ls q p (co_firewall c)" using agree_own [of ls msg q "co_rule c" "co_firewall c" "sv_world s"] c(2)
        by (simp add: q FirewallCore r)
      ultimately show ?thesis using assms(2) by (simp add: views_Some q)
    next
      case NoSender
      let ?s0 = "s\<lparr> sv_queue := q \<rparr>"
      have v0: "views_settle ls ?s0" using c(2) by (simp add: views_Some c(1) q NoSender)
      obtain r1 s1 where f: "on_firewall_core (firewall_event k msg) ?s0 = Some (r1, s1)"
        using assms(3) by (auto simp: ProcessEvent_def q NoSender Core_HandleEvent_def split: option.splits)
      have v1: "views_settle ls s1"
        by (rule views_firewall [OF v0 f]) (auto simp: firewall_event_def split: option.splits dest: told_event)
      then obtain c1 where c1: "sv_cores s1 = Some c1" "agree ls (sv_queue s1) (co_rule c1) (co_firewall c1)" by (rule views_cases)
      have mode: "pf_powerSaveMode (co_firewall c1) = m" if "msg = MSG_POWER_SAVE_MODE_CHANGED m" for m
        using f c1(1) c(2) that
        by (auto simp: on_firewall_core_def c(1) firewall_event_def Firewall_HandleEvent_def UpdatePowerSavePolicy_def agree_def Let_def
            pf_SendEvent_def ReportFirewallPolicyChange_def split: option.splits if_splits)
      obtain p w where r: "Rule_HandleEvent msg (co_rule c1, sv_world s1) = (p, w)" by fastforce
      have s': "s' = s1\<lparr> sv_cores := Some (c1\<lparr> co_rule := p \<rparr>), sv_world := w \<rparr>"
        using assms(3) by (simp add: ProcessEvent_def q NoSender Core_HandleEvent_def f on_rule_def c1(1) r)
      have "system_msg msg" using assms(2) by (simp add: q NoSender)
      from agree_other [OF c1(2) this mode, of "sv_world s1"] have "agree ls (sv_queue s1) p (co_firewall c1)" by (simp add: r)
      moreover have "\<exists>es. sv_queue s1 = q @ map (Pair FirewallCore) es"
        using f by (auto simp: on_firewall_core_def c(1) split: option.splits)
      ultimately show ?thesis using assms(2) by (auto simp: s' views_Some q NoSender)
    qed
  qed
qed

text \<open>The shape of the queue.\<close>

lemma queue_firewall:
  "on_firewall_core f s = Some (r, s') \<Longrightarrow> \<exists>es. sv_queue s' = sv_queue s @ map (Pair FirewallCore) es"
  by (auto simp: on_firewall_core_def split: option.splits intro: exI [of _ "[]"])

lemma queue_other [simp]: "sv_queue (snd (on_rule f s)) = sv_queue s" "sv_queue (snd (on_traffic g s)) = sv_queue s"
  by (simp_all add: on_rule_def on_traffic_def split: option.split prod.split)

lemma queue_ok_firewall: "queue_ok s \<Longrightarrow> on_firewall_core f s = Some (r, s') \<Longrightarrow> queue_ok s'"
  using queue_firewall [of f s r s'] by (auto simp: queue_ok_def)

lemma queue_ok_same: "queue_ok s \<Longrightarrow> sv_queue s' = sv_queue s \<Longrightarrow> queue_ok s'"
  by (simp add: queue_ok_def)

lemma queue_ok_send: "queue_ok s \<Longrightarrow> system_msg msg \<Longrightarrow> queue_ok (Core_SendEvent msg s)"
  by (simp add: queue_ok_def Core_SendEvent_def)

lemma views_OnReceiveEvent:
  "views_settle ls s \<Longrightarrow> views_settle ls (OnReceiveEvent b ev s)" "queue_ok s \<Longrightarrow> queue_ok (OnReceiveEvent b ev s)"
  by (cases ev; simp add: OnReceiveEvent_def views_send queue_ok_send system_msg_def)+

lemma views_SendAppStatusMessage:
  "views_settle ls s \<Longrightarrow> views_settle ls (SendAppStatusMessage st uids s)" "queue_ok s \<Longrightarrow> queue_ok (SendAppStatusMessage st uids s)"
  unfolding SendAppStatusMessage_def
  by (induction uids arbitrary: s) (simp_all add: views_send queue_ok_send system_msg_def split: ApplicationState.split)

lemma views_total:
  assumes "views_settle ls s" "on_firewall_core (Some \<circ> g) s = Some (r, s')"
    "\<And>f0 x. told ls f0 (fst x) \<Longrightarrow> told ls f0 (fst (snd (g x)))"
  shows "views_settle ls s'"
  by (rule views_firewall [OF assms(1, 2)]) (metis assms(3) comp_apply option.inject snd_conv)

lemma views_reset:
  assumes "reset_cores c quotas s = Some (r, s')" "views_settle ls s \<and> queue_ok s"
  shows "views_settle False s' \<and> queue_ok s'"
proof -
  have v1: "views_settle ls (snd (on_rule Rule_ResetPolicies s))" "queue_ok (snd (on_rule Rule_ResetPolicies s))"
    using assms(2) by (simp_all add: views_rule same_view_reset queue_ok_same [of s])
  obtain r2 s2 where o: "on_firewall_core (\<lambda>x. Some (NETMANAGER_SUCCESS, Firewall_ResetPolicies c x)) (snd (on_rule Rule_ResetPolicies s)) = Some (r2, s2)"
    and s': "s' = snd (on_traffic quotas s2)"
    using assms by (auto simp: reset_cores_def views_settle_def split: option.splits if_splits prod.splits)
  have "views_settle False s2" by (rule views_firewall [OF v1(1) o]) (metis told_reset option.inject Pair_inject, simp)
  then show ?thesis using queue_ok_firewall [OF v1(2) o] by (simp add: s' views_traffic queue_ok_same [of s2])
qed

lemma views_step:
  assumes "svc_step E b k s s'" "views_settle ls s \<and> queue_ok s"
  shows "views_settle (ls \<and> b) s' \<and> queue_ok s'"
  using assms
proof (induction rule: svc_step.induct)
  case (svc_policy s uid policy)
  then show ?case by (simp add: SetPolicyByUid_def views_rule same_view_Trans queue_ok_same [of s])
next
  case (svc_background s allow)
  then show ?case by (simp add: Service_SetBackgroundPolicy_def views_rule same_view_background queue_ok_same [of s])
next
  case (svc_quota e s qs)
  then show ?case by (simp add: SetNetQuotaPolicies_def views_traffic queue_ok_same [of s])
next
  case (svc_remind e s type sim remindType)
  then show ?case by (simp add: Service_UpdateRemindPolicy_def views_traffic queue_ok_same [of s])
next
  case (svc_idle_list c uids b s r s')
  note o = svc_idle_list(1) [unfolded Service_SetDeviceIdleTrustlist_def]
  show ?case using views_firewall [OF _ o told_SetDeviceIdleTrustlist, of ls ls] queue_ok_firewall [OF _ o] svc_idle_list(2) by auto
next
  case (svc_save_list c uids b s r s')
  note o = svc_save_list(1) [unfolded Service_SetPowerSaveTrustlist_def]
  show ?case using views_total [OF _ o told_SetPowerSaveTrustlist] queue_ok_firewall [OF _ o] svc_save_list(2) by simp
next
  case (svc_idle_mode c b s r s')
  note o = svc_idle_mode(1) [unfolded SetDeviceIdlePolicy_def]
  show ?case using views_total [OF _ o told_modes(1)] queue_ok_firewall [OF _ o] svc_idle_mode(2) by simp
next
  case (svc_save_mode c b s r s')
  note o = svc_save_mode(1) [unfolded SetPowerSavePolicy_def]
  show ?case using views_total [OF _ o told_modes(2)] queue_ok_firewall [OF _ o] svc_save_mode(2) by simp
next
  case (svc_deny_list c uids b s r s')
  note o = svc_deny_list(1) [unfolded Service_SetUidsDeniedListChain_def]
  show ?case using views_total [OF _ o told_denied] queue_ok_firewall [OF _ o] svc_deny_list(2) by simp
next
  case (svc_deny_mode c b s r s')
  note o = svc_deny_mode(1) [unfolded SetIdleDenyPolicy_def]
  show ?case using views_total [OF _ o told_modes(3)] queue_ok_firewall [OF _ o] svc_deny_mode(2) by simp
next
  case (svc_common s b ev)
  then show ?case by (simp add: views_OnReceiveEvent)
next
  case (svc_app s st uids)
  then show ?case by (simp add: views_SendAppStatusMessage)
next
  case (svc_process c s s')
  then show ?case using views_ProcessEvent [of ls s c s'] by (simp add: queue_ok_def)
next
  case (svc_reset e c sim s r s')
  then show ?case using views_reset [OF svc_reset(2) [unfolded Service_ResetPolicies_def], of ls] by simp
next
  case (svc_factory e c s r s')
  then show ?case using views_reset [OF svc_factory(2) [unfolded FactoryResetPolicies_def], of ls] by simp
next
  case (svc_daemon s n)
  then show ?case by (cases "sv_cores s") (simp_all add: views_settle_def queue_ok_def)
next
  case (svc_restart s)
  then show ?case by (simp add: OnNetSysRestart_def views_rule same_view_all queue_ok_same [of s])
qed

subsection \<open>Boot\<close>

lemma file_lists_quota: "file_lists ch (w\<lparr> pw_file := snd (WriteQuotaPolicies qs (pw_file w)) \<rparr>) = file_lists ch w"
  by (simp add: file_lists_def WriteQuotaPolicies_def WriteFile_def upd_policy_def fill_defaults_def firewall_lists_def Let_def)

lemma world_file [simp]:
  "denied (w\<lparr> pw_file := f \<rparr>) = denied w" "allowed (w\<lparr> pw_file := f \<rparr>) = allowed w" "online (w\<lparr> pw_file := f \<rparr>) = online w"
  by (simp_all add: denied_def allowed_def online_def)

text \<open>Quota calls on the daemon leave the boxes alone.\<close>

lemma quota_box_fields:
  "deniedListUids (fst (snd (SetIfaceQuota i n s))) = deniedListUids (fst s)" "allowedListUids (fst (snd (SetIfaceQuota i n s))) = allowedListUids (fst s)"
  "deniedListUids (fst (snd (RemoveIfaceQuota i s))) = deniedListUids (fst s)" "allowedListUids (fst (snd (RemoveIfaceQuota i s))) = allowedListUids (fst s)"
  by (auto simp: SetIfaceQuota_def SetIfaceQuotaDetail_def RemoveIfaceQuota_def Let_def case_prod_beta split: option.split)

lemma same_boxes_refl [simp]: "same_boxes w w"
  by (simp add: same_boxes_def)

lemma same_boxes_trans: "same_boxes a b \<Longrightarrow> same_boxes b c \<Longrightarrow> same_boxes a c"
  by (simp add: same_boxes_def)

lemma via_offline: "\<not> ns_proxy n \<Longrightarrow> snd (via_proxy f n) = n"
  by (simp add: via_proxy_def)

lemma same_boxes_quota [simp]:
  "same_boxes w (netsys_call (BandwidthSetIfaceQuota i n) w)" "same_boxes w (netsys_call (BandwidthRemoveIfaceQuota i) w)"
  by (cases "ns_proxy (pw_netsys w)";
      simp add: same_boxes_def denied_def allowed_def online_def netsys_call_def BandwidthSetIfaceQuota_def BandwidthRemoveIfaceQuota_def
        ns_bw_bandwidth quota_box_fields via_offline)+

lemma same_boxes_firewall [simp]:
  "same_boxes w (netsys_call (FirewallSetUidRule ch us r) w)" "same_boxes w (netsys_call (FirewallSetUidsAllowedListChain ch us) w)"
  "same_boxes w (netsys_call (FirewallSetUidsDeniedListChain ch us) w)" "same_boxes w (netsys_call (FirewallEnableChain ch b) w)"
  "same_boxes w (netsys_call ClearFirewallAllRules w)"
  by (simp_all add: same_boxes_def denied_def allowed_def online_def netsys_call_def FirewallSetUidRule_def
      FirewallSetUidsAllowedListChain_def FirewallSetUidsDeniedListChain_def FirewallEnableChain_def ClearFirewallAllRules_def
      Native_FirewallSetUidRule_def)

lemma same_boxes_local [simp]: "same_boxes w (on_file f w)" "same_boxes w (notify g w)"
  by (simp_all add: same_boxes_def)

lemma same_boxes_file [simp]: "same_boxes w (w\<lparr> pw_file := f \<rparr>)"
  by (simp add: same_boxes_def)

lemma same_boxes_then [simp]:
  assumes "same_boxes w0 w"
  shows "same_boxes w0 (on_file f w)" "same_boxes w0 (notify g w)" "same_boxes w0 (w\<lparr> pw_file := h \<rparr>)"
    "same_boxes w0 (netsys_call (FirewallSetUidRule ch us r) w)" "same_boxes w0 (netsys_call (FirewallSetUidsAllowedListChain ch us) w)"
    "same_boxes w0 (netsys_call (FirewallSetUidsDeniedListChain ch us) w)" "same_boxes w0 (netsys_call (FirewallEnableChain ch b) w)"
    "same_boxes w0 (netsys_call ClearFirewallAllRules w)"
    "same_boxes w0 (netsys_call (BandwidthSetIfaceQuota i n) w)" "same_boxes w0 (netsys_call (BandwidthRemoveIfaceQuota i) w)"
  by (rule same_boxes_trans [OF assms], simp)+

lemmas chain_defs = SetAllowedList_uids_def SetAllowedList_def SetAllowedList_set_def ClearAllowedList_def SetDeniedList_def SetDeniedList_uids_def
  ClearDeniedList_def EnableFirewall_def Rule_ClearFirewallAllRules_def

lemma boxes_trustlists:
  "SetDeviceIdleTrustlist c uids b x = Some (r, y) \<Longrightarrow> same_boxes (snd x) (snd y)"
  "same_boxes (snd x) (snd (snd (SetPowerSaveTrustlist c uids b x)))"
  by (auto simp: SetDeviceIdleTrustlist_def SetPowerSaveTrustlist_def chain_defs Let_def split: prod.splits option.splits if_splits)

lemma boxes_modes:
  "same_boxes w0 (snd x) \<Longrightarrow> same_boxes w0 (snd (snd (UpdateDeviceIdlePolicy c b x)))"
  "same_boxes w0 (snd x) \<Longrightarrow> same_boxes w0 (snd (snd (UpdatePowerSavePolicy c b x)))"
  "same_boxes w0 (snd x) \<Longrightarrow> same_boxes w0 (snd (snd (UpdateIdleDenyPolicy c b x)))"
  by (auto simp: UpdateDeviceIdlePolicy_def UpdatePowerSavePolicy_def UpdateIdleDenyPolicy_def chain_defs Let_def
      split: prod.splits option.splits if_splits)

lemma boxes_denied: "same_boxes (snd x) (snd (snd (Policy_SetUidsDeniedListChain c uids b x)))"
  by (auto simp: Policy_SetUidsDeniedListChain_def chain_defs Let_def split: prod.splits option.splits)

lemma boxes_clear: "same_boxes w0 (snd x) \<Longrightarrow> same_boxes w0 (snd (clear_lists c x))"
  by (cases x) (simp add: clear_lists_def Let_def boxes_modes)

lemma boxes_reset: "same_boxes (snd x) (snd (Firewall_ResetPolicies c x))"
  by (cases x) (auto simp: Firewall_ResetPolicies_def chain_defs Let_def intro!: boxes_clear split: option.splits)

lemma boxes_event:
  assumes "Firewall_HandleEvent c msg x = Some y"
  shows "same_boxes (snd x) (snd y)"
proof (cases msg)
  case (MSG_UID_REMOVED uid)
  obtain r1 s1 where s1: "SetDeviceIdleTrustlist c [uid] False x = Some (r1, s1)"
    using assms by (auto simp: MSG_UID_REMOVED Firewall_HandleEvent_def Firewall_DeleteUid_def split: option.splits)
  obtain r2 f2 w2 where s2: "SetPowerSaveTrustlist c [uid] False s1 = (r2, f2, w2)" by (metis prod_cases3)
  have "snd y = w2"
    using assms by (auto simp: MSG_UID_REMOVED Firewall_HandleEvent_def Firewall_DeleteUid_def s1 s2 split: option.splits)
  then show ?thesis
    using same_boxes_trans [OF boxes_trustlists(1) [OF s1] boxes_trustlists(2) [of s1 c "[uid]" False]] by (simp add: s2)
next
  case (MSG_POWER_SAVE_MODE_CHANGED m)
  then show ?thesis using assms boxes_modes(2) [of "snd x" x c m] by (auto simp: Firewall_HandleEvent_def)
qed (use assms in \<open>simp_all add: Firewall_HandleEvent_def\<close>)

lemma boxes_Firewall_Init: "same_boxes (snd x) (snd (Firewall_Init x))"
  by (cases x) (simp add: Firewall_Init_def CreateFirewallRule_def chain_defs Let_def ReadFirewallRules_def)

lemma boxes_quotas: "same_boxes w0 w \<Longrightarrow> same_boxes w0 (snd (set_quotas e qs w))" "same_boxes w0 w \<Longrightarrow> same_boxes w0 (remove_quotas is new w)"
proof -
  show "same_boxes w0 w \<Longrightarrow> same_boxes w0 (snd (set_quotas e qs w))"
    by (induction qs arbitrary: w) (simp_all add: Let_def case_prod_beta)
  show "same_boxes w0 w \<Longrightarrow> same_boxes w0 (remove_quotas is new w)"
    by (induction "is" arbitrary: w) simp_all
qed

lemma boxes_Inner: "same_boxes (snd x) (snd (snd (UpdateQuotaPoliciesInner e x)))"
  by (cases x) (simp add: UpdateQuotaPoliciesInner_def UpdateMeteredIfacesQuota_def UpdateMeteredIfaces_def Traffic_WriteQuotaPolicies_def
      case_prod_beta boxes_quotas)

lemma boxes_traffic:
  "same_boxes (snd x) (snd (snd (UpdateQuotaPolicies e qs x)))" "same_boxes (snd x) (snd (snd (UpdateRemindPolicy e type sim rt x)))"
  "same_boxes (snd x) (snd (snd (Traffic_ResetPolicies_sim e sim x)))" "same_boxes (snd x) (snd (Traffic_ReadQuotaPolicies e x))"
  "same_boxes (snd x) (snd (snd (Traffic_ResetPolicies e x)))"
  using boxes_Inner [of "(FormalizeQuotaPolicies qs (fst x), snd x)" e]
    boxes_Inner [of "((fst x)\<lparr> quotaPolicies := map (remind e type sim rt) (quotaPolicies (fst x)) \<rparr>, snd x)" e]
    boxes_Inner [of "((fst x)\<lparr> quotaPolicies := map (\<lambda>q. if simId (networkmatchrule q) = sim then Quota_Reset q else q) (quotaPolicies (fst x)) \<rparr>, snd x)" e]
    boxes_Inner [of "((fst x)\<lparr> quotaPolicies := map Quota_Reset (quotaPolicies (fst x)) \<rparr>, snd x)" e]
    boxes_Inner [of "((fst x)\<lparr> quotaPolicies := ReadQuotaPolicies (pw_file (snd x)) (quotaPolicies (fst x)) \<rparr>, snd x)" e]
  by (simp_all add: UpdateQuotaPolicies_def UpdateRemindPolicy_def Traffic_ResetPolicies_sim_def Traffic_ResetPolicies_def Traffic_ReadQuotaPolicies_def case_prod_beta)

lemma svc_boxes_Some: "sv_cores s = Some c \<Longrightarrow> svc_boxes s = rule_inv (co_rule c, sv_world s)"
  by (simp add: svc_boxes_def)

lemma svc_boxes_cases:
  assumes "svc_boxes s"
  obtains c where "sv_cores s = Some c" "rule_inv (co_rule c, sv_world s)"
  using assms by (auto simp: svc_boxes_def split: option.splits)

lemma rule_inv_same: "rule_inv (p, w) \<Longrightarrow> same_boxes w w' \<Longrightarrow> rule_inv (p, w')"
  using rule_inv_world [of w' w p] by (simp add: same_boxes_def)

lemma svc_boxes_rule:
  assumes "svc_boxes s" "\<And>x. rule_inv x \<Longrightarrow> rule_inv (snd (f x))"
  shows "svc_boxes (snd (on_rule f s))"
proof -
  obtain c where c: "sv_cores s = Some c" "rule_inv (co_rule c, sv_world s)" using assms(1) by (rule svc_boxes_cases)
  obtain r p w where f: "f (co_rule c, sv_world s) = (r, p, w)" by (metis prod_cases3)
  show ?thesis using assms(2) [OF c(2)] by (simp add: on_rule_def c(1) f svc_boxes_Some)
qed

lemma svc_boxes_traffic:
  assumes "svc_boxes s" "\<And>x. same_boxes (snd x) (snd (snd (f x)))"
  shows "svc_boxes (snd (on_traffic f s))"
proof -
  obtain c where c: "sv_cores s = Some c" "rule_inv (co_rule c, sv_world s)" using assms(1) by (rule svc_boxes_cases)
  obtain r t w where f: "f (co_traffic c, sv_world s) = (r, t, w)" by (metis prod_cases3)
  show ?thesis using rule_inv_same [OF c(2)] assms(2) [of "(co_traffic c, sv_world s)"] by (simp add: on_traffic_def c(1) f svc_boxes_Some)
qed

lemma svc_boxes_firewall:
  assumes "svc_boxes s" "on_firewall_core f s = Some (r, s')" "\<And>x y r. f x = Some (r, y) \<Longrightarrow> same_boxes (snd x) (snd y)"
  shows "svc_boxes s'"
proof -
  obtain c where c: "sv_cores s = Some c" "rule_inv (co_rule c, sv_world s)" using assms(1) by (rule svc_boxes_cases)
  obtain fw w where f: "f ((co_firewall c)\<lparr> pf_events := [] \<rparr>, sv_world s) = Some (r, fw, w)"
    and s': "s' = s\<lparr> sv_cores := Some (c\<lparr> co_firewall := fw \<rparr>), sv_world := w, sv_queue := sv_queue s @ map (Pair FirewallCore) (pf_events fw) \<rparr>"
    using assms(2) by (auto simp: on_firewall_core_def c split: option.splits)
  show ?thesis using rule_inv_same [OF c(2)] assms(3) [OF f] by (simp add: s' svc_boxes_Some)
qed

lemma svc_boxes_total:
  assumes "svc_boxes s" "on_firewall_core (Some \<circ> g) s = Some (r, s')" "\<And>x. same_boxes (snd x) (snd (snd (g x)))"
  shows "svc_boxes s'"
  by (rule svc_boxes_firewall [OF assms(1, 2)]) (metis assms(3) comp_apply option.inject snd_conv)

lemma rule_inv_ops:
  assumes "rule_inv s"
  shows "rule_inv (snd (TransPolicyToRule uid policy s))" "rule_inv (snd (SetBackgroundPolicy allow s))"
    "rule_inv (snd (Rule_ResetPolicies s))" "rule_inv (Rule_HandleEvent msg s)" "rule_inv (TransPolicyToRule_all s)"
proof -
  have k: "policy_ok False s" using assms by (simp add: policy_ok_def)
  show "rule_inv (snd (TransPolicyToRule uid policy s))" "rule_inv (snd (SetBackgroundPolicy allow s))"
    "rule_inv (snd (Rule_ResetPolicies s))" "rule_inv (Rule_HandleEvent msg s)" "rule_inv (TransPolicyToRule_all s)"
    using TransPolicyToRule_all_ok [of "fst s" "snd s" False] k TransPolicyToRule_ok [OF k] SetBackgroundPolicy_ok [OF k] SetBackgroundPolicy_ok [OF reset_loop_ok [OF k]] Rule_HandleEvent_ok [OF k]
    by (simp_all add: policy_ok_def Rule_ResetPolicies_def)
qed

lemma svc_boxes_queue: "svc_boxes (s\<lparr> sv_queue := q \<rparr>) = svc_boxes s"
  by (cases "sv_cores s") (simp_all add: svc_boxes_def)

lemma svc_boxes_process:
  assumes "svc_boxes s" "ProcessEvent k s = Some s'"
  shows "svc_boxes s'"
proof (cases "sv_queue s")
  case Nil
  then show ?thesis using assms by (simp add: ProcessEvent_def)
next
  case (Cons e q)
  obtain sender msg where e: "e = (sender, msg)" by fastforce
  have rule: "svc_boxes s1 \<Longrightarrow> svc_boxes (snd (on_rule (\<lambda>x. (NETMANAGER_SUCCESS, Rule_HandleEvent msg x)) s1))" for s1
    by (rule svc_boxes_rule) (simp_all add: rule_inv_ops)
  have s0: "svc_boxes (s\<lparr> sv_queue := q \<rparr>)" using assms(1) by (simp add: svc_boxes_queue)
  obtain r1 s1 where f: "(if sender = FirewallCore then Some (NETMANAGER_SUCCESS, s\<lparr> sv_queue := q \<rparr>)
      else on_firewall_core (firewall_event k msg) (s\<lparr> sv_queue := q \<rparr>)) = Some (r1, s1)"
    using assms(2) by (auto simp: ProcessEvent_def Cons e Core_HandleEvent_def split: option.splits)
  have "svc_boxes s1"
  proof (cases "sender = FirewallCore")
    case True
    then show ?thesis using f s0 by simp
  next
    case False
    then have "on_firewall_core (firewall_event k msg) (s\<lparr> sv_queue := q \<rparr>) = Some (r1, s1)" using f by simp
    then show ?thesis by (rule svc_boxes_firewall [OF s0]) (auto simp: firewall_event_def split: option.splits dest: boxes_event)
  qed
  moreover from this obtain c where "sv_cores s1 = Some c" by (rule svc_boxes_cases)
  ultimately show ?thesis using assms(2) rule [of s1] f by (simp add: ProcessEvent_def Cons e Core_HandleEvent_def)
qed

lemma svc_boxes_send: "svc_boxes (OnReceiveEvent b ev s) = svc_boxes s" "svc_boxes (SendAppStatusMessage st uids s) = svc_boxes s"
proof -
  have c: "svc_boxes (Core_SendEvent msg s) = svc_boxes s" for msg s by (simp add: Core_SendEvent_def svc_boxes_queue)
  show "svc_boxes (OnReceiveEvent b ev s) = svc_boxes s" by (cases ev) (simp_all add: OnReceiveEvent_def c)
  show "svc_boxes (SendAppStatusMessage st uids s) = svc_boxes s"
    unfolding SendAppStatusMessage_def by (induction uids arbitrary: s) (simp_all add: c split: ApplicationState.split)
qed

lemma svc_boxes_reset:
  assumes "reset_cores c quotas s = Some (r, s')" "svc_boxes s" "\<And>x. same_boxes (snd x) (snd (snd (quotas x)))"
  shows "svc_boxes s'"
proof -
  have v1: "svc_boxes (snd (on_rule Rule_ResetPolicies s))" by (rule svc_boxes_rule [OF assms(2)]) (rule rule_inv_ops)
  obtain r2 s2 where o: "on_firewall_core (\<lambda>x. Some (NETMANAGER_SUCCESS, Firewall_ResetPolicies c x)) (snd (on_rule Rule_ResetPolicies s)) = Some (r2, s2)"
    and s': "s' = snd (on_traffic quotas s2)"
    using assms(1, 2) by (auto simp: reset_cores_def svc_boxes_def split: option.splits if_splits prod.splits)
  have "svc_boxes s2" by (rule svc_boxes_firewall [OF v1 o]) (metis boxes_reset option.inject Pair_inject)
  then show ?thesis by (simp add: s' svc_boxes_traffic assms(3))
qed

lemma svc_boxes_step:
  assumes "svc_step E b k s s'" "k" "svc_boxes s"
  shows "svc_boxes s'"
  using assms
proof (induction rule: svc_step.induct)
  case (svc_policy s uid policy)
  then show ?case by (simp add: SetPolicyByUid_def svc_boxes_rule rule_inv_ops)
next
  case (svc_background s allow)
  then show ?case by (simp add: Service_SetBackgroundPolicy_def svc_boxes_rule rule_inv_ops)
next
  case (svc_quota e s qs)
  then show ?case by (simp add: SetNetQuotaPolicies_def svc_boxes_traffic boxes_traffic)
next
  case (svc_remind e s type sim remindType)
  then show ?case by (simp add: Service_UpdateRemindPolicy_def svc_boxes_traffic boxes_traffic)
next
  case (svc_idle_list c uids b s r s')
  then show ?case unfolding Service_SetDeviceIdleTrustlist_def by (metis svc_boxes_firewall boxes_trustlists(1))
next
  case (svc_save_list c uids b s r s')
  then show ?case unfolding Service_SetPowerSaveTrustlist_def using svc_boxes_total boxes_trustlists(2) by blast
next
  case (svc_idle_mode c b s r s')
  then show ?case unfolding SetDeviceIdlePolicy_def using svc_boxes_total boxes_modes(1) [OF same_boxes_refl] by blast
next
  case (svc_save_mode c b s r s')
  then show ?case unfolding SetPowerSavePolicy_def using svc_boxes_total boxes_modes(2) [OF same_boxes_refl] by blast
next
  case (svc_deny_list c uids b s r s')
  then show ?case unfolding Service_SetUidsDeniedListChain_def using svc_boxes_total boxes_denied by blast
next
  case (svc_deny_mode c b s r s')
  then show ?case unfolding SetIdleDenyPolicy_def using svc_boxes_total boxes_modes(3) [OF same_boxes_refl] by blast
next
  case (svc_process c s s')
  then show ?case using svc_boxes_process by blast
next
  case (svc_reset e c sim s r s')
  then show ?case using svc_boxes_reset [OF svc_reset(2) [unfolded Service_ResetPolicies_def]] boxes_traffic by blast
next
  case (svc_factory e c s r s')
  then show ?case using svc_boxes_reset [OF svc_factory(2) [unfolded FactoryResetPolicies_def]] boxes_traffic by blast
next
  case (svc_restart s)
  then show ?case by (simp add: OnNetSysRestart_def svc_boxes_rule rule_inv_ops)
qed (simp_all add: svc_boxes_send)

subsection \<open>Boot\<close>

lemma file_lists_call [simp]: "file_lists ch (netsys_call f w) = file_lists ch w" "file_lists ch (notify c w) = file_lists ch w"
  by (simp_all add: file_lists_def netsys_call_def notify_def)

lemma file_lists_quotas:
  "file_lists ch (snd (set_quotas e qs w)) = file_lists ch w" "file_lists ch (remove_quotas is new w) = file_lists ch w"
proof -
  show "file_lists ch (snd (set_quotas e qs w)) = file_lists ch w"
    by (induction qs arbitrary: w) (simp_all add: Let_def case_prod_beta)
  show "file_lists ch (remove_quotas is new w) = file_lists ch w"
    by (induction "is" arbitrary: w) simp_all
qed

lemma file_lists_boot: "file_lists ch (snd (Traffic_ReadQuotaPolicies e x)) = file_lists ch (snd x)"
  by (cases x) (simp add: Traffic_ReadQuotaPolicies_def UpdateQuotaPoliciesInner_def UpdateMeteredIfacesQuota_def UpdateMeteredIfaces_def
      Traffic_WriteQuotaPolicies_def case_prod_beta file_lists_quotas file_lists_quota)

lemma same_view_init: "same_view (fst s) (fst (init_loop is s))"
proof (induction "is" arbitrary: s)
  case (Cons i "is")
  show ?case by (simp, rule same_view_trans [OF same_view_Trans Cons.IH])
qed (simp add: same_view_def)

lemma Firewall_Init_mode:
  "powerSaveFirewallRule (fst (Firewall_Init (NetPolicyFirewall_ctor, w))) \<noteq> None" "\<not> pf_powerSaveMode (fst (Firewall_Init (NetPolicyFirewall_ctor, w)))"
  by (simp_all add: Firewall_Init_def CreateFirewallRule_def chain_defs Let_def ReadFirewallRules_def NetPolicyFirewall_ctor_def)

text \<open>After boot the trust lists of the file are in the firewall component only.\<close>

lemma policy_okD: "policy_ok c s \<Longrightarrow> rule_inv s"
  by (simp add: policy_ok_def)

lemma Service_Init_boot:
  assumes "online w0" "denied w0 = {}" "allowed w0 = {}" "finite (fl_allowedList (file_lists FIREWALL_CHAIN_DEVICE_IDLE w0))"
    "finite (fl_allowedList (file_lists FIREWALL_CHAIN_POWER_SAVE w0))"
  obtains c where "sv_cores (Service_Init e (svc_start w0 sys)) = Some c" "sv_queue (Service_Init e (svc_start w0 sys)) = []"
    "policy_ok True (co_rule c, sv_world (Service_Init e (svc_start w0 sys)))" "same_view NetPolicyRule_ctor (co_rule c)"
    "powerSaveFirewallRule (co_firewall c) \<noteq> None" "\<not> pf_powerSaveMode (co_firewall c)"
    "pf_deviceIdleAllowedList (co_firewall c) = fl_allowedList (file_lists FIREWALL_CHAIN_DEVICE_IDLE w0)"
    "pf_powerSaveAllowedList (co_firewall c) = fl_allowedList (file_lists FIREWALL_CHAIN_POWER_SAVE w0)"
proof -
  obtain t w1 where t: "Traffic_ReadQuotaPolicies e (NetPolicyTraffic_ctor, w0) = (t, w1)" by fastforce
  have l: "file_lists ch w1 = file_lists ch w0" for ch using file_lists_boot [of ch e "(NetPolicyTraffic_ctor, w0)"] by (simp add: t)
  have b1: "same_boxes w0 w1" using boxes_traffic(4) [of "(NetPolicyTraffic_ctor, w0)" e] by (simp add: t)
  obtain f w2 where f: "Firewall_Init (NetPolicyFirewall_ctor, w1) = (f, w2)" "pf_inv (f, w2)"
    "pf_deviceIdleAllowedList f = fl_allowedList (file_lists FIREWALL_CHAIN_DEVICE_IDLE w0)"
    "pf_powerSaveAllowedList f = fl_allowedList (file_lists FIREWALL_CHAIN_POWER_SAVE w0)"
    by (rule Firewall_Init_eq [of w1]) (simp_all add: l assms(4, 5))
  have b2: "same_boxes w1 w2" using boxes_Firewall_Init [of "(NetPolicyFirewall_ctor, w1)"] by (simp add: f(1))
  obtain p w3 where r: "Rule_Init (NetPolicyRule_ctor, w2) = (p, w3)" by fastforce
  have i: "policy_ok True (p, w3)" using Rule_Init_ok [of w2 True] b1 b2 assms(1-3) by (simp add: r same_boxes_def)
  have v: "same_view NetPolicyRule_ctor p" using same_view_init [of "(NetPolicyRule_ctor\<lparr> backgroundAllow := ReadBackgroundPolicy (pw_file w2) \<rparr>, w2)" "uidPolicies (netPolicy (pw_file w2))"] r
    by (simp add: Rule_Init_def same_view_def)
  have m: "powerSaveFirewallRule f \<noteq> None" "\<not> pf_powerSaveMode f" using Firewall_Init_mode [of w1] by (simp_all add: f(1))
  show ?thesis
    by (rule that [of "\<lparr> co_traffic = t, co_firewall = f, co_rule = p \<rparr>"]) (simp_all add: Service_Init_def svc_start_def t f r i v m)
qed

lemma svc_reachable_ok:
  assumes "svc_reachable E w0 b k s"
  shows "views_settle (b \<and> fl_allowedList (file_lists FIREWALL_CHAIN_DEVICE_IDLE w0) = {} \<and> fl_allowedList (file_lists FIREWALL_CHAIN_POWER_SAVE w0) = {}) s
    \<and> queue_ok s" "k \<Longrightarrow> svc_boxes s"
proof -
  let ?e = "fl_allowedList (file_lists FIREWALL_CHAIN_DEVICE_IDLE w0) = {} \<and> fl_allowedList (file_lists FIREWALL_CHAIN_POWER_SAVE w0) = {}"
  from assms have "(views_settle (b \<and> ?e) s \<and> queue_ok s) \<and> (k \<longrightarrow> svc_boxes s)"
  proof (induction rule: svc_reachable.induct)
    case (svc_boot e sys)
    obtain c where c: "sv_cores (Service_Init e (svc_start w0 sys)) = Some c" "sv_queue (Service_Init e (svc_start w0 sys)) = []"
      "policy_ok True (co_rule c, sv_world (Service_Init e (svc_start w0 sys)))" "same_view NetPolicyRule_ctor (co_rule c)"
      "powerSaveFirewallRule (co_firewall c) \<noteq> None" "\<not> pf_powerSaveMode (co_firewall c)"
      "pf_deviceIdleAllowedList (co_firewall c) = fl_allowedList (file_lists FIREWALL_CHAIN_DEVICE_IDLE w0)"
      "pf_powerSaveAllowedList (co_firewall c) = fl_allowedList (file_lists FIREWALL_CHAIN_POWER_SAVE w0)"
      by (rule Service_Init_boot [OF svc_boot(1-5)])
    have "agree ?e [] (co_rule c) (co_firewall c)"
      using c(4-8) by (simp add: agree_def same_view_def settles_def firewall_msgs_def NetPolicyRule_ctor_def)
    then show ?case by (simp add: views_Some [OF c(1)] svc_boxes_Some [OF c(1)] c(2) policy_okD [OF c(3)] queue_ok_def)
  next
    case (svc_next b k s b' k' s')
    then show ?case using views_step [OF svc_next(2), of "b \<and> ?e"] svc_boxes_step [OF svc_next(2)] by (simp add: conj_ac)
  qed
  then show "views_settle (b \<and> ?e) s \<and> queue_ok s" "k \<Longrightarrow> svc_boxes s" by simp_all
qed

subsection \<open>Recomputing fresh entries\<close>

lemma fresh_entries_quiet:
  assumes "\<forall>(uid, r) \<in> set es. IsValidNetPolicy (upr_policy r) \<and> fresh_entry p uid r"
  shows "fst (trans_entries p es w) = es" "pw_netsys (snd (trans_entries p es w)) = pw_netsys w"
proof -
  have t: "fst (TransConditionToRuleAndNetsys p uid r w) = r \<and> pw_netsys (snd (TransConditionToRuleAndNetsys p uid r w)) = pw_netsys w"
    if "IsValidNetPolicy (upr_policy r)" "fresh_entry p uid r" for uid r w
  proof -
    have "decision p uid (upr_policy r) = (upr_rule r, upr_netsys r)" using that(2) by (simp add: fresh_entry_def)
    then show ?thesis by (simp add: Trans_eq [OF that(1)] Let_def on_file_def)
  qed
  have "fst (trans_entries p es w) = es \<and> pw_netsys (snd (trans_entries p es w)) = pw_netsys w"
    using assms by (induction es arbitrary: w) (auto simp: case_prod_beta t)
  then show "fst (trans_entries p es w) = es" "pw_netsys (snd (trans_entries p es w)) = pw_netsys w" by simp_all
qed

subsection \<open>An example\<close>

lemma first_service_cores:
  obtains c where "sv_cores first_service = Some c" "policy_ok True (co_rule c, sv_world first_service)" "sv_queue first_service = []"
    "map_option upr_policy (om_get (uidPolicyRules (co_rule c)) 20001) = Some NET_POLICY_REJECT_METERED_BACKGROUND"
proof -
  let ?b = "Service_Init idle_env (svc_start first_boot [])"
  obtain c where c: "sv_cores ?b = Some c" "sv_queue ?b = []" "policy_ok True (co_rule c, sv_world ?b)"
    by (rule Service_Init_boot [OF first_boot_boxes, of idle_env "[]"]) (simp_all add: first_boot_lists)
  obtain r p w where t: "TransPolicyToRule 20001 NET_POLICY_REJECT_METERED_BACKGROUND (co_rule c, sv_world ?b) = (r, p, w)" by (metis prod_cases3)
  have "policy_ok True (p, w)" using TransPolicyToRule_ok [OF c(3), of 20001 NET_POLICY_REJECT_METERED_BACKGROUND] by (simp add: t)
  moreover have "map_option upr_policy (om_get (uidPolicyRules p) 20001) = Some NET_POLICY_REJECT_METERED_BACKGROUND"
    using TransPolicyToRule_get [OF policy_okD [OF c(3)], of NET_POLICY_REJECT_METERED_BACKGROUND 20001 20001] t by (simp add: IsValidNetPolicy_def)
  ultimately show ?thesis
    by (intro that [of "c\<lparr> co_rule := p \<rparr>"]) (simp_all add: first_service_def SetPolicyByUid_def on_rule_def c t)
qed

lemma first_service_reachable: "svc_reachable {idle_env} first_boot True True first_service"
  unfolding first_service_def
  by (rule svc_next [where b = True and b' = True and k = True and k' = True, simplified, OF svc_boot svc_policy]) (simp_all add: first_boot_boxes first_boot_lists)

section \<open>Properties\<close>

text \<open>
  C15. The rule component and the firewall component each have a copy of the power save mode and
  of the two trust lists, and exchange messages through the queue of the event handler. In every
  reachable state with an empty queue they agree on the power save mode, and on both lists if no
  factory reset was served and the file had no trusted uid at boot.
\<close>

theorem cores_agree_at_rest:
  assumes "svc_reachable E w0 b k s" "sv_queue s = []"
  shows "\<exists>c. sv_cores s = Some c \<and> powerSaveMode (co_rule c) = pf_powerSaveMode (co_firewall c) \<and>
    (b \<and> fl_allowedList (file_lists FIREWALL_CHAIN_DEVICE_IDLE w0) = {} \<and> fl_allowedList (file_lists FIREWALL_CHAIN_POWER_SAVE w0) = {} \<longrightarrow>
       deviceIdleAllowedList (co_rule c) = pf_deviceIdleAllowedList (co_firewall c) \<and>
       powerSaveAllowedList (co_rule c) = pf_powerSaveAllowedList (co_firewall c))"
proof -
  obtain c where c: "sv_cores s = Some c" "agree (b \<and> fl_allowedList (file_lists FIREWALL_CHAIN_DEVICE_IDLE w0) = {} \<and>
      fl_allowedList (file_lists FIREWALL_CHAIN_POWER_SAVE w0) = {}) (sv_queue s) (co_rule c) (co_firewall c)"
    by (rule views_cases [OF conjunct1 [OF svc_reachable_ok(1) [OF assms(1)]]])
  show ?thesis
    by (rule exI [of _ c]) (use c assms(2) in \<open>simp add: agree_def settles_def firewall_msgs_def\<close>)
qed

theorem cores_agree_at_rest_witness:
  "\<exists>c. sv_cores first_service = Some c \<and> deviceIdleAllowedList (co_rule c) = pf_deviceIdleAllowedList (co_firewall c)"
proof -
  obtain c where "sv_queue first_service = []" by (rule first_service_cores)
  then show ?thesis using cores_agree_at_rest [OF first_service_reachable] by (auto simp: first_boot_lists)
qed

text \<open>
  C23. As long as the daemon has not restarted, in every state the service reaches, through any interleaving of the requests of its clients,
  resets, system events, application state changes, calls of \<open>OnNetSysRestart\<close> and deliveries of the event handler, the
  control of an entry of the rule component tells the box of the daemon the uid is in, and a uid without an
  entry is in none: no other component of the service changes the boxes.
\<close>

theorem service_boxes_match_policies:
  assumes "svc_reachable E w0 b True s"
  shows "\<exists>c. sv_cores s = Some c \<and> denied (sv_world s) \<inter> allowed (sv_world s) = {} \<and>
    (case om_get (uidPolicyRules (co_rule c)) uid of
       None \<Rightarrow> uid \<notin> denied (sv_world s) \<and> uid \<notin> allowed (sv_world s)
     | Some r \<Rightarrow> Service_GetPolicyByUid uid out s = (NETMANAGER_SUCCESS, upr_policy r) \<and> ctrl_ok (upr_netsys r) uid (sv_world s))"
proof -
  obtain c where c: "sv_cores s = Some c" "rule_inv (co_rule c, sv_world s)" by (rule svc_boxes_cases [OF svc_reachable_ok(2) [OF assms TrueI]])
  show ?thesis
    by (rule exI [of _ c])
      (use c rule_invD(3) [OF c(2)] rule_invD(4) [OF c(2), of uid] in
        \<open>cases "om_get (uidPolicyRules (co_rule c)) uid"; simp add: Service_GetPolicyByUid_def GetPolicyByUid_def\<close>)
qed

theorem service_boxes_match_policies_witness:
  "Service_GetPolicyByUid 20001 0 first_service = (NETMANAGER_SUCCESS, NET_POLICY_REJECT_METERED_BACKGROUND)
   \<and> denied (sv_world first_service) \<inter> allowed (sv_world first_service) = {}"
proof -
  obtain c where c: "sv_cores first_service = Some c"
    "map_option upr_policy (om_get (uidPolicyRules (co_rule c)) 20001) = Some NET_POLICY_REJECT_METERED_BACKGROUND"
    by (rule first_service_cores)
  then obtain r where "om_get (uidPolicyRules (co_rule c)) 20001 = Some r" "upr_policy r = NET_POLICY_REJECT_METERED_BACKGROUND" by auto
  then show ?thesis using service_boxes_match_policies [OF first_service_reachable, of 20001 0] c(1) by auto
qed

text \<open>
  A restart of the daemon is not repaired: when the entries of the rule component are up to
  date, \<open>OnNetSysRestart\<close> makes no call on the daemon, whatever state the daemon comes back in,
  because a control that is unchanged in the entry is not sent again.
\<close>

theorem netsys_restart_restores_nothing:
  assumes "svc_reachable E w0 b True s" "sv_cores s = Some c" "all_fresh (co_rule c)"
  shows "pw_netsys (sv_world (OnNetSysRestart (s\<lparr> sv_world := (sv_world s)\<lparr> pw_netsys := n \<rparr> \<rparr>))) = n"
proof -
  have i: "rule_inv (co_rule c, sv_world s)" using svc_reachable_ok(2) [OF assms(1) TrueI] by (simp add: svc_boxes_Some [OF assms(2)])
  have "\<forall>(uid, r) \<in> set (uidPolicyRules (co_rule c)). IsValidNetPolicy (upr_policy r) \<and> fresh_entry (co_rule c) uid r"
  proof (clarify)
    fix uid r assume "(uid, r) \<in> set (uidPolicyRules (co_rule c))"
    with om_wf_distinct rule_invD(2) [OF i] have "om_get (uidPolicyRules (co_rule c)) uid = Some r" by (simp add: om_wf_distinct)
    then show "IsValidNetPolicy (upr_policy r) \<and> fresh_entry (co_rule c) uid r"
      using rule_invD(4) [OF i, of uid] assms(3) by (simp add: all_fresh_def)
  qed
  from fresh_entries_quiet(2) [OF this] show ?thesis
    by (simp add: OnNetSysRestart_def on_rule_def assms(2) TransPolicyToRule_all_def case_prod_beta)
qed

theorem netsys_restart_restores_nothing_witness:
  "denied (sv_world (OnNetSysRestart (first_service\<lparr> sv_world := (sv_world first_service)\<lparr> pw_netsys := pw_netsys first_boot \<rparr> \<rparr>))) = {}"
proof -
  obtain c where c: "sv_cores first_service = Some c" "policy_ok True (co_rule c, sv_world first_service)" by (rule first_service_cores)
  then have "all_fresh (co_rule c)" by (simp add: policy_ok_def)
  from netsys_restart_restores_nothing [OF first_service_reachable c(1) this, of "pw_netsys first_boot"] show ?thesis
    using first_boot_boxes(2) by (simp add: denied_def)
qed

text \<open>
  Boot with trusted uids in the file: the service reports them as trusted, and the rule
  component, which decides what a uid may do in idle mode, has none of them, because the
  initialisation of the firewall component sends no message.
\<close>

theorem boot_splits_trust_list:
  assumes "online w0" "denied w0 = {}" "allowed w0 = {}" "finite (fl_allowedList (file_lists FIREWALL_CHAIN_DEVICE_IDLE w0))"
    "finite (fl_allowedList (file_lists FIREWALL_CHAIN_POWER_SAVE w0))" "uid \<in> fl_allowedList (file_lists FIREWALL_CHAIN_DEVICE_IDLE w0)"
  shows "\<exists>c. sv_cores (Service_Init e (svc_start w0 sys)) = Some c \<and> sv_queue (Service_Init e (svc_start w0 sys)) = [] \<and>
    uid \<in> pf_deviceIdleAllowedList (co_firewall c) \<and> \<not> InIdleAllowedList uid (co_rule c)"
proof -
  obtain c where c: "sv_cores (Service_Init e (svc_start w0 sys)) = Some c" "sv_queue (Service_Init e (svc_start w0 sys)) = []"
    "same_view NetPolicyRule_ctor (co_rule c)"
    "pf_deviceIdleAllowedList (co_firewall c) = fl_allowedList (file_lists FIREWALL_CHAIN_DEVICE_IDLE w0)"
    by (rule Service_Init_boot [OF assms(1-5)])
  show ?thesis
    by (rule exI [of _ c]) (use c assms(6) in \<open>simp add: same_view_def InIdleAllowedList_def NetPolicyRule_ctor_def\<close>)
qed

theorem boot_splits_trust_list_witness:
  "\<exists>c. sv_cores (Service_Init idle_env (svc_start (on_file (WriteFirewallRules FIREWALL_CHAIN_DEVICE_IDLE {20001} {}) first_boot) [])) = Some c
     \<and> 20001 \<in> pf_deviceIdleAllowedList (co_firewall c) \<and> \<not> InIdleAllowedList 20001 (co_rule c)"
  using boot_splits_trust_list [of "on_file (WriteFirewallRules FIREWALL_CHAIN_DEVICE_IDLE {20001} {}) first_boot" 20001 idle_env "[]"] first_boot_boxes
  by (auto simp: file_lists_write first_boot_lists)

end
