(* ===== verification/Net_Caps.thy ===== *)
theory Net_Caps
  imports Prelude
begin

text \<open>
  The capability sets of the connection manager (\<open>services/netconnmanager/src/net_caps.cpp\<close>):
  a set of \<open>NetCap\<close> values as the bits of one 32-bit word. The contract of a capability set is
  the locale \<open>cap_set\<close>; it is interpreted on the bit set and on \<open>std::set\<close>, the two
  representations a supplier keeps side by side. \<open>HasNetCap\<close> shifts by the capability without a
  check: the laws are stated for the valid ones, where the shift is defined.
\<close>

unbundle bit_operations_syntax

section \<open>Capabilities\<close>

type_synonym NetCap = u32

abbreviation NET_CAPABILITY_MMS :: NetCap where "NET_CAPABILITY_MMS \<equiv> 0"
abbreviation NET_CAPABILITY_NOT_METERED :: NetCap where "NET_CAPABILITY_NOT_METERED \<equiv> 11"
abbreviation NET_CAPABILITY_INTERNET :: NetCap where "NET_CAPABILITY_INTERNET \<equiv> 12"
abbreviation NET_CAPABILITY_NOT_VPN :: NetCap where "NET_CAPABILITY_NOT_VPN \<equiv> 15"
abbreviation NET_CAPABILITY_VALIDATED :: NetCap where "NET_CAPABILITY_VALIDATED \<equiv> 16"
abbreviation NET_CAPABILITY_PORTAL :: NetCap where "NET_CAPABILITY_PORTAL \<equiv> 17"
abbreviation NET_CAPABILITY_INTERNAL_DEFAULT :: NetCap where "NET_CAPABILITY_INTERNAL_DEFAULT \<equiv> 18"
abbreviation NET_CAPABILITY_CHECKING_CONNECTIVITY :: NetCap where "NET_CAPABILITY_CHECKING_CONNECTIVITY \<equiv> 31"
abbreviation NET_CAPABILITY_END :: NetCap where "NET_CAPABILITY_END \<equiv> 32"

record NetCaps =
  caps_word :: u32

definition IsValidNetCap :: "NetCap \<Rightarrow> bool" where
  "IsValidNetCap cap = (cap \<ge> NET_CAPABILITY_MMS \<and> cap < NET_CAPABILITY_END)"

definition InsertNetCap :: "NetCap \<Rightarrow> NetCaps \<Rightarrow> NetCaps" where
  "InsertNetCap cap c = (if IsValidNetCap cap then c\<lparr> caps_word := caps_word c OR push_bit (unat cap) 1 \<rparr> else c)"

definition RemoveNetCap :: "NetCap \<Rightarrow> NetCaps \<Rightarrow> NetCaps" where
  "RemoveNetCap cap c = (if IsValidNetCap cap then c\<lparr> caps_word := caps_word c AND NOT (push_bit (unat cap) 1) \<rparr> else c)"

definition HasNetCap :: "NetCap \<Rightarrow> NetCaps \<Rightarrow> bool" where
  "HasNetCap cap c = (drop_bit (unat cap) (caps_word c) AND 1 \<noteq> 0)"

definition HasNetCaps :: "NetCap set \<Rightarrow> NetCaps \<Rightarrow> bool" where
  "HasNetCaps caps c = (\<forall>cap \<in> caps. HasNetCap cap c)"

definition NetCaps_ctor :: "NetCap set \<Rightarrow> NetCaps" where
  "NetCaps_ctor caps = fold InsertNetCap (sorted_list_of_set caps) \<lparr> caps_word = 0 \<rparr>"

fun ToSet_loop :: "nat \<Rightarrow> NetCaps \<Rightarrow> NetCap set" where
  "ToSet_loop 0 c = {}"
| "ToSet_loop (Suc n) c =
     (let ret = ToSet_loop n c in if HasNetCap (of_nat n) c then insert (of_nat n) ret else ret)"

definition ToSet :: "NetCaps \<Rightarrow> NetCap set" where
  "ToSet c = ToSet_loop (unat NET_CAPABILITY_END) c"

text \<open>The capabilities that count.\<close>

definition valid_caps :: "NetCap set" where
  "valid_caps = {cap. IsValidNetCap cap}"

section \<open>The contract of a capability set\<close>

locale cap_set =
  fixes ins del :: "NetCap \<Rightarrow> 'c \<Rightarrow> 'c" and mem :: "NetCap \<Rightarrow> 'c \<Rightarrow> bool"
  assumes mem_ins: "IsValidNetCap x \<Longrightarrow> IsValidNetCap y \<Longrightarrow> mem y (ins x c) \<longleftrightarrow> y = x \<or> mem y c"
    and mem_del: "IsValidNetCap x \<Longrightarrow> IsValidNetCap y \<Longrightarrow> mem y (del x c) \<longleftrightarrow> y \<noteq> x \<and> mem y c"

text \<open>Two representations that hold the same valid capabilities stay equal under the same updates.\<close>

locale cap_mirror = a: cap_set ins1 del1 mem1 + b: cap_set ins2 del2 mem2
  for ins1 del1 :: "NetCap \<Rightarrow> 'c \<Rightarrow> 'c" and mem1 and ins2 del2 :: "NetCap \<Rightarrow> 'd \<Rightarrow> 'd" and mem2
begin

definition same :: "'c \<Rightarrow> 'd \<Rightarrow> bool" where
  "same c d = (\<forall>x. IsValidNetCap x \<longrightarrow> mem1 x c = mem2 x d)"

lemma same_ins: "same c d \<Longrightarrow> IsValidNetCap x \<Longrightarrow> same (ins1 x c) (ins2 x d)"
  by (simp add: same_def a.mem_ins b.mem_ins)

lemma same_del: "same c d \<Longrightarrow> IsValidNetCap x \<Longrightarrow> same (del1 x c) (del2 x d)"
  by (simp add: same_def a.mem_del b.mem_del)

lemma same_ins_if: "same c d \<Longrightarrow> IsValidNetCap x \<Longrightarrow> same (if mem1 x c then c else ins1 x c) (if mem1 x c then d else ins2 x d)"
  by (simp add: same_ins)

lemma same_del_if: "same c d \<Longrightarrow> IsValidNetCap x \<Longrightarrow> same (if mem1 x c then del1 x c else c) (if mem1 x c then del2 x d else d)"
  by (simp add: same_del)

end

section \<open>Lemmas\<close>

lemma HasNetCap_bit: "HasNetCap cap c = bit (caps_word c) (unat cap)"
  by (simp add: HasNetCap_def and_one_eq bit_iff_odd_drop_bit odd_iff_mod_2_eq_one)

lemma valid_less: "IsValidNetCap cap \<longleftrightarrow> unat cap < 32"
  by (simp add: IsValidNetCap_def word_less_nat_alt)

lemma bit_one_at: "unat (x :: u32) < 32 \<Longrightarrow> bit (2 ^ unat x :: u32) (unat y) \<longleftrightarrow> y = x"
  by (auto simp: bit_exp_iff)

lemma HasNetCap_insert: "IsValidNetCap x \<Longrightarrow> IsValidNetCap y \<Longrightarrow> HasNetCap y (InsertNetCap x c) \<longleftrightarrow> y = x \<or> HasNetCap y c"
  by (auto simp: HasNetCap_bit InsertNetCap_def bit_or_iff valid_less bit_one_at)

lemma HasNetCap_remove: "IsValidNetCap x \<Longrightarrow> IsValidNetCap y \<Longrightarrow> HasNetCap y (RemoveNetCap x c) \<longleftrightarrow> y \<noteq> x \<and> HasNetCap y c"
  by (auto simp: HasNetCap_bit RemoveNetCap_def bit_and_iff bit_not_iff valid_less bit_one_at)

interpretation bits: cap_set InsertNetCap RemoveNetCap HasNetCap
  by unfold_locales (simp_all add: HasNetCap_insert HasNetCap_remove)

interpretation std_caps: cap_set insert "\<lambda>x S. S - {x}" "(\<in>)"
  by unfold_locales auto

interpretation mirror: cap_mirror InsertNetCap RemoveNetCap HasNetCap insert "\<lambda>x S. S - {x}" "(\<in>)"
  by unfold_locales

lemma HasNetCap_valid: "HasNetCap cap c \<Longrightarrow> IsValidNetCap cap"
  using bit_imp_le_length [of "caps_word c" "unat cap"] by (simp add: HasNetCap_bit valid_less)

lemma ToSet_loop_eq: "n \<le> 32 \<Longrightarrow> ToSet_loop n c = {cap. unat cap < n \<and> HasNetCap cap c}"
proof (induction n)
  case (Suc n)
  have u: "unat (of_nat n :: u32) = n" using Suc.prems by (simp add: unat_of_nat)
  have "unat x < Suc n \<longleftrightarrow> unat x < n \<or> x = of_nat n" for x :: u32
    using u by (auto simp: less_Suc_eq word_unat_eq_iff)
  then show ?case using Suc by (auto simp: Let_def)
qed simp

lemma ToSet_eq: "ToSet c = {cap. HasNetCap cap c}"
  using HasNetCap_valid by (auto simp: ToSet_def ToSet_loop_eq valid_less)

lemma fold_Insert: "HasNetCap y (fold InsertNetCap xs c) \<longleftrightarrow> y \<in> set xs \<and> IsValidNetCap y \<or> HasNetCap y c"
proof (induction xs arbitrary: c)
  case (Cons x xs)
  have "HasNetCap y (InsertNetCap x c) \<longleftrightarrow> y = x \<and> IsValidNetCap y \<or> HasNetCap y c"
    using HasNetCap_insert [of x y c] HasNetCap_valid [of y] by (cases "IsValidNetCap x") (auto simp: InsertNetCap_def)
  then show ?case using Cons by auto
qed simp

lemma ToSet_insert: "ToSet (InsertNetCap x c) = ToSet c \<union> {x} \<inter> valid_caps"
  using fold_Insert [of _ "[x]" c] by (auto simp: ToSet_eq valid_caps_def)

lemma ToSet_remove: "ToSet (RemoveNetCap x c) = ToSet c - {x}"
  using HasNetCap_remove [of x _ c] HasNetCap_valid by (cases "IsValidNetCap x") (auto simp: ToSet_eq RemoveNetCap_def)

lemma finite_caps [simp]: "finite (S :: u32 set)"
  by simp

lemma NetCaps_ctor_eq: "ToSet (NetCaps_ctor caps) = caps \<inter> valid_caps"
proof -
  have "\<not> HasNetCap x \<lparr> caps_word = 0 \<rparr>" for x by (simp add: HasNetCap_bit)
  then show ?thesis by (auto simp: ToSet_eq NetCaps_ctor_def fold_Insert valid_caps_def)
qed

lemma NetCaps_eqI: "ToSet c = ToSet d \<Longrightarrow> c = (d :: NetCaps)"
proof -
  assume e: "ToSet c = ToSet d"
  have "bit (caps_word c) n = bit (caps_word d) n" if "n < 32" for n
  proof -
    have "unat (of_nat n :: u32) = n" using that by (simp add: unat_of_nat)
    then show ?thesis using e by (metis HasNetCap_bit ToSet_eq mem_Collect_eq)
  qed
  then have "caps_word c = caps_word d" by (intro bit_word_eqI) simp
  then show ?thesis by simp
qed

section \<open>Properties\<close>

text \<open>
  C11. The bit set implements sets of capabilities: under the abstraction \<open>ToSet\<close>, construction
  keeps the valid capabilities, insertion and removal are the operations on sets, an invalid capability
  has no effect on them, and two bit sets are equal exactly if their sets are. The two queries, which shift
  by the capability without a check, are membership and inclusion for the capabilities below 32, the only ones
  for which the shift has a meaning in C++.
\<close>

theorem NetCaps_refines_set:
  "ToSet (NetCaps_ctor S) = S \<inter> valid_caps
  \<and> ToSet (InsertNetCap x c) = ToSet c \<union> {x} \<inter> valid_caps
  \<and> ToSet (RemoveNetCap x c) = ToSet c - {x}
  \<and> (x \<in> valid_caps \<longrightarrow> (HasNetCap x c \<longleftrightarrow> x \<in> ToSet c))
  \<and> (S \<subseteq> valid_caps \<longrightarrow> (HasNetCaps S c \<longleftrightarrow> S \<subseteq> ToSet c))
  \<and> (c = d \<longleftrightarrow> ToSet c = ToSet d)
  \<and> ToSet c \<subseteq> valid_caps"
proof -
  have "HasNetCap x c \<longleftrightarrow> x \<in> ToSet c" "HasNetCaps S c \<longleftrightarrow> S \<subseteq> ToSet c" "ToSet c \<subseteq> valid_caps"
    using HasNetCap_valid by (auto simp: HasNetCaps_def valid_caps_def ToSet_eq)
  then show ?thesis using NetCaps_eqI [of c d] NetCaps_ctor_eq [of S] ToSet_insert [of x c] ToSet_remove [of x c] by blast
qed

theorem NetCaps_refines_set_witness:
  "(12 :: NetCap) \<in> valid_caps \<and> {12, 16} \<subseteq> valid_caps
  \<and> \<not> HasNetCap 12 (RemoveNetCap 12 (NetCaps_ctor {12, 16, 40}))
  \<and> HasNetCaps {12, 16} (NetCaps_ctor {12, 16, 40}) \<and> ToSet (NetCaps_ctor {12, 16, 40}) = {12, 16}"
proof -
  have v: "(12 :: NetCap) \<in> valid_caps" "{12, 16} \<subseteq> valid_caps" "{12, 16, 40} \<inter> valid_caps = {12, 16}"
    by (auto simp: valid_caps_def IsValidNetCap_def)
  note n = NetCaps_refines_set [of "{12, 16, 40}" 12 "NetCaps_ctor {12, 16, 40}"]
  note r = NetCaps_refines_set [of "{12, 16}" 12 "RemoveNetCap 12 (NetCaps_ctor {12, 16, 40})"]
  show ?thesis using n r v NetCaps_refines_set [of "{12, 16}" 12 "NetCaps_ctor {12, 16, 40}"] by auto
qed

end
