(* ===== verification/Net_Capabilities.thy ===== *)
theory Net_Capabilities
  imports Net_Caps Parcel
begin

text \<open>
  What a client asks of a network, and what a network offers
  (\<open>frameworks/native/netconnclient/src/net_all_capabilities.cpp\<close> and \<open>net_specifier.cpp\<close>):
  bandwidths, capabilities and bearer types, with their transport through a parcel. A reader that
  gives up leaves its object half filled; the callers drop it, so \<open>None\<close> stands for the
  code's \<open>false\<close> and null pointer.
\<close>

section \<open>Data\<close>

type_synonym NetBearType = u32

abbreviation BEARER_CELLULAR :: NetBearType where "BEARER_CELLULAR \<equiv> 0"
abbreviation BEARER_WIFI :: NetBearType where "BEARER_WIFI \<equiv> 1"
abbreviation BEARER_BLUETOOTH :: NetBearType where "BEARER_BLUETOOTH \<equiv> 2"
abbreviation BEARER_ETHERNET :: NetBearType where "BEARER_ETHERNET \<equiv> 3"
abbreviation BEARER_VPN :: NetBearType where "BEARER_VPN \<equiv> 4"
abbreviation BEARER_WIFI_AWARE :: NetBearType where "BEARER_WIFI_AWARE \<equiv> 5"
abbreviation BEARER_DEFAULT :: NetBearType where "BEARER_DEFAULT \<equiv> 6"

record NetAllCapabilities =
  linkUpBandwidthKbps :: u32
  linkDownBandwidthKbps :: u32
  nac_netCaps :: "NetCap set"
  nac_bearerTypes :: "NetBearType set"

definition NetAllCapabilities_default :: NetAllCapabilities where
  "NetAllCapabilities_default = \<lparr> linkUpBandwidthKbps = 0, linkDownBandwidthKbps = 0, nac_netCaps = {}, nac_bearerTypes = {} \<rparr>"

record NetSpecifier =
  sp_ident :: string
  sp_caps :: NetAllCapabilities

definition NetSpecifier_default :: NetSpecifier where
  "NetSpecifier_default = \<lparr> sp_ident = [], sp_caps = NetAllCapabilities_default \<rparr>"

section \<open>Checks\<close>

definition CapsIsValid :: "NetAllCapabilities \<Rightarrow> bool" where
  "CapsIsValid c =
     (if \<exists>cap \<in> nac_netCaps c. cap < NET_CAPABILITY_MMS \<or> cap \<ge> NET_CAPABILITY_END then False
      else if \<exists>t \<in> nac_bearerTypes c. t < BEARER_CELLULAR \<or> t \<ge> BEARER_DEFAULT then False
      else True)"

definition CapsIsNull :: "NetAllCapabilities \<Rightarrow> bool" where
  "CapsIsNull c =
     (linkUpBandwidthKbps c = 0 \<and> linkDownBandwidthKbps c = 0 \<and> card (nac_netCaps c) = 0 \<and> card (nac_bearerTypes c) = 0)"

definition SpecifierIsValid :: "NetSpecifier \<Rightarrow> bool" where
  "SpecifierIsValid s = (if sp_ident s = [] \<and> CapsIsNull (sp_caps s) then False else CapsIsValid (sp_caps s))"

definition SetCapabilities :: "NetCap set \<Rightarrow> NetSpecifier \<Rightarrow> NetSpecifier" where
  "SetCapabilities caps s = s\<lparr> sp_caps := (sp_caps s)\<lparr> nac_netCaps := caps \<rparr> \<rparr>"

definition SetCapability :: "NetCap \<Rightarrow> NetSpecifier \<Rightarrow> NetSpecifier" where
  "SetCapability cap s = s\<lparr> sp_caps := (sp_caps s)\<lparr> nac_netCaps := insert cap {} \<rparr> \<rparr>"

definition SetTypes :: "NetBearType set \<Rightarrow> NetSpecifier \<Rightarrow> NetSpecifier" where
  "SetTypes types s = s\<lparr> sp_caps := (sp_caps s)\<lparr> nac_bearerTypes := types \<rparr> \<rparr>"

definition SetType :: "NetBearType \<Rightarrow> NetSpecifier \<Rightarrow> NetSpecifier" where
  "SetType type s = s\<lparr> sp_caps := (sp_caps s)\<lparr> nac_bearerTypes := insert type {} \<rparr> \<rparr>"

section \<open>Transport\<close>

abbreviation MAX_NET_CAP_NUM :: u32 where "MAX_NET_CAP_NUM \<equiv> 32"

definition write_set :: "'p parcel_api \<Rightarrow> u32 set \<Rightarrow> 'p \<Rightarrow> 'p option" where
  "write_set api S p =
     (let size = of_nat (card S); size = (if size > MAX_NET_CAP_NUM then MAX_NET_CAP_NUM else size) in
      Option.bind (Write api (Uint32 size) p)
        (write_all api (map Uint32 (take (unat MAX_NET_CAP_NUM) (sorted_list_of_set S)))))"

definition Caps_Marshalling :: "'p parcel_api \<Rightarrow> NetAllCapabilities \<Rightarrow> 'p \<Rightarrow> 'p option" where
  "Caps_Marshalling api c p =
     Option.bind (write_all api [Uint32 (linkUpBandwidthKbps c), Uint32 (linkDownBandwidthKbps c)] p) (\<lambda>p1.
     Option.bind (write_set api (nac_netCaps c) p1) (write_set api (nac_bearerTypes c)))"

fun read_values :: "'p parcel_api \<Rightarrow> u32 \<Rightarrow> nat \<Rightarrow> u32 set \<Rightarrow> 'p \<Rightarrow> (u32 set \<times> 'p) option" where
  "read_values api bound 0 S p = Some (S, p)"
| "read_values api bound (Suc n) S p =
     Option.bind (ReadUint32 api p) (\<lambda>(v, p1). read_values api bound n (if v \<ge> bound then S else insert v S) p1)"

definition read_set :: "'p parcel_api \<Rightarrow> u32 \<Rightarrow> u32 set \<Rightarrow> 'p \<Rightarrow> (u32 set \<times> 'p) option" where
  "read_set api bound S p =
     Option.bind (ReadUint32 api p) (\<lambda>(size, p1).
       read_values api bound (unat (if size > MAX_NET_CAP_NUM then MAX_NET_CAP_NUM else size)) S p1)"

definition Caps_Unmarshalling :: "'p parcel_api \<Rightarrow> NetAllCapabilities \<Rightarrow> 'p \<Rightarrow> (NetAllCapabilities \<times> 'p) option" where
  "Caps_Unmarshalling api c p =
     Option.bind (ReadUint32 api p) (\<lambda>(up, p1).
     Option.bind (ReadUint32 api p1) (\<lambda>(down, p2).
     Option.bind (read_set api NET_CAPABILITY_END (nac_netCaps c) p2) (\<lambda>(caps, p3).
     Option.bind (read_set api BEARER_DEFAULT (nac_bearerTypes c) p3) (\<lambda>(types, p4).
       Some (\<lparr> linkUpBandwidthKbps = up, linkDownBandwidthKbps = down, nac_netCaps = caps, nac_bearerTypes = types \<rparr>, p4)))))"

definition Specifier_Marshalling :: "'p parcel_api \<Rightarrow> NetSpecifier \<Rightarrow> 'p \<Rightarrow> 'p option" where
  "Specifier_Marshalling api s p = Option.bind (Write api (Str (sp_ident s)) p) (Caps_Marshalling api (sp_caps s))"

definition Specifier_Unmarshalling :: "'p parcel_api \<Rightarrow> 'p \<Rightarrow> (NetSpecifier \<times> 'p) option" where
  "Specifier_Unmarshalling api p =
     Option.bind (ReadString api p) (\<lambda>(i, p1).
     Option.bind (Caps_Unmarshalling api (sp_caps NetSpecifier_default) p1) (\<lambda>(c, p2).
       Some (\<lparr> sp_ident = i, sp_caps = c \<rparr>, p2)))"

section \<open>Lemmas\<close>

lemma list_write: "Write list_parcel i p = Some (p @ [i])"
  by (simp add: list_parcel_def)

lemma list_reads: "ReadUint32 list_parcel (Uint32 v # r) = Some (v, r)" "ReadString list_parcel (Str t # r) = Some (t, r)"
  by (simp_all add: list_parcel_def)

lemma read_u32:
  assumes "parcel_fifo api content" "content p = Uint32 v # rest"
  obtains p' where "ReadUint32 api p = Some (v, p')" "content p' = rest"
  using assms unfolding parcel_fifo_def by blast

lemma CapsIsValid_iff: "CapsIsValid c \<longleftrightarrow> nac_netCaps c \<subseteq> {..<NET_CAPABILITY_END} \<and> nac_bearerTypes c \<subseteq> {..<BEARER_DEFAULT}"
  by (auto simp: CapsIsValid_def not_less not_le)

lemma bounded_caps:
  assumes "(S :: u32 set) \<subseteq> {..<n}" "n \<le> 32"
  shows "card S \<le> 32"
proof -
  have "unat ` S \<subseteq> {..<32}" using assms by (auto simp: word_less_nat_alt word_le_nat_alt)
  then have "card (unat ` S) \<le> 32" using card_mono [of "{..<32 :: nat}"] by fastforce
  moreover have "inj_on unat S" by (simp add: inj_on_def)
  ultimately show ?thesis by (simp add: card_image)
qed

lemma write_set_content:
  assumes "parcel_fifo api content" "write_set api S p = Some p'" "card S \<le> 32"
  shows "content p' = content p @ Uint32 (of_nat (card S)) # map Uint32 (sorted_list_of_set S)"
proof -
  have u: "unat (of_nat (card S) :: u32) = card S" using assms(3) by (simp add: unat_of_nat)
  then have "\<not> (of_nat (card S) :: u32) > 32" using assms(3) by (simp add: word_less_nat_alt)
  then show ?thesis using assms write_all_content [OF assms(1)] unfolding parcel_fifo_def
    by (auto simp: write_set_def Let_def bind_eq_Some_conv)
qed

lemma read_values_content:
  assumes "parcel_fifo api content" "content p = map Uint32 xs @ rest"
  shows "\<exists>p'. read_values api bound (length xs) S p = Some (S \<union> {x \<in> set xs. x < bound}, p') \<and> content p' = rest"
  using assms(2)
proof (induction xs arbitrary: S p)
  case (Cons x xs)
  obtain p1 where p1: "ReadUint32 api p = Some (x, p1)" "content p1 = map Uint32 xs @ rest"
    by (rule read_u32 [OF assms(1)]) (use Cons.prems in simp_all)
  obtain p' where "read_values api bound (length xs) (if x \<ge> bound then S else insert x S) p1
      = Some ((if x \<ge> bound then S else insert x S) \<union> {y \<in> set xs. y < bound}, p')" "content p' = rest"
    using Cons.IH [OF p1(2)] by blast
  moreover have "(if x \<ge> bound then S else insert x S) \<union> {y \<in> set xs. y < bound} = S \<union> {y \<in> set (x # xs). y < bound}"
    by (auto simp: not_le)
  ultimately show ?case by (simp add: p1(1))
qed simp

lemma read_set_content:
  assumes "parcel_fifo api content" "content p = Uint32 (of_nat (card S)) # map Uint32 (sorted_list_of_set S) @ rest"
    "S \<subseteq> {..<bound}" "bound \<le> 32"
  shows "\<exists>p'. read_set api bound {} p = Some (S, p') \<and> content p' = rest"
proof -
  have c: "card S \<le> 32" by (rule bounded_caps [OF assms(3, 4)])
  then have u: "unat (of_nat (card S) :: u32) = card S" by (simp add: unat_of_nat)
  then have b: "\<not> (of_nat (card S) :: u32) > 32" using c by (simp add: word_less_nat_alt)
  obtain p1 where p1: "ReadUint32 api p = Some (of_nat (card S), p1)" "content p1 = map Uint32 (sorted_list_of_set S) @ rest"
    by (rule read_u32 [OF assms(1, 2)])
  have "{x \<in> S. x < bound} = S" using assms(3) by auto
  then show ?thesis using read_values_content [OF assms(1) p1(2), of bound "{}"] by (simp add: read_set_def p1(1) b u)
qed

lemma read_values_bound:
  "read_values api bound n S p = Some (S', p') \<Longrightarrow> S \<subseteq> {..<bound} \<Longrightarrow> S' \<subseteq> {..<bound}"
  by (induction n arbitrary: S p) (auto simp: bind_eq_Some_conv not_le split: if_splits)

lemma read_set_bound: "read_set api bound S p = Some (S', p') \<Longrightarrow> S \<subseteq> {..<bound} \<Longrightarrow> S' \<subseteq> {..<bound}"
  by (auto simp: read_set_def bind_eq_Some_conv dest!: read_values_bound)

section \<open>Properties\<close>

text \<open>
  C26. A valid request goes through a parcel unchanged: what the writer accepted, the reader
  turns into an equal request, and takes nothing else from the parcel.
\<close>

theorem specifier_transport:
  assumes "parcel_fifo api content" "content p = []" "Specifier_Marshalling api s p = Some p1" "CapsIsValid (sp_caps s)"
  shows "\<exists>p2. Specifier_Unmarshalling api p1 = Some (s, p2) \<and> content p2 = []"
proof -
  let ?c = "sp_caps s"
  have v: "nac_netCaps ?c \<subseteq> {..<NET_CAPABILITY_END}" "nac_bearerTypes ?c \<subseteq> {..<BEARER_DEFAULT}"
    using assms(4) by (simp_all add: CapsIsValid_iff)
  have k: "card (nac_netCaps ?c) \<le> 32" "card (nac_bearerTypes ?c) \<le> 32"
    using bounded_caps [OF v(1)] bounded_caps [OF v(2)] by simp_all
  let ?set = "\<lambda>S. Uint32 (of_nat (card S)) # map Uint32 (sorted_list_of_set S)"
  obtain q1 q2 q3 where q: "Write api (Str (sp_ident s)) p = Some q1"
    "write_all api [Uint32 (linkUpBandwidthKbps ?c), Uint32 (linkDownBandwidthKbps ?c)] q1 = Some q2"
    "write_set api (nac_netCaps ?c) q2 = Some q3" "write_set api (nac_bearerTypes ?c) q3 = Some p1"
    using assms(3) by (auto simp: Specifier_Marshalling_def Caps_Marshalling_def bind_eq_Some_conv)
  have "content q1 = [Str (sp_ident s)]" using q(1) assms(1, 2) unfolding parcel_fifo_def by fastforce
  then have c: "content p1 = Str (sp_ident s) # Uint32 (linkUpBandwidthKbps ?c) # Uint32 (linkDownBandwidthKbps ?c) #
      ?set (nac_netCaps ?c) @ ?set (nac_bearerTypes ?c)"
    using write_all_content [OF assms(1) q(2)] write_set_content [OF assms(1) q(3) k(1)] write_set_content [OF assms(1) q(4) k(2)] by simp
  obtain r1 where r1: "ReadString api p1 = Some (sp_ident s, r1)"
    "content r1 = Uint32 (linkUpBandwidthKbps ?c) # Uint32 (linkDownBandwidthKbps ?c) # ?set (nac_netCaps ?c) @ ?set (nac_bearerTypes ?c)"
    using assms(1) c unfolding parcel_fifo_def by blast
  obtain r2 where r2: "ReadUint32 api r1 = Some (linkUpBandwidthKbps ?c, r2)"
    "content r2 = Uint32 (linkDownBandwidthKbps ?c) # ?set (nac_netCaps ?c) @ ?set (nac_bearerTypes ?c)"
    by (rule read_u32 [OF assms(1) r1(2)])
  obtain r3 where r3: "ReadUint32 api r2 = Some (linkDownBandwidthKbps ?c, r3)" "content r3 = ?set (nac_netCaps ?c) @ ?set (nac_bearerTypes ?c)"
    by (rule read_u32 [OF assms(1) r2(2)])
  obtain r4 where r4: "read_set api NET_CAPABILITY_END {} r3 = Some (nac_netCaps ?c, r4)" "content r4 = ?set (nac_bearerTypes ?c)"
    using read_set_content [OF assms(1) _ v(1)] r3(2) by fastforce
  obtain r5 where "read_set api BEARER_DEFAULT {} r4 = Some (nac_bearerTypes ?c, r5)" "content r5 = []"
    using read_set_content [OF assms(1) _ v(2), of r4 "[]"] r4(2) by auto
  then show ?thesis
    by (simp add: Specifier_Unmarshalling_def Caps_Unmarshalling_def NetSpecifier_default_def NetAllCapabilities_default_def r1(1) r2(1) r3(1) r4(1))
qed

theorem specifier_transport_witness:
  "\<exists>p1. Specifier_Marshalling list_parcel (SetType BEARER_WIFI (SetCapability NET_CAPABILITY_INTERNET NetSpecifier_default)) [] = Some p1
     \<and> Specifier_Unmarshalling list_parcel p1 = Some (SetType BEARER_WIFI (SetCapability NET_CAPABILITY_INTERNET NetSpecifier_default), [])"
proof -
  let ?s = "SetType BEARER_WIFI (SetCapability NET_CAPABILITY_INTERNET NetSpecifier_default)"
  obtain p1 where p1: "Specifier_Marshalling list_parcel ?s [] = Some p1"
    by (simp add: Specifier_Marshalling_def Caps_Marshalling_def write_set_def Let_def list_parcel_write list_write)
  have "CapsIsValid (sp_caps ?s)" by (simp add: CapsIsValid_def SetType_def SetCapability_def NetSpecifier_default_def NetAllCapabilities_default_def
      word_le_nat_alt)
  from specifier_transport [OF list_parcel_fifo _ p1 this] show ?thesis using p1 by auto
qed

text \<open>
  Whatever a parcel holds, a request that is read from it is valid in its capabilities and
  bearer types, and the reader takes at most thirty-two of each: a client cannot send a request
  that the service would index out of range.
\<close>

theorem specifier_from_anywhere:
  assumes "Specifier_Unmarshalling api p = Some (s, p')"
  shows "CapsIsValid (sp_caps s) \<and> card (nac_netCaps (sp_caps s)) \<le> 32 \<and> card (nac_bearerTypes (sp_caps s)) \<le> 32"
proof -
  have v: "CapsIsValid (sp_caps s)"
    using assms
    by (auto simp: Specifier_Unmarshalling_def Caps_Unmarshalling_def NetSpecifier_default_def NetAllCapabilities_default_def
        bind_eq_Some_conv CapsIsValid_iff dest!: read_set_bound)
  then have k: "nac_netCaps (sp_caps s) \<subseteq> {..<NET_CAPABILITY_END}" "nac_bearerTypes (sp_caps s) \<subseteq> {..<BEARER_DEFAULT}"
    by (simp_all add: CapsIsValid_iff)
  show ?thesis using v bounded_caps [OF k(1)] bounded_caps [OF k(2)] by simp
qed

theorem specifier_from_anywhere_witness:
  "\<exists>s. Specifier_Unmarshalling list_parcel [Str ''x'', Uint32 0, Uint32 0, Uint32 2, Uint32 12, Uint32 77, Uint32 0] = Some (s, [])
     \<and> CapsIsValid (sp_caps s)"
proof -
  have two: "read_values list_parcel NET_CAPABILITY_END 2 S p = read_values list_parcel NET_CAPABILITY_END (Suc (Suc 0)) S p" for S p
    by (simp only: numeral_2_eq_2)
  obtain s where s: "Specifier_Unmarshalling list_parcel [Str ''x'', Uint32 0, Uint32 0, Uint32 2, Uint32 12, Uint32 77, Uint32 0] = Some (s, [])"
    by (simp add: Specifier_Unmarshalling_def Caps_Unmarshalling_def read_set_def list_reads two)
  then show ?thesis using specifier_from_anywhere [OF s] by blast
qed

end
