(* ===== verification/Net_Supplier.thy ===== *)
theory Net_Supplier
  imports Net_Capabilities
begin

text \<open>
  A supplier of networks (\<open>services/netconnmanager/src/net_supplier.cpp\<close>): its capabilities,
  score, detection state and the requests it serves. The calls on the remote callback
  \<open>netController_\<close> and on the daemon are a trace; a callback is a number, and what it answers is a
  parameter. Of the network object (\<open>network.cpp\<close>) the model has the identity and the
  connection state; the work it does in the daemon is the trace of the calls it gets. \<open>None\<close> stands
  for the dereference of a null \<open>network_\<close>.
\<close>

section \<open>The network of a supplier\<close>

datatype NetConnState =
    NET_CONN_STATE_UNKNOWN | NET_CONN_STATE_IDLE | NET_CONN_STATE_CONNECTING | NET_CONN_STATE_CONNECTED
  | NET_CONN_STATE_DISCONNECTING | NET_CONN_STATE_DISCONNECTED

datatype network_call =
    UpdateBasicNetwork bool | NetworkUpdateNetLinkInfo string | ResetNetlinkInfo | SendConnectionChangedBroadcast NetConnState
  | SetDefaultNetWork | ClearDefaultNetWorkNetId

record Network =
  nw_netId :: int
  nw_state :: NetConnState
  nw_calls :: "network_call list"

definition Network_ctor :: "int \<Rightarrow> Network" where
  "Network_ctor netId = \<lparr> nw_netId = netId, nw_state = NET_CONN_STATE_UNKNOWN, nw_calls = [] \<rparr>"

definition on_network :: "network_call \<Rightarrow> Network \<Rightarrow> Network" where
  "on_network c n = n\<lparr> nw_calls := nw_calls n @ [c] \<rparr>"

definition Network_UpdateNetConnState :: "NetConnState \<Rightarrow> Network \<Rightarrow> Network" where
  "Network_UpdateNetConnState st n =
     (if nw_state n = st then n
      else
        let n1 = (case st of
            NET_CONN_STATE_IDLE \<Rightarrow> n\<lparr> nw_state := st \<rparr>
          | NET_CONN_STATE_CONNECTING \<Rightarrow> n\<lparr> nw_state := st \<rparr>
          | NET_CONN_STATE_CONNECTED \<Rightarrow> n\<lparr> nw_state := st \<rparr>
          | NET_CONN_STATE_DISCONNECTING \<Rightarrow> n\<lparr> nw_state := st \<rparr>
          | NET_CONN_STATE_DISCONNECTED \<Rightarrow> on_network ResetNetlinkInfo (n\<lparr> nw_state := st \<rparr>)
          | _ \<Rightarrow> n\<lparr> nw_state := NET_CONN_STATE_UNKNOWN \<rparr>)
        in on_network (SendConnectionChangedBroadcast st) n1)"

section \<open>Data\<close>

datatype NetDetectionStatus =
    UNKNOWN_STATE | INVALID_DETECTION_STATE | VERIFICATION_STATE | CAPTIVE_PORTAL_STATE
  | QUALITY_POOR_STATE | QUALITY_NORMAL_STATE | QUALITY_GOOD_STATE | ACCEPT_UNVALIDATED

record NetSupplierInfo =
  si_isAvailable :: bool
  si_isRoaming :: bool
  si_strength :: int
  si_frequency :: u32
  si_linkUpBandwidthKbps :: u32
  si_linkDownBandwidthKbps :: u32
  si_uid :: int
  si_ident :: string
  si_score :: int

definition NetSupplierInfo_default :: NetSupplierInfo where
  "NetSupplierInfo_default = \<lparr> si_isAvailable = False, si_isRoaming = False, si_strength = 0, si_frequency = 0,
     si_linkUpBandwidthKbps = 0, si_linkDownBandwidthKbps = 0, si_uid = 0, si_ident = [], si_score = 0 \<rparr>"

record NetRequest =
  rq_uid :: u32
  rq_requestId :: u32
  rq_registerType :: u32
  rq_isControlled :: bool
  rq_ident :: string
  rq_bearTypes :: "NetBearType set"
  rq_netCaps :: "NetCap set"

abbreviation UNKOWN :: u32 where "UNKOWN \<equiv> 0"
abbreviation REGISTER :: u32 where "REGISTER \<equiv> 1"
abbreviation REQUEST :: u32 where "REQUEST \<equiv> 2"

definition NetRequest_default :: NetRequest where
  "NetRequest_default = \<lparr> rq_uid = 0, rq_requestId = 0, rq_registerType = REGISTER, rq_isControlled = False, rq_ident = [],
     rq_bearTypes = {}, rq_netCaps = {} \<rparr>"

definition NetRequest_ctor :: "u32 \<Rightarrow> u32 \<Rightarrow> u32 \<Rightarrow> NetRequest" where
  "NetRequest_ctor uid reqId registerType = NetRequest_default\<lparr> rq_uid := uid, rq_requestId := reqId, rq_registerType := registerType \<rparr>"

datatype supplier_call =
    RequestNetwork nat string "NetCap set" NetRequest
  | ReleaseNetwork nat NetRequest
  | FlushDnsCache int

record NetSupplier =
  netSupplierType :: NetBearType
  netSupplierIdent :: string
  su_netCaps :: NetCaps
  netSupplierInfo :: NetSupplierInfo
  netAllCapabilities :: NetAllCapabilities
  supplierId :: u32
  netScore :: int
  requestList :: "u32 set"
  bestReqList :: "u32 set"
  netController :: "nat option"
  network :: "Network option"
  netHandle :: "int option"
  restrictBackground :: bool
  slotType :: int
  netQuality :: NetDetectionStatus
  isFirstTimeDetectionDone :: bool
  isAcceptUnvaliad :: bool
  supplierUid :: int
  netExtAttribute :: string
  su_isOnceSuppress :: bool
  pendingRequest :: NetRequest
  su_calls :: "supplier_call list"

text \<open>What the remote side answers to a call.\<close>

type_synonym answers = "supplier_call \<Rightarrow> int"

abbreviation REG_OK :: int where "REG_OK \<equiv> 0"

section \<open>Scores\<close>

abbreviation NET_VALID_SCORE :: int where "NET_VALID_SCORE \<equiv> 40"
abbreviation DIFF_SCORE_BETWEEN_GOOD_POOR :: int where "DIFF_SCORE_BETWEEN_GOOD_POOR \<equiv> 20"
abbreviation MAX_SCORE :: int where "MAX_SCORE \<equiv> 100"

definition netTypeScore :: "NetBearType \<Rightarrow> int option" where
  "netTypeScore =
     [BEARER_CELLULAR \<mapsto> 60, BEARER_WIFI \<mapsto> 70, BEARER_BLUETOOTH \<mapsto> 50, BEARER_ETHERNET \<mapsto> 80, BEARER_VPN \<mapsto> 90, BEARER_WIFI_AWARE \<mapsto> 100]"

definition InitNetScore :: "NetSupplier \<Rightarrow> NetSupplier" where
  "InitNetScore s = (case netTypeScore (netSupplierType s) of None \<Rightarrow> s | Some n \<Rightarrow> s\<lparr> netScore := n \<rparr>)"

section \<open>Queries\<close>

definition Supplier_HasNetCap :: "NetCap \<Rightarrow> NetSupplier \<Rightarrow> bool" where
  "Supplier_HasNetCap cap s = HasNetCap cap (su_netCaps s)"

definition CompareNetCaps :: "NetCap set \<Rightarrow> NetSupplier \<Rightarrow> bool" where
  "CompareNetCaps caps s = (if caps = {} then True else HasNetCaps caps (su_netCaps s))"

definition Supplier_GetNetId :: "NetSupplier \<Rightarrow> int" where
  "Supplier_GetNetId s = (case network s of None \<Rightarrow> 0 | Some n \<Rightarrow> nw_netId n)"

definition IsAvailable :: "NetSupplier \<Rightarrow> bool" where
  "IsAvailable s = si_isAvailable (netSupplierInfo s)"

definition IsConnecting :: "NetSupplier \<Rightarrow> bool" where
  "IsConnecting s = (case network s of None \<Rightarrow> False | Some n \<Rightarrow> nw_state n = NET_CONN_STATE_CONNECTING)"

definition IsConnected :: "NetSupplier \<Rightarrow> bool" where
  "IsConnected s = (case network s of None \<Rightarrow> False | Some n \<Rightarrow> nw_state n = NET_CONN_STATE_CONNECTED)"

definition IsNetQualityPoor :: "NetSupplier \<Rightarrow> bool" where
  "IsNetQualityPoor s = (netQuality s = QUALITY_POOR_STATE)"

definition IsNetAcceptUnavalidate :: "NetSupplier \<Rightarrow> bool" where
  "IsNetAcceptUnavalidate s = (netQuality s = ACCEPT_UNVALIDATED)"

definition IsOnceSuppress :: "NetSupplier \<Rightarrow> bool" where
  "IsOnceSuppress s = (if IsNetQualityPoor s then False else su_isOnceSuppress s)"

definition IsNetValidated :: "NetSupplier \<Rightarrow> bool" where
  "IsNetValidated s = (Supplier_HasNetCap NET_CAPABILITY_VALIDATED s \<and> \<not> Supplier_HasNetCap NET_CAPABILITY_CHECKING_CONNECTIVITY s)"

definition IsInFirstTimeDetecting :: "NetSupplier \<Rightarrow> bool" where
  "IsInFirstTimeDetecting s = (\<not> isFirstTimeDetectionDone s)"

definition GetRealScore :: "NetSupplier \<Rightarrow> int" where
  "GetRealScore s =
     (if isAcceptUnvaliad s then MAX_SCORE
      else if IsInFirstTimeDetecting s then netScore s - NET_VALID_SCORE
      else if \<not> IsNetValidated s then netScore s - NET_VALID_SCORE
      else if IsNetQualityPoor s then netScore s - DIFF_SCORE_BETWEEN_GOOD_POOR
      else netScore s)"

definition HasBestRequest :: "u32 \<Rightarrow> NetSupplier \<Rightarrow> bool" where
  "HasBestRequest reqId s = (reqId \<in> bestReqList s)"

section \<open>Capabilities and detection\<close>

text \<open>The two representations of the capabilities are updated together.\<close>

definition insert_cap :: "NetCap \<Rightarrow> NetSupplier \<Rightarrow> NetSupplier" where
  "insert_cap cap s =
     s\<lparr> su_netCaps := InsertNetCap cap (su_netCaps s),
       netAllCapabilities := (netAllCapabilities s)\<lparr> nac_netCaps := insert cap (nac_netCaps (netAllCapabilities s)) \<rparr> \<rparr>"

definition remove_cap :: "NetCap \<Rightarrow> NetSupplier \<Rightarrow> NetSupplier" where
  "remove_cap cap s =
     s\<lparr> su_netCaps := RemoveNetCap cap (su_netCaps s),
       netAllCapabilities := (netAllCapabilities s)\<lparr> nac_netCaps := nac_netCaps (netAllCapabilities s) - {cap} \<rparr> \<rparr>"

definition SetOnceSuppress :: "NetSupplier \<Rightarrow> NetSupplier" where
  "SetOnceSuppress s = s\<lparr> su_isOnceSuppress := (if IsAvailable s then False else True) \<rparr>"

definition SetNetValid :: "NetDetectionStatus \<Rightarrow> NetSupplier \<Rightarrow> NetSupplier option" where
  "SetNetValid st s =
     (if st = VERIFICATION_STATE then
        let s1 = (if \<not> Supplier_HasNetCap NET_CAPABILITY_VALIDATED s then insert_cap NET_CAPABILITY_VALIDATED s else s) in
        if Supplier_HasNetCap NET_CAPABILITY_PORTAL s1 then
          let s2 = remove_cap NET_CAPABILITY_PORTAL s1 in
          (case network s2 of None \<Rightarrow> None | Some n \<Rightarrow> Some (s2\<lparr> su_calls := su_calls s2 @ [FlushDnsCache (nw_netId n)] \<rparr>))
        else Some s1
      else if st = CAPTIVE_PORTAL_STATE then
        let s1 = (if \<not> Supplier_HasNetCap NET_CAPABILITY_PORTAL s then insert_cap NET_CAPABILITY_PORTAL s else s) in
        Some (if Supplier_HasNetCap NET_CAPABILITY_VALIDATED s1 then remove_cap NET_CAPABILITY_VALIDATED s1 else s1)
      else if st = QUALITY_POOR_STATE then Some (s\<lparr> netQuality := QUALITY_POOR_STATE \<rparr>)
      else if st = QUALITY_GOOD_STATE then Some (SetOnceSuppress (s\<lparr> netQuality := QUALITY_GOOD_STATE \<rparr>))
      else if st = ACCEPT_UNVALIDATED then Some (s\<lparr> netQuality := ACCEPT_UNVALIDATED, isAcceptUnvaliad := True \<rparr>)
      else
        let s1 = (if Supplier_HasNetCap NET_CAPABILITY_VALIDATED s then remove_cap NET_CAPABILITY_VALIDATED s else s) in
        Some (if Supplier_HasNetCap NET_CAPABILITY_PORTAL s1 then remove_cap NET_CAPABILITY_PORTAL s1 else s1))"

definition SetDetectionDone :: "NetSupplier \<Rightarrow> NetSupplier" where
  "SetDetectionDone s =
     (let s1 = (if \<not> isFirstTimeDetectionDone s then s\<lparr> isFirstTimeDetectionDone := True \<rparr> else s) in
      if Supplier_HasNetCap NET_CAPABILITY_CHECKING_CONNECTIVITY s1 then remove_cap NET_CAPABILITY_CHECKING_CONNECTIVITY s1 else s1)"

definition ResetNetSupplier :: "NetSupplier \<Rightarrow> NetSupplier option" where
  "ResetNetSupplier s =
     (let s1 = s\<lparr> netQuality := QUALITY_NORMAL_STATE, isFirstTimeDetectionDone := False, isAcceptUnvaliad := False, su_isOnceSuppress := False,
                  su_netCaps := InsertNetCap NET_CAPABILITY_CHECKING_CONNECTIVITY (su_netCaps s) \<rparr> in
      case SetNetValid VERIFICATION_STATE s1 of None \<Rightarrow> None
      | Some s2 \<Rightarrow>
          Some (s2\<lparr> netAllCapabilities := (netAllCapabilities s2)\<lparr> nac_netCaps :=
                       insert NET_CAPABILITY_CHECKING_CONNECTIVITY (nac_netCaps (netAllCapabilities s2)) \<rparr>,
                    netExtAttribute := [] \<rparr>))"

definition SetReuseCap :: "NetCap \<Rightarrow> bool \<Rightarrow> NetSupplier \<Rightarrow> NetSupplier" where
  "SetReuseCap reuseCap add s = (if add then insert_cap reuseCap s else remove_cap reuseCap s)"

definition UpdateNetCap :: "NetCap set \<Rightarrow> NetSupplier \<Rightarrow> NetSupplier" where
  "UpdateNetCap caps s =
     s\<lparr> su_netCaps := NetCaps_ctor caps, netAllCapabilities := (netAllCapabilities s)\<lparr> nac_netCaps := caps \<rparr> \<rparr>"

definition NetSupplier_ctor :: "NetBearType \<Rightarrow> string \<Rightarrow> NetCap set \<Rightarrow> u32 \<Rightarrow> NetSupplier option" where
  "NetSupplier_ctor bearerType ident caps sid =
     map_option InitNetScore (ResetNetSupplier
       \<lparr> netSupplierType = bearerType, netSupplierIdent = ident, su_netCaps = NetCaps_ctor caps, netSupplierInfo = NetSupplierInfo_default,
         netAllCapabilities = NetAllCapabilities_default\<lparr> nac_netCaps := caps, nac_bearerTypes := insert bearerType {} \<rparr>,
         supplierId = sid, netScore = 0, requestList = {}, bestReqList = {}, netController = None, network = None, netHandle = None,
         restrictBackground = True, slotType = -1, netQuality = QUALITY_NORMAL_STATE, isFirstTimeDetectionDone = False,
         isAcceptUnvaliad = False, supplierUid = 0, netExtAttribute = [], su_isOnceSuppress = False,
         pendingRequest = NetRequest_default, su_calls = [] \<rparr>)"

section \<open>Requests\<close>

definition SupplierConnection :: "answers \<Rightarrow> NetCap set \<Rightarrow> NetRequest \<Rightarrow> NetSupplier \<Rightarrow> bool \<times> NetSupplier" where
  "SupplierConnection ans caps req s =
     (case netController s of None \<Rightarrow> (False, s)
      | Some c \<Rightarrow>
          let call = RequestNetwork c (netSupplierIdent s) caps req in
          (ans call = REG_OK, s\<lparr> su_calls := su_calls s @ [call] \<rparr>))"

definition SupplierDisconnection :: "answers \<Rightarrow> NetCap set \<Rightarrow> NetRequest \<Rightarrow> NetSupplier \<Rightarrow> bool \<times> NetSupplier" where
  "SupplierDisconnection ans caps req s =
     (case netController s of None \<Rightarrow> (False, s)
      | Some c \<Rightarrow>
          let request = NetRequest_default\<lparr> rq_requestId := rq_requestId req, rq_uid := rq_uid req, rq_ident := netSupplierIdent s,
                          rq_netCaps := caps, rq_registerType := rq_registerType req, rq_bearTypes := rq_bearTypes req \<rparr>;
              call = ReleaseNetwork c request in
          (ans call = REG_OK, s\<lparr> su_calls := su_calls s @ [call] \<rparr>))"

definition RegisterSupplierCallback :: "answers \<Rightarrow> nat option \<Rightarrow> NetSupplier \<Rightarrow> NetSupplier" where
  "RegisterSupplierCallback ans callback s =
     (let s1 = s\<lparr> netController := callback \<rparr> in
      if netController s1 \<noteq> None \<and> requestList s1 \<noteq> {} then snd (SupplierConnection ans (ToSet (su_netCaps s1)) (pendingRequest s1) s1)
      else s1)"

definition AddRequest :: "answers \<Rightarrow> NetRequest \<Rightarrow> NetSupplier \<Rightarrow> bool \<times> NetSupplier" where
  "AddRequest ans req s =
     (let isEmpty = (requestList s = {});
          s1 = (if rq_requestId req \<notin> requestList s then s\<lparr> requestList := insert (rq_requestId req) (requestList s) \<rparr> else s);
          s2 = (if netController s1 = None then s1\<lparr> pendingRequest := req \<rparr> else s1)
      in if isEmpty \<or> netSupplierType s2 = BEARER_WIFI \<or> \<not> IsAvailable s2
         then SupplierConnection ans (ToSet (su_netCaps s2)) req s2 else (True, s2))"

definition RemoveRequest :: "answers \<Rightarrow> NetRequest \<Rightarrow> NetSupplier \<Rightarrow> bool \<times> NetSupplier" where
  "RemoveRequest ans req s =
     (if rq_requestId req \<notin> requestList s then (False, s)
      else
        let s1 = s\<lparr> requestList := requestList s - {rq_requestId req} \<rparr>; isEmpty = (requestList s1 = {}) in
        (True, if isEmpty \<or> netSupplierType s1 = BEARER_WIFI then snd (SupplierDisconnection ans (ToSet (su_netCaps s1)) req s1) else s1))"

definition AddBestRequest :: "u32 \<Rightarrow> NetSupplier \<Rightarrow> NetSupplier" where
  "AddBestRequest reqId s = (if reqId \<notin> bestReqList s then s\<lparr> bestReqList := insert reqId (bestReqList s) \<rparr> else s)"

definition RemoveBestRequest :: "u32 \<Rightarrow> NetSupplier \<Rightarrow> NetSupplier" where
  "RemoveBestRequest reqId s = (if reqId \<notin> bestReqList s then s else s\<lparr> bestReqList := bestReqList s - {reqId} \<rparr>)"

definition RequestToConnect :: "answers \<Rightarrow> NetRequest \<Rightarrow> NetSupplier \<Rightarrow> bool \<times> NetSupplier" where
  "RequestToConnect ans req s =
     (if netSupplierType s = BEARER_CELLULAR \<and> rq_isControlled req then (True, s) else AddRequest ans req s)"

definition SelectAsBestNetwork :: "answers \<Rightarrow> NetRequest \<Rightarrow> NetSupplier \<Rightarrow> int \<times> NetSupplier" where
  "SelectAsBestNetwork ans req s =
     (let s1 = (if netSupplierType s \<noteq> BEARER_CELLULAR \<or> \<not> rq_isControlled req then snd (AddRequest ans req s) else snd (RemoveRequest ans req s))
      in (NETMANAGER_SUCCESS, AddBestRequest (rq_requestId req) s1))"

definition ReceiveBestScore :: "answers \<Rightarrow> int \<Rightarrow> u32 \<Rightarrow> NetRequest \<Rightarrow> NetSupplier \<Rightarrow> NetSupplier" where
  "ReceiveBestScore ans bestScore bestId req s =
     (if bestId = supplierId s then s
      else if rq_requestId req \<notin> requestList s then s
      else if netScore s \<ge> bestScore then s
      else snd (RemoveRequest ans req s))"

abbreviation NET_CONN_ERR_SERVICE_NO_REQUEST :: int where "NET_CONN_ERR_SERVICE_NO_REQUEST \<equiv> 2101018"

definition CancelRequest :: "answers \<Rightarrow> NetRequest \<Rightarrow> NetSupplier \<Rightarrow> int \<times> NetSupplier" where
  "CancelRequest ans req s =
     (case RemoveRequest ans req (RemoveBestRequest (rq_requestId req) s) of (ret, s1) \<Rightarrow>
      if \<not> ret then (NET_CONN_ERR_SERVICE_NO_REQUEST, s1) else (NETMANAGER_SUCCESS, s1))"

section \<open>Network and state\<close>

definition SetNetwork :: "Network option \<Rightarrow> NetSupplier \<Rightarrow> NetSupplier" where
  "SetNetwork n s =
     (let s1 = s\<lparr> network := n \<rparr> in case n of None \<Rightarrow> s1 | Some nw \<Rightarrow> s1\<lparr> netHandle := Some (nw_netId nw) \<rparr>)"

definition Supplier_UpdateNetConnState :: "NetConnState \<Rightarrow> NetSupplier \<Rightarrow> NetSupplier" where
  "Supplier_UpdateNetConnState st s = s\<lparr> network := map_option (Network_UpdateNetConnState st) (network s) \<rparr>"

definition UpdateNetSupplierInfo :: "NetSupplierInfo \<Rightarrow> NetSupplier \<Rightarrow> NetSupplier" where
  "UpdateNetSupplierInfo info s =
     (let oldAvailable = IsAvailable s;
          s1 = s\<lparr> netSupplierInfo := info, netAllCapabilities := (netAllCapabilities s)\<lparr> linkUpBandwidthKbps := si_linkUpBandwidthKbps info,
                   linkDownBandwidthKbps := si_linkDownBandwidthKbps info \<rparr> \<rparr>;
          s2 = (if si_ident info \<noteq> [] then s1\<lparr> netSupplierIdent := si_ident info \<rparr> else s1);
          s3 = (if si_score info \<noteq> 0 then s2\<lparr> netScore := si_score info \<rparr> else s2)
      in if oldAvailable = IsAvailable s3 then s3
         else case network s3 of None \<Rightarrow> s3
         | Some n \<Rightarrow>
             let s4 = s3\<lparr> network := Some (on_network (UpdateBasicNetwork (IsAvailable s3)) n) \<rparr> in
             if \<not> IsAvailable s4 then Supplier_UpdateNetConnState NET_CONN_STATE_DISCONNECTED s4 else s4)"

abbreviation NET_CONN_ERR_INVALID_NETWORK :: int where "NET_CONN_ERR_INVALID_NETWORK \<equiv> 2101013"

text \<open>
  \<open>Network::UpdateNetLinkInfo\<close> returns true on every path. The identifier of a SIM card is handed on
  without its prefix; otherwise the one of the link information is kept.
\<close>

definition UpdateNetLinkInfo :: "string \<Rightarrow> NetSupplier \<Rightarrow> int \<times> NetSupplier" where
  "UpdateNetLinkInfo linkIdent s =
     (case network s of None \<Rightarrow> (NET_CONN_ERR_INVALID_NETWORK, s)
      | Some n \<Rightarrow>
          if \<not> IsAvailable s then (NET_CONN_ERR_INVALID_NETWORK, s)
          else
            let i = (if take (length ''simId'') (netSupplierIdent s) = ''simId'' then drop (length ''simId'') (netSupplierIdent s) else linkIdent);
                s1 = s\<lparr> network := Some (on_network (NetworkUpdateNetLinkInfo i) n) \<rparr>
            in (NETMANAGER_SUCCESS, Supplier_UpdateNetConnState NET_CONN_STATE_CONNECTED s1))"

definition SetDefault :: "NetSupplier \<Rightarrow> NetSupplier" where
  "SetDefault s = s\<lparr> network := map_option (on_network SetDefaultNetWork) (network s) \<rparr>"

definition ClearDefault :: "NetSupplier \<Rightarrow> NetSupplier" where
  "ClearDefault s = s\<lparr> network := map_option (on_network ClearDefaultNetWorkNetId) (network s) \<rparr>"

definition SetRestrictBackground :: "bool \<Rightarrow> NetSupplier \<Rightarrow> NetSupplier" where
  "SetRestrictBackground b s = s\<lparr> restrictBackground := b \<rparr>"

definition TechToType :: "int \<Rightarrow> string" where
  "TechToType tech = (if tech = 1 then ''2G'' else if tech = 9 \<or> tech = 10 then ''4G'' else ''3G'')"

definition GetSupplierType :: "NetSupplier \<Rightarrow> string" where
  "GetSupplierType s = (if slotType s = -1 then [] else TechToType (slotType s))"

section \<open>Vocabulary of the properties\<close>

text \<open>The capabilities a supplier decides with are those it announces, and all are valid.\<close>

definition caps_agree :: "NetSupplier \<Rightarrow> bool" where
  "caps_agree s = (ToSet (su_netCaps s) = nac_netCaps (netAllCapabilities s))"

text \<open>What a supplier offers: all but the bookkeeping of requests and the traces.\<close>

definition offer :: "NetSupplier \<Rightarrow> NetSupplier" where
  "offer s = s\<lparr> requestList := {}, bestReqList := {}, pendingRequest := NetRequest_default, su_calls := [],
                network := map_option (\<lambda>n. n\<lparr> nw_calls := [] \<rparr>) (network s) \<rparr>"

definition same_offer :: "NetSupplier \<Rightarrow> NetSupplier \<Rightarrow> bool" where
  "same_offer s s' = (offer s' = offer s)"

text \<open>Everything the service does to a supplier.\<close>

inductive supplier_step :: "NetSupplier \<Rightarrow> NetSupplier \<Rightarrow> bool" where
  su_detect: "SetNetValid st s = Some s' \<Longrightarrow> supplier_step s s'"
| su_done: "supplier_step s (SetDetectionDone s)"
| su_reset: "ResetNetSupplier s = Some s' \<Longrightarrow> supplier_step s s'"
| su_reuse: "IsValidNetCap cap \<Longrightarrow> supplier_step s (SetReuseCap cap add s)"
| su_caps: "caps \<subseteq> valid_caps \<Longrightarrow> supplier_step s (UpdateNetCap caps s)"
| su_score: "supplier_step s (InitNetScore s)"
| su_callback: "supplier_step s (RegisterSupplierCallback ans cb s)"
| su_connect: "supplier_step s (snd (RequestToConnect ans req s))"
| su_select: "supplier_step s (snd (SelectAsBestNetwork ans req s))"
| su_best: "supplier_step s (ReceiveBestScore ans score best req s)"
| su_cancel: "supplier_step s (snd (CancelRequest ans req s))"
| su_forget: "supplier_step s (RemoveBestRequest reqId s)"
| su_network: "supplier_step s (SetNetwork n s)"
| su_info: "supplier_step s (UpdateNetSupplierInfo info s)"
| su_link: "supplier_step s (snd (UpdateNetLinkInfo linkIdent s))"
| su_default: "supplier_step s (SetDefault s)"
| su_undefault: "supplier_step s (ClearDefault s)"
| su_restrict: "supplier_step s (SetRestrictBackground b s)"

inductive supplier_reachable :: "NetSupplier \<Rightarrow> bool" where
  su_new: "caps \<subseteq> valid_caps \<Longrightarrow> NetSupplier_ctor bearerType i caps sid = Some s \<Longrightarrow> supplier_reachable s"
| su_next: "supplier_reachable s \<Longrightarrow> supplier_step s s' \<Longrightarrow> supplier_reachable s'"

section \<open>Lemmas\<close>

lemma valid_consts [simp]:
  "IsValidNetCap NET_CAPABILITY_VALIDATED" "IsValidNetCap NET_CAPABILITY_PORTAL" "IsValidNetCap NET_CAPABILITY_CHECKING_CONNECTIVITY"
  by (simp_all add: valid_less)

lemma caps_agree_iff: "caps_agree s \<longleftrightarrow> mirror.same (su_netCaps s) (nac_netCaps (netAllCapabilities s)) \<and> nac_netCaps (netAllCapabilities s) \<subseteq> valid_caps"
  using HasNetCap_valid by (auto simp: caps_agree_def mirror.same_def ToSet_eq valid_caps_def)

lemma caps_agree_insert: "caps_agree s \<Longrightarrow> IsValidNetCap cap \<Longrightarrow> caps_agree (insert_cap cap s)"
  by (simp add: caps_agree_iff insert_cap_def mirror.same_ins) (simp add: valid_caps_def)

lemma caps_agree_remove: "caps_agree s \<Longrightarrow> IsValidNetCap cap \<Longrightarrow> caps_agree (remove_cap cap s)"
  by (auto simp: caps_agree_iff remove_cap_def mirror.same_del)

lemma caps_agree_fields [simp]:
  "caps_agree (s\<lparr> netQuality := q \<rparr>) = caps_agree s" "caps_agree (s\<lparr> su_isOnceSuppress := b \<rparr>) = caps_agree s"
  "caps_agree (s\<lparr> isAcceptUnvaliad := b \<rparr>) = caps_agree s" "caps_agree (s\<lparr> su_calls := cs \<rparr>) = caps_agree s"
  "caps_agree (s\<lparr> requestList := rs \<rparr>) = caps_agree s" "caps_agree (s\<lparr> bestReqList := rs \<rparr>) = caps_agree s"
  "caps_agree (s\<lparr> pendingRequest := r \<rparr>) = caps_agree s" "caps_agree (s\<lparr> netController := c \<rparr>) = caps_agree s"
  "caps_agree (s\<lparr> network := n \<rparr>) = caps_agree s" "caps_agree (s\<lparr> netHandle := h \<rparr>) = caps_agree s"
  "caps_agree (s\<lparr> restrictBackground := b \<rparr>) = caps_agree s" "caps_agree (s\<lparr> netScore := k \<rparr>) = caps_agree s"
  "caps_agree (s\<lparr> isFirstTimeDetectionDone := b \<rparr>) = caps_agree s" "caps_agree (s\<lparr> netExtAttribute := x \<rparr>) = caps_agree s"
  "caps_agree (s\<lparr> netSupplierInfo := i \<rparr>) = caps_agree s" "caps_agree (s\<lparr> netSupplierIdent := x \<rparr>) = caps_agree s"
  by (simp_all add: caps_agree_def)

lemma SetNetValid_agree:
  assumes "SetNetValid st s = Some s'" "caps_agree s"
  shows "caps_agree s'"
proof -
  note k = caps_agree_insert caps_agree_remove
  define s1 where "s1 = (if \<not> Supplier_HasNetCap NET_CAPABILITY_VALIDATED s then insert_cap NET_CAPABILITY_VALIDATED s else s)"
  have s1: "caps_agree s1" using assms(2) k by (simp add: s1_def)
  show ?thesis
  proof (cases "st = VERIFICATION_STATE")
    case True
    then show ?thesis using assms(1) caps_agree_remove [OF s1, of NET_CAPABILITY_PORTAL] s1
      by (auto simp: SetNetValid_def Let_def simp flip: s1_def split: option.splits if_splits)
  next
    case False
    then show ?thesis using assms k by (auto simp: SetNetValid_def Let_def SetOnceSuppress_def split: if_splits)
  qed
qed

lemma cap_sets:
  "IsValidNetCap cap \<Longrightarrow> ToSet (su_netCaps (insert_cap cap s)) = insert cap (ToSet (su_netCaps s))"
  "ToSet (su_netCaps (remove_cap cap s)) = ToSet (su_netCaps s) - {cap}"
  "nac_netCaps (netAllCapabilities (insert_cap cap s)) = insert cap (nac_netCaps (netAllCapabilities s))"
  "nac_netCaps (netAllCapabilities (remove_cap cap s)) = nac_netCaps (netAllCapabilities s) - {cap}"
  by (auto simp: insert_cap_def remove_cap_def ToSet_insert ToSet_remove valid_caps_def)

lemma Supplier_HasNetCap_set: "Supplier_HasNetCap cap s \<longleftrightarrow> cap \<in> ToSet (su_netCaps s)"
  by (simp add: Supplier_HasNetCap_def ToSet_eq)

text \<open>Verification of a network: what becomes of the two capability sets, and when the code fails.\<close>

lemma SetNetValid_verified:
  "SetNetValid VERIFICATION_STATE s = None \<longleftrightarrow> NET_CAPABILITY_PORTAL \<in> ToSet (su_netCaps s) \<and> network s = None"
  "SetNetValid VERIFICATION_STATE s = Some s' \<Longrightarrow> ToSet (su_netCaps s') = insert NET_CAPABILITY_VALIDATED (ToSet (su_netCaps s)) - {NET_CAPABILITY_PORTAL}"
  "SetNetValid VERIFICATION_STATE s = Some s' \<Longrightarrow> caps_agree (s\<lparr> su_netCaps := c \<rparr>) \<Longrightarrow> ToSet (su_netCaps s) = insert NET_CAPABILITY_CHECKING_CONNECTIVITY (ToSet c)
    \<Longrightarrow> nac_netCaps (netAllCapabilities s') = insert NET_CAPABILITY_VALIDATED (nac_netCaps (netAllCapabilities s)) - {NET_CAPABILITY_PORTAL}"
proof -
  define s1 where "s1 = (if \<not> Supplier_HasNetCap NET_CAPABILITY_VALIDATED s then insert_cap NET_CAPABILITY_VALIDATED s else s)"
  have e: "SetNetValid VERIFICATION_STATE s = (if Supplier_HasNetCap NET_CAPABILITY_PORTAL s1 then
      (case network s1 of None \<Rightarrow> None | Some n \<Rightarrow> Some ((remove_cap NET_CAPABILITY_PORTAL s1)\<lparr> su_calls := su_calls s1 @ [FlushDnsCache (nw_netId n)] \<rparr>)) else Some s1)"
    by (simp add: SetNetValid_def s1_def Let_def remove_cap_def split: option.split)
  have c1: "ToSet (su_netCaps s1) = insert NET_CAPABILITY_VALIDATED (ToSet (su_netCaps s))"
    by (auto simp: s1_def cap_sets Supplier_HasNetCap_set)
  have n1: "network s1 = network s" by (simp add: s1_def insert_cap_def)
  show "SetNetValid VERIFICATION_STATE s = None \<longleftrightarrow> NET_CAPABILITY_PORTAL \<in> ToSet (su_netCaps s) \<and> network s = None"
    by (simp add: e c1 n1 Supplier_HasNetCap_set split: option.split)
  have two: "s' = s1 \<and> \<not> Supplier_HasNetCap NET_CAPABILITY_PORTAL s1 \<or>
      su_netCaps s' = su_netCaps (remove_cap NET_CAPABILITY_PORTAL s1) \<and> netAllCapabilities s' = netAllCapabilities (remove_cap NET_CAPABILITY_PORTAL s1)"
    if "SetNetValid VERIFICATION_STATE s = Some s'"
    using that by (auto simp: e split: option.splits if_splits)
  show "ToSet (su_netCaps s') = insert NET_CAPABILITY_VALIDATED (ToSet (su_netCaps s)) - {NET_CAPABILITY_PORTAL}"
    if h: "SetNetValid VERIFICATION_STATE s = Some s'"
    using two [OF h]
  proof (elim disjE conjE)
    assume "s' = s1" "\<not> Supplier_HasNetCap NET_CAPABILITY_PORTAL s1"
    then show ?thesis using c1 by (simp add: Supplier_HasNetCap_set)
  qed (simp add: cap_sets c1)
  show "nac_netCaps (netAllCapabilities s') = insert NET_CAPABILITY_VALIDATED (nac_netCaps (netAllCapabilities s)) - {NET_CAPABILITY_PORTAL}"
    if h: "SetNetValid VERIFICATION_STATE s = Some s'" "caps_agree (s\<lparr> su_netCaps := c \<rparr>)"
      "ToSet (su_netCaps s) = insert NET_CAPABILITY_CHECKING_CONNECTIVITY (ToSet c)"
  proof -
    have n: "ToSet c = nac_netCaps (netAllCapabilities s)" using h(2) by (simp add: caps_agree_def)
    have v: "nac_netCaps (netAllCapabilities s1) = insert NET_CAPABILITY_VALIDATED (nac_netCaps (netAllCapabilities s))"
      using h(3) n by (auto simp: s1_def cap_sets Supplier_HasNetCap_set)
    have p: "Supplier_HasNetCap NET_CAPABILITY_PORTAL s1 \<longleftrightarrow> NET_CAPABILITY_PORTAL \<in> nac_netCaps (netAllCapabilities s)"
      using h(3) n by (simp add: Supplier_HasNetCap_set c1)
    show ?thesis using two [OF h(1)]
    proof (elim disjE conjE)
      assume "s' = s1" "\<not> Supplier_HasNetCap NET_CAPABILITY_PORTAL s1"
      then show ?thesis using v p by simp
    qed (simp add: cap_sets v)
  qed
qed

lemma ResetNetSupplier_None: "ResetNetSupplier s = None \<longleftrightarrow> NET_CAPABILITY_PORTAL \<in> ToSet (su_netCaps s) \<and> network s = None"
proof -
  let ?s1 = "s\<lparr> netQuality := QUALITY_NORMAL_STATE, isFirstTimeDetectionDone := False, isAcceptUnvaliad := False, su_isOnceSuppress := False,
    su_netCaps := InsertNetCap NET_CAPABILITY_CHECKING_CONNECTIVITY (su_netCaps s) \<rparr>"
  have "ResetNetSupplier s = None \<longleftrightarrow> SetNetValid VERIFICATION_STATE ?s1 = None"
    unfolding ResetNetSupplier_def Let_def by (cases "SetNetValid VERIFICATION_STATE ?s1") simp_all
  then show ?thesis using SetNetValid_verified(1) [of ?s1] by (simp add: ToSet_insert)
qed

lemma ResetNetSupplier_agree:
  assumes "ResetNetSupplier s = Some s'" "caps_agree s"
  shows "caps_agree s'"
proof -
  define s1 where "s1 = s\<lparr> netQuality := QUALITY_NORMAL_STATE, isFirstTimeDetectionDone := False, isAcceptUnvaliad := False, su_isOnceSuppress := False,
    su_netCaps := InsertNetCap NET_CAPABILITY_CHECKING_CONNECTIVITY (su_netCaps s) \<rparr>"
  obtain s2 where s2: "SetNetValid VERIFICATION_STATE s1 = Some s2"
    and s': "s' = s2\<lparr> netAllCapabilities := (netAllCapabilities s2)\<lparr> nac_netCaps :=
        insert NET_CAPABILITY_CHECKING_CONNECTIVITY (nac_netCaps (netAllCapabilities s2)) \<rparr>, netExtAttribute := [] \<rparr>"
    using assms(1) by (auto simp: ResetNetSupplier_def Let_def simp flip: s1_def split: option.splits)
  have a: "caps_agree (s1\<lparr> su_netCaps := su_netCaps s \<rparr>)" using assms(2) by (simp add: s1_def caps_agree_def)
  have c: "ToSet (su_netCaps s1) = insert NET_CAPABILITY_CHECKING_CONNECTIVITY (ToSet (su_netCaps s))"
    by (simp add: s1_def ToSet_insert valid_caps_def)
  have "nac_netCaps (netAllCapabilities s1) = ToSet (su_netCaps s)" using assms(2) by (simp add: s1_def caps_agree_def)
  then show ?thesis using SetNetValid_verified(2) [OF s2] SetNetValid_verified(3) [OF s2 a c] by (auto simp: caps_agree_def s' c)
qed

lemma same_offer_refl [simp]: "same_offer s s"
  by (simp add: same_offer_def)

lemma same_offer_fields [simp]:
  "same_offer s0 (s\<lparr> requestList := r \<rparr>) = same_offer s0 s" "same_offer s0 (s\<lparr> bestReqList := r \<rparr>) = same_offer s0 s"
  "same_offer s0 (s\<lparr> pendingRequest := q \<rparr>) = same_offer s0 s" "same_offer s0 (s\<lparr> su_calls := c \<rparr>) = same_offer s0 s"
  by (simp_all add: same_offer_def offer_def)

lemma same_offer_trans: "same_offer a b \<Longrightarrow> same_offer b c \<Longrightarrow> same_offer a c"
  by (simp add: same_offer_def)

lemma same_offer_connection:
  "same_offer s0 s \<Longrightarrow> same_offer s0 (snd (SupplierConnection ans caps req s))"
  "same_offer s0 s \<Longrightarrow> same_offer s0 (snd (SupplierDisconnection ans caps req s))"
  by (simp_all add: SupplierConnection_def SupplierDisconnection_def Let_def split: option.split)

lemma same_offer_requests:
  "same_offer s0 s \<Longrightarrow> same_offer s0 (snd (AddRequest ans req s))" "same_offer s0 s \<Longrightarrow> same_offer s0 (snd (RemoveRequest ans req s))"
  "same_offer s0 s \<Longrightarrow> same_offer s0 (AddBestRequest n s)" "same_offer s0 s \<Longrightarrow> same_offer s0 (RemoveBestRequest n s)"
  by (simp_all add: AddRequest_def RemoveRequest_def AddBestRequest_def RemoveBestRequest_def Let_def same_offer_connection)

lemma same_offer_ops:
  "same_offer s (snd (RequestToConnect ans req s))" "same_offer s (snd (SelectAsBestNetwork ans req s))"
  "same_offer s (ReceiveBestScore ans score best req s)" "same_offer s (snd (CancelRequest ans req s))" "same_offer s (RemoveBestRequest n s)"
  "same_offer s (SetDefault s)" "same_offer s (ClearDefault s)"
proof -
  show "same_offer s (SetDefault s)" "same_offer s (ClearDefault s)"
    by (cases "network s"; simp add: same_offer_def offer_def SetDefault_def ClearDefault_def on_network_def)+
  show "same_offer s (snd (RequestToConnect ans req s))" "same_offer s (snd (SelectAsBestNetwork ans req s))"
    "same_offer s (ReceiveBestScore ans score best req s)" "same_offer s (RemoveBestRequest n s)"
    by (simp_all add: RequestToConnect_def SelectAsBestNetwork_def ReceiveBestScore_def Let_def same_offer_requests)
  have "same_offer s (snd (RemoveRequest ans req (RemoveBestRequest (rq_requestId req) s)))" by (simp add: same_offer_requests)
  then show "same_offer s (snd (CancelRequest ans req s))" by (simp add: CancelRequest_def case_prod_beta)
qed

lemma same_offer_eq:
  assumes "same_offer s s'"
  shows "su_netCaps s' = su_netCaps s" "netAllCapabilities s' = netAllCapabilities s" "netSupplierType s' = netSupplierType s"
    "netSupplierIdent s' = netSupplierIdent s" "supplierId s' = supplierId s" "netScore s' = netScore s"
    "netHandle s' = netHandle s" "isFirstTimeDetectionDone s' = isFirstTimeDetectionDone s" "isAcceptUnvaliad s' = isAcceptUnvaliad s"
    "netQuality s' = netQuality s" "netSupplierInfo s' = netSupplierInfo s" "netController s' = netController s"
proof -
  have e: "offer s' = offer s" using assms by (simp add: same_offer_def)
  show "su_netCaps s' = su_netCaps s" "netAllCapabilities s' = netAllCapabilities s" "netSupplierType s' = netSupplierType s"
    using arg_cong [OF e, of su_netCaps] arg_cong [OF e, of netAllCapabilities] arg_cong [OF e, of netSupplierType] by (simp_all add: offer_def)
  show "netSupplierIdent s' = netSupplierIdent s" "supplierId s' = supplierId s" "netScore s' = netScore s"
    using arg_cong [OF e, of netSupplierIdent] arg_cong [OF e, of supplierId] arg_cong [OF e, of netScore] by (simp_all add: offer_def)
  show "netHandle s' = netHandle s" "isFirstTimeDetectionDone s' = isFirstTimeDetectionDone s" "isAcceptUnvaliad s' = isAcceptUnvaliad s"
    using arg_cong [OF e, of netHandle] arg_cong [OF e, of isFirstTimeDetectionDone] arg_cong [OF e, of isAcceptUnvaliad] by (simp_all add: offer_def)
  show "netQuality s' = netQuality s" "netSupplierInfo s' = netSupplierInfo s" "netController s' = netController s"
    using arg_cong [OF e, of netQuality] arg_cong [OF e, of netSupplierInfo] arg_cong [OF e, of netController] by (simp_all add: offer_def)
qed

lemma same_offer_queries:
  assumes "same_offer s s'"
  shows "IsConnected s' = IsConnected s" "GetRealScore s' = GetRealScore s" "Supplier_HasNetCap cap s' = Supplier_HasNetCap cap s"
    "Supplier_GetNetId s' = Supplier_GetNetId s" "caps_agree s' = caps_agree s"
proof -
  have off: "IsConnected (offer t) = IsConnected t" "Supplier_GetNetId (offer t) = Supplier_GetNetId t" for t
    by (cases "network t"; simp add: IsConnected_def Supplier_GetNetId_def offer_def)+
  show "IsConnected s' = IsConnected s" "Supplier_GetNetId s' = Supplier_GetNetId s"
    using off [of s] off [of s'] assms by (simp_all add: same_offer_def)
  show "GetRealScore s' = GetRealScore s" "Supplier_HasNetCap cap s' = Supplier_HasNetCap cap s" "caps_agree s' = caps_agree s"
    by (simp_all add: GetRealScore_def IsInFirstTimeDetecting_def IsNetValidated_def IsNetQualityPoor_def Supplier_HasNetCap_def
        caps_agree_def same_offer_eq [OF assms])
qed

lemma supplier_step_agree:
  assumes "supplier_step s s'" "caps_agree s"
  shows "caps_agree s'"
  using assms
proof (induction rule: supplier_step.induct)
  case (su_caps caps s)
  then show ?case by (auto simp: caps_agree_def UpdateNetCap_def NetCaps_ctor_eq)
next
  case (su_done s)
  let ?s1 = "if \<not> isFirstTimeDetectionDone s then s\<lparr> isFirstTimeDetectionDone := True \<rparr> else s"
  have "caps_agree ?s1" using su_done by simp
  then show ?case using caps_agree_remove [of ?s1] unfolding SetDetectionDone_def Let_def by simp
next
  case (su_callback s ans cb)
  have "caps_agree (snd (SupplierConnection ans caps req s))" if "caps_agree s" for caps req s
    using that by (simp add: SupplierConnection_def Let_def split: option.split)
  then show ?case using su_callback by (simp add: RegisterSupplierCallback_def Let_def)
next
  case (su_info s info)
  then show ?case by (simp add: UpdateNetSupplierInfo_def Supplier_UpdateNetConnState_def Let_def caps_agree_def split: option.split)
next
  case (su_link s linkIdent)
  then show ?case by (simp add: UpdateNetLinkInfo_def Supplier_UpdateNetConnState_def Let_def split: option.split)
next
  case (su_detect st s s')
  then show ?case by (blast intro: SetNetValid_agree)
next
  case (su_reset s s')
  then show ?case by (blast intro: ResetNetSupplier_agree)
qed (simp_all add: SetReuseCap_def caps_agree_insert caps_agree_remove InitNetScore_def same_offer_queries(5) [OF same_offer_ops(1)]
  same_offer_queries(5) [OF same_offer_ops(2)] same_offer_queries(5) [OF same_offer_ops(3)] same_offer_queries(5) [OF same_offer_ops(4)]
  same_offer_queries(5) [OF same_offer_ops(5)] SetNetwork_def Let_def SetDefault_def ClearDefault_def SetRestrictBackground_def split: option.split)

lemma NetSupplier_ctor_agree:
  assumes "NetSupplier_ctor bearerType i caps sid = Some s" "caps \<subseteq> valid_caps"
  shows "caps_agree s"
proof -
  obtain s0 s1 where s: "ResetNetSupplier s0 = Some s1" "s = InitNetScore s1" and s0: "su_netCaps s0 = NetCaps_ctor caps"
    "netAllCapabilities s0 = NetAllCapabilities_default\<lparr> nac_netCaps := caps, nac_bearerTypes := insert bearerType {} \<rparr>"
    using assms(1) by (auto simp: NetSupplier_ctor_def)
  have "caps_agree s0" using assms(2) by (auto simp: caps_agree_def s0 NetCaps_ctor_eq)
  from ResetNetSupplier_agree [OF s(1) this] show ?thesis by (simp add: s(2) InitNetScore_def split: option.split)
qed

lemma NetSupplier_ctor_None: "NetSupplier_ctor bearerType i caps sid = None \<longleftrightarrow> NET_CAPABILITY_PORTAL \<in> ToSet (NetCaps_ctor caps)"
  by (simp add: NetSupplier_ctor_def ResetNetSupplier_None)

lemma supplier_reachable_agree: "supplier_reachable s \<Longrightarrow> caps_agree s"
  by (induction rule: supplier_reachable.induct) (auto intro: NetSupplier_ctor_agree supplier_step_agree)

section \<open>Properties\<close>

text \<open>
  C27. A supplier keeps its capabilities twice, as a bit set for its decisions and as a set for what
  it announces to clients. In every state it reaches, by any sequence of detections, resets,
  requests and updates, the two hold the same capabilities, so that a query answers what was
  announced.
\<close>

theorem supplier_announces_its_caps:
  assumes "supplier_reachable s"
  shows "ToSet (su_netCaps s) = nac_netCaps (netAllCapabilities s)
    \<and> (HasNetCaps caps (su_netCaps s) \<longleftrightarrow> caps \<subseteq> nac_netCaps (netAllCapabilities s))
    \<and> nac_netCaps (netAllCapabilities s) \<subseteq> valid_caps"
proof -
  have a: "ToSet (su_netCaps s) = nac_netCaps (netAllCapabilities s)" using supplier_reachable_agree [OF assms] by (simp add: caps_agree_def)
  have "HasNetCaps caps (su_netCaps s) \<longleftrightarrow> caps \<subseteq> ToSet (su_netCaps s)" by (auto simp: HasNetCaps_def ToSet_eq)
  moreover have "ToSet (su_netCaps s) \<subseteq> valid_caps" using HasNetCap_valid by (auto simp: ToSet_eq valid_caps_def)
  ultimately show ?thesis using a by simp
qed

theorem supplier_announces_its_caps_witness:
  "\<exists>s. NetSupplier_ctor BEARER_WIFI ''wifi'' {NET_CAPABILITY_INTERNET} 1003 = Some s
     \<and> ToSet (su_netCaps (SetDetectionDone s)) = nac_netCaps (netAllCapabilities (SetDetectionDone s))"
proof -
  have "NET_CAPABILITY_PORTAL \<notin> ToSet (NetCaps_ctor {NET_CAPABILITY_INTERNET})" by (simp add: NetCaps_ctor_eq)
  then obtain s where s: "NetSupplier_ctor BEARER_WIFI ''wifi'' {NET_CAPABILITY_INTERNET} 1003 = Some s"
    using NetSupplier_ctor_None [of BEARER_WIFI "''wifi''" "{NET_CAPABILITY_INTERNET}" 1003] by fastforce
  have "supplier_reachable (SetDetectionDone s)"
    by (rule su_next [OF su_new [OF _ s] su_done]) (simp add: valid_caps_def valid_less)
  from supplier_announces_its_caps [OF this] show ?thesis using s by blast
qed

text \<open>
  Creating a supplier fails exactly if the announced capabilities contain \<open>NET_CAPABILITY_PORTAL\<close>:
  the constructor resets the supplier, the reset withdraws the portal capability and asks the
  network, which does not exist yet, for its identifier.
\<close>

theorem portal_supplier_crashes:
  "NetSupplier_ctor bearerType i caps sid = None \<longleftrightarrow> NET_CAPABILITY_PORTAL \<in> caps"
proof -
  have "NET_CAPABILITY_PORTAL \<in> ToSet (NetCaps_ctor caps) \<longleftrightarrow> NET_CAPABILITY_PORTAL \<in> caps"
    by (simp add: NetCaps_ctor_eq valid_caps_def)
  then show ?thesis by (simp add: NetSupplier_ctor_None)
qed

end
