(* ===== verification/Net_Activate.thy ===== *)
theory Net_Activate
  imports Net_Supplier
begin

text \<open>
  A request for a network (\<open>services/netconnmanager/src/net_activate.cpp\<close>): what the client asked
  for, its callback, and the supplier that serves it. Objects are shared through pointers: a
  request has an identity, and the supplier it points to is an address in the heap of
  suppliers.
\<close>

section \<open>Data\<close>

datatype CallbackType =
    CALL_TYPE_UNKNOWN | CALL_TYPE_AVAILABLE | CALL_TYPE_LOSTING | CALL_TYPE_LOST | CALL_TYPE_UPDATE_CAP | CALL_TYPE_UPDATE_LINK
  | CALL_TYPE_UNAVAILABLE | CALL_TYPE_BLOCK_STATUS

abbreviation DEFAULT_REQUEST_ID :: u32 where "DEFAULT_REQUEST_ID \<equiv> 0"
abbreviation MIN_REQUEST_ID :: u32 where "MIN_REQUEST_ID \<equiv> 1"
abbreviation MAX_REQUEST_ID :: u32 where "MAX_REQUEST_ID \<equiv> 0x7FFFFFFF"

record NetActivate =
  na_id :: nat
  netSpecifier :: "NetSpecifier option"
  netConnCallback :: "nat option"
  netServiceSupplied :: "nat option"
  timeoutMS :: u32
  netRequest :: NetRequest
  isAppFrozened :: bool
  lastCallbackType :: CallbackType
  lastNetId :: int
  isNotifyLostDelay :: bool
  notifyLostNetId :: int
  isFrozenedSkip :: bool
  needSkipLostDelay :: bool

text \<open>The constructor takes the next request identifier and returns the one after it.\<close>

definition next_request_id :: "u32 \<Rightarrow> u32" where
  "next_request_id g = (let g1 = g + 1 in if g1 > MAX_REQUEST_ID then MIN_REQUEST_ID else g1)"

definition NetActivate_ctor ::
  "nat \<Rightarrow> NetSpecifier option \<Rightarrow> nat option \<Rightarrow> u32 \<Rightarrow> u32 \<Rightarrow> u32 \<Rightarrow> u32 \<Rightarrow> NetActivate \<times> u32" where
  "NetActivate_ctor obj specifier callback timeout uid registerType nextId =
     (let r0 = NetRequest_ctor uid 0 registerType;
          r1 = (case specifier of None \<Rightarrow> r0
                | Some sp \<Rightarrow> r0\<lparr> rq_ident := sp_ident sp, rq_bearTypes := nac_bearerTypes (sp_caps sp), rq_netCaps := nac_netCaps (sp_caps sp) \<rparr>)
      in (\<lparr> na_id = obj, netSpecifier = specifier, netConnCallback = callback, netServiceSupplied = None, timeoutMS = timeout,
            netRequest = r1\<lparr> rq_requestId := nextId \<rparr>, isAppFrozened = False, lastCallbackType = CALL_TYPE_UNKNOWN, lastNetId = 0,
            isNotifyLostDelay = False, notifyLostNetId = 0, isFrozenedSkip = False, needSkipLostDelay = False \<rparr>,
          next_request_id nextId))"

abbreviation GetRequestId :: "NetActivate \<Rightarrow> u32" where "GetRequestId a \<equiv> rq_requestId (netRequest a)"
abbreviation GetUid :: "NetActivate \<Rightarrow> u32" where "GetUid a \<equiv> rq_uid (netRequest a)"

section \<open>Matching\<close>

definition CompareByNetworkIdent :: "NetSpecifier \<Rightarrow> string \<Rightarrow> NetBearType \<Rightarrow> bool \<Rightarrow> bool" where
  "CompareByNetworkIdent sp i bearerType skipCheckIdent =
     (if i = [] \<or> sp_ident sp = [] then True
      else if ''wifi'' = sp_ident sp then True
      else if i = sp_ident sp then True
      else if skipCheckIdent \<and> BEARER_WIFI = bearerType then True
      else False)"

definition CompareByNetworkCapabilities :: "NetCaps \<Rightarrow> NetActivate \<Rightarrow> bool" where
  "CompareByNetworkCapabilities c a =
     (case netSpecifier a of None \<Rightarrow> False
      | Some sp \<Rightarrow>
          let reqCaps = nac_netCaps (sp_caps sp) in
          if reqCaps = {} then HasNetCap NET_CAPABILITY_INTERNET c else HasNetCaps reqCaps c)"

definition CompareByNetworkNetType :: "NetBearType \<Rightarrow> NetActivate \<Rightarrow> bool" where
  "CompareByNetworkNetType bearerType a =
     (case netSpecifier a of None \<Rightarrow> False
      | Some sp \<Rightarrow>
          let reqTypes = nac_bearerTypes (sp_caps sp) in
          if reqTypes = {} then True else if bearerType \<notin> reqTypes then False else True)"

definition CompareByNetworkBand :: "NetSpecifier \<Rightarrow> u32 \<Rightarrow> u32 \<Rightarrow> bool" where
  "CompareByNetworkBand sp netLinkUpBand netLinkDownBand =
     (netLinkUpBand \<ge> linkUpBandwidthKbps (sp_caps sp) \<and> netLinkDownBand \<ge> linkDownBandwidthKbps (sp_caps sp))"

text \<open>The comparisons without a check for a null specifier come after those that have one.\<close>

definition MatchRequestAndNetwork :: "NetSupplier \<Rightarrow> bool \<Rightarrow> NetActivate \<Rightarrow> bool" where
  "MatchRequestAndNetwork s skipCheckIdent a =
     (if \<not> CompareByNetworkCapabilities (su_netCaps s) a then False
      else if \<not> CompareByNetworkNetType (netSupplierType s) a then False
      else case netSpecifier a of None \<Rightarrow> False
      | Some sp \<Rightarrow>
          if \<not> CompareByNetworkIdent sp (netSupplierIdent s) (netSupplierType s) skipCheckIdent then False
          else if \<not> CompareByNetworkBand sp (linkUpBandwidthKbps (netAllCapabilities s)) (linkDownBandwidthKbps (netAllCapabilities s)) then False
          else True)"

definition HaveCapability :: "NetCap \<Rightarrow> NetActivate \<Rightarrow> bool" where
  "HaveCapability cap a = (case netSpecifier a of None \<Rightarrow> False | Some sp \<Rightarrow> cap \<in> nac_netCaps (sp_caps sp))"

definition HaveTypes :: "NetBearType set \<Rightarrow> NetActivate \<Rightarrow> bool" where
  "HaveTypes types a =
     (case netSpecifier a of None \<Rightarrow> False
      | Some sp \<Rightarrow> if \<exists>t \<in> types. t \<notin> nac_bearerTypes (sp_caps sp) then False else card types > 0)"

definition CheckTypes :: "NetBearType set \<Rightarrow> NetActivate \<Rightarrow> bool" where
  "CheckTypes types a =
     (case netSpecifier a of None \<Rightarrow> False
      | Some sp \<Rightarrow> BEARER_WIFI \<notin> nac_bearerTypes (sp_caps sp) \<and> HaveTypes types a)"

section \<open>Callbacks\<close>

definition SetLastCallbackType :: "CallbackType \<Rightarrow> NetActivate \<Rightarrow> NetActivate" where
  "SetLastCallbackType type a =
     (if (type = CALL_TYPE_UPDATE_CAP \<or> type = CALL_TYPE_UPDATE_LINK) \<and> lastCallbackType a = CALL_TYPE_AVAILABLE then a
      else a\<lparr> lastCallbackType := type \<rparr>)"

text \<open>
  Whether a callback may go out. The parameters are the two global switches, whether the application is
  in the foreground, and the handle of the supplier that serves the request.
\<close>

definition IsAllowCallback :: "bool \<Rightarrow> bool \<Rightarrow> int option \<Rightarrow> CallbackType \<Rightarrow> NetActivate \<Rightarrow> bool \<times> NetActivate" where
  "IsAllowCallback limitation isForegroundApp handle type a =
     (if limitation \<and> isAppFrozened a \<and> \<not> isForegroundApp then
        let a1 = (if lastCallbackType a \<noteq> CALL_TYPE_LOST \<and> type = CALL_TYPE_LOST \<and> lastNetId a = 0 \<and> netServiceSupplied a \<noteq> None
                  then (case handle of None \<Rightarrow> a | Some n \<Rightarrow> a\<lparr> lastNetId := n \<rparr>) else a)
        in (False, SetLastCallbackType type a1)
      else if isNotifyLostDelay a \<and> type = CALL_TYPE_LOST then (False, a)
      else (True, a\<lparr> isNotifyLostDelay := False, notifyLostNetId := 0 \<rparr>))"

section \<open>Lemmas\<close>

text \<open>Matching looks only at what a supplier offers.\<close>

lemma Match_offer: "same_offer s s' \<Longrightarrow> MatchRequestAndNetwork s' b a = MatchRequestAndNetwork s b a"
  by (simp add: MatchRequestAndNetwork_def same_offer_eq cong: option.case_cong)

text \<open>Matching looks only at the specifier of a request.\<close>

lemma Match_specifier: "netSpecifier a' = netSpecifier a \<Longrightarrow> MatchRequestAndNetwork s b a' = MatchRequestAndNetwork s b a"
  by (simp add: MatchRequestAndNetwork_def CompareByNetworkCapabilities_def CompareByNetworkNetType_def)

lemma next_request_id_range: "MIN_REQUEST_ID \<le> next_request_id g \<and> next_request_id g \<le> MAX_REQUEST_ID \<or> next_request_id g = 0 \<and> g = - 1"
proof (cases "g = - 1")
  case False
  then have "1 \<le> g + 1" by (simp add: word_le_nat_alt unat_plus_simple unat_gt_0 eq_neg_iff_add_eq_0 Suc_le_eq)
  then show ?thesis by (auto simp: next_request_id_def Let_def not_less)
qed (simp add: next_request_id_def)

end
