(* ===== verification/Conn_Service.thy ===== *)
theory Conn_Service
  imports Net_Activate
begin

text \<open>
  The connection service (\<open>services/netconnmanager/src/net_conn_service.cpp\<close>): registration of
  suppliers and of requests, and the choice of the network that serves each request. Suppliers
  are objects in a heap, which the map of registered suppliers, the requests and the default
  supplier point to. The calls on the clients and on the daemon are a trace.

  The handlers run one after the other on the event thread of the service, so each is one step.
  The event handler exists, as after \<open>Init\<close>. The callback of a request is the client's own, as in a
  build without \<open>ENABLE_SET_APP_FROZENED\<close>. HTTP proxies, death recipients, fault reports and the
  timer queue are not modelled; what a timer starts is an operation of its own.
\<close>

section \<open>State\<close>

datatype client_call =
    NetAvailable nat "int option"
  | NetCapabilitiesChange nat "int option" NetAllCapabilities
  | NetConnectionPropertiesChange nat "int option"
  | NetLost nat "int option"
  | NetUnavailable nat
  | NotifyNetBearerTypeChange_call "NetBearType set"

record conn_service =
  cs_heap :: "NetSupplier list"
  cs_netSuppliers :: "(u32, nat) omap"
  cs_activates :: "(u32, NetActivate list) omap"
  cs_defaultNetActivate :: "nat option"
  cs_defaultNetSupplier :: "nat option"
  cs_netUidRequest :: "(u32, u32) omap"
  cs_internalDefaultUidRequest :: "(u32, u32) omap"
  cs_nextNetSupplierId :: u32
  cs_nextRequestId :: u32
  cs_nextActivate :: nat
  cs_netIdLastValue :: int
  cs_internalNetIdLastValue :: int
  cs_prevNetSupplierType :: NetBearType
  cs_notifyLostDelayCache :: "int set"
  cs_uidLostDelaySet :: "u32 set"
  cs_isDelayHandleFindBestNetwork :: bool
  cs_delaySupplierId :: u32
  cs_calls :: "client_call list"

text \<open>The surroundings: the answers of the suppliers, the control function for requests, two system parameters.\<close>

record conn_env =
  ce_answers :: answers
  ce_controlled :: "NetRequest \<Rightarrow> bool"
  ce_mmsDisabled :: bool
  ce_delayWifi :: bool

abbreviation MIN_NET_ID :: int where "MIN_NET_ID \<equiv> 100"
abbreviation MAX_NET_ID :: int where "MAX_NET_ID \<equiv> 0xFFFF - 0x400"
abbreviation MIN_INTERNAL_NET_ID :: int where "MIN_INTERNAL_NET_ID \<equiv> 1"
abbreviation MAX_INTERNAL_NET_ID :: int where "MAX_INTERNAL_NET_ID \<equiv> 50"
abbreviation INVALID_NET_ID :: int where "INVALID_NET_ID \<equiv> 0"
abbreviation MAX_ALLOW_UID_NUM :: u32 where "MAX_ALLOW_UID_NUM \<equiv> 2000"
abbreviation UID_NET_MANAGER :: u32 where "UID_NET_MANAGER \<equiv> 1099"

abbreviation NETMANAGER_ERR_INVALID_PARAMETER :: int where "NETMANAGER_ERR_INVALID_PARAMETER \<equiv> 2100001"
abbreviation NET_CONN_ERR_NET_TYPE_NOT_FOUND :: int where "NET_CONN_ERR_NET_TYPE_NOT_FOUND \<equiv> 2101003"
abbreviation NET_CONN_ERR_CALLBACK_NOT_FOUND :: int where "NET_CONN_ERR_CALLBACK_NOT_FOUND \<equiv> 2101007"
abbreviation NET_CONN_ERR_SAME_CALLBACK :: int where "NET_CONN_ERR_SAME_CALLBACK \<equiv> 2101008"
abbreviation NET_CONN_ERR_SERVICE_UPDATE_NET_LINK_INFO_FAIL :: int where "NET_CONN_ERR_SERVICE_UPDATE_NET_LINK_INFO_FAIL \<equiv> 2101015"
abbreviation NET_CONN_ERR_NO_SUPPLIER :: int where "NET_CONN_ERR_NO_SUPPLIER \<equiv> 2101016"
abbreviation NET_CONN_ERR_NET_OVER_MAX_REQUEST_NUM :: int where "NET_CONN_ERR_NET_OVER_MAX_REQUEST_NUM \<equiv> 2101022"
abbreviation NET_CONN_ERR_POLICY_DISABLED :: int where "NET_CONN_ERR_POLICY_DISABLED \<equiv> 2101024"

definition conn_start :: conn_service where
  "conn_start =
     \<lparr> cs_heap = [], cs_netSuppliers = [], cs_activates = [], cs_defaultNetActivate = None, cs_defaultNetSupplier = None,
       cs_netUidRequest = [], cs_internalDefaultUidRequest = [], cs_nextNetSupplierId = 0x3EB, cs_nextRequestId = MIN_REQUEST_ID,
       cs_nextActivate = 0, cs_netIdLastValue = MIN_NET_ID - 1, cs_internalNetIdLastValue = MIN_INTERNAL_NET_ID,
       cs_prevNetSupplierType = BEARER_DEFAULT, cs_notifyLostDelayCache = {}, cs_uidLostDelaySet = {},
       cs_isDelayHandleFindBestNetwork = False, cs_delaySupplierId = 0, cs_calls = [] \<rparr>"

definition on_supplier :: "nat \<Rightarrow> (NetSupplier \<Rightarrow> NetSupplier) \<Rightarrow> conn_service \<Rightarrow> conn_service" where
  "on_supplier a f s = s\<lparr> cs_heap := (cs_heap s)[a := f (cs_heap s ! a)] \<rparr>"

definition call_client :: "client_call \<Rightarrow> conn_service \<Rightarrow> conn_service" where
  "call_client c s = s\<lparr> cs_calls := cs_calls s @ [c] \<rparr>"

definition GetDefaultNetSupplierType :: "conn_service \<Rightarrow> NetBearType" where
  "GetDefaultNetSupplierType s = (case cs_defaultNetSupplier s of None \<Rightarrow> BEARER_DEFAULT | Some a \<Rightarrow> netSupplierType (cs_heap s ! a))"

definition GetDefaultNetSupplierId :: "conn_service \<Rightarrow> u32" where
  "GetDefaultNetSupplierId s = (case cs_defaultNetSupplier s of None \<Rightarrow> 0 | Some a \<Rightarrow> supplierId (cs_heap s ! a))"

definition FindNetSupplier :: "u32 \<Rightarrow> conn_service \<Rightarrow> nat option" where
  "FindNetSupplier sid s = om_get (cs_netSuppliers s) sid"

definition FindNetwork :: "int \<Rightarrow> conn_service \<Rightarrow> Network option" where
  "FindNetwork netId s =
     (case find (\<lambda>e. Supplier_GetNetId (cs_heap s ! snd e) = netId) (cs_netSuppliers s) of
        None \<Rightarrow> None | Some e \<Rightarrow> network (cs_heap s ! snd e))"

definition GetNetSupplierFromList :: "NetBearType \<Rightarrow> string \<Rightarrow> NetCap set \<Rightarrow> conn_service \<Rightarrow> nat option" where
  "GetNetSupplierFromList bearerType i caps s =
     map_option snd (find (\<lambda>e. let su = cs_heap s ! snd e in
       bearerType = netSupplierType su \<and> i = netSupplierIdent su \<and> CompareNetCaps caps su) (cs_netSuppliers s))"

section \<open>Network identifiers\<close>

fun generate_loop :: "nat \<Rightarrow> conn_service \<Rightarrow> int \<times> conn_service" where
  "generate_loop 0 s = (INVALID_NET_ID, s)"
| "generate_loop (Suc n) s =
     (let v = cs_netIdLastValue s + 1; v = (if v > MAX_NET_ID then MIN_NET_ID else v); s1 = s\<lparr> cs_netIdLastValue := v \<rparr> in
      if FindNetwork v s1 = None then (v, s1) else generate_loop n s1)"

definition GenerateNetId :: "conn_service \<Rightarrow> int \<times> conn_service" where
  "GenerateNetId s = generate_loop (nat (MAX_NET_ID - MIN_NET_ID + 1)) s"

fun generate_internal_loop :: "nat \<Rightarrow> conn_service \<Rightarrow> int \<times> conn_service" where
  "generate_internal_loop 0 s = (INVALID_NET_ID, s)"
| "generate_internal_loop (Suc n) s =
     (let v = cs_internalNetIdLastValue s; s1 = s\<lparr> cs_internalNetIdLastValue := v + 1 \<rparr>;
          s2 = (if v > MAX_INTERNAL_NET_ID then s1\<lparr> cs_internalNetIdLastValue := MIN_INTERNAL_NET_ID \<rparr> else s1);
          value = (if v > MAX_INTERNAL_NET_ID then MIN_INTERNAL_NET_ID else v)
      in if FindNetwork value s2 = None then (value, s2) else generate_internal_loop n s2)"

definition GenerateInternalNetId :: "conn_service \<Rightarrow> int \<times> conn_service" where
  "GenerateInternalNetId s = generate_internal_loop (nat (MAX_INTERNAL_NET_ID - MIN_INTERNAL_NET_ID + 1)) s"

section \<open>The best network\<close>

fun best_loop :: "NetSupplier list \<Rightarrow> NetActivate \<Rightarrow> (u32 \<times> nat) list \<Rightarrow> int \<times> nat option \<Rightarrow> int \<times> nat option" where
  "best_loop h a [] acc = acc"
| "best_loop h a (e # es) acc =
     (let su = h ! snd e in
      if \<not> IsConnected su \<or> \<not> MatchRequestAndNetwork su False a then best_loop h a es acc
      else
        let score = GetRealScore su in
        best_loop h a es (if score > fst acc then (score, Some (snd e)) else acc))"

definition FindBestNetworkForRequest :: "NetActivate \<Rightarrow> conn_service \<Rightarrow> int \<times> nat option" where
  "FindBestNetworkForRequest a s = best_loop (cs_heap s) a (cs_netSuppliers s) (0, None)"

definition MakeDefaultNetWork :: "nat option \<Rightarrow> conn_service \<Rightarrow> conn_service" where
  "MakeDefaultNetWork new s =
     (if cs_defaultNetSupplier s = new then s
      else
        let s1 = (case cs_defaultNetSupplier s of None \<Rightarrow> s | Some old \<Rightarrow> on_supplier old ClearDefault s);
            s2 = (case new of None \<Rightarrow> s1 | Some n \<Rightarrow> on_supplier n SetDefault s1)
        in s2\<lparr> cs_defaultNetSupplier := new \<rparr>)"

fun send_request_loop :: "conn_env \<Rightarrow> NetActivate \<Rightarrow> (u32 \<times> nat) list \<Rightarrow> conn_service \<Rightarrow> conn_service" where
  "send_request_loop e a [] s = s"
| "send_request_loop e a (x # xs) s =
     send_request_loop e a xs
       (if \<not> MatchRequestAndNetwork (cs_heap s ! snd x) True a then s
        else on_supplier (snd x) (\<lambda>su. snd (RequestToConnect (ce_answers e) (netRequest a) su)) s)"

definition SendRequestToAllNetwork :: "conn_env \<Rightarrow> NetActivate \<Rightarrow> conn_service \<Rightarrow> conn_service" where
  "SendRequestToAllNetwork e a s = (if netSpecifier a = None then s else send_request_loop e a (cs_netSuppliers s) s)"

fun best_score_loop :: "conn_env \<Rightarrow> int \<Rightarrow> u32 \<Rightarrow> NetRequest \<Rightarrow> (u32 \<times> nat) list \<Rightarrow> conn_service \<Rightarrow> conn_service" where
  "best_score_loop e score sid req [] s = s"
| "best_score_loop e score sid req (x # xs) s =
     best_score_loop e score sid req xs
       (if Supplier_HasNetCap NET_CAPABILITY_INTERNAL_DEFAULT (cs_heap s ! snd x) then s
        else on_supplier (snd x) (ReceiveBestScore (ce_answers e) score sid req) s)"

definition SendBestScoreAllNetwork :: "conn_env \<Rightarrow> u32 \<Rightarrow> int \<Rightarrow> u32 \<Rightarrow> NetBearType \<Rightarrow> u32 \<Rightarrow> conn_service \<Rightarrow> conn_service" where
  "SendBestScoreAllNetwork e reqId bestScore sid supplierType uid s =
     best_score_loop e bestScore sid (NetRequest_default\<lparr> rq_uid := uid, rq_requestId := reqId, rq_bearTypes := {supplierType} \<rparr>)
       (cs_netSuppliers s) s"

definition CallbackForAvailable :: "nat \<Rightarrow> nat option \<Rightarrow> conn_service \<Rightarrow> conn_service" where
  "CallbackForAvailable a callback s =
     (case callback of None \<Rightarrow> s
      | Some cb \<Rightarrow>
          let su = cs_heap s ! a in
          call_client (NotifyNetBearerTypeChange_call (nac_bearerTypes (netAllCapabilities su)))
            (call_client (NetConnectionPropertiesChange cb (netHandle su))
              (call_client (NetCapabilitiesChange cb (netHandle su) (netAllCapabilities su))
                (call_client (NetAvailable cb (netHandle su)) s))))"

section \<open>Walking over the requests\<close>

text \<open>The nested loops over \<open>netUidActivates_\<close>; the body updates the request and the rest of the state.\<close>

fun each :: "(NetActivate \<Rightarrow> conn_service \<Rightarrow> NetActivate \<times> conn_service) \<Rightarrow> NetActivate list \<Rightarrow> conn_service \<Rightarrow> NetActivate list \<times> conn_service" where
  "each f [] s = ([], s)"
| "each f (a # as) s = (case f a s of (a', s1) \<Rightarrow> case each f as s1 of (as', s2) \<Rightarrow> (a' # as', s2))"

fun each_uid :: "(u32 \<Rightarrow> NetActivate \<Rightarrow> conn_service \<Rightarrow> NetActivate \<times> conn_service) \<Rightarrow> (u32, NetActivate list) omap \<Rightarrow> conn_service
    \<Rightarrow> (u32, NetActivate list) omap \<times> conn_service" where
  "each_uid f [] s = ([], s)"
| "each_uid f ((uid, as) # m) s = (case each (f uid) as s of (as', s1) \<Rightarrow> case each_uid f m s1 of (m', s2) \<Rightarrow> ((uid, as') # m', s2))"

definition for_activates :: "(u32 \<Rightarrow> NetActivate \<Rightarrow> conn_service \<Rightarrow> NetActivate \<times> conn_service) \<Rightarrow> conn_service \<Rightarrow> conn_service" where
  "for_activates f s = (case each_uid f (cs_activates s) s of (m, s') \<Rightarrow> s'\<lparr> cs_activates := m \<rparr>)"

section \<open>Notifications\<close>

definition FindNotifyLostDelayCache :: "int \<Rightarrow> conn_service \<Rightarrow> bool" where
  "FindNotifyLostDelayCache netId s = (netId \<in> cs_notifyLostDelayCache s)"

definition CheckNotifyLostDelay :: "NetActivate \<Rightarrow> CallbackType \<Rightarrow> conn_service \<Rightarrow> bool" where
  "CheckNotifyLostDelay a type s =
     (if type \<noteq> CALL_TYPE_LOST then False
      else if GetUid a \<notin> cs_uidLostDelaySet s \<and> \<not> needSkipLostDelay a then False
      else True)"

definition HandleNotifyLostDelay :: "int \<Rightarrow> conn_service \<Rightarrow> conn_service" where
  "HandleNotifyLostDelay netId =
     for_activates (\<lambda>uid a s.
       if uid \<notin> cs_uidLostDelaySet s \<and> \<not> needSkipLostDelay a then (a, s)
       else
         let a1 = (if isNotifyLostDelay a \<and> notifyLostNetId a = netId then a\<lparr> isNotifyLostDelay := False, notifyLostNetId := 0 \<rparr> else a) in
         if netServiceSupplied a1 \<noteq> None then (a1, s)
         else case netConnCallback a1 of None \<Rightarrow> (a1, s) | Some cb \<Rightarrow> (a1, call_client (NetLost cb (Some netId)) s))"

definition StopNotifyLostDelay :: "int \<Rightarrow> conn_service \<Rightarrow> conn_service" where
  "StopNotifyLostDelay netId s = HandleNotifyLostDelay netId (s\<lparr> cs_notifyLostDelayCache := cs_notifyLostDelayCache s - {netId} \<rparr>)"

definition StartNotifyLostDelay :: "int \<Rightarrow> conn_service \<Rightarrow> conn_service" where
  "StartNotifyLostDelay netId s = s\<lparr> cs_notifyLostDelayCache := insert netId (cs_notifyLostDelayCache s) \<rparr>"

definition UpdateUidLostDelay :: "u32 set \<Rightarrow> conn_service \<Rightarrow> int \<times> conn_service" where
  "UpdateUidLostDelay uids s = (NETMANAGER_SUCCESS, s\<lparr> cs_uidLostDelaySet := uids \<rparr>)"

text \<open>\<open>NetBlockStatusChange\<close> asks the policy service and is not modelled; no handler below uses it.\<close>

definition HandleCallback :: "nat \<Rightarrow> nat \<Rightarrow> CallbackType \<Rightarrow> conn_service \<Rightarrow> conn_service" where
  "HandleCallback a cb type s =
     (let su = cs_heap s ! a in
      case type of
        CALL_TYPE_LOST \<Rightarrow> call_client (NetLost cb (netHandle su)) s
      | CALL_TYPE_UPDATE_CAP \<Rightarrow> call_client (NetCapabilitiesChange cb (netHandle su) (netAllCapabilities su)) s
      | CALL_TYPE_UPDATE_LINK \<Rightarrow> call_client (NetConnectionPropertiesChange cb (netHandle su)) s
      | CALL_TYPE_UNAVAILABLE \<Rightarrow> call_client (NetUnavailable cb) s
      | _ \<Rightarrow> s)"

definition CallbackForSupplier :: "nat \<Rightarrow> CallbackType \<Rightarrow> conn_service \<Rightarrow> conn_service" where
  "CallbackForSupplier x type =
     for_activates (\<lambda>uid a s.
       let su = cs_heap s ! x; netId = Supplier_GetNetId su in
       case netConnCallback a of None \<Rightarrow> (a, s)
       | Some cb \<Rightarrow>
           if \<not> HasBestRequest (GetRequestId a) su then (a, s)
           else if FindNotifyLostDelayCache netId s \<and> CheckNotifyLostDelay a type s
           then (a\<lparr> isNotifyLostDelay := True, notifyLostNetId := netId \<rparr>, s)
           else (a, HandleCallback x cb type s))"

definition NotFindBestSupplier :: "conn_env \<Rightarrow> NetActivate \<Rightarrow> nat option \<Rightarrow> conn_service \<Rightarrow> NetActivate \<times> conn_service" where
  "NotFindBestSupplier e a supplier s =
     (case (case supplier of None \<Rightarrow> (a, s)
            | Some x \<Rightarrow>
                let s1 = on_supplier x (RemoveBestRequest (GetRequestId a)) s in
                case netConnCallback a of None \<Rightarrow> (a, s1)
                | Some cb \<Rightarrow>
                    let su = cs_heap s1 ! x; netId = Supplier_GetNetId su in
                    if FindNotifyLostDelayCache netId s1 \<and> CheckNotifyLostDelay a CALL_TYPE_LOST s1
                    then (a\<lparr> isNotifyLostDelay := True, notifyLostNetId := netId \<rparr>, s1)
                    else (a, call_client (NetLost cb (netHandle su)) s1))
      of (a1, s2) \<Rightarrow>
        let a2 = a1\<lparr> netServiceSupplied := None \<rparr> in (a2, SendRequestToAllNetwork e a2 s2))"

section \<open>Serving all requests\<close>

definition find_best_one :: "conn_env \<Rightarrow> u32 \<Rightarrow> NetActivate \<Rightarrow> conn_service \<Rightarrow> NetActivate \<times> conn_service" where
  "find_best_one e uid a s =
     (if isFrozenedSkip a \<and> isAppFrozened a then (a, s)
      else case FindBestNetworkForRequest a s of (score, best) \<Rightarrow>
        let s1 = (if cs_defaultNetActivate s = Some (na_id a) then MakeDefaultNetWork best s else s) in
        case best of None \<Rightarrow> NotFindBestSupplier e a (netServiceSupplied a) s1
        | Some b \<Rightarrow>
            let a1 = a\<lparr> needSkipLostDelay := False \<rparr>;
                s2 = SendBestScoreAllNetwork e (GetRequestId a) score (supplierId (cs_heap s1 ! b)) (netSupplierType (cs_heap s1 ! b)) (GetUid a) s1;
                s3 = on_supplier b (\<lambda>su. snd (SelectAsBestNetwork (ce_answers e) (netRequest a) su)) s2
            in if netServiceSupplied a = Some b then (a1, s3)
               else
                 let s4 = (case netServiceSupplied a of None \<Rightarrow> s3 | Some old \<Rightarrow> on_supplier old (RemoveBestRequest (GetRequestId a)) s3)
                 in (a1\<lparr> netServiceSupplied := Some b \<rparr>, CallbackForAvailable b (netConnCallback a) s4))"

definition NotifyNetBearerTypeChange :: "conn_service \<Rightarrow> conn_service" where
  "NotifyNetBearerTypeChange s =
     (let t = GetDefaultNetSupplierType s in
      if t = BEARER_DEFAULT \<or> cs_prevNetSupplierType s = t then s
      else call_client (NotifyNetBearerTypeChange_call {t}) (s\<lparr> cs_prevNetSupplierType := t \<rparr>))"

definition FindBestNetworkForAllRequest :: "conn_env \<Rightarrow> conn_service \<Rightarrow> conn_service" where
  "FindBestNetworkForAllRequest e s = NotifyNetBearerTypeChange (for_activates (find_best_one e) s)"

section \<open>Clients\<close>

definition CreateDefaultRequest :: "conn_service \<Rightarrow> conn_service" where
  "CreateDefaultRequest s =
     (if cs_defaultNetActivate s \<noteq> None then s
      else
        let sp = SetCapabilities {NET_CAPABILITY_INTERNET, NET_CAPABILITY_NOT_VPN} NetSpecifier_default;
            created = NetActivate_ctor (cs_nextActivate s) (Some sp) None 0 0 REQUEST (cs_nextRequestId s);
            a = fst created; g = snd created;
            a1 = a\<lparr> netRequest := (netRequest a)\<lparr> rq_requestId := DEFAULT_REQUEST_ID \<rparr> \<rparr>;
            old = (case om_get (cs_activates s) UID_NET_MANAGER of None \<Rightarrow> [] | Some as \<Rightarrow> as)
        in s\<lparr> cs_defaultNetActivate := Some (na_id a1), cs_nextActivate := Suc (cs_nextActivate s), cs_nextRequestId := g,
              cs_activates := om_put UID_NET_MANAGER (old @ [a1]) (cs_activates s) \<rparr>)"

definition register_type :: "NetSpecifier option \<Rightarrow> u32" where
  "register_type specifier =
     (case specifier of None \<Rightarrow> REGISTER
      | Some sp \<Rightarrow>
          if NET_CAPABILITY_INTERNAL_DEFAULT \<in> nac_netCaps (sp_caps sp) \<or> BEARER_CELLULAR \<in> nac_bearerTypes (sp_caps sp) then REQUEST else REGISTER)"

text \<open>The request with a given callback: its identifier, its recomputed type and its uid.\<close>

definition FindSameCallback :: "nat \<Rightarrow> conn_service \<Rightarrow> (u32 \<times> u32 \<times> u32) option" where
  "FindSameCallback callback s =
     map_option (\<lambda>a. (GetRequestId a, register_type (netSpecifier a), GetUid a))
       (find (\<lambda>a. netConnCallback a = Some callback) (concat (map snd (cs_activates s))))"

definition IncreaseNetConnCallbackCntForUid :: "u32 \<Rightarrow> u32 \<Rightarrow> conn_service \<Rightarrow> int \<times> conn_service" where
  "IncreaseNetConnCallbackCntForUid uid registerType s =
     (let m = (if registerType = REGISTER then cs_netUidRequest s else cs_internalDefaultUidRequest s);
          upd = (\<lambda>m'. if registerType = REGISTER then s\<lparr> cs_netUidRequest := m' \<rparr> else s\<lparr> cs_internalDefaultUidRequest := m' \<rparr>)
      in case om_get m uid of
           None \<Rightarrow> (NETMANAGER_SUCCESS, upd (om_put uid 1 m))
         | Some n \<Rightarrow> if n \<ge> MAX_ALLOW_UID_NUM then (NET_CONN_ERR_NET_OVER_MAX_REQUEST_NUM, s) else (NETMANAGER_SUCCESS, upd (om_put uid (n + 1) m)))"

definition DecreaseNetConnCallbackCntForUid :: "u32 \<Rightarrow> u32 \<Rightarrow> conn_service \<Rightarrow> conn_service" where
  "DecreaseNetConnCallbackCntForUid uid registerType s =
     (let m = (if registerType = REGISTER then cs_netUidRequest s else cs_internalDefaultUidRequest s);
          upd = (\<lambda>m'. if registerType = REGISTER then s\<lparr> cs_netUidRequest := m' \<rparr> else s\<lparr> cs_internalDefaultUidRequest := m' \<rparr>)
      in case om_get m uid of
           None \<Rightarrow> s
         | Some n \<Rightarrow> let n1 = (if n \<ge> 1 then n - 1 else n) in if n1 = 0 then upd (om_del uid m) else upd (om_put uid n1 m))"

definition ActivateNetwork :: "conn_env \<Rightarrow> NetSpecifier \<Rightarrow> nat \<Rightarrow> u32 \<Rightarrow> u32 \<Rightarrow> u32 \<Rightarrow> conn_service \<Rightarrow> int \<times> conn_service" where
  "ActivateNetwork e sp callback timeout registerType uid s =
     (let created = NetActivate_ctor (cs_nextActivate s) (Some sp) (Some callback) timeout uid registerType (cs_nextRequestId s);
          a0 = fst created; g = snd created;
          a = a0\<lparr> netRequest := (netRequest a0)\<lparr> rq_isControlled := ce_controlled e (netRequest a0) \<rparr> \<rparr>;
          old = (case om_get (cs_activates s) uid of None \<Rightarrow> [] | Some as \<Rightarrow> as);
          s1 = s\<lparr> cs_nextActivate := Suc (cs_nextActivate s), cs_nextRequestId := g \<rparr>;
          save = (\<lambda>a s. s\<lparr> cs_activates := om_put uid (old @ [a]) (cs_activates s) \<rparr>)
      in case FindBestNetworkForRequest a s1 of (bestScore, bestNet) \<Rightarrow>
         if bestScore \<noteq> 0 \<and> bestNet \<noteq> None then
           let b = the bestNet;
               s2 = on_supplier b (\<lambda>su. snd (SelectAsBestNetwork (ce_answers e) (netRequest a) su)) s1 in
           (NETMANAGER_SUCCESS, CallbackForAvailable b (Some callback) (save (a\<lparr> netServiceSupplied := Some b \<rparr>) s2))
         else
           let s2 = (if timeout = 0 then call_client (NetUnavailable callback) s1 else s1) in
           (NETMANAGER_SUCCESS, SendRequestToAllNetwork e a (save a s2)))"

definition RegisterNetConnCallbackAsync :: "conn_env \<Rightarrow> NetSpecifier option \<Rightarrow> nat option \<Rightarrow> u32 \<Rightarrow> u32 \<Rightarrow> conn_service \<Rightarrow> int \<times> conn_service" where
  "RegisterNetConnCallbackAsync e specifier callback timeout uid s =
     (case (specifier, callback) of
        (Some sp, Some cb) \<Rightarrow>
          if FindSameCallback cb s \<noteq> None then (NET_CONN_ERR_SAME_CALLBACK, s)
          else if NET_CAPABILITY_MMS \<in> nac_netCaps (sp_caps sp) \<and> ce_mmsDisabled e then (NET_CONN_ERR_POLICY_DISABLED, s)
          else
            (case IncreaseNetConnCallbackCntForUid uid (register_type (Some sp)) s of (ret, s1) \<Rightarrow>
             if ret \<noteq> NETMANAGER_SUCCESS then (ret, s1) else ActivateNetwork e sp cb timeout REGISTER uid s1)
      | _ \<Rightarrow> (NETMANAGER_ERR_LOCAL_PTR_NULL, s))"

definition RequestNetConnectionAsync :: "conn_env \<Rightarrow> NetSpecifier option \<Rightarrow> nat option \<Rightarrow> u32 \<Rightarrow> u32 \<Rightarrow> conn_service \<Rightarrow> int \<times> conn_service" where
  "RequestNetConnectionAsync e specifier callback timeout uid s =
     (case (specifier, callback) of
        (Some sp, Some cb) \<Rightarrow>
          if FindSameCallback cb s \<noteq> None then (NET_CONN_ERR_SAME_CALLBACK, s)
          else
            (case IncreaseNetConnCallbackCntForUid uid REQUEST s of (ret, s1) \<Rightarrow>
             if ret \<noteq> NETMANAGER_SUCCESS then (ret, s1) else ActivateNetwork e sp cb timeout REQUEST uid s1)
      | _ \<Rightarrow> (NETMANAGER_ERR_LOCAL_PTR_NULL, s))"

fun cancel_loop :: "conn_env \<Rightarrow> NetRequest \<Rightarrow> (u32 \<times> nat) list \<Rightarrow> conn_service \<Rightarrow> conn_service" where
  "cancel_loop e req [] s = s"
| "cancel_loop e req (x # xs) s =
     cancel_loop e req xs (on_supplier (snd x) (\<lambda>su. snd (CancelRequest (ce_answers e) (req\<lparr> rq_bearTypes := {GetDefaultNetSupplierType s} \<rparr>) su)) s)"

definition CancelRequestForSupplier :: "conn_env \<Rightarrow> NetActivate \<Rightarrow> u32 \<Rightarrow> conn_service \<Rightarrow> conn_service" where
  "CancelRequestForSupplier e a reqId s =
     (let req = NetRequest_ctor (GetUid a) reqId UNKOWN;
          s1 = (case netServiceSupplied a of None \<Rightarrow> s
                | Some x \<Rightarrow> on_supplier x (\<lambda>su. snd (CancelRequest (ce_answers e) (req\<lparr> rq_bearTypes := {GetDefaultNetSupplierType s} \<rparr>) su)) s)
      in cancel_loop e req (cs_netSuppliers s1) s1)"

text \<open>
  The loop over the requests of a uid. A request without a callback is met with \<open>continue\<close> and the
  iterator is not advanced: the loop has no end then, which is \<open>None\<close>.
\<close>

partial_function (option) decrease_loop :: "nat \<Rightarrow> NetActivate list \<Rightarrow> NetActivate list \<Rightarrow> (NetActivate option \<times> NetActivate list) option" where
  "decrease_loop cb seen rest =
     (case rest of [] \<Rightarrow> Some (None, seen)
      | a # as \<Rightarrow>
          if netConnCallback a = None then decrease_loop cb seen rest
          else if netConnCallback a = Some cb then Some (Some a, seen @ as)
          else decrease_loop cb (seen @ [a]) as)"

definition DecreaseNetActivates :: "conn_env \<Rightarrow> u32 \<Rightarrow> nat \<Rightarrow> conn_service \<Rightarrow> conn_service option" where
  "DecreaseNetActivates e uid cb s =
     (case om_get (cs_activates s) uid of None \<Rightarrow> Some s
      | Some as \<Rightarrow>
          (case decrease_loop cb [] as of None \<Rightarrow> None
           | Some (found, as') \<Rightarrow>
               let s1 = (case found of None \<Rightarrow> s | Some a \<Rightarrow> CancelRequestForSupplier e a (GetRequestId a) s) in
               Some (s1\<lparr> cs_activates := (if as' = [] then om_del uid (cs_activates s1) else om_put uid as' (cs_activates s1)) \<rparr>)))"

definition UnregisterNetConnCallbackAsync :: "conn_env \<Rightarrow> nat option \<Rightarrow> conn_service \<Rightarrow> (int \<times> conn_service) option" where
  "UnregisterNetConnCallbackAsync e callback s =
     (case callback of None \<Rightarrow> Some (NETMANAGER_ERR_LOCAL_PTR_NULL, s)
      | Some cb \<Rightarrow>
          (case FindSameCallback cb s of None \<Rightarrow> Some (NET_CONN_ERR_CALLBACK_NOT_FOUND, s)
           | Some (reqId, registerType, uid) \<Rightarrow>
               (case DecreaseNetActivates e uid cb (DecreaseNetConnCallbackCntForUid uid registerType s) of
                  None \<Rightarrow> None | Some s1 \<Rightarrow> Some (NETMANAGER_SUCCESS, s1))))"

definition OnNetActivateTimeOut :: "conn_env \<Rightarrow> NetActivate \<Rightarrow> conn_service \<Rightarrow> conn_service" where
  "OnNetActivateTimeOut e a s =
     (let req = NetRequest_default\<lparr> rq_requestId := GetRequestId a, rq_uid := GetUid a \<rparr>;
          s1 = (case netServiceSupplied a of None \<Rightarrow> s
                | Some x \<Rightarrow> on_supplier x (\<lambda>su. snd (CancelRequest (ce_answers e) (req\<lparr> rq_bearTypes := {GetDefaultNetSupplierType s} \<rparr>) su)) s)
      in cancel_loop e req (cs_netSuppliers s1) s1)"

definition TimeOutNetAvailable :: "conn_env \<Rightarrow> NetActivate \<Rightarrow> conn_service \<Rightarrow> conn_service" where
  "TimeOutNetAvailable e a s =
     (if netServiceSupplied a \<noteq> None then s
      else OnNetActivateTimeOut e a (case netConnCallback a of None \<Rightarrow> s | Some cb \<Rightarrow> call_client (NetUnavailable cb) s))"

section \<open>Suppliers\<close>

text \<open>\<open>None\<close> stands for the failure of the supplier's constructor.\<close>

definition RegisterNetSupplierAsync :: "NetBearType \<Rightarrow> string \<Rightarrow> NetCap set \<Rightarrow> int \<Rightarrow> conn_service \<Rightarrow> (int \<times> u32 option \<times> conn_service) option" where
  "RegisterNetSupplierAsync bearerType i caps callingUid s =
     (if bearerType < BEARER_CELLULAR \<or> bearerType \<ge> BEARER_DEFAULT then Some (NET_CONN_ERR_NET_TYPE_NOT_FOUND, None, s)
      else case GetNetSupplierFromList bearerType i caps s of
        Some x \<Rightarrow> Some (NETMANAGER_SUCCESS, Some (supplierId (cs_heap s ! x)), s)
      | None \<Rightarrow>
          (case NetSupplier_ctor bearerType i caps (cs_nextNetSupplierId s) of None \<Rightarrow> None
           | Some su \<Rightarrow>
               let sid = supplierId su;
                   s1 = s\<lparr> cs_nextNetSupplierId := cs_nextNetSupplierId s + 1 \<rparr>;
                   generated = (if NET_CAPABILITY_INTERNAL_DEFAULT \<in> caps then GenerateInternalNetId s1 else GenerateNetId s1);
                   netId = fst generated; s2 = snd generated
               in if netId = INVALID_NET_ID then Some (NET_CONN_ERR_INVALID_NETWORK, Some sid, s2)
                  else
                    let su1 = (SetNetwork (Some (Network_ctor netId)) su)\<lparr> supplierUid := callingUid \<rparr>
                    in Some (NETMANAGER_SUCCESS, Some sid,
                         s2\<lparr> cs_heap := cs_heap s2 @ [su1], cs_netSuppliers := om_put sid (length (cs_heap s2)) (cs_netSuppliers s2) \<rparr>)))"

definition SendAllRequestToNetwork :: "conn_env \<Rightarrow> nat \<Rightarrow> conn_service \<Rightarrow> conn_service" where
  "SendAllRequestToNetwork e x =
     for_activates (\<lambda>uid a s.
       if \<not> MatchRequestAndNetwork (cs_heap s ! x) True a then (a, s)
       else (a, on_supplier x (\<lambda>su. snd (RequestToConnect (ce_answers e) (netRequest a) su)) s))"

definition RegisterNetSupplierCallbackAsync :: "conn_env \<Rightarrow> u32 \<Rightarrow> nat option \<Rightarrow> conn_service \<Rightarrow> int \<times> conn_service" where
  "RegisterNetSupplierCallbackAsync e sid callback s =
     (if callback = None then (NETMANAGER_ERR_LOCAL_PTR_NULL, s)
      else case FindNetSupplier sid s of None \<Rightarrow> (NET_CONN_ERR_NO_SUPPLIER, s)
      | Some x \<Rightarrow> (NETMANAGER_SUCCESS, SendAllRequestToNetwork e x (on_supplier x (RegisterSupplierCallback (ce_answers e) callback) s)))"

definition UnregisterNetSupplierAsync :: "conn_env \<Rightarrow> u32 \<Rightarrow> conn_service \<Rightarrow> int \<times> conn_service" where
  "UnregisterNetSupplierAsync e sid s =
     (case FindNetSupplier sid s of None \<Rightarrow> (NET_CONN_ERR_NO_SUPPLIER, s)
      | Some x \<Rightarrow>
          let s1 = (if cs_defaultNetSupplier s = Some x then MakeDefaultNetWork None s else s);
              s2 = on_supplier x (UpdateNetSupplierInfo NetSupplierInfo_default) s1;
              s3 = s2\<lparr> cs_netSuppliers := om_del sid (cs_netSuppliers s2) \<rparr>
          in (NETMANAGER_SUCCESS, FindBestNetworkForAllRequest e s3))"

definition RemoveDelayNetwork :: "conn_service \<Rightarrow> conn_service" where
  "RemoveDelayNetwork s = s\<lparr> cs_isDelayHandleFindBestNetwork := False, cs_delaySupplierId := 0 \<rparr>"

definition HandleSupplierNotAvailable :: "u32 \<Rightarrow> bool \<Rightarrow> nat \<Rightarrow> conn_service \<Rightarrow> conn_service" where
  "HandleSupplierNotAvailable sid isOldAvailable x s =
     (let s1 = (if isOldAvailable then StartNotifyLostDelay (Supplier_GetNetId (cs_heap s ! x)) s else s) in
      if sid = cs_delaySupplierId s1 then RemoveDelayNetwork s1 else s1)"

definition UpdateNetSupplierInfoAsync :: "conn_env \<Rightarrow> u32 \<Rightarrow> NetSupplierInfo option \<Rightarrow> conn_service \<Rightarrow> (int \<times> conn_service) option" where
  "UpdateNetSupplierInfoAsync e sid supplierInfo s =
     (case supplierInfo of None \<Rightarrow> Some (NETMANAGER_ERR_PARAMETER_ERROR, s)
      | Some info \<Rightarrow>
          (case FindNetSupplier sid s of None \<Rightarrow> Some (NET_CONN_ERR_NO_SUPPLIER, s)
           | Some x \<Rightarrow>
               let isOldAvailable = IsAvailable (cs_heap s ! x);
                   s1 = on_supplier x (UpdateNetSupplierInfo info) s;
                   s2 = (if \<not> si_isAvailable info then
                           (let t = HandleSupplierNotAvailable sid isOldAvailable x s1 in
                            case ResetNetSupplier (cs_heap t ! x) of None \<Rightarrow> None | Some su \<Rightarrow> Some (on_supplier x (\<lambda>_. su) t))
                         else
                           Some (CallbackForSupplier x CALL_TYPE_UPDATE_CAP (StopNotifyLostDelay (Supplier_GetNetId (cs_heap s1 ! x)) s1)))
               in (case s2 of None \<Rightarrow> None
                   | Some t \<Rightarrow>
                       let t1 = (if si_score info = 0 then on_supplier x InitNetScore t else t)
                       in Some (NETMANAGER_SUCCESS, FindBestNetworkForAllRequest e t1))))"

definition HandlePreFindBestNetworkForDelay :: "conn_env \<Rightarrow> u32 \<Rightarrow> nat \<Rightarrow> bool \<Rightarrow> conn_service \<Rightarrow> conn_service" where
  "HandlePreFindBestNetworkForDelay e sid x isFirstTimeDetect s =
     (if cs_isDelayHandleFindBestNetwork s then s
      else if netSupplierType (cs_heap s ! x) = BEARER_WIFI \<and> isFirstTimeDetect \<and> GetDefaultNetSupplierType s = BEARER_CELLULAR \<and> ce_delayWifi e
      then s\<lparr> cs_isDelayHandleFindBestNetwork := True, cs_delaySupplierId := sid \<rparr>
      else s)"

definition UpdateNetLinkInfoAsync :: "conn_env \<Rightarrow> u32 \<Rightarrow> string option \<Rightarrow> conn_service \<Rightarrow> int \<times> conn_service" where
  "UpdateNetLinkInfoAsync e sid linkInfo s =
     (case linkInfo of None \<Rightarrow> (NETMANAGER_ERR_PARAMETER_ERROR, s)
      | Some link \<Rightarrow>
          (case FindNetSupplier sid s of None \<Rightarrow> (NET_CONN_ERR_NO_SUPPLIER, s)
           | Some x \<Rightarrow>
               (case UpdateNetLinkInfo link (cs_heap s ! x) of (ret, su) \<Rightarrow>
                let s1 = on_supplier x (\<lambda>_. su) s in
                if ret \<noteq> NETMANAGER_SUCCESS then (NET_CONN_ERR_SERVICE_UPDATE_NET_LINK_INFO_FAIL, s1)
                else
                  let s2 = CallbackForSupplier x CALL_TYPE_UPDATE_LINK s1;
                      s3 = HandlePreFindBestNetworkForDelay e sid x (IsInFirstTimeDetecting (cs_heap s2 ! x)) s2;
                      s4 = (if \<not> cs_isDelayHandleFindBestNetwork s3 then FindBestNetworkForAllRequest e s3 else s3)
                  in (NETMANAGER_SUCCESS, s4))))"

fun request_others_loop :: "conn_env \<Rightarrow> NetActivate \<Rightarrow> nat \<Rightarrow> (u32 \<times> nat) list \<Rightarrow> conn_service \<Rightarrow> conn_service" where
  "request_others_loop e a d [] s = s"
| "request_others_loop e a d (x # xs) s =
     request_others_loop e a d xs
       (if snd x = d then s
        else if netScore (cs_heap s ! snd x) \<ge> netScore (cs_heap s ! d) then s
        else if Supplier_HasNetCap NET_CAPABILITY_INTERNAL_DEFAULT (cs_heap s ! snd x) then s
        else if \<not> MatchRequestAndNetwork (cs_heap s ! snd x) True a then s
        else on_supplier (snd x) (\<lambda>su. snd (RequestToConnect (ce_answers e) (netRequest a) su)) s)"

definition RequestAllNetworkExceptDefault :: "conn_env \<Rightarrow> conn_service \<Rightarrow> conn_service" where
  "RequestAllNetworkExceptDefault e s =
     (case cs_defaultNetSupplier s of None \<Rightarrow> s
      | Some d \<Rightarrow>
          if IsNetValidated (cs_heap s ! d) \<or> IsNetAcceptUnavalidate (cs_heap s ! d) then s
          else case find (\<lambda>a. cs_defaultNetActivate s = Some (na_id a)) (concat (map snd (cs_activates s))) of
            None \<Rightarrow> s
          | Some a \<Rightarrow> request_others_loop e a d (cs_netSuppliers s) s)"

definition HandleDetectionResult :: "conn_env \<Rightarrow> u32 \<Rightarrow> NetDetectionStatus \<Rightarrow> conn_service \<Rightarrow> conn_service option" where
  "HandleDetectionResult e sid netState s =
     (case FindNetSupplier sid s of None \<Rightarrow> Some s
      | Some x \<Rightarrow>
          (case SetNetValid netState (cs_heap s ! x) of None \<Rightarrow> None
           | Some su \<Rightarrow>
               let isFirstTimeDetect = IsInFirstTimeDetecting (cs_heap s ! x);
                   s1 = CallbackForSupplier x CALL_TYPE_UPDATE_CAP (on_supplier x (\<lambda>_. SetDetectionDone su) s);
                   ifValid = (netState = VERIFICATION_STATE);
                   t = GetDefaultNetSupplierType s1;
                   s2 = (if t \<noteq> BEARER_DEFAULT \<and> t \<noteq> BEARER_CELLULAR then RemoveDelayNetwork s1
                         else if isFirstTimeDetect \<and> IsOnceSuppress (cs_heap s1 ! x) then HandlePreFindBestNetworkForDelay e sid x isFirstTimeDetect s1
                         else s1);
                   s3 = (if cs_delaySupplierId s2 = sid \<and> cs_isDelayHandleFindBestNetwork s2 \<and> netSupplierType (cs_heap s2 ! x) = BEARER_WIFI \<and> ifValid
                         then s2 else FindBestNetworkForAllRequest e s2)
               in Some (if \<not> ifValid \<and> GetDefaultNetSupplierId s3 = sid then RequestAllNetworkExceptDefault e s3 else s3)))"

definition HandleFindBestNetworkForDelay :: "conn_env \<Rightarrow> conn_service \<Rightarrow> conn_service option" where
  "HandleFindBestNetworkForDelay e s0 =
     (let s = s0\<lparr> cs_isDelayHandleFindBestNetwork := False \<rparr> in
      case FindNetSupplier (cs_delaySupplierId s) s of None \<Rightarrow> Some (s\<lparr> cs_delaySupplierId := 0 \<rparr>)
      | Some x \<Rightarrow>
          (case (if IsNetValidated (cs_heap s ! x) then HandleDetectionResult e (cs_delaySupplierId s) VERIFICATION_STATE s else Some s) of
             None \<Rightarrow> None | Some s1 \<Rightarrow> Some (s1\<lparr> cs_delaySupplierId := 0 \<rparr>)))"

definition UpdateSupplierScoreAsync :: "conn_env \<Rightarrow> u32 \<Rightarrow> NetDetectionStatus \<Rightarrow> conn_service \<Rightarrow> (int \<times> conn_service) option" where
  "UpdateSupplierScoreAsync e sid st s =
     (case FindNetSupplier sid s of None \<Rightarrow> Some (NETMANAGER_ERR_INVALID_PARAMETER, s)
      | Some x \<Rightarrow>
          (case SetNetValid st (cs_heap s ! x) of None \<Rightarrow> None
           | Some su \<Rightarrow>
               let s1 = FindBestNetworkForAllRequest e (on_supplier x (\<lambda>_. su) (RemoveDelayNetwork s))
               in Some (NETMANAGER_SUCCESS, if GetDefaultNetSupplierId s1 = sid then RequestAllNetworkExceptDefault e s1 else s1)))"

section \<open>Vocabulary of the properties\<close>

abbreviation all_activates :: "conn_service \<Rightarrow> NetActivate list" where
  "all_activates s \<equiv> concat (map snd (cs_activates s))"

definition eligible :: "NetActivate \<Rightarrow> NetSupplier \<Rightarrow> bool" where
  "eligible a su = (IsConnected su \<and> MatchRequestAndNetwork su False a)"

definition skipped :: "NetActivate \<Rightarrow> bool" where
  "skipped a = (isFrozenedSkip a \<and> isAppFrozened a)"

text \<open>The pointers into the heap are good, and every request is one object.\<close>

definition conn_wf :: "conn_service \<Rightarrow> bool" where
  "conn_wf s = ((\<forall>e \<in> set (cs_netSuppliers s). snd e < length (cs_heap s)) \<and> distinct (map na_id (all_activates s)))"

definition heap_same :: "NetSupplier list \<Rightarrow> NetSupplier list \<Rightarrow> bool" where
  "heap_same h h' = (length h' = length h \<and> (\<forall>i < length h. same_offer (h ! i) (h' ! i)))"

text \<open>The suppliers on offer are the same.\<close>

definition same_market :: "conn_service \<Rightarrow> conn_service \<Rightarrow> bool" where
  "same_market s s' = (heap_same (cs_heap s) (cs_heap s') \<and> cs_netSuppliers s' = cs_netSuppliers s
     \<and> cs_defaultNetActivate s' = cs_defaultNetActivate s)"

text \<open>A request before and after it was looked at.\<close>

definition same_request :: "NetActivate \<Rightarrow> NetActivate \<Rightarrow> bool" where
  "same_request a a' = (na_id a' = na_id a \<and> netSpecifier a' = netSpecifier a \<and> netConnCallback a' = netConnCallback a
     \<and> netRequest a' = netRequest a \<and> isFrozenedSkip a' = isFrozenedSkip a \<and> isAppFrozened a' = isAppFrozened a)"

text \<open>An example: a validated, connected Wi-Fi.\<close>

definition first_wifi :: NetSupplier where
  "first_wifi =
     \<lparr> netSupplierType = BEARER_WIFI, netSupplierIdent = ''wifi'', su_netCaps = NetCaps_ctor {NET_CAPABILITY_INTERNET, NET_CAPABILITY_NOT_VPN, NET_CAPABILITY_VALIDATED},
       netSupplierInfo = NetSupplierInfo_default\<lparr> si_isAvailable := True \<rparr>,
       netAllCapabilities = NetAllCapabilities_default\<lparr> nac_netCaps := {NET_CAPABILITY_INTERNET, NET_CAPABILITY_NOT_VPN, NET_CAPABILITY_VALIDATED},
         nac_bearerTypes := {BEARER_WIFI} \<rparr>,
       supplierId = 1003, netScore = 70, requestList = {}, bestReqList = {}, netController = Some 5,
       network = Some ((Network_ctor 100)\<lparr> nw_state := NET_CONN_STATE_CONNECTED \<rparr>), netHandle = Some 100,
       restrictBackground = True, slotType = -1, netQuality = QUALITY_NORMAL_STATE, isFirstTimeDetectionDone = True,
       isAcceptUnvaliad = False, supplierUid = 0, netExtAttribute = [], su_isOnceSuppress = False,
       pendingRequest = NetRequest_default, su_calls = [] \<rparr>"

definition quiet_env :: conn_env where
  "quiet_env = \<lparr> ce_answers = (\<lambda>_. REG_OK), ce_controlled = (\<lambda>_. False), ce_mmsDisabled = False, ce_delayWifi = False \<rparr>"

section \<open>Lemmas\<close>

subsection \<open>The loop over the suppliers\<close>

lemma best_loop_spec:
  assumes "best_loop h a es (sc0, b0) = (sc, b)"
  shows "(sc, b) = (sc0, b0) \<and> (\<forall>x \<in> snd ` set es. eligible a (h ! x) \<longrightarrow> GetRealScore (h ! x) \<le> sc0)
    \<or> (\<exists>pre sid x post. es = pre @ (sid, x) # post \<and> b = Some x \<and> sc = GetRealScore (h ! x) \<and> sc0 < sc \<and> eligible a (h ! x)
        \<and> (\<forall>y \<in> snd ` set pre. eligible a (h ! y) \<longrightarrow> GetRealScore (h ! y) < sc)
        \<and> (\<forall>y \<in> snd ` set post. eligible a (h ! y) \<longrightarrow> GetRealScore (h ! y) \<le> sc))"
  using assms
proof (induction es arbitrary: sc0 b0)
  case (Cons e es)
  let ?k = "GetRealScore (h ! snd e)"
  show ?case
  proof (cases "eligible a (h ! snd e) \<and> ?k > sc0")
    case False
    then have "best_loop h a es (sc0, b0) = (sc, b)" using Cons.prems by (auto simp: eligible_def Let_def split: if_splits)
    from Cons.IH [OF this] show ?thesis
    proof (elim disjE exE conjE)
      fix pre sid x post
      assume *: "es = pre @ (sid, x) # post" "b = Some x" "sc = GetRealScore (h ! x)" "sc0 < sc" "eligible a (h ! x)"
        "\<forall>y \<in> snd ` set pre. eligible a (h ! y) \<longrightarrow> GetRealScore (h ! y) < sc" "\<forall>y \<in> snd ` set post. eligible a (h ! y) \<longrightarrow> GetRealScore (h ! y) \<le> sc"
      moreover have "eligible a (h ! snd e) \<longrightarrow> ?k < sc" using False *(4) by linarith
      ultimately show ?thesis
        by (intro disjI2 exI [of _ "e # pre"] exI [of _ sid] exI [of _ x] exI [of _ post]) simp
    qed (use False in \<open>simp add: not_less\<close>)
  next
    case True
    then have l: "best_loop h a es (?k, Some (snd e)) = (sc, b)" using Cons.prems by (simp add: eligible_def Let_def)
    from Cons.IH [OF l] show ?thesis
    proof (elim disjE exE conjE)
      assume *: "(sc, b) = (?k, Some (snd e))" "\<forall>x \<in> snd ` set es. eligible a (h ! x) \<longrightarrow> GetRealScore (h ! x) \<le> ?k"
      then show ?thesis using True
        by (intro disjI2 exI [of _ "[]"] exI [of _ "fst e"] exI [of _ "snd e"] exI [of _ es]) simp
    next
      fix pre sid x post
      assume *: "es = pre @ (sid, x) # post" "b = Some x" "sc = GetRealScore (h ! x)" "?k < sc" "eligible a (h ! x)"
        "\<forall>y \<in> snd ` set pre. eligible a (h ! y) \<longrightarrow> GetRealScore (h ! y) < sc" "\<forall>y \<in> snd ` set post. eligible a (h ! y) \<longrightarrow> GetRealScore (h ! y) \<le> sc"
      moreover have "sc0 < sc" using True *(4) by linarith
      ultimately show ?thesis
        by (intro disjI2 exI [of _ "e # pre"] exI [of _ sid] exI [of _ x] exI [of _ post]) simp
    qed
  qed
qed simp

lemma best_loop_same:
  assumes "heap_same h h'" "\<forall>e \<in> set es. snd e < length h" "netSpecifier a' = netSpecifier a"
  shows "best_loop h' a' es acc = best_loop h a es acc"
  using assms(2)
proof (induction es arbitrary: acc)
  case (Cons e es)
  have "same_offer (h ! snd e) (h' ! snd e)" using assms(1) Cons.prems by (simp add: heap_same_def)
  then show ?case using Cons Match_specifier [OF assms(3)] by (simp add: Let_def same_offer_queries Match_offer)
qed simp

lemma FindBest_same:
  assumes "same_market s s'" "\<forall>e \<in> set (cs_netSuppliers s). snd e < length (cs_heap s)" "netSpecifier a' = netSpecifier a"
  shows "FindBestNetworkForRequest a' s' = FindBestNetworkForRequest a s"
  using best_loop_same [of "cs_heap s" "cs_heap s'"] assms by (simp add: FindBestNetworkForRequest_def same_market_def)

subsection \<open>Bookkeeping leaves the market alone\<close>

lemma market_refl [simp]: "same_market s s"
  by (simp add: same_market_def heap_same_def)

lemma market_trans: "same_market a b \<Longrightarrow> same_market b c \<Longrightarrow> same_market a c"
  by (auto simp: same_market_def heap_same_def intro: same_offer_trans)

lemma market_supplier:
  assumes "same_market s0 s" "\<And>su. same_offer su (f su)"
  shows "same_market s0 (on_supplier x f s)"
proof -
  have "same_offer (cs_heap s0 ! i) ((cs_heap s)[x := f (cs_heap s ! x)] ! i)" if "i < length (cs_heap s0)" for i
  proof -
    have off: "same_offer (cs_heap s0 ! i) (cs_heap s ! i)" "i < length (cs_heap s)" using assms(1) that by (simp_all add: same_market_def heap_same_def)
    show ?thesis using same_offer_trans [OF off(1) assms(2)] off by (cases "x = i") simp_all
  qed
  then show ?thesis using assms(1) by (simp add: same_market_def heap_same_def on_supplier_def)
qed

lemma market_fields [simp]:
  "same_market s0 (call_client c s) = same_market s0 s" "same_market s0 (s\<lparr> cs_defaultNetSupplier := d \<rparr>) = same_market s0 s"
  "same_market s0 (s\<lparr> cs_activates := m \<rparr>) = same_market s0 s" "same_market s0 (s\<lparr> cs_prevNetSupplierType := t \<rparr>) = same_market s0 s"
  by (simp_all add: same_market_def call_client_def)

lemma market_default: "same_market s0 s \<Longrightarrow> same_market s0 (MakeDefaultNetWork new s)"
  by (simp add: MakeDefaultNetWork_def Let_def market_supplier same_offer_ops split: option.split)

lemma market_send: "same_market s0 s \<Longrightarrow> same_market s0 (send_request_loop e a xs s)"
  by (induction xs arbitrary: s) (simp_all add: market_supplier same_offer_ops)

lemma market_score: "same_market s0 s \<Longrightarrow> same_market s0 (best_score_loop e score sid req xs s)"
  by (induction xs arbitrary: s) (simp_all add: market_supplier same_offer_ops)

lemma market_available: "same_market s0 s \<Longrightarrow> same_market s0 (CallbackForAvailable b cb s)"
  by (simp add: CallbackForAvailable_def Let_def split: option.split)

lemma market_not_found: "same_market s0 s \<Longrightarrow> same_market s0 (snd (NotFindBestSupplier e a x s))"
  by (simp add: NotFindBestSupplier_def SendRequestToAllNetwork_def Let_def market_supplier same_offer_ops market_send
      split: option.split prod.split)

lemmas market_intros = market_default market_send market_score market_available market_not_found market_supplier

lemma market_notify: "same_market s0 s \<Longrightarrow> same_market s0 (NotifyNetBearerTypeChange s)"
  by (simp add: NotifyNetBearerTypeChange_def Let_def)

subsection \<open>One request\<close>

lemma default_fields [simp]:
  "cs_defaultNetSupplier (on_supplier x f s) = cs_defaultNetSupplier s" "cs_defaultNetSupplier (call_client c s) = cs_defaultNetSupplier s"
  by (simp_all add: on_supplier_def call_client_def)

lemma default_loops:
  "cs_defaultNetSupplier (send_request_loop e a xs s) = cs_defaultNetSupplier s"
  "cs_defaultNetSupplier (best_score_loop e score sid req xs s) = cs_defaultNetSupplier s"
  by (induction xs arbitrary: s) simp_all

lemma default_others [simp]:
  "cs_defaultNetSupplier (CallbackForAvailable b cb s) = cs_defaultNetSupplier s"
  "cs_defaultNetSupplier (snd (NotFindBestSupplier e a x s)) = cs_defaultNetSupplier s"
  "cs_defaultNetSupplier (MakeDefaultNetWork new s) = new"
  by (simp_all add: CallbackForAvailable_def NotFindBestSupplier_def SendRequestToAllNetwork_def MakeDefaultNetWork_def Let_def default_loops
      split: option.split prod.split)

lemma NotFound_request:
  "same_request a (fst (NotFindBestSupplier e a x s))" "netServiceSupplied (fst (NotFindBestSupplier e a x s)) = None"
  by (simp_all add: NotFindBestSupplier_def same_request_def Let_def split: option.split prod.split)

lemma find_best_one_spec:
  "same_market s (snd (find_best_one e uid a s))" "same_request a (fst (find_best_one e uid a s))"
  "\<not> skipped a \<Longrightarrow> netServiceSupplied (fst (find_best_one e uid a s)) = snd (FindBestNetworkForRequest a s)"
  "cs_defaultNetSupplier (snd (find_best_one e uid a s)) =
    (if \<not> skipped a \<and> cs_defaultNetActivate s = Some (na_id a) then snd (FindBestNetworkForRequest a s) else cs_defaultNetSupplier s)"
proof -
  obtain score best where b: "FindBestNetworkForRequest a s = (score, best)" by fastforce
  have r: "same_request a a" "same_request a (a\<lparr> needSkipLostDelay := n \<rparr>)" "same_request a (a\<lparr> needSkipLostDelay := n, netServiceSupplied := m \<rparr>)" for n m
    by (simp_all add: same_request_def)
  show "same_market s (snd (find_best_one e uid a s))"
    by (simp add: find_best_one_def b Let_def SendBestScoreAllNetwork_def market_intros same_offer_ops split: option.split)
  show "same_request a (fst (find_best_one e uid a s))"
    by (simp add: find_best_one_def b Let_def r NotFound_request split: option.split)
  show "\<not> skipped a \<Longrightarrow> netServiceSupplied (fst (find_best_one e uid a s)) = snd (FindBestNetworkForRequest a s)"
    by (auto simp: find_best_one_def b Let_def skipped_def NotFound_request split: option.split)
  show "cs_defaultNetSupplier (snd (find_best_one e uid a s)) =
    (if \<not> skipped a \<and> cs_defaultNetActivate s = Some (na_id a) then snd (FindBestNetworkForRequest a s) else cs_defaultNetSupplier s)"
    by (simp add: find_best_one_def b Let_def skipped_def SendBestScoreAllNetwork_def default_loops split: option.split)
qed

subsection \<open>All requests\<close>

lemma each_append:
  "each f (xs @ ys) s = (fst (each f xs s) @ fst (each f ys (snd (each f xs s))), snd (each f ys (snd (each f xs s))))"
  by (induction xs arbitrary: s) (simp_all add: case_prod_beta)

text \<open>A body that ignores the uid sees one list of requests.\<close>

lemma each_uid_concat:
  assumes "\<And>uid. f uid = g"
  shows "concat (map snd (fst (each_uid f m s))) = fst (each g (concat (map snd m)) s) \<and> snd (each_uid f m s) = snd (each g (concat (map snd m)) s)"
proof (induction m arbitrary: s)
  case (Cons x m)
  then show ?case by (cases x) (simp add: case_prod_beta each_append assms)
qed simp

lemma each_rel:
  assumes "\<And>a s. I s \<Longrightarrow> I (snd (f a s)) \<and> Q a (fst (f a s))" "I s"
  shows "I (snd (each f as s)) \<and> list_all2 Q as (fst (each f as s))"
  using assms(2)
proof (induction "as" arbitrary: s)
  case (Cons a "as")
  then show ?case using assms(1) [of s a] by (simp add: case_prod_beta)
qed simp

lemma find_best_list:
  assumes "\<forall>e \<in> set (cs_netSuppliers s). snd e < length (cs_heap s)"
  shows "same_market s (snd (each (find_best_one e uid) as s))"
    "list_all2 (\<lambda>a a'. same_request a a' \<and> (\<not> skipped a \<longrightarrow> netServiceSupplied a' = snd (FindBestNetworkForRequest a s))) as
       (fst (each (find_best_one e uid) as s))"
proof -
  have "same_market s (snd (find_best_one e uid a t))
      \<and> same_request a (fst (find_best_one e uid a t)) \<and> (\<not> skipped a \<longrightarrow> netServiceSupplied (fst (find_best_one e uid a t)) = snd (FindBestNetworkForRequest a s))"
    if "same_market s t" for a t
  proof -
    have "FindBestNetworkForRequest a t = FindBestNetworkForRequest a s" by (rule FindBest_same [OF that assms refl])
    then show ?thesis using find_best_one_spec(1) [of t e uid a] find_best_one_spec(2, 3) [of a e uid t] market_trans [OF that] by auto
  qed
  from each_rel [of "same_market s" "find_best_one e uid", OF this market_refl]
  show "same_market s (snd (each (find_best_one e uid) as s))"
    "list_all2 (\<lambda>a a'. same_request a a' \<and> (\<not> skipped a \<longrightarrow> netServiceSupplied a' = snd (FindBestNetworkForRequest a s))) as
       (fst (each (find_best_one e uid) as s))" by blast+
qed

lemma find_best_default:
  assumes "\<forall>e \<in> set (cs_netSuppliers s). snd e < length (cs_heap s)" "distinct (map na_id as)"
  shows "cs_defaultNetSupplier (snd (each (find_best_one e uid) as s)) =
    (case find (\<lambda>a. \<not> skipped a \<and> cs_defaultNetActivate s = Some (na_id a)) as of
       None \<Rightarrow> cs_defaultNetSupplier s | Some a \<Rightarrow> snd (FindBestNetworkForRequest a s))"
  using assms
proof (induction "as" arbitrary: s)
  case (Cons a "as")
  let ?t = "snd (find_best_one e uid a s)"
  have m: "same_market s ?t" by (rule find_best_one_spec(1))
  have w: "\<forall>e \<in> set (cs_netSuppliers ?t). snd e < length (cs_heap ?t)" "cs_defaultNetActivate ?t = cs_defaultNetActivate s"
    using m Cons.prems(1) by (simp_all add: same_market_def heap_same_def)
  have b: "FindBestNetworkForRequest x ?t = FindBestNetworkForRequest x s" for x by (rule FindBest_same [OF m Cons.prems(1) refl])
  have IH: "cs_defaultNetSupplier (snd (each (find_best_one e uid) as ?t)) =
      (case find (\<lambda>a. \<not> skipped a \<and> cs_defaultNetActivate s = Some (na_id a)) as of
         None \<Rightarrow> cs_defaultNetSupplier ?t | Some a \<Rightarrow> snd (FindBestNetworkForRequest a s))"
    using Cons.IH [OF w(1)] Cons.prems(2) by (simp add: w(2) b cong: option.case_cong)
  show ?case
  proof (cases "\<not> skipped a \<and> cs_defaultNetActivate s = Some (na_id a)")
    case True
    then have "find (\<lambda>a. \<not> skipped a \<and> cs_defaultNetActivate s = Some (na_id a)) as = None"
      using Cons.prems(2) by (auto simp: find_None_iff)
    then show ?thesis using True IH by (simp add: case_prod_beta find_best_one_spec(4))
  next
    case False
    then have d: "cs_defaultNetSupplier ?t = cs_defaultNetSupplier s" by (auto simp: find_best_one_spec(4))
    have f: "find (\<lambda>a. \<not> skipped a \<and> cs_defaultNetActivate s = Some (na_id a)) (a # as)
        = find (\<lambda>a. \<not> skipped a \<and> cs_defaultNetActivate s = Some (na_id a)) as" by (simp only: find.simps False if_False)
    show ?thesis unfolding f using IH by (simp add: case_prod_beta d cong: option.case_cong)
  qed
qed simp

lemma find_unique:
  assumes "y \<in> set xs" "distinct (map f xs)" "P y" "\<And>x. P x \<Longrightarrow> f x = f y"
  shows "find P xs = Some y"
  using assms(1, 2)
proof (induction xs)
  case (Cons x xs)
  show ?case
  proof (cases "P x")
    case True
    then have "x = y" using Cons.prems assms(4) by (auto simp: image_iff)
    then show ?thesis using True by simp
  qed (use Cons assms(3) in auto)
qed simp

lemma FindAll_eq:
  "all_activates (FindBestNetworkForAllRequest e s) = fst (each (find_best_one e 0) (all_activates s) s)"
  "cs_defaultNetSupplier (FindBestNetworkForAllRequest e s) = cs_defaultNetSupplier (snd (each (find_best_one e 0) (all_activates s) s))"
  "same_market (snd (each (find_best_one e 0) (all_activates s) s)) (FindBestNetworkForAllRequest e s)"
proof -
  have u: "find_best_one e uid = find_best_one e 0" for uid by (intro ext) (simp add: find_best_one_def)
  note c = each_uid_concat [of "find_best_one e" "find_best_one e 0", OF u, of "cs_activates s" s]
  have n: "cs_activates (NotifyNetBearerTypeChange t) = cs_activates t" "cs_defaultNetSupplier (NotifyNetBearerTypeChange t) = cs_defaultNetSupplier t" for t
    by (simp_all add: NotifyNetBearerTypeChange_def Let_def call_client_def)
  show "all_activates (FindBestNetworkForAllRequest e s) = fst (each (find_best_one e 0) (all_activates s) s)"
    "cs_defaultNetSupplier (FindBestNetworkForAllRequest e s) = cs_defaultNetSupplier (snd (each (find_best_one e 0) (all_activates s) s))"
    using c by (simp_all add: FindBestNetworkForAllRequest_def n for_activates_def case_prod_beta)
  show "same_market (snd (each (find_best_one e 0) (all_activates s) s)) (FindBestNetworkForAllRequest e s)"
    using c by (simp add: FindBestNetworkForAllRequest_def for_activates_def case_prod_beta market_notify)
qed

section \<open>Properties\<close>

text \<open>
  C7. The choice of a network for a request: the result is none, with score zero, exactly if no
  connected supplier that matches the request has a positive score; otherwise it is a connected
  and matching supplier whose score no other such supplier exceeds, and among equals the
  one with the smallest identifier.
\<close>

theorem best_network_is_best:
  assumes "FindBestNetworkForRequest a s = (score, best)"
  shows "case best of
      None \<Rightarrow> score = 0 \<and> (\<forall>x \<in> snd ` set (cs_netSuppliers s). eligible a (cs_heap s ! x) \<longrightarrow> GetRealScore (cs_heap s ! x) \<le> 0)
    | Some b \<Rightarrow> score = GetRealScore (cs_heap s ! b) \<and> 0 < score \<and> eligible a (cs_heap s ! b) \<and>
        (\<exists>pre sid post. cs_netSuppliers s = pre @ (sid, b) # post
          \<and> (\<forall>x \<in> snd ` set pre. eligible a (cs_heap s ! x) \<longrightarrow> GetRealScore (cs_heap s ! x) < score)
          \<and> (\<forall>x \<in> snd ` set post. eligible a (cs_heap s ! x) \<longrightarrow> GetRealScore (cs_heap s ! x) \<le> score))"
  using best_loop_spec [OF assms [unfolded FindBestNetworkForRequest_def]] by (auto split: option.split)

theorem best_network_is_best_witness:
  "eligible (fst (NetActivate_ctor 0 (Some NetSpecifier_default) (Some 7) 0 20001 REGISTER 1)) first_wifi
   \<and> FindBestNetworkForRequest (fst (NetActivate_ctor 0 (Some NetSpecifier_default) (Some 7) 0 20001 REGISTER 1))
       (conn_start\<lparr> cs_heap := [first_wifi], cs_netSuppliers := [(1003, 0)] \<rparr>) = (70, Some 0)"
proof -
  let ?a = "fst (NetActivate_ctor 0 (Some NetSpecifier_default) (Some 7) 0 20001 REGISTER 1)"
  let ?s = "conn_start\<lparr> cs_heap := [first_wifi], cs_netSuppliers := [(1003, 0)] \<rparr>"
  obtain score best where f: "FindBestNetworkForRequest ?a ?s = (score, best)" by fastforce
  have e: "eligible ?a first_wifi" "GetRealScore first_wifi = 70" by code_simp+
  have b: "best = Some 0 \<and> score = 70"
  proof (cases best)
    case None
    then show ?thesis using best_network_is_best [OF f] e by simp
  next
    case (Some b)
    then have "(\<exists>pre sid post. [(1003, 0)] = pre @ (sid :: u32, b) # post)" "score = GetRealScore (cs_heap ?s ! b)"
      using best_network_is_best [OF f] by auto
    then show ?thesis using Some e by (auto simp: Cons_eq_append_conv)
  qed
  show ?thesis using e b f by simp
qed

text \<open>After a search each request has the best network for it and the device has that of the default request.\<close>

lemma every_request_gets_best:
  assumes "conn_wf s" "s' = FindBestNetworkForAllRequest e s"
  shows "\<forall>a \<in> set (all_activates s'). \<not> skipped a \<longrightarrow> netServiceSupplied a = snd (FindBestNetworkForRequest a s')
    \<and> (cs_defaultNetActivate s' = Some (na_id a) \<longrightarrow> cs_defaultNetSupplier s' = netServiceSupplied a)"
proof (intro ballI impI)
  have w: "\<forall>e \<in> set (cs_netSuppliers s). snd e < length (cs_heap s)" "distinct (map na_id (all_activates s))"
    using assms(1) by (simp_all add: conn_wf_def)
  have m: "same_market s s'" using market_trans [OF find_best_list(1) [OF w(1)] FindAll_eq(3)] by (simp add: assms(2))
  note l = find_best_list(2) [OF w(1), of "all_activates s" e 0]
  fix a' assume a': "a' \<in> set (all_activates s')" "\<not> skipped a'"
  then obtain i where i: "i < length (all_activates s)" "a' = fst (each (find_best_one e 0) (all_activates s) s) ! i"
    using list_all2_lengthD [OF l] by (auto simp: assms(2) FindAll_eq(1) in_set_conv_nth)
  let ?a = "all_activates s ! i"
  have r: "same_request ?a a'" "\<not> skipped ?a \<longrightarrow> netServiceSupplied a' = snd (FindBestNetworkForRequest ?a s)"
    using list_all2_nthD [OF l i(1)] i(2) by simp_all
  have k: "\<not> skipped ?a" using a'(2) r(1) by (simp add: skipped_def same_request_def)
  have b: "FindBestNetworkForRequest a' s' = FindBestNetworkForRequest ?a s"
    by (rule FindBest_same [OF m w(1)]) (use r(1) in \<open>simp add: same_request_def\<close>)
  have d: "cs_defaultNetSupplier s' = netServiceSupplied a'" if "cs_defaultNetActivate s' = Some (na_id a')"
  proof -
    have "cs_defaultNetActivate s = Some (na_id ?a)" using that m r(1) by (simp add: same_market_def same_request_def)
    then have "find (\<lambda>a. \<not> skipped a \<and> cs_defaultNetActivate s = Some (na_id a)) (all_activates s) = Some ?a"
      using k by (intro find_unique [OF nth_mem [OF i(1)] w(2)]) simp_all
    then show ?thesis using find_best_default [OF w, of e 0] r(2) k by (simp add: assms(2) FindAll_eq(2))
  qed
  show "netServiceSupplied a' = snd (FindBestNetworkForRequest a' s')
    \<and> (cs_defaultNetActivate s' = Some (na_id a') \<longrightarrow> cs_defaultNetSupplier s' = netServiceSupplied a')"
    using r(2) k b d by simp
qed

end
