(* ===== verification/Conn_Clients.thy ===== *)
theory Conn_Clients
  imports Conn_Service
begin

text \<open>
  Properties of the registrations at the connection service: the identifiers of networks, the
  count of requests per uid, and the end of a request, with the case in which its handler does
  not return.
\<close>

section \<open>Vocabulary\<close>

text \<open>Two states with the same tables of clients.\<close>

definition same_clients :: "conn_service \<Rightarrow> conn_service \<Rightarrow> bool" where
  "same_clients s s' = (cs_activates s' = cs_activates s \<and> cs_netUidRequest s' = cs_netUidRequest s
     \<and> cs_internalDefaultUidRequest s' = cs_internalDefaultUidRequest s)"

text \<open>The requests of a uid, and the state with one more of them.\<close>

definition requests_of :: "u32 \<Rightarrow> conn_service \<Rightarrow> NetActivate list" where
  "requests_of uid s = (case om_get (cs_activates s) uid of None \<Rightarrow> [] | Some as \<Rightarrow> as)"

definition with_request :: "u32 \<Rightarrow> NetActivate \<Rightarrow> conn_service \<Rightarrow> conn_service" where
  "with_request uid a s =
     s\<lparr> cs_activates := om_put uid (requests_of uid s @ [a]) (cs_activates s) \<rparr>"

text \<open>The loop over the requests of a uid meets one without callback before the one it looks for.\<close>

definition null_blocks :: "nat \<Rightarrow> NetActivate list \<Rightarrow> bool" where
  "null_blocks cb as =
     (case dropWhile (\<lambda>a. netConnCallback a \<noteq> None \<and> netConnCallback a \<noteq> Some cb) as of [] \<Rightarrow> False | a # _ \<Rightarrow> netConnCallback a = None)"

text \<open>A client that asks for a network with a fresh callback and gives it up, \<open>n\<close> times over.\<close>

fun request_rounds :: "nat \<Rightarrow> conn_env \<Rightarrow> NetSpecifier \<Rightarrow> nat \<Rightarrow> u32 \<Rightarrow> u32 \<Rightarrow> conn_service \<Rightarrow> conn_service option" where
  "request_rounds 0 e sp cb timeout uid s = Some s"
| "request_rounds (Suc n) e sp cb timeout uid s =
     (case UnregisterNetConnCallbackAsync e (Some cb) (snd (RequestNetConnectionAsync e (Some sp) (Some cb) timeout uid s)) of
        None \<Rightarrow> None | Some (r, s') \<Rightarrow> request_rounds n e sp cb timeout uid s')"

text \<open>The identifier that the search for a free one tries after \<open>k\<close> others, from the last value \<open>l\<close>.\<close>

definition tried_id :: "int \<Rightarrow> nat \<Rightarrow> int" where
  "tried_id l k = MIN_NET_ID + (l + 1 + int k - MIN_NET_ID) mod (MAX_NET_ID - MIN_NET_ID + 1)"

text \<open>The tables of clients are maps, no uid has an empty list of requests and no count is zero.\<close>

definition clients_wf :: "conn_service \<Rightarrow> bool" where
  "clients_wf s = (om_wf (cs_activates s) \<and> om_wf (cs_netUidRequest s) \<and> om_wf (cs_internalDefaultUidRequest s)
     \<and> [] \<notin> snd ` set (cs_activates s) \<and> 0 \<notin> snd ` set (cs_netUidRequest s) \<and> 0 \<notin> snd ` set (cs_internalDefaultUidRequest s))"

section \<open>Lemmas\<close>

subsection \<open>Fields a walk over the suppliers leaves alone\<close>

lemma clients_fields [simp]:
  "same_clients s0 (on_supplier x f s) = same_clients s0 s" "same_clients s0 (call_client c s) = same_clients s0 s"
  "same_clients s0 (s\<lparr> cs_nextActivate := n \<rparr>) = same_clients s0 s" "same_clients s0 (s\<lparr> cs_nextRequestId := g \<rparr>) = same_clients s0 s"
  "same_clients s s"
  by (simp_all add: same_clients_def on_supplier_def call_client_def)

lemma clients_send: "same_clients s0 s \<Longrightarrow> same_clients s0 (send_request_loop e a xs s)"
  by (induction xs arbitrary: s) simp_all

lemma clients_cancel_loop: "same_clients s0 s \<Longrightarrow> same_clients s0 (cancel_loop e req xs s)"
  by (induction xs arbitrary: s) simp_all

lemma clients_ops:
  "same_clients s0 s \<Longrightarrow> same_clients s0 (CallbackForAvailable b cb s)"
  "same_clients s0 s \<Longrightarrow> same_clients s0 (SendRequestToAllNetwork e a s)"
  "same_clients s0 s \<Longrightarrow> same_clients s0 (CancelRequestForSupplier e a reqId s)"
  by (simp_all add: CallbackForAvailable_def SendRequestToAllNetwork_def CancelRequestForSupplier_def Let_def clients_send clients_cancel_loop
      split: option.split)

subsection \<open>A new request\<close>

lemma ctor_fields [simp]:
  "netConnCallback (fst (NetActivate_ctor n sp cb t uid rt g)) = cb" "netSpecifier (fst (NetActivate_ctor n sp cb t uid rt g)) = sp"
  "GetUid (fst (NetActivate_ctor n sp cb t uid rt g)) = uid" "na_id (fst (NetActivate_ctor n sp cb t uid rt g)) = n"
  by (simp_all add: NetActivate_ctor_def NetRequest_ctor_def Let_def split: option.split)

lemma clients_with_request: "same_clients s t \<Longrightarrow>
  same_clients (with_request uid a s)
    (t\<lparr> cs_activates := om_put uid ((case om_get (cs_activates s) uid of None \<Rightarrow> [] | Some as \<Rightarrow> as) @ [a]) (cs_activates t) \<rparr>)"
  by (simp add: same_clients_def with_request_def requests_of_def)

lemma ActivateNetwork_clients:
  assumes "ActivateNetwork e sp cb timeout registerType uid s = (r, s')"
  obtains a where "r = NETMANAGER_SUCCESS" "netConnCallback a = Some cb" "netSpecifier a = Some sp" "GetUid a = uid"
    "same_clients (with_request uid a s) s'" "na_id a = cs_nextActivate s"
proof -
  let ?c = "NetActivate_ctor (cs_nextActivate s) (Some sp) (Some cb) timeout uid registerType (cs_nextRequestId s)"
  define a where "a = (fst ?c)\<lparr> netRequest := (netRequest (fst ?c))\<lparr> rq_isControlled := ce_controlled e (netRequest (fst ?c)) \<rparr> \<rparr>"
  define s1 where "s1 = s\<lparr> cs_nextActivate := Suc (cs_nextActivate s), cs_nextRequestId := snd ?c \<rparr>"
  have a: "netConnCallback a = Some cb" "netSpecifier a = Some sp" "GetUid a = uid" "na_id a = cs_nextActivate s" by (simp_all add: a_def)
  have s1: "same_clients s s1" by (simp add: s1_def)
  obtain score best where b: "FindBestNetworkForRequest a s1 = (score, best)" by fastforce
  show thesis
  proof (cases "score \<noteq> 0 \<and> best \<noteq> None")
    case True
    show thesis
      by (rule that [of "a\<lparr> netServiceSupplied := Some (the best) \<rparr>"])
        (use assms True s1 in \<open>auto simp: ActivateNetwork_def Let_def b a simp flip: a_def s1_def intro!: clients_ops clients_with_request\<close>)
  next
    case False
    show thesis
      by (rule that [of a])
        (use assms False s1 in \<open>auto simp: ActivateNetwork_def Let_def b a simp flip: a_def s1_def intro!: clients_ops clients_with_request\<close>)
  qed
qed

subsection \<open>The end of a request\<close>

lemma decrease_loop_starts: "decrease_loop cb seen rest = Some y \<Longrightarrow> rest = [] \<or> netConnCallback (hd rest) \<noteq> None"
  by (erule decrease_loop.raw_induct [where P = "\<lambda>c sn r y. r = [] \<or> netConnCallback (hd r) \<noteq> None", rotated])
    (fastforce split: list.splits if_splits)

lemma decrease_loop_null: "netConnCallback a = None \<Longrightarrow> decrease_loop cb seen (a # as) = None"
  using decrease_loop_starts [of cb seen "a # as"] by (cases "decrease_loop cb seen (a # as)") auto

lemma decrease_loop_Nil [simp]: "decrease_loop cb seen [] = Some (None, seen)"
  by (subst decrease_loop.simps) simp

lemma decrease_loop_Cons [simp]:
  "decrease_loop cb seen (a # as) =
     (if netConnCallback a = None then None else if netConnCallback a = Some cb then Some (Some a, seen @ as) else decrease_loop cb (seen @ [a]) as)"
  by (cases "netConnCallback a = None", simp add: decrease_loop_null) (subst decrease_loop.simps, auto)

lemma decrease_loop_blocked: "decrease_loop cb seen as = None \<longleftrightarrow> null_blocks cb as"
  by (induction as arbitrary: seen) (simp_all add: null_blocks_def)

lemma decrease_loop_last:
  assumes "\<not> null_blocks cb as" "\<forall>b \<in> set as. netConnCallback b \<noteq> Some cb" "netConnCallback a = Some cb"
  shows "decrease_loop cb seen (as @ [a]) = Some (Some a, seen @ as)"
  using assms by (induction as arbitrary: seen) (simp_all add: null_blocks_def split: if_splits)

lemma null_blocks_append: "null_blocks cb as \<Longrightarrow> null_blocks cb (as @ bs)"
  by (induction as) (simp_all add: null_blocks_def split: if_splits)

lemma om_ext: "om_wf m \<Longrightarrow> om_wf m' \<Longrightarrow> map_of m = map_of m' \<Longrightarrow> m = m'"
proof -
  assume wf: "om_wf m" "om_wf m'" and eq: "map_of m = map_of m'"
  note d = om_wf_distinct [OF wf(1)] om_wf_distinct [OF wf(2)]
  from eq have set: "set m = set m'" using map_of_inject_set [OF d] by simp
  have s: "sorted (map fst m)" "sorted (map fst m')" using wf by (auto simp: om_wf_def strict_sorted_iff)
  have "inj_on fst (set m \<union> set m')" using d(2) set by (simp add: distinct_map)
  then show "m = m'" by (rule map_sorted_distinct_set_unique [OF _ s(1) d(1) s(2) d(2) set])
qed

lemma FindSame_None: "FindSameCallback cb s = None \<longleftrightarrow> (\<forall>as \<in> snd ` set (cs_activates s). \<forall>a \<in> set as. netConnCallback a \<noteq> Some cb)"
  by (auto simp: FindSameCallback_def find_None_iff)

lemma FindSame_requests: "FindSameCallback cb s = None \<Longrightarrow> \<forall>b \<in> set (requests_of uid s). netConnCallback b \<noteq> Some cb"
  by (cases "om_get (cs_activates s) uid") (force simp: FindSame_None requests_of_def dest: map_of_SomeD)+

lemma find_only:
  assumes "y \<in> set xs" "P y" "\<forall>x \<in> set xs. P x \<longrightarrow> x = y"
  shows "find P xs = Some y"
proof (cases "find P xs")
  case None
  then show ?thesis using assms(1, 2) by (auto simp: find_None_iff)
next
  case (Some z)
  then have "z \<in> set xs" "P z" by (auto simp: find_Some_iff)
  then show ?thesis using Some assms(3) by blast
qed

lemma om_put_values: "om_wf m \<Longrightarrow> snd ` set (om_put k v m) \<subseteq> insert v (snd ` set m)"
  by (induction k v m rule: om_put.induct) (auto simp: om_wf_Cons)

text \<open>The request just made is the one a search for its callback finds.\<close>

lemma FindSame_new:
  assumes "FindSameCallback cb s = None" "om_wf (cs_activates s)" "same_clients (with_request uid a s) t" "netConnCallback a = Some cb"
  shows "FindSameCallback cb t = Some (GetRequestId a, register_type (netSpecifier a), GetUid a)"
proof -
  let ?old = "requests_of uid s"
  have act: "cs_activates t = om_put uid (?old @ [a]) (cs_activates s)" using assms(3) by (simp add: same_clients_def with_request_def)
  have old: "\<forall>b \<in> set ?old. netConnCallback b \<noteq> Some cb" using assms(1) by (rule FindSame_requests)
  have only: "b = a" if "b \<in> set (concat (map snd (cs_activates t)))" "netConnCallback b = Some cb" for b
    using that old assms(1) om_put_values [OF assms(2), of uid "?old @ [a]"] by (fastforce simp: act FindSame_None)
  have "(uid, ?old @ [a]) \<in> set (cs_activates t)"
    using map_of_SomeD [of "cs_activates t" uid "?old @ [a]"] by (simp add: act)
  then have "a \<in> set (concat (map snd (cs_activates t)))" by force
  then have "find (\<lambda>b. netConnCallback b = Some cb) (concat (map snd (cs_activates t))) = Some a"
    by (rule find_only) (use only assms(4) in blast)+
  then show ?thesis by (simp add: FindSameCallback_def)
qed

lemma drop_request:
  assumes "om_wf m" "[] \<notin> snd ` set m" and old_def: "old = (case om_get m k of None \<Rightarrow> [] | Some xs \<Rightarrow> xs)"
  shows "(if old = [] then om_del k (om_put k (old @ [x]) m) else om_put k old (om_put k (old @ [x]) m)) = m"
proof -
  have "om_get m k = (if old = [] then None else Some old)"
    using assms(2) by (cases "om_get m k") (force simp: old_def dest: map_of_SomeD)+
  then show ?thesis using assms(1) by (intro om_ext) (auto simp: fun_eq_iff)
qed

lemma count_frame:
  "cs_activates (DecreaseNetConnCallbackCntForUid uid rt s) = cs_activates s"
  "cs_activates (snd (IncreaseNetConnCallbackCntForUid uid rt s)) = cs_activates s"
  by (simp_all add: DecreaseNetConnCallbackCntForUid_def IncreaseNetConnCallbackCntForUid_def Let_def split: option.split)

lemma count_clients: "same_clients (with_request uid a s) t \<Longrightarrow>
  same_clients (with_request uid a (DecreaseNetConnCallbackCntForUid uid' rt s)) (DecreaseNetConnCallbackCntForUid uid' rt t)"
  by (auto simp: same_clients_def with_request_def requests_of_def DecreaseNetConnCallbackCntForUid_def Let_def split: option.split)

lemma Decrease_new:
  assumes wf: "om_wf (cs_activates s)" "[] \<notin> snd ` set (cs_activates s)" and new: "FindSameCallback cb s = None" "netConnCallback a = Some cb"
    and t: "same_clients (with_request uid a s) t" and ok: "\<not> null_blocks cb (requests_of uid s)"
  shows "\<exists>t'. DecreaseNetActivates e uid cb t = Some t' \<and> same_clients s t'"
proof -
  have act: "cs_activates t = om_put uid (requests_of uid s @ [a]) (cs_activates s)" using t by (simp add: same_clients_def with_request_def)
  have loop: "decrease_loop cb [] (requests_of uid s @ [a]) = Some (Some a, requests_of uid s)"
    using decrease_loop_last [OF ok FindSame_requests [OF new(1)] new(2), of "[]"] by simp
  define u where "u = CancelRequestForSupplier e a (GetRequestId a) t"
  have u: "same_clients t u" by (simp add: u_def clients_ops)
  then have actu: "cs_activates u = cs_activates t" by (simp add: same_clients_def)
  have "(if requests_of uid s = [] then om_del uid (cs_activates u) else om_put uid (requests_of uid s) (cs_activates u)) = cs_activates s"
    using drop_request [OF wf requests_of_def [of uid s], of a] unfolding act actu .
  then have "DecreaseNetActivates e uid cb t = Some (u\<lparr> cs_activates := cs_activates s \<rparr>)"
    by (auto simp: DecreaseNetActivates_def act loop Let_def simp flip: u_def split: if_splits)
  then show ?thesis using t u by (simp add: same_clients_def with_request_def)
qed

text \<open>Giving up the request just made: the handler returns unless the list is blocked, and then the request is gone.\<close>

lemma Unregister_new:
  assumes wf: "om_wf (cs_activates s)" "[] \<notin> snd ` set (cs_activates s)" and new: "FindSameCallback cb s = None" "netConnCallback a = Some cb"
    and t: "same_clients (with_request uid a s) t" "GetUid a = uid"
  shows "if null_blocks cb (requests_of uid s) then UnregisterNetConnCallbackAsync e (Some cb) t = None
    else \<exists>s'. UnregisterNetConnCallbackAsync e (Some cb) t = Some (NETMANAGER_SUCCESS, s')
      \<and> same_clients (DecreaseNetConnCallbackCntForUid uid (register_type (netSpecifier a)) s) s'"
proof -
  let ?rt = "register_type (netSpecifier a)"
  let ?s = "DecreaseNetConnCallbackCntForUid uid ?rt s" and ?t = "DecreaseNetConnCallbackCntForUid uid ?rt t"
  note found = FindSame_new [OF new(1) wf(1) t(1) new(2), unfolded t(2)]
  have same: "FindSameCallback cb ?s = None" "requests_of uid ?s = requests_of uid s"
    using new(1) by (simp_all add: FindSameCallback_def requests_of_def count_frame)
  have act: "om_get (cs_activates ?t) uid = Some (requests_of uid s @ [a])"
    using t(1) by (simp add: count_frame same_clients_def with_request_def)
  show ?thesis
  proof (cases "null_blocks cb (requests_of uid s)")
    case True
    then have "decrease_loop cb [] (requests_of uid s @ [a]) = None" by (simp add: decrease_loop_blocked null_blocks_append)
    with True found act show ?thesis by (simp add: UnregisterNetConnCallbackAsync_def DecreaseNetActivates_def)
  next
    case False
    have "\<exists>t'. DecreaseNetActivates e uid cb ?t = Some t' \<and> same_clients ?s t'"
      by (rule Decrease_new) (use wf new same False count_clients [OF t(1)] in \<open>simp_all add: count_frame\<close>)
    with False found show ?thesis by (auto simp: UnregisterNetConnCallbackAsync_def)
  qed
qed

lemma Decrease_blocked: "DecreaseNetActivates e uid cb s = None \<longleftrightarrow> null_blocks cb (requests_of uid s)"
proof (cases "om_get (cs_activates s) uid")
  case None
  then show ?thesis by (simp add: DecreaseNetActivates_def requests_of_def null_blocks_def)
next
  case (Some as)
  then show ?thesis
    by (simp add: DecreaseNetActivates_def requests_of_def Let_def split_def flip: decrease_loop_blocked [of cb "[]"] split: option.split)
qed

subsection \<open>The counts\<close>

lemma Increase_result:
  assumes "IncreaseNetConnCallbackCntForUid uid rt s = (r, s')"
  shows "r = NETMANAGER_SUCCESS \<or> s' = s"
  using assms by (auto simp: IncreaseNetConnCallbackCntForUid_def Let_def split: option.splits if_splits)

text \<open>A count raised and lowered again is the count there was.\<close>

lemma Decrease_Increase:
  assumes "IncreaseNetConnCallbackCntForUid uid rt s = (NETMANAGER_SUCCESS, s')" "clients_wf s"
  shows "same_clients s (DecreaseNetConnCallbackCntForUid uid rt s')"
proof -
  define m where "m = (if rt = REGISTER then cs_netUidRequest s else cs_internalDefaultUidRequest s)"
  have wf: "om_wf m" "0 \<notin> snd ` set m" using assms(2) by (auto simp: clients_wf_def m_def)
  have pos: "n \<noteq> 0" if "om_get m uid = Some n" for n using wf(2) that by (force dest: map_of_SomeD)
  have gone: "om_del uid (om_put uid v m) = m" if "om_get m uid = None" for v
    using wf(1) that by (intro om_ext om_wf_del om_wf_put) (auto simp: fun_eq_iff)
  have again: "om_put uid n (om_put uid v m) = m" if "om_get m uid = Some n" for v n
    using wf(1) that by (intro om_ext om_wf_put) (auto simp: fun_eq_iff)
  show ?thesis
  proof (cases "om_get m uid")
    case None
    with assms(1) gone [OF this] show ?thesis
      by (auto simp: IncreaseNetConnCallbackCntForUid_def DecreaseNetConnCallbackCntForUid_def same_clients_def m_def Let_def split: if_splits)
  next
    case (Some n)
    have "1 \<le> n + 1" "n + 1 \<noteq> 0" if "n < MAX_ALLOW_UID_NUM" using that by (simp_all add: unat_arith_simps)
    with assms(1) Some pos [OF Some] again [OF Some] show ?thesis
      by (auto simp: IncreaseNetConnCallbackCntForUid_def DecreaseNetConnCallbackCntForUid_def same_clients_def m_def Let_def not_le split: if_splits)
  qed
qed

text \<open>One round of asking and giving up, for a request that is counted under one type and uncounted under the other.\<close>

lemma leak_round:
  assumes wf: "om_wf (cs_activates s)" "[] \<notin> snd ` set (cs_activates s)" and new: "FindSameCallback cb s = None"
    and ok: "\<not> null_blocks cb (requests_of uid s)" and rt: "register_type (Some sp) = REGISTER" "om_get (cs_netUidRequest s) uid = None"
    and n: "om_get (cs_internalDefaultUidRequest s) uid = (if n = 0 then None else Some (of_nat n))" "n < 2000"
  obtains s1 where "UnregisterNetConnCallbackAsync e (Some cb) (snd (RequestNetConnectionAsync e (Some sp) (Some cb) timeout uid s))
      = Some (NETMANAGER_SUCCESS, s1)"
    "cs_activates s1 = cs_activates s" "cs_netUidRequest s1 = cs_netUidRequest s"
    "om_get (cs_internalDefaultUidRequest s1) uid = Some (of_nat (Suc n))"
proof -
  define s0 where "s0 = s\<lparr> cs_internalDefaultUidRequest := om_put uid (of_nat (Suc n)) (cs_internalDefaultUidRequest s) \<rparr>"
  have small: "\<not> (of_nat n :: u32) \<ge> MAX_ALLOW_UID_NUM" using n(2) by (simp add: word_le_nat_alt unat_of_nat)
  have inc: "IncreaseNetConnCallbackCntForUid uid REQUEST s = (NETMANAGER_SUCCESS, s0)"
    using n(1) small by (auto simp: IncreaseNetConnCallbackCntForUid_def s0_def Let_def add.commute)
  obtain r t where act: "ActivateNetwork e sp cb timeout REQUEST uid s0 = (r, t)" by fastforce
  then obtain a where a: "netConnCallback a = Some cb" "netSpecifier a = Some sp" "GetUid a = uid" "same_clients (with_request uid a s0) t"
    by (rule ActivateNetwork_clients)
  have req: "RequestNetConnectionAsync e (Some sp) (Some cb) timeout uid s = (r, t)"
    using new inc act by (simp add: RequestNetConnectionAsync_def)
  have "\<exists>s'. UnregisterNetConnCallbackAsync e (Some cb) t = Some (NETMANAGER_SUCCESS, s')
      \<and> same_clients (DecreaseNetConnCallbackCntForUid uid (register_type (netSpecifier a)) s0) s'"
    using Unregister_new [of s0 cb a uid t e] wf new a ok by (simp add: s0_def FindSameCallback_def requests_of_def)
  then obtain s1 where s1: "UnregisterNetConnCallbackAsync e (Some cb) t = Some (NETMANAGER_SUCCESS, s1)"
    "same_clients (DecreaseNetConnCallbackCntForUid uid REGISTER s0) s1" using a(2) rt(1) by auto
  have "DecreaseNetConnCallbackCntForUid uid REGISTER s0 = s0" using rt(2) by (simp add: DecreaseNetConnCallbackCntForUid_def s0_def)
  with s1 req show thesis by (intro that [of s1]) (simp_all add: same_clients_def s0_def)
qed

lemma leak_rounds:
  assumes "om_wf (cs_activates s)" "[] \<notin> snd ` set (cs_activates s)" "FindSameCallback cb s = None"
    "\<not> null_blocks cb (requests_of uid s)" "register_type (Some sp) = REGISTER" "om_get (cs_netUidRequest s) uid = None"
    "om_get (cs_internalDefaultUidRequest s) uid = (if n = 0 then None else Some (of_nat n))" "n + k \<le> 2000"
  shows "\<exists>s'. request_rounds k e sp cb timeout uid s = Some s' \<and> cs_activates s' = cs_activates s
    \<and> om_get (cs_internalDefaultUidRequest s') uid = (if n + k = 0 then None else Some (of_nat (n + k)))"
  using assms
proof (induction k arbitrary: s n)
  case (Suc k)
  obtain s1 where s1: "UnregisterNetConnCallbackAsync e (Some cb) (snd (RequestNetConnectionAsync e (Some sp) (Some cb) timeout uid s))
      = Some (NETMANAGER_SUCCESS, s1)"
    "cs_activates s1 = cs_activates s" "cs_netUidRequest s1 = cs_netUidRequest s"
    "om_get (cs_internalDefaultUidRequest s1) uid = Some (of_nat (Suc n))"
    by (rule leak_round [of s cb uid sp n e timeout]) (use Suc.prems in simp_all)
  have "\<exists>s'. request_rounds k e sp cb timeout uid s1 = Some s' \<and> cs_activates s' = cs_activates s1
    \<and> om_get (cs_internalDefaultUidRequest s') uid = (if Suc n + k = 0 then None else Some (of_nat (Suc n + k)))"
    by (rule Suc.IH) (use Suc.prems s1 in \<open>simp_all add: FindSameCallback_def requests_of_def\<close>)
  then show ?case using s1 by simp
qed simp

lemma Register_accepted:
  assumes "RegisterNetConnCallbackAsync e (Some sp) (Some cb) timeout uid s = (NETMANAGER_SUCCESS, s1)"
  obtains s0 a where "IncreaseNetConnCallbackCntForUid uid (register_type (Some sp)) s = (NETMANAGER_SUCCESS, s0)" "FindSameCallback cb s0 = None"
    "cs_activates s0 = cs_activates s" "requests_of uid s0 = requests_of uid s"
    "netConnCallback a = Some cb" "netSpecifier a = Some sp" "GetUid a = uid" "same_clients (with_request uid a s0) s1"
proof -
  obtain r s0 where inc: "IncreaseNetConnCallbackCntForUid uid (register_type (Some sp)) s = (r, s0)" by fastforce
  have a0: "cs_activates s0 = cs_activates s" using count_frame(2) [of uid "register_type (Some sp)" s] inc by simp
  have new: "FindSameCallback cb s = None" and r: "r = NETMANAGER_SUCCESS" and act: "ActivateNetwork e sp cb timeout REGISTER uid s0 = (NETMANAGER_SUCCESS, s1)"
    using assms inc by (cases "FindSameCallback cb s"; simp add: RegisterNetConnCallbackAsync_def split: if_splits)+
  show thesis
    by (rule ActivateNetwork_clients [OF act], rule that) (use inc r new a0 in \<open>simp_all add: FindSameCallback_def requests_of_def\<close>)
qed

subsection \<open>Identifiers\<close>

lemma FindNetwork_fields [simp]:
  "FindNetwork v (s\<lparr> cs_netIdLastValue := x \<rparr>) = FindNetwork v s" "FindNetwork v (s\<lparr> cs_internalNetIdLastValue := x \<rparr>) = FindNetwork v s"
  by (simp_all add: FindNetwork_def cong: option.case_cong)

lemma tried_id_next:
  assumes "MIN_NET_ID - 1 \<le> l" "l \<le> MAX_NET_ID" "v = (if l + 1 > MAX_NET_ID then MIN_NET_ID else l + 1)"
  shows "v = tried_id l 0" "tried_id v k = tried_id l (Suc k)"
proof -
  let ?n = "MAX_NET_ID - MIN_NET_ID + 1"
  have v: "v mod ?n = (l + 1) mod ?n" using assms by (auto simp: not_less)
  show "v = tried_id l 0" using assms by (auto simp: tried_id_def mod_pos_pos_trivial)
  have "(v + 1 + int k - MIN_NET_ID) mod ?n = (l + 1 + (1 + int k - MIN_NET_ID)) mod ?n"
    using mod_add_cong [OF v refl, of "1 + int k - MIN_NET_ID"] by (simp add: algebra_simps)
  then show "tried_id v k = tried_id l (Suc k)" by (simp add: tried_id_def algebra_simps)
qed

lemma tried_id_all:
  assumes "v \<in> {MIN_NET_ID..MAX_NET_ID}"
  obtains k where "k < nat (MAX_NET_ID - MIN_NET_ID + 1)" "tried_id l k = v"
proof
  let ?k = "nat ((v - l - 1) mod (MAX_NET_ID - MIN_NET_ID + 1))"
  show "?k < nat (MAX_NET_ID - MIN_NET_ID + 1)" by simp
  have "(l + 1 + int ?k - MIN_NET_ID) mod (MAX_NET_ID - MIN_NET_ID + 1) = (v - MIN_NET_ID) mod (MAX_NET_ID - MIN_NET_ID + 1)"
    using mod_add_right_eq [of "l + 1 - MIN_NET_ID" "v - l - 1" "MAX_NET_ID - MIN_NET_ID + 1"] by (simp add: algebra_simps)
  with assms show "tried_id l ?k = v" by (simp add: tried_id_def)
qed

lemma generate_loop_spec:
  assumes "MIN_NET_ID - 1 \<le> cs_netIdLastValue s" "cs_netIdLastValue s \<le> MAX_NET_ID" "generate_loop n s = (v, s')"
  shows "v \<in> {MIN_NET_ID..MAX_NET_ID} \<and> FindNetwork v s = None
    \<or> v = INVALID_NET_ID \<and> (\<forall>k < n. FindNetwork (tried_id (cs_netIdLastValue s) k) s \<noteq> None)"
  using assms
proof (induction n arbitrary: s)
  case (Suc n)
  define w where "w = (if cs_netIdLastValue s + 1 > MAX_NET_ID then MIN_NET_ID else cs_netIdLastValue s + 1)"
  note w = tried_id_next [OF Suc.prems(1, 2) w_def]
  note eq = Suc.prems(3) [unfolded generate_loop.simps Let_def FindNetwork_fields, folded w_def]
  have r: "MIN_NET_ID \<le> w" "w \<le> MAX_NET_ID" using Suc.prems(1, 2) by (auto simp: w_def)
  show ?case
  proof (cases "FindNetwork w s = None")
    case True
    with eq have "v = w" by simp
    with True r show ?thesis by simp
  next
    case False
    with eq have "generate_loop n (s\<lparr> cs_netIdLastValue := w \<rparr>) = (v, s')" by simp
    from Suc.IH [OF _ _ this] r have "v \<in> {MIN_NET_ID..MAX_NET_ID} \<and> FindNetwork v s = None
      \<or> v = INVALID_NET_ID \<and> (\<forall>k < n. FindNetwork (tried_id (cs_netIdLastValue s) (Suc k)) s \<noteq> None)"
      by (simp add: w(2))
    with False w(1) show ?thesis by (auto simp: less_Suc_eq_0_disj)
  qed
qed simp

lemma internal_run:
  assumes "\<forall>i < n. FindNetwork (cs_internalNetIdLastValue s + int i) s \<noteq> None" "cs_internalNetIdLastValue s + int n \<le> MAX_INTERNAL_NET_ID + 1"
  shows "generate_internal_loop (n + m) s = generate_internal_loop m (s\<lparr> cs_internalNetIdLastValue := cs_internalNetIdLastValue s + int n \<rparr>)"
  using assms
proof (induction n arbitrary: s)
  case (Suc n)
  let ?l = "cs_internalNetIdLastValue s" and ?s = "s\<lparr> cs_internalNetIdLastValue := cs_internalNetIdLastValue s + 1 \<rparr>"
  have busy: "FindNetwork (?l + 1 + int i) s \<noteq> None" if "i < n" for i
    using Suc.prems(1) [rule_format, of "Suc i"] that by (simp add: add.assoc)
  have first: "FindNetwork ?l s \<noteq> None" "\<not> ?l > MAX_INTERNAL_NET_ID" using Suc.prems(1) [rule_format, of 0] Suc.prems(2) by auto
  have "generate_internal_loop (Suc n + m) s = generate_internal_loop (n + m) ?s"
    using first by (auto simp: Let_def)
  also have "\<dots> = generate_internal_loop m (?s\<lparr> cs_internalNetIdLastValue := cs_internalNetIdLastValue ?s + int n \<rparr>)"
  proof (rule Suc.IH)
    show "\<forall>i < n. FindNetwork (cs_internalNetIdLastValue ?s + int i) ?s \<noteq> None" using busy by simp
    show "cs_internalNetIdLastValue ?s + int n \<le> MAX_INTERNAL_NET_ID + 1" using Suc.prems(2) by simp
  qed
  finally show ?case by (simp add: add.assoc)
qed simp

section \<open>Properties\<close>

text \<open>
  C25. The handler that ends a request returns in every state but one kind: it does not return exactly
  when the uid found for the callback has a request without callback in its list before the one
  that is looked for.
\<close>

theorem unregister_returns:
  "UnregisterNetConnCallbackAsync e (Some cb) s = None \<longleftrightarrow>
     (\<exists>reqId registerType uid. FindSameCallback cb s = Some (reqId, registerType, uid) \<and> null_blocks cb (requests_of uid s))"
proof -
  have "requests_of uid (DecreaseNetConnCallbackCntForUid uid' rt s) = requests_of uid s" for uid uid' rt
    by (simp add: requests_of_def count_frame)
  then show ?thesis by (auto simp: UnregisterNetConnCallbackAsync_def option.case_eq_if Decrease_blocked split: if_splits)
qed

text \<open>
  C12. Ending a request undoes making it: after an accepted registration, the handler that ends it
  returns, and requests and both counts are as they were before the registration. The one exception is a list of the
  uid in which a request without callback stands (the default request, whose list is that of the service itself):
  there the handler does not return.
\<close>

theorem register_unregister:
  assumes "RegisterNetConnCallbackAsync e (Some sp) (Some cb) timeout uid s = (NETMANAGER_SUCCESS, s1)" "clients_wf s"
  shows "if null_blocks cb (requests_of uid s) then UnregisterNetConnCallbackAsync e' (Some cb) s1 = None
    else \<exists>s2. UnregisterNetConnCallbackAsync e' (Some cb) s1 = Some (NETMANAGER_SUCCESS, s2) \<and> cs_activates s2 = cs_activates s
    \<and> cs_netUidRequest s2 = cs_netUidRequest s \<and> cs_internalDefaultUidRequest s2 = cs_internalDefaultUidRequest s"
proof -
  obtain s0 a where inc: "IncreaseNetConnCallbackCntForUid uid (register_type (Some sp)) s = (NETMANAGER_SUCCESS, s0)"
    and a0: "FindSameCallback cb s0 = None" "cs_activates s0 = cs_activates s" "requests_of uid s0 = requests_of uid s"
    and a: "netConnCallback a = Some cb" "netSpecifier a = Some sp" "GetUid a = uid" "same_clients (with_request uid a s0) s1"
    by (rule Register_accepted [OF assms(1)])
  have u: "if null_blocks cb (requests_of uid s) then UnregisterNetConnCallbackAsync e' (Some cb) s1 = None
    else \<exists>s2. UnregisterNetConnCallbackAsync e' (Some cb) s1 = Some (NETMANAGER_SUCCESS, s2)
      \<and> same_clients (DecreaseNetConnCallbackCntForUid uid (register_type (Some sp)) s0) s2"
    using Unregister_new [of s0 cb a uid s1 e', unfolded a(2)] assms(2) a by (simp add: a0 clients_wf_def)
  have "same_clients s (DecreaseNetConnCallbackCntForUid uid (register_type (Some sp)) s0)"
    by (rule Decrease_Increase [OF inc assms(2)])
  with u show ?thesis by (auto simp: same_clients_def split: if_splits)
qed

theorem register_unregister_witness:
  "(\<exists>s2. UnregisterNetConnCallbackAsync quiet_env (Some 7)
       (snd (RegisterNetConnCallbackAsync quiet_env (Some NetSpecifier_default) (Some 7) 0 20001 (CreateDefaultRequest conn_start)))
     = Some (NETMANAGER_SUCCESS, s2) \<and> cs_activates s2 = cs_activates (CreateDefaultRequest conn_start)
    \<and> cs_netUidRequest s2 = [] \<and> cs_internalDefaultUidRequest s2 = [])
  \<and> UnregisterNetConnCallbackAsync quiet_env (Some 7)
       (snd (RegisterNetConnCallbackAsync quiet_env (Some NetSpecifier_default) (Some 7) 0 1099 (CreateDefaultRequest conn_start))) = None"
proof -
  let ?s = "CreateDefaultRequest conn_start"
  let ?r = "\<lambda>uid. RegisterNetConnCallbackAsync quiet_env (Some NetSpecifier_default) (Some 7) 0 uid ?s"
  have r: "?r 20001 = (NETMANAGER_SUCCESS, snd (?r 20001))" "?r 1099 = (NETMANAGER_SUCCESS, snd (?r 1099))"
    by (rule prod_eqI; code_simp)+
  have w: "clients_wf ?s" by (simp add: clients_wf_def CreateDefaultRequest_def conn_start_def Let_def om_wf_def)
  have b: "\<not> null_blocks 7 (requests_of 20001 ?s)" "null_blocks 7 (requests_of 1099 ?s)"
    by (simp_all add: null_blocks_def requests_of_def CreateDefaultRequest_def conn_start_def Let_def NetActivate_ctor_def)
  have "cs_netUidRequest ?s = []" "cs_internalDefaultUidRequest ?s = []" by (simp_all add: CreateDefaultRequest_def conn_start_def Let_def)
  then show ?thesis using register_unregister [OF r(1) w, of quiet_env] register_unregister [OF r(2) w, of quiet_env] b by simp
qed

text \<open>
  A request made through \<open>RequestNetConnection\<close> is counted as a request for activation but uncounted by the type that
  its specifier has. For an ordinary specifier this loses one place each time: a client that
  asks for a network and gives it up two thousand times holds no request and is refused from then on.
\<close>

theorem request_count_leaks:
  assumes "clients_wf s" "FindSameCallback cb s = None" "\<not> null_blocks cb (requests_of uid s)" "register_type (Some sp) = REGISTER"
    "om_get (cs_netUidRequest s) uid = None" "om_get (cs_internalDefaultUidRequest s) uid = None"
  shows "\<exists>s'. request_rounds 2000 e sp cb timeout uid s = Some s' \<and> cs_activates s' = cs_activates s
    \<and> RequestNetConnectionAsync e (Some sp) (Some cb) timeout uid s' = (NET_CONN_ERR_NET_OVER_MAX_REQUEST_NUM, s')"
proof -
  obtain s' where s': "request_rounds 2000 e sp cb timeout uid s = Some s'" "cs_activates s' = cs_activates s"
    "om_get (cs_internalDefaultUidRequest s') uid = Some 2000"
    using leak_rounds [of s cb uid sp 0 2000 e timeout] assms by (auto simp: clients_wf_def)
  then have "IncreaseNetConnCallbackCntForUid uid REQUEST s' = (NET_CONN_ERR_NET_OVER_MAX_REQUEST_NUM, s')"
    by (simp add: IncreaseNetConnCallbackCntForUid_def Let_def)
  with s' assms(2) have "RequestNetConnectionAsync e (Some sp) (Some cb) timeout uid s' = (NET_CONN_ERR_NET_OVER_MAX_REQUEST_NUM, s')"
    by (simp add: RequestNetConnectionAsync_def FindSameCallback_def)
  with s' show ?thesis by blast
qed

theorem request_count_leaks_witness:
  "\<exists>s'. request_rounds 2000 quiet_env NetSpecifier_default 7 0 20001 (CreateDefaultRequest conn_start) = Some s'
    \<and> requests_of 20001 s' = []
    \<and> RequestNetConnectionAsync quiet_env (Some NetSpecifier_default) (Some 7) 0 20001 s' = (NET_CONN_ERR_NET_OVER_MAX_REQUEST_NUM, s')"
proof -
  let ?s = "CreateDefaultRequest conn_start"
  have w: "clients_wf ?s" by (simp add: clients_wf_def CreateDefaultRequest_def conn_start_def Let_def om_wf_def)
  have f: "FindSameCallback 7 ?s = None" "requests_of 20001 ?s = []" "om_get (cs_netUidRequest ?s) 20001 = None"
    "om_get (cs_internalDefaultUidRequest ?s) 20001 = None"
    by (simp_all add: FindSameCallback_def requests_of_def CreateDefaultRequest_def conn_start_def Let_def)
  have b: "\<not> null_blocks 7 (requests_of 20001 ?s)" by (simp add: null_blocks_def f)
  have t: "register_type (Some NetSpecifier_default) = REGISTER" by code_simp
  show ?thesis using request_count_leaks [OF w f(1) b t f(3, 4), of quiet_env 0] f(2) by (auto simp: requests_of_def)
qed

text \<open>
  C13. \<open>GenerateNetId\<close> returns an identifier of the range that no network has whenever there is one,
  wherever the last value stands, and \<open>INVALID_NET_ID\<close> exactly when all are taken.
\<close>

theorem generated_id_is_free:
  assumes "MIN_NET_ID - 1 \<le> cs_netIdLastValue s" "cs_netIdLastValue s \<le> MAX_NET_ID" "GenerateNetId s = (v, s')"
  shows "if \<forall>i \<in> {MIN_NET_ID..MAX_NET_ID}. FindNetwork i s \<noteq> None then v = INVALID_NET_ID
    else v \<in> {MIN_NET_ID..MAX_NET_ID} \<and> FindNetwork v s = None"
proof -
  note g = generate_loop_spec [OF assms(1, 2) assms(3) [unfolded GenerateNetId_def]]
  show ?thesis
  proof (cases "\<forall>k < nat (MAX_NET_ID - MIN_NET_ID + 1). FindNetwork (tried_id (cs_netIdLastValue s) k) s \<noteq> None")
    case True
    have "FindNetwork i s \<noteq> None" if "i \<in> {MIN_NET_ID..MAX_NET_ID}" for i
      by (rule tried_id_all [OF that, of "cs_netIdLastValue s"]) (use True in auto)
    then show ?thesis using g by (metis (no_types))
  next
    case False
    then have "v \<in> {MIN_NET_ID..MAX_NET_ID} \<and> FindNetwork v s = None" using g by blast
    then show ?thesis by (metis (no_types))
  qed
qed

theorem generated_id_is_free_witness:
  "fst (GenerateNetId conn_start) \<in> {MIN_NET_ID..MAX_NET_ID} \<and> FindNetwork (fst (GenerateNetId conn_start)) conn_start = None"
proof -
  have l: "MIN_NET_ID - 1 \<le> cs_netIdLastValue conn_start" "cs_netIdLastValue conn_start \<le> MAX_NET_ID" "FindNetwork i conn_start = None" for i
    by (simp_all add: conn_start_def FindNetwork_def)
  show ?thesis using generated_id_is_free [OF l(1, 2), of "fst (GenerateNetId conn_start)" "snd (GenerateNetId conn_start)"] l(3) [of MIN_NET_ID]
    by (auto split: if_splits dest: bspec [of _ _ MIN_NET_ID])
qed

text \<open>
  \<open>GenerateInternalNetId\<close> can miss the last free identifier: with the next value between 3 and 50 the first
  identifier is tried twice after the wrap, and the one just below the next value is not
  tried, so the call fails although that one may be free.
\<close>

theorem internal_id_missed:
  assumes "3 \<le> cs_internalNetIdLastValue s" "cs_internalNetIdLastValue s \<le> MAX_INTERNAL_NET_ID"
    "\<forall>v \<in> {MIN_INTERNAL_NET_ID..MAX_INTERNAL_NET_ID} - {cs_internalNetIdLastValue s - 1}. FindNetwork v s \<noteq> None"
  shows "fst (GenerateInternalNetId s) = INVALID_NET_ID"
proof -
  let ?l = "cs_internalNetIdLastValue s"
  define n k where "n = nat (51 - ?l)" and "k = nat (?l - 2)"
  have busy: "FindNetwork v s \<noteq> None" if "1 \<le> v" "v \<le> 50" "v \<noteq> ?l - 1" for v using assms(3) that by auto
  let ?s1 = "s\<lparr> cs_internalNetIdLastValue := 51 \<rparr>" and ?s2 = "s\<lparr> cs_internalNetIdLastValue := 1 \<rparr>"
  have n: "int n = 51 - ?l" "int k = ?l - 2" using assms(1, 2) by (simp_all add: n_def k_def)
  then have total: "nat (MAX_INTERNAL_NET_ID - MIN_INTERNAL_NET_ID + 1) = n + Suc k" by auto
  have "generate_internal_loop (n + Suc k) s = generate_internal_loop (Suc k) ?s1"
  proof -
    have e: "?l + int n = 51" using n by simp
    have "\<forall>i < n. FindNetwork (?l + int i) s \<noteq> None" by (intro allI impI busy) (use assms(1) n in auto)
    from internal_run [OF this, of "Suc k", unfolded e] show ?thesis by simp
  qed
  also have "\<dots> = generate_internal_loop (k + 0) ?s2" using busy [of 1] assms(1) by (auto simp: Let_def)
  also have "\<dots> = generate_internal_loop 0 (?s2\<lparr> cs_internalNetIdLastValue := cs_internalNetIdLastValue ?s2 + int k \<rparr>)"
    by (rule internal_run) (use busy assms(1, 2) n in auto)
  finally show ?thesis unfolding GenerateInternalNetId_def total by simp
qed

theorem internal_id_missed_witness:
  "let s = conn_start\<lparr> cs_internalNetIdLastValue := 3,
       cs_heap := map (\<lambda>i. first_wifi\<lparr> network := Some (Network_ctor i) \<rparr>) (1 # [3..50]),
       cs_netSuppliers := map (\<lambda>i. (of_nat i, i)) [0..<49] \<rparr> in
   FindNetwork 2 s = None \<and> fst (GenerateInternalNetId s) = INVALID_NET_ID"
proof -
  define s where "s = conn_start\<lparr> cs_internalNetIdLastValue := 3,
       cs_heap := map (\<lambda>i. first_wifi\<lparr> network := Some (Network_ctor i) \<rparr>) (1 # [3..50]),
       cs_netSuppliers := map (\<lambda>i. (of_nat i, i)) [0..<49] \<rparr>"
  have l: "3 \<le> cs_internalNetIdLastValue s" "cs_internalNetIdLastValue s \<le> MAX_INTERNAL_NET_ID" by (simp_all add: s_def)
  have "list_all (\<lambda>v. FindNetwork v s \<noteq> None) (1 # [3..50])" unfolding s_def by code_simp
  moreover have "{MIN_INTERNAL_NET_ID..MAX_INTERNAL_NET_ID} - {cs_internalNetIdLastValue s - 1} = set (1 # [3..50])"
    unfolding list.set set_upto by (auto simp: s_def)
  ultimately have busy: "\<forall>v \<in> {MIN_INTERNAL_NET_ID..MAX_INTERNAL_NET_ID} - {cs_internalNetIdLastValue s - 1}. FindNetwork v s \<noteq> None"
    by (simp only: list_all_iff)
  have "FindNetwork 2 s = None" unfolding s_def by code_simp
  then show ?thesis unfolding s_def [symmetric] Let_def using internal_id_missed [OF l busy] by simp
qed

end
