(* ===== verification/Conn_Reach.thy ===== *)
theory Conn_Reach
  imports Conn_Clients "HOL-Library.Multiset"
begin

text \<open>
  The connection service as a state machine: its handlers as steps, the invariant of the
  states they reach, and the properties of the service that rest on it.
\<close>

section \<open>Vocabulary\<close>

text \<open>The handlers of the service, called in any order and with any answers of the surroundings.\<close>

inductive conn_step :: "conn_service \<Rightarrow> conn_service \<Rightarrow> bool" where
  step_register: "RegisterNetConnCallbackAsync e sp cb timeout uid s = (r, s') \<Longrightarrow> conn_step s s'"
| step_request: "RequestNetConnectionAsync e sp cb timeout uid s = (r, s') \<Longrightarrow> conn_step s s'"
| step_unregister: "UnregisterNetConnCallbackAsync e cb s = Some (r, s') \<Longrightarrow> conn_step s s'"
| step_timeout: "a \<in> set (all_activates s) \<Longrightarrow> s' = TimeOutNetAvailable e a s \<Longrightarrow> conn_step s s'"
| step_supplier: "RegisterNetSupplierAsync t i caps callingUid s = Some (r, sid, s') \<Longrightarrow> conn_step s s'"
| step_supplier_callback: "RegisterNetSupplierCallbackAsync e sid' callback s = (r, s') \<Longrightarrow> conn_step s s'"
| step_unregister_supplier: "UnregisterNetSupplierAsync e sid' s = (r, s') \<Longrightarrow> conn_step s s'"
| step_supplier_info: "UpdateNetSupplierInfoAsync e sid' info s = Some (r, s') \<Longrightarrow> conn_step s s'"
| step_link_info: "UpdateNetLinkInfoAsync e sid' link s = (r, s') \<Longrightarrow> conn_step s s'"
| step_detection: "HandleDetectionResult e sid' st s = Some s' \<Longrightarrow> conn_step s s'"
| step_delay: "HandleFindBestNetworkForDelay e s = Some s' \<Longrightarrow> conn_step s s'"
| step_score: "UpdateSupplierScoreAsync e sid' st s = Some (r, s') \<Longrightarrow> conn_step s s'"
| step_lost: "s' = HandleNotifyLostDelay netId s \<Longrightarrow> conn_step s s'"
| step_uids: "UpdateUidLostDelay uids s = (r, s') \<Longrightarrow> conn_step s s'"

inductive conn_reachable :: "conn_service \<Rightarrow> bool" where
  reach_start: "conn_reachable (CreateDefaultRequest conn_start)"
| reach_step: "conn_reachable s \<Longrightarrow> conn_step s s' \<Longrightarrow> conn_reachable s'"

text \<open>The part of the state that searches and notifications leave alone.\<close>

definition frame :: "conn_service \<Rightarrow> (u32, nat) omap \<times> nat \<times> nat \<times> nat option" where
  "frame s = (cs_netSuppliers s, length (cs_heap s), cs_nextActivate s, cs_defaultNetActivate s)"

definition tag :: "NetActivate \<Rightarrow> nat \<times> nat option" where
  "tag a = (na_id a, netConnCallback a)"

definition requests :: "conn_service \<Rightarrow> (u32, (nat \<times> nat option) list) omap" where
  "requests s = map (\<lambda>(k, as). (k, map tag as)) (cs_activates s)"

text \<open>
  Every supplier in the table has its own object in the heap, every request is one object older than the next, no uid
  has an empty list, and the default request, without callback, is the first of the manager's.
\<close>

definition suppliers_inv :: "(u32, nat) omap \<Rightarrow> nat \<Rightarrow> bool" where
  "suppliers_inv m n = (om_wf m \<and> distinct (map snd m) \<and> (\<forall>e \<in> set m. snd e < n))"

definition requests_inv :: "(u32, (nat \<times> nat option) list) omap \<Rightarrow> nat \<Rightarrow> nat option \<Rightarrow> bool" where
  "requests_inv m n d = (om_wf m \<and> [] \<notin> snd ` set m \<and> distinct (map fst (concat (map snd m))) \<and> (\<forall>p \<in> set (concat (map snd m)). fst p < n)
     \<and> (\<exists>i ps. om_get m UID_NET_MANAGER = Some ((i, None) # ps) \<and> d = Some i))"

definition conn_inv :: "conn_service \<Rightarrow> bool" where
  "conn_inv s = (suppliers_inv (cs_netSuppliers s) (length (cs_heap s)) \<and> requests_inv (requests s) (cs_nextActivate s) (cs_defaultNetActivate s))"

text \<open>Every request that is not suspended has the network it should have, and so has the device.\<close>

definition settled :: "conn_service \<Rightarrow> bool" where
  "settled s = (\<forall>a \<in> set (all_activates s). \<not> skipped a \<longrightarrow> netServiceSupplied a = snd (FindBestNetworkForRequest a s)
     \<and> (cs_defaultNetActivate s = Some (na_id a) \<longrightarrow> cs_defaultNetSupplier s = netServiceSupplied a))"

text \<open>
  The search is put off: every request keeps the network it had, and either a wait was already running, or the device is
  on a cellular network, waiting is enabled, and the supplier that reports is a WLAN whose first probe is not over.
\<close>

definition supplied :: "conn_service \<Rightarrow> nat option list" where
  "supplied s = map netServiceSupplied (all_activates s)"

definition put_off :: "conn_env \<Rightarrow> u32 \<Rightarrow> conn_service \<Rightarrow> conn_service \<Rightarrow> bool" where
  "put_off e sid s s' =
     (cs_isDelayHandleFindBestNetwork s' \<and> supplied s' = supplied s \<and> cs_defaultNetSupplier s' = cs_defaultNetSupplier s
      \<and> (cs_isDelayHandleFindBestNetwork s
         \<or> ce_delayWifi e \<and> GetDefaultNetSupplierType s' = BEARER_CELLULAR \<and> cs_delaySupplierId s' = sid
           \<and> (case FindNetSupplier sid s' of None \<Rightarrow> False
              | Some x \<Rightarrow> netSupplierType (cs_heap s' ! x) = BEARER_WIFI \<and> IsInFirstTimeDetecting (cs_heap s' ! x))))"

section \<open>Lemmas\<close>

subsection \<open>What leaves the frame alone\<close>

lemma frame_fields [simp]:
  "frame (on_supplier x f s) = frame s" "frame (call_client c s) = frame s" "frame (s\<lparr> cs_activates := m \<rparr>) = frame s"
  "frame (s\<lparr> cs_defaultNetSupplier := d \<rparr>) = frame s" "frame (s\<lparr> cs_prevNetSupplierType := t \<rparr>) = frame s"
  "frame (s\<lparr> cs_notifyLostDelayCache := c1 \<rparr>) = frame s" "frame (s\<lparr> cs_delaySupplierId := i \<rparr>) = frame s"
  "frame (s\<lparr> cs_isDelayHandleFindBestNetwork := b \<rparr>) = frame s" "frame (s\<lparr> cs_uidLostDelaySet := u \<rparr>) = frame s"
  "frame (s\<lparr> cs_netUidRequest := n1 \<rparr>) = frame s" "frame (s\<lparr> cs_internalDefaultUidRequest := n2 \<rparr>) = frame s"
  by (simp_all add: frame_def on_supplier_def call_client_def)

lemma requests_fields [simp]:
  "requests (on_supplier x f s) = requests s" "requests (call_client c s) = requests s" 
  "requests (s\<lparr> cs_defaultNetSupplier := d \<rparr>) = requests s" "requests (s\<lparr> cs_prevNetSupplierType := t \<rparr>) = requests s"
  "requests (s\<lparr> cs_notifyLostDelayCache := c1 \<rparr>) = requests s" "requests (s\<lparr> cs_delaySupplierId := i \<rparr>) = requests s"
  "requests (s\<lparr> cs_isDelayHandleFindBestNetwork := b \<rparr>) = requests s" "requests (s\<lparr> cs_uidLostDelaySet := u \<rparr>) = requests s"
  "requests (s\<lparr> cs_netUidRequest := n1 \<rparr>) = requests s" "requests (s\<lparr> cs_internalDefaultUidRequest := n2 \<rparr>) = requests s"
  by (simp_all add: requests_def on_supplier_def call_client_def)

lemma frame_loops [simp]:
  "frame (send_request_loop e a xs s) = frame s" "requests (send_request_loop e a xs s) = requests s"
  "frame (best_score_loop e score sid req xs s) = frame s" "requests (best_score_loop e score sid req xs s) = requests s"
  "frame (cancel_loop e req xs s) = frame s" "requests (cancel_loop e req xs s) = requests s"
  "frame (request_others_loop e a d xs s) = frame s" "requests (request_others_loop e a d xs s) = requests s"
  by (induction xs arbitrary: s) simp_all

lemma frame_calls [simp]:
  "frame (CallbackForAvailable b cb s) = frame s" "requests (CallbackForAvailable b cb s) = requests s"
  "frame (MakeDefaultNetWork new s) = frame s" "requests (MakeDefaultNetWork new s) = requests s"
  "frame (snd (NotFindBestSupplier e a x s)) = frame s" "tag (fst (NotFindBestSupplier e a x s)) = tag a"
  "frame (HandleCallback y cb0 ty s) = frame s" "requests (HandleCallback y cb0 ty s) = requests s"
  "frame (CancelRequestForSupplier e a reqId s) = frame s" "requests (CancelRequestForSupplier e a reqId s) = requests s"
  "frame (TimeOutNetAvailable e a s) = frame s" "requests (TimeOutNetAvailable e a s) = requests s"
  "frame (RequestAllNetworkExceptDefault e s) = frame s" "requests (RequestAllNetworkExceptDefault e s) = requests s"
  "frame (RemoveDelayNetwork s) = frame s" "requests (RemoveDelayNetwork s) = requests s"
  by (simp_all add: CallbackForAvailable_def MakeDefaultNetWork_def NotFindBestSupplier_def SendRequestToAllNetwork_def HandleCallback_def
      CancelRequestForSupplier_def TimeOutNetAvailable_def OnNetActivateTimeOut_def RequestAllNetworkExceptDefault_def RemoveDelayNetwork_def
      tag_def Let_def split: option.split prod.split CallbackType.split)

text \<open>A walk over the requests keeps what each of its calls keeps, of the state and of the request.\<close>

lemma each_keeps:
  assumes "\<And>a s. p (snd (f a s)) = p s \<and> g (fst (f a s)) = g a"
  shows "p (snd (each f as s)) = p s \<and> map g (fst (each f as s)) = map g as"
  using assms by (induction "as" arbitrary: s) (simp_all add: case_prod_beta)

lemma each_uid_keeps:
  assumes "\<And>uid a s. p (snd (f uid a s)) = p s \<and> g (fst (f uid a s)) = g a"
  shows "p (snd (each_uid f m s)) = p s \<and> map (\<lambda>(k, as). (k, map g as)) (fst (each_uid f m s)) = map (\<lambda>(k, as). (k, map g as)) m"
proof (induction m arbitrary: s)
  case (Cons x m)
  then show ?case using each_keeps [of p "f (fst x)" g "snd x" s, OF assms] by (cases x) (simp add: case_prod_beta)
qed simp

lemma for_activates_frame:
  assumes "\<And>uid a s. frame (snd (f uid a s)) = frame s \<and> tag (fst (f uid a s)) = tag a"
  shows "frame (for_activates f s) = frame s" "requests (for_activates f s) = requests s"
  using each_uid_keeps [of frame f tag "cs_activates s" s, OF assms] by (simp_all add: for_activates_def requests_def case_prod_beta)

lemma tag_fields [simp]:
  "tag (a\<lparr> needSkipLostDelay := b \<rparr>) = tag a" "tag (a\<lparr> netServiceSupplied := x \<rparr>) = tag a"
  by (simp_all add: tag_def)

lemma find_best_one_frame: "frame (snd (find_best_one e uid a s)) = frame s \<and> tag (fst (find_best_one e uid a s)) = tag a"
  by (simp add: find_best_one_def SendBestScoreAllNetwork_def Let_def split: option.split prod.split)

lemma walks_frame [simp]:
  "frame (FindBestNetworkForAllRequest e s) = frame s" "requests (FindBestNetworkForAllRequest e s) = requests s"
  "frame (HandleNotifyLostDelay netId s) = frame s" "requests (HandleNotifyLostDelay netId s) = requests s"
  "frame (CallbackForSupplier x ty s) = frame s" "requests (CallbackForSupplier x ty s) = requests s"
  "frame (SendAllRequestToNetwork e x s) = frame s" "requests (SendAllRequestToNetwork e x s) = requests s"
  "frame (StopNotifyLostDelay netId s) = frame s" "requests (StopNotifyLostDelay netId s) = requests s"
proof -
  have n: "frame (NotifyNetBearerTypeChange t) = frame t" "requests (NotifyNetBearerTypeChange t) = requests t" for t
    by (simp_all add: NotifyNetBearerTypeChange_def Let_def)
  show "frame (FindBestNetworkForAllRequest e s) = frame s" "requests (FindBestNetworkForAllRequest e s) = requests s"
    by (simp_all add: FindBestNetworkForAllRequest_def n for_activates_frame find_best_one_frame)
  show h: "frame (HandleNotifyLostDelay netId s) = frame s" "requests (HandleNotifyLostDelay netId s) = requests s" for s
    unfolding HandleNotifyLostDelay_def by (rule for_activates_frame; simp add: Let_def tag_def split: option.split)+
  show "frame (CallbackForSupplier x ty s) = frame s" "requests (CallbackForSupplier x ty s) = requests s"
    unfolding CallbackForSupplier_def by (rule for_activates_frame; simp add: Let_def tag_def split: option.split)+
  show "frame (SendAllRequestToNetwork e x s) = frame s" "requests (SendAllRequestToNetwork e x s) = requests s"
    unfolding SendAllRequestToNetwork_def by (rule for_activates_frame; simp)+
  show "frame (StopNotifyLostDelay netId s) = frame s" "requests (StopNotifyLostDelay netId s) = requests s"
    by (simp_all add: StopNotifyLostDelay_def h)
qed

lemma conn_inv_same: "frame s' = frame s \<Longrightarrow> requests s' = requests s \<Longrightarrow> conn_inv s' = conn_inv s"
  by (simp add: conn_inv_def frame_def)

subsection \<open>Tables\<close>

text \<open>An entry put into a table, or taken out, in terms of the values of the table.\<close>

lemma om_del_absent: "k \<notin> fst ` set m \<Longrightarrow> om_del k m = m"
  by (auto simp: om_del_def filter_id_conv)

lemma put_entries:
  assumes "om_wf m"
  shows "mset (om_put k v m) = add_mset (k, v) (mset (om_del k m))"
  using assms
proof (induction k v m rule: om_put.induct)
  case (2 k v k' v' m)
  have absent: "k \<notin> fst ` set m" if "k \<le> k'" using 2(2) that by (auto simp: om_wf_Cons)
  consider "k < k'" | "k = k'" | "k > k'" by (rule linorder_cases)
  then show ?case
  proof cases
    case 1
    then show ?thesis using om_del_absent [of k m] absent by (simp add: om_del_def)
  next
    case 2
    then show ?thesis using om_del_absent [of k m] absent by (simp add: om_del_def)
  next
    case 3
    then show ?thesis using 2 by (simp add: om_wf_Cons om_del_def)
  qed
qed (simp add: om_del_def)

lemma concat_entries: "mset (concat (map snd m)) = (\<Sum>e \<in># mset m. mset (snd e))"
  by (induction m) simp_all

lemma put_values:
  assumes "om_wf m"
  shows "mset (concat (map snd (om_put k v m))) = mset v + mset (concat (map snd (om_del k m)))"
  by (simp add: concat_entries put_entries [OF assms])

lemma del_values:
  assumes "om_wf m"
  shows "mset (concat (map snd m)) = mset (case om_get m k of None \<Rightarrow> [] | Some v \<Rightarrow> v) + mset (concat (map snd (om_del k m)))"
  using assms
proof (induction m)
  case (Cons e m)
  show ?case
  proof (cases "fst e = k")
    case True
    then have "k \<notin> fst ` set m" using Cons.prems by (auto simp: om_wf_Cons)
    then show ?thesis using True om_del_absent [of k m] by (cases e) (simp add: om_del_def)
  next
    case False
    then show ?thesis using Cons by (cases e) (simp add: om_wf_Cons om_del_def)
  qed
qed (simp add: om_del_def)

lemma requests_add:
  assumes "requests_inv m n d" "old = (case om_get m k of None \<Rightarrow> [] | Some v \<Rightarrow> v)"
  shows "requests_inv (om_put k (old @ [(n, cb)]) m) (Suc n) d"
proof -
  let ?m = "om_put k (old @ [(n, cb)]) m"
  have wf: "om_wf m" "[] \<notin> snd ` set m" using assms(1) by (simp_all add: requests_inv_def)
  have e: "mset (concat (map snd ?m)) = mset (concat (map snd m) @ [(n, cb)])"
    using put_values [OF wf(1), of k "old @ [(n, cb)]"] del_values [OF wf(1), of k] assms(2) by simp
  have f: "mset (map fst (concat (map snd ?m))) = mset (map fst (concat (map snd m) @ [(n, cb)]))"
    unfolding mset_map e by (rule refl)
  have old: "distinct (map fst (concat (map snd m)))" "\<forall>p \<in> set (concat (map snd m)). fst p < n" using assms(1) by (simp_all add: requests_inv_def)
  have "distinct (map fst (concat (map snd m) @ [(n, cb)]))" unfolding map_append distinct_append using old by auto
  then have "distinct (map fst (concat (map snd ?m)))" using mset_eq_imp_distinct_iff [OF f] by simp
  moreover have "\<forall>p \<in> set (concat (map snd ?m)). fst p < Suc n" unfolding mset_eq_setD [OF e] using old(2) by (auto simp: less_Suc_eq)
  moreover have "[] \<notin> snd ` set ?m" using om_put_values [OF wf(1), of k "old @ [(n, cb)]"] wf(2) by auto
  moreover have "\<exists>i ps. om_get ?m UID_NET_MANAGER = Some ((i, None) # ps) \<and> d = Some i"
    using assms by (auto simp: requests_inv_def)
  ultimately show ?thesis using wf(1) by (auto simp: requests_inv_def)
qed

lemma requests_remove:
  assumes "requests_inv m n d" "om_get m k = Some (p @ x # q)" "k \<noteq> UID_NET_MANAGER"
  shows "requests_inv (if p @ q = [] then om_del k m else om_put k (p @ q) m) n d" (is "requests_inv ?m n d")
proof -
  have wf: "om_wf m" "[] \<notin> snd ` set m" using assms(1) by (simp_all add: requests_inv_def)
  have e: "mset (x # concat (map snd ?m)) = mset (concat (map snd m))"
    using put_values [OF wf(1), of k "p @ q"] del_values [OF wf(1), of k] assms(2) by simp
  have f: "mset (map fst (x # concat (map snd ?m))) = mset (map fst (concat (map snd m)))" unfolding mset_map e by (rule refl)
  have "distinct (map fst (x # concat (map snd ?m)))" using mset_eq_imp_distinct_iff [OF f] assms(1) by (simp add: requests_inv_def)
  moreover have "\<forall>p \<in> set (x # concat (map snd ?m)). fst p < n" unfolding mset_eq_setD [OF e] using assms(1) by (simp add: requests_inv_def)
  moreover have "[] \<notin> snd ` set ?m" using om_put_values [OF wf(1), of k "p @ q"] wf(2) by (auto simp: om_del_def)
  moreover have "\<exists>i ps. om_get ?m UID_NET_MANAGER = Some ((i, None) # ps) \<and> d = Some i" using assms(1, 3) by (auto simp: requests_inv_def)
  ultimately show ?thesis using wf(1) by (auto simp: requests_inv_def)
qed

lemma suppliers_add:
  assumes "suppliers_inv m n"
  shows "suppliers_inv (om_put k n m) (Suc n)"
proof -
  have wf: "om_wf m" "distinct (map snd m)" "\<forall>e \<in> set m. snd e < n" using assms by (simp_all add: suppliers_inv_def)
  have e: "mset (om_put k n m) = mset ((k, n) # om_del k m)" using put_entries [OF wf(1)] by simp
  have f: "mset (map snd (om_put k n m)) = mset (map snd ((k, n) # om_del k m))" unfolding mset_map e by (rule refl)
  have "distinct (map snd ((k, n) # om_del k m))" using wf(2, 3) by (auto simp: om_del_def distinct_map_filter)
  then have "distinct (map snd (om_put k n m))" using mset_eq_imp_distinct_iff [OF f] by simp
  moreover have "\<forall>e \<in> set (om_put k n m). snd e < Suc n" unfolding mset_eq_setD [OF e] using wf(3) by (auto simp: om_del_def less_Suc_eq)
  ultimately show ?thesis using wf(1) by (auto simp: suppliers_inv_def)
qed

lemma suppliers_drop: "suppliers_inv m n \<Longrightarrow> suppliers_inv (om_del k m) n"
  by (auto simp: suppliers_inv_def om_del_def distinct_map_filter intro: om_wf_del [unfolded om_del_def])

subsection \<open>Every handler keeps the invariant\<close>

lemma requests_put: "map (\<lambda>(k, as). (k, map tag as)) (om_put k v m) = om_put k (map tag v) (map (\<lambda>(k, as). (k, map tag as)) m)"
  by (induction k v m rule: om_put.induct) auto

lemma requests_del: "map (\<lambda>(k, as). (k, map tag as)) (om_del k m) = om_del k (map (\<lambda>(k, as). (k, map tag as)) m)"
  by (induction m) (auto simp: om_del_def)

lemma requests_get: "om_get (requests s) k = map_option (map tag) (om_get (cs_activates s) k)"
  by (simp add: requests_def map_of_map)

lemma count_frames [simp]:
  "frame (snd (IncreaseNetConnCallbackCntForUid uid rt s)) = frame s" "requests (snd (IncreaseNetConnCallbackCntForUid uid rt s)) = requests s"
  "frame (DecreaseNetConnCallbackCntForUid uid rt s) = frame s" "requests (DecreaseNetConnCallbackCntForUid uid rt s) = requests s"
  by (simp_all add: IncreaseNetConnCallbackCntForUid_def DecreaseNetConnCallbackCntForUid_def Let_def split: option.split)

lemma ActivateNetwork_inv:
  assumes "ActivateNetwork e sp cb timeout rt uid s = (r, s')" "conn_inv s"
  shows "conn_inv s'"
proof -
  obtain a where a: "netConnCallback a = Some cb" "same_clients (with_request uid a s) s'" "na_id a = cs_nextActivate s"
    by (rule ActivateNetwork_clients [OF assms(1)])
  have act: "requests s' = om_put uid (map tag (requests_of uid s) @ [(cs_nextActivate s, Some cb)]) (requests s)"
    using a by (simp add: requests_def same_clients_def with_request_def requests_put tag_def)
  have old: "map tag (requests_of uid s) = (case om_get (requests s) uid of None \<Rightarrow> [] | Some v \<Rightarrow> v)"
    by (simp add: requests_get requests_of_def split: option.split)
  have fr: "frame s' = (cs_netSuppliers s, length (cs_heap s), Suc (cs_nextActivate s), cs_defaultNetActivate s)"
    using assms(1) by (auto simp: ActivateNetwork_def SendRequestToAllNetwork_def Let_def split: prod.splits if_splits) (simp_all add: frame_def)
  show ?thesis
    using requests_add [OF _ old, of "cs_nextActivate s" "cs_defaultNetActivate s" "Some cb"] assms(2) fr act
    by (simp add: conn_inv_def frame_def)
qed

lemma decrease_loop_result:
  assumes "decrease_loop cb seen as = Some (found, as')"
  shows "as' = seen @ as \<or> (\<exists>p x q. seen @ as = p @ x # q \<and> as' = p @ q)"
  using assms
proof (induction "as" arbitrary: seen)
  case (Cons a "as")
  show ?case
  proof (cases "netConnCallback a = Some cb")
    case True
    then show ?thesis using Cons.prems by auto
  next
    case False
    then show ?thesis using Cons.prems Cons.IH [of "seen @ [a]"] by (auto split: if_splits)
  qed
qed simp

lemma Decrease_inv:
  assumes "DecreaseNetActivates e uid cb s = Some s'" "conn_inv s"
  shows "conn_inv s'"
proof (cases "om_get (cs_activates s) uid")
  case None
  then show ?thesis using assms by (simp add: DecreaseNetActivates_def)
next
  case (Some "as")
  obtain found as' where l: "decrease_loop cb [] as = Some (found, as')"
    using assms(1) Some by (auto simp: DecreaseNetActivates_def split: option.splits)
  define s1 where "s1 = (case found of None \<Rightarrow> s | Some a \<Rightarrow> CancelRequestForSupplier e a (GetRequestId a) s)"
  have s1: "frame s1 = frame s" "requests s1 = requests s" by (simp_all add: s1_def split: option.split)
  have s': "s' = s1\<lparr> cs_activates := (if as' = [] then om_del uid (cs_activates s1) else om_put uid as' (cs_activates s1)) \<rparr>"
    using assms(1) Some l by (auto simp: DecreaseNetActivates_def Let_def s1_def)
  have rq: "requests s' = (if map tag as' = [] then om_del uid (requests s) else om_put uid (map tag as') (requests s))"
    using s1(2) by (simp add: s' requests_def requests_put requests_del)
  have inv: "requests_inv (requests s) (cs_nextActivate s) (cs_defaultNetActivate s)" using assms(2) by (simp add: conn_inv_def)
  have get: "om_get (requests s) uid = Some (map tag as)" by (simp add: requests_get Some)
  have man: "uid \<noteq> UID_NET_MANAGER"
  proof
    assume "uid = UID_NET_MANAGER"
    then obtain i ps where "map tag as = (i, None) # ps" using inv get by (auto simp: requests_inv_def)
    then have "null_blocks cb as" by (cases "as") (simp_all add: tag_def null_blocks_def)
    then show False using l decrease_loop_blocked [of cb "[]" "as"] by simp
  qed
  have "requests_inv (requests s') (cs_nextActivate s) (cs_defaultNetActivate s)"
  proof (cases "as' = as")
    case True
    have "as \<noteq> []" using inv get by (force simp: requests_inv_def dest: map_of_SomeD)
    moreover have "om_put uid (map tag as) (requests s) = requests s"
      by (rule om_ext) (use inv get in \<open>auto simp: requests_inv_def fun_eq_iff\<close>)
    ultimately show ?thesis using inv by (simp add: rq True)
  next
    case False
    then obtain p x q where "as = p @ x # q" "as' = p @ q" using decrease_loop_result [OF l] by auto
    then show ?thesis using requests_remove [OF inv _ man, of "map tag p" "tag x" "map tag q"] get by (auto simp: rq split: if_splits)
  qed
  then show ?thesis using s1(1) assms(2) by (simp add: conn_inv_def s' frame_def)
qed

lemma Register_inv:
  assumes "RegisterNetConnCallbackAsync e sp cb timeout uid s = (r, s')" "conn_inv s"
  shows "conn_inv s'"
proof (cases "sp = None \<or> cb = None")
  case True
  then show ?thesis using assms by (auto simp: RegisterNetConnCallbackAsync_def split: option.splits)
next
  case False
  then obtain sp0 cb0 where "sp = Some sp0" "cb = Some cb0" by auto
  obtain r0 s0 where inc: "IncreaseNetConnCallbackCntForUid uid (register_type sp) s = (r0, s0)" by fastforce
  have "conn_inv s0" using conn_inv_same [of s0 s] count_frames(1, 2) [of uid "register_type sp" s] inc assms(2) by simp
  then show ?thesis using assms inc \<open>sp = Some sp0\<close> \<open>cb = Some cb0\<close> ActivateNetwork_inv
    by (auto simp: RegisterNetConnCallbackAsync_def split: if_splits)
qed

lemma Request_inv:
  assumes "RequestNetConnectionAsync e sp cb timeout uid s = (r, s')" "conn_inv s"
  shows "conn_inv s'"
proof (cases "sp = None \<or> cb = None")
  case True
  then show ?thesis using assms by (auto simp: RequestNetConnectionAsync_def split: option.splits)
next
  case False
  then obtain sp0 cb0 where "sp = Some sp0" "cb = Some cb0" by auto
  obtain r0 s0 where inc: "IncreaseNetConnCallbackCntForUid uid REQUEST s = (r0, s0)" by fastforce
  have "conn_inv s0" using conn_inv_same [of s0 s] count_frames(1, 2) [of uid REQUEST s] inc assms(2) by simp
  then show ?thesis using assms inc \<open>sp = Some sp0\<close> \<open>cb = Some cb0\<close> ActivateNetwork_inv
    by (auto simp: RequestNetConnectionAsync_def split: if_splits)
qed

lemma Unregister_inv:
  assumes "UnregisterNetConnCallbackAsync e cb s = Some (r, s')" "conn_inv s"
  shows "conn_inv s'"
proof -
  have c: "conn_inv (DecreaseNetConnCallbackCntForUid uid rt s)" for uid rt using assms(2) conn_inv_same count_frames(3, 4) by metis
  show ?thesis using assms Decrease_inv [OF _ c] by (auto simp: UnregisterNetConnCallbackAsync_def split: option.splits prod.splits)
qed

lemma generate_frame:
  "frame (snd (generate_loop n s)) = frame s \<and> cs_activates (snd (generate_loop n s)) = cs_activates s \<and> cs_heap (snd (generate_loop n s)) = cs_heap s"
  "frame (snd (generate_internal_loop n s)) = frame s \<and> cs_activates (snd (generate_internal_loop n s)) = cs_activates s
     \<and> cs_heap (snd (generate_internal_loop n s)) = cs_heap s"
  by (induction n arbitrary: s) (simp_all add: Let_def frame_def)

lemma RegisterSupplier_inv:
  assumes "RegisterNetSupplierAsync t i caps callingUid s = Some (r, sid, s')" "conn_inv s"
  shows "conn_inv s'"
proof (cases "s' = s")
  case False
  let ?s1 = "s\<lparr> cs_nextNetSupplierId := cs_nextNetSupplierId s + 1 \<rparr>"
  define s2 where "s2 = snd (if NET_CAPABILITY_INTERNAL_DEFAULT \<in> caps then GenerateInternalNetId ?s1 else GenerateNetId ?s1)"
  have s2: "frame s2 = frame s" "requests s2 = requests s"
    using generate_frame(1) [of _ ?s1] generate_frame(2) [of _ ?s1]
    by (simp_all add: s2_def GenerateNetId_def GenerateInternalNetId_def requests_def) (simp_all add: frame_def)
  then have inv: "conn_inv s2" using conn_inv_same assms(2) by blast
  from assms(1) False consider "s' = s2"
    | k su where "s' = s2\<lparr> cs_heap := cs_heap s2 @ [su], cs_netSuppliers := om_put k (length (cs_heap s2)) (cs_netSuppliers s2) \<rparr>"
    by (auto simp: RegisterNetSupplierAsync_def Let_def simp flip: s2_def split: option.splits if_splits)
  then show ?thesis
  proof cases
    case (2 k su)
    then show ?thesis using inv suppliers_add [of "cs_netSuppliers s2"] by (simp add: conn_inv_def requests_def)
  qed (simp add: inv)
qed (simp add: assms(2))

lemma UnregisterSupplier_inv:
  assumes "UnregisterNetSupplierAsync e sid s = (r, s')" "conn_inv s"
  shows "conn_inv s'"
proof (cases "FindNetSupplier sid s")
  case None
  then show ?thesis using assms by (simp add: UnregisterNetSupplierAsync_def)
next
  case (Some x)
  define s2 where "s2 = on_supplier x (UpdateNetSupplierInfo NetSupplierInfo_default) (if cs_defaultNetSupplier s = Some x then MakeDefaultNetWork None s else s)"
  have "conn_inv s2" using conn_inv_same [of s2 s] assms(2) by (simp add: s2_def)
  then have "conn_inv (s2\<lparr> cs_netSuppliers := om_del sid (cs_netSuppliers s2) \<rparr>)" using suppliers_drop by (simp add: conn_inv_def requests_def)
  moreover have "s' = FindBestNetworkForAllRequest e (s2\<lparr> cs_netSuppliers := om_del sid (cs_netSuppliers s2) \<rparr>)"
    using assms(1) Some by (simp add: UnregisterNetSupplierAsync_def Let_def s2_def)
  ultimately show ?thesis using conn_inv_same [of s'] by simp
qed

lemma delay_frame [simp]:
  "frame (HandlePreFindBestNetworkForDelay e sid x b s) = frame s" "requests (HandlePreFindBestNetworkForDelay e sid x b s) = requests s"
  by (simp_all add: HandlePreFindBestNetworkForDelay_def)

lemma HandleDetectionResult_frame:
  assumes "HandleDetectionResult e sid st s = Some s'"
  shows "frame s' = frame s \<and> requests s' = requests s"
proof -
  have "case HandleDetectionResult e sid st s of None \<Rightarrow> True | Some s' \<Rightarrow> frame s' = frame s \<and> requests s' = requests s"
    by (simp add: HandleDetectionResult_def Let_def split: option.split)
  then show ?thesis using assms by simp
qed

lemma update_frames:
  "UpdateNetSupplierInfoAsync e sid info s = Some (r, s') \<Longrightarrow> frame s' = frame s \<and> requests s' = requests s"
  "UpdateNetLinkInfoAsync e sid link s = (r, s') \<Longrightarrow> frame s' = frame s \<and> requests s' = requests s"
  "HandleFindBestNetworkForDelay e s = Some s' \<Longrightarrow> frame s' = frame s \<and> requests s' = requests s"
  "UpdateSupplierScoreAsync e sid st s = Some (r, s') \<Longrightarrow> frame s' = frame s \<and> requests s' = requests s"
  "RegisterNetSupplierCallbackAsync e sid callback s = (r, s') \<Longrightarrow> frame s' = frame s \<and> requests s' = requests s"
proof -
  have h: "frame (HandleSupplierNotAvailable sid b x s) = frame s" "requests (HandleSupplierNotAvailable sid b x s) = requests s" for b x s
    by (simp_all add: HandleSupplierNotAvailable_def StartNotifyLostDelay_def Let_def)
  show "UpdateNetSupplierInfoAsync e sid info s = Some (r, s') \<Longrightarrow> frame s' = frame s \<and> requests s' = requests s"
    by (auto simp: UpdateNetSupplierInfoAsync_def Let_def h split: option.splits if_splits)
  show "UpdateNetLinkInfoAsync e sid link s = (r, s') \<Longrightarrow> frame s' = frame s \<and> requests s' = requests s"
    by (auto simp: UpdateNetLinkInfoAsync_def Let_def split: option.splits prod.splits if_splits)
  show "HandleFindBestNetworkForDelay e s = Some s' \<Longrightarrow> frame s' = frame s \<and> requests s' = requests s"
    by (auto simp: HandleFindBestNetworkForDelay_def Let_def split: option.splits if_splits dest!: HandleDetectionResult_frame)
  show "UpdateSupplierScoreAsync e sid st s = Some (r, s') \<Longrightarrow> frame s' = frame s \<and> requests s' = requests s"
    by (auto simp: UpdateSupplierScoreAsync_def Let_def split: option.splits if_splits)
  show "RegisterNetSupplierCallbackAsync e sid callback s = (r, s') \<Longrightarrow> frame s' = frame s \<and> requests s' = requests s"
    by (auto simp: RegisterNetSupplierCallbackAsync_def split: option.splits if_splits)
qed

lemma conn_step_inv:
  assumes "conn_step s s'" "conn_inv s"
  shows "conn_inv s'"
  using assms
proof cases
  case (step_timeout a e)
  then show ?thesis using assms(2) conn_inv_same [of s' s] by simp
next
  case (step_lost netId)
  then show ?thesis using assms(2) conn_inv_same [of s' s] by simp
next
  case (step_uids uids r)
  then show ?thesis using assms(2) conn_inv_same [of s' s] by (auto simp: UpdateUidLostDelay_def)
qed (blast intro: assms(2) Register_inv Request_inv Unregister_inv RegisterSupplier_inv UnregisterSupplier_inv
    conn_inv_same [THEN iffD2, OF _ _ assms(2)] dest: update_frames HandleDetectionResult_frame)+

lemma start_inv: "conn_inv (CreateDefaultRequest conn_start)"
  by (simp add: conn_inv_def suppliers_inv_def requests_inv_def requests_def CreateDefaultRequest_def conn_start_def Let_def om_wf_def tag_def)

lemma reachable_inv: "conn_reachable s \<Longrightarrow> conn_inv s"
  by (induction rule: conn_reachable.induct) (auto intro: start_inv conn_step_inv)

lemma inv_tables:
  assumes "conn_inv s"
  shows "conn_wf s" "om_wf (cs_activates s)" "[] \<notin> snd ` set (cs_activates s)"
    "\<exists>d as. requests_of UID_NET_MANAGER s = d # as \<and> netConnCallback d = None \<and> cs_defaultNetActivate s = Some (na_id d)"
proof -
  have c: "concat (map snd (requests s)) = map tag (all_activates s)" by (simp add: requests_def map_concat comp_def split_def)
  have "map fst (concat (map snd (requests s))) = map na_id (all_activates s)" unfolding c by (simp add: tag_def)
  then show "conn_wf s" using assms by (simp add: conn_wf_def conn_inv_def suppliers_inv_def requests_inv_def)
  have k: "map fst (requests s) = map fst (cs_activates s)" by (simp add: requests_def comp_def split_def)
  show "om_wf (cs_activates s)" using assms k by (simp add: conn_inv_def requests_inv_def om_wf_def)
  have "[] \<notin> snd ` set (requests s)" using assms by (simp add: conn_inv_def requests_inv_def)
  then show "[] \<notin> snd ` set (cs_activates s)" by (force simp: requests_def)
  obtain i ps where "om_get (requests s) UID_NET_MANAGER = Some ((i, None) # ps)" "cs_defaultNetActivate s = Some i"
    using assms by (auto simp: conn_inv_def requests_inv_def)
  then show "\<exists>d as. requests_of UID_NET_MANAGER s = d # as \<and> netConnCallback d = None \<and> cs_defaultNetActivate s = Some (na_id d)"
    by (auto simp: requests_get requests_of_def tag_def)
qed

lemma search_settles: "frame t = frame s \<Longrightarrow> requests t = requests s \<Longrightarrow> conn_inv s \<Longrightarrow> settled (FindBestNetworkForAllRequest e t)"
  using every_request_gets_best [OF inv_tables(1) refl, of t e] conn_inv_same [of t s] by (simp add: settled_def)

subsection \<open>What the clients are told\<close>

lemma calls_fields [simp]:
  "cs_calls (on_supplier x f s) = cs_calls s" "cs_calls (call_client c s) = cs_calls s @ [c]" "cs_calls (MakeDefaultNetWork new s) = cs_calls s"
  by (simp_all add: on_supplier_def call_client_def MakeDefaultNetWork_def Let_def split: option.split)

lemma calls_loops [simp]:
  "cs_calls (send_request_loop e a xs s) = cs_calls s" "cs_calls (best_score_loop e score sid req xs s) = cs_calls s"
  by (induction xs arbitrary: s) simp_all

lemma calls_not_found: "\<exists>new. cs_calls (snd (NotFindBestSupplier e a x s)) = cs_calls s @ new"
  by (simp add: NotFindBestSupplier_def SendRequestToAllNetwork_def Let_def split: option.split prod.split)

lemma market_handle: "same_market s t \<Longrightarrow> x < length (cs_heap s) \<Longrightarrow> netHandle (cs_heap t ! x) = netHandle (cs_heap s ! x)"
  by (simp add: same_market_def heap_same_def same_offer_eq)

lemma FindBest_bound:
  assumes "FindBestNetworkForRequest a s = (score, Some b)" "\<forall>e \<in> set (cs_netSuppliers s). snd e < length (cs_heap s)"
  shows "b < length (cs_heap s)"
proof -
  have "b \<in> snd ` set (cs_netSuppliers s)" using best_loop_spec [OF assms(1) [unfolded FindBestNetworkForRequest_def]] by force
  then show ?thesis using assms(2) by auto
qed

lemma calls_one: 
  assumes "\<forall>e \<in> set (cs_netSuppliers s). snd e < length (cs_heap s)"
  shows "\<exists>new. cs_calls (snd (find_best_one e uid a s)) = cs_calls s @ new \<and>
    (\<forall>b cb. \<not> skipped a \<longrightarrow> snd (FindBestNetworkForRequest a s) = Some b \<longrightarrow> netServiceSupplied a \<noteq> Some b \<longrightarrow> netConnCallback a = Some cb \<longrightarrow>
      NetAvailable cb (netHandle (cs_heap s ! b)) \<in> set new)"
proof -
  obtain score best where f: "FindBestNetworkForRequest a s = (score, best)" by fastforce
  define s1 where "s1 = (if cs_defaultNetActivate s = Some (na_id a) then MakeDefaultNetWork best s else s)"
  have s1: "cs_calls s1 = cs_calls s" by (simp add: s1_def)
  show ?thesis
  proof (cases "skipped a")
    case True
    then show ?thesis by (simp add: find_best_one_def skipped_def)
  next
    case False
    show ?thesis
    proof (cases best)
      case None
      then have "snd (find_best_one e uid a s) = snd (NotFindBestSupplier e a (netServiceSupplied a) s1)"
        using False f by (auto simp: find_best_one_def skipped_def s1_def)
      then show ?thesis using None f s1 calls_not_found [of e a "netServiceSupplied a" s1] by simp
    next
      case (Some b)
      have b: "b < length (cs_heap s)" using FindBest_bound f Some assms by blast
      define s4 where "s4 = (case netServiceSupplied a of None \<Rightarrow> id | Some old \<Rightarrow> on_supplier old (RemoveBestRequest (GetRequestId a)))
        (on_supplier b (\<lambda>su. snd (SelectAsBestNetwork (ce_answers e) (netRequest a) su))
          (SendBestScoreAllNetwork e (GetRequestId a) score (supplierId (cs_heap s1 ! b)) (netSupplierType (cs_heap s1 ! b)) (GetUid a) s1))"
      have m: "same_market s s4"
        by (auto simp: s4_def s1_def SendBestScoreAllNetwork_def split: option.split intro!: market_supplier market_score market_default same_offer_ops)
      have c: "cs_calls s4 = cs_calls s" by (simp add: s4_def s1 SendBestScoreAllNetwork_def split: option.split)
      have "snd (find_best_one e uid a s) = CallbackForAvailable b (netConnCallback a) s4" if "netServiceSupplied a \<noteq> Some b"
        using that False f Some by (auto simp: find_best_one_def skipped_def Let_def s4_def s1_def split: option.split)
      moreover have "cs_calls (snd (find_best_one e uid a s)) = cs_calls s" if "netServiceSupplied a = Some b"
        using that False f Some by (auto simp: find_best_one_def skipped_def Let_def SendBestScoreAllNetwork_def)
      ultimately show ?thesis using market_handle [OF m b] c f Some
        by (cases "netServiceSupplied a = Some b"; cases "netConnCallback a") (auto simp: CallbackForAvailable_def Let_def)
    qed
  qed
qed

lemma calls_each:
  assumes "\<forall>e \<in> set (cs_netSuppliers s). snd e < length (cs_heap s)"
  shows "\<exists>new. cs_calls (snd (each (find_best_one e uid) as s)) = cs_calls s @ new \<and>
    (\<forall>a \<in> set as. \<forall>b cb. \<not> skipped a \<longrightarrow> snd (FindBestNetworkForRequest a s) = Some b \<longrightarrow> netServiceSupplied a \<noteq> Some b \<longrightarrow> netConnCallback a = Some cb \<longrightarrow>
      NetAvailable cb (netHandle (cs_heap s ! b)) \<in> set new)"
  using assms
proof (induction "as" arbitrary: s)
  case (Cons a "as")
  let ?t = "snd (find_best_one e uid a s)"
  have m: "same_market s ?t" by (rule find_best_one_spec(1))
  have w: "\<forall>e \<in> set (cs_netSuppliers ?t). snd e < length (cs_heap ?t)" using m Cons.prems by (simp add: same_market_def heap_same_def)
  have f: "FindBestNetworkForRequest x ?t = FindBestNetworkForRequest x s" for x by (rule FindBest_same [OF m Cons.prems refl])
  have h: "netHandle (cs_heap ?t ! b) = netHandle (cs_heap s ! b)" if "snd (FindBestNetworkForRequest x s) = Some b" for x b
    using market_handle [OF m] FindBest_bound [OF _ Cons.prems] that by (metis prod.collapse)
  obtain n1 where n1: "cs_calls ?t = cs_calls s @ n1"
    "\<forall>b cb. \<not> skipped a \<longrightarrow> snd (FindBestNetworkForRequest a s) = Some b \<longrightarrow> netServiceSupplied a \<noteq> Some b \<longrightarrow> netConnCallback a = Some cb \<longrightarrow>
      NetAvailable cb (netHandle (cs_heap s ! b)) \<in> set n1"
    using calls_one [OF Cons.prems, of e uid a] by blast
  obtain n2 where n2: "cs_calls (snd (each (find_best_one e uid) as ?t)) = cs_calls ?t @ n2"
    "\<forall>x \<in> set as. \<forall>b cb. \<not> skipped x \<longrightarrow> snd (FindBestNetworkForRequest x s) = Some b \<longrightarrow> netServiceSupplied x \<noteq> Some b \<longrightarrow> netConnCallback x = Some cb \<longrightarrow>
      NetAvailable cb (netHandle (cs_heap ?t ! b)) \<in> set n2"
    using Cons.IH [OF w] unfolding f by blast
  have "cs_calls (snd (each (find_best_one e uid) (a # as) s)) = cs_calls s @ (n1 @ n2)" by (simp add: case_prod_beta n2(1) n1(1))
  moreover have "\<forall>x \<in> set (a # as). \<forall>b cb. \<not> skipped x \<longrightarrow> snd (FindBestNetworkForRequest x s) = Some b \<longrightarrow> netServiceSupplied x \<noteq> Some b
      \<longrightarrow> netConnCallback x = Some cb \<longrightarrow> NetAvailable cb (netHandle (cs_heap s ! b)) \<in> set (n1 @ n2)"
    using n1(2) n2(2) h by simp
  ultimately show ?case by blast
qed simp

subsection \<open>Handlers that end in a search\<close>

lemma handlers_search:
  "UpdateNetSupplierInfoAsync e sid info s = Some (NETMANAGER_SUCCESS, s') \<Longrightarrow> \<exists>t. s' = FindBestNetworkForAllRequest e t"
  "UnregisterNetSupplierAsync e sid s = (NETMANAGER_SUCCESS, s') \<Longrightarrow> \<exists>t. s' = FindBestNetworkForAllRequest e t"
  by (auto simp: UpdateNetSupplierInfoAsync_def UnregisterNetSupplierAsync_def Let_def split: option.splits prod.splits if_splits)

lemma CallbackForSupplier_keeps [simp]:
  "cs_isDelayHandleFindBestNetwork (CallbackForSupplier x ty s) = cs_isDelayHandleFindBestNetwork s"
  "cs_defaultNetSupplier (CallbackForSupplier x ty s) = cs_defaultNetSupplier s"
  "supplied (CallbackForSupplier x ty s) = supplied s"
  "FindNetSupplier sid (CallbackForSupplier x ty s) = FindNetSupplier sid s"
proof -
  let ?p = "\<lambda>t. (cs_isDelayHandleFindBestNetwork t, cs_defaultNetSupplier t, cs_netSuppliers t)"
  let ?f = "\<lambda>uid a s. let su = cs_heap s ! x; netId = Supplier_GetNetId su in
       case netConnCallback a of None \<Rightarrow> (a, s)
       | Some cb \<Rightarrow>
           if \<not> HasBestRequest (GetRequestId a) su then (a, s)
           else if FindNotifyLostDelayCache netId s \<and> CheckNotifyLostDelay a ty s
           then (a\<lparr> isNotifyLostDelay := True, notifyLostNetId := netId \<rparr>, s)
           else (a, HandleCallback x cb ty s)"
  have k: "?p (snd (each_uid ?f (cs_activates s) s)) = ?p s \<and> map (\<lambda>(k, as). (k, map netServiceSupplied as)) (fst (each_uid ?f (cs_activates s) s))
      = map (\<lambda>(k, as). (k, map netServiceSupplied as)) (cs_activates s)"
    by (rule each_uid_keeps) (simp add: Let_def HandleCallback_def call_client_def split: option.split CallbackType.split)
  have m: "map netServiceSupplied (concat (map snd m)) = concat (map snd (map (\<lambda>(k, as). (k, map netServiceSupplied as)) m))"
    for m :: "(u32, NetActivate list) omap"
    by (induction m) auto
  show "cs_isDelayHandleFindBestNetwork (CallbackForSupplier x ty s) = cs_isDelayHandleFindBestNetwork s"
    "cs_defaultNetSupplier (CallbackForSupplier x ty s) = cs_defaultNetSupplier s"
    "FindNetSupplier sid (CallbackForSupplier x ty s) = FindNetSupplier sid s"
    using k by (simp_all add: CallbackForSupplier_def for_activates_def FindNetSupplier_def case_prod_beta)
  show "supplied (CallbackForSupplier x ty s) = supplied s"
    unfolding supplied_def m using k by (simp add: CallbackForSupplier_def for_activates_def case_prod_beta del: map_map)
qed

lemma link_search:
  assumes "UpdateNetLinkInfoAsync e sid link s = (NETMANAGER_SUCCESS, s')"
  shows "(\<exists>t. s' = FindBestNetworkForAllRequest e t) \<or> put_off e sid s s'"
proof -
  obtain l x where l: "link = Some l" "FindNetSupplier sid s = Some x"
    using assms by (auto simp: UpdateNetLinkInfoAsync_def split: option.splits)
  obtain ret su where u: "UpdateNetLinkInfo l (cs_heap s ! x) = (ret, su)" by (cases "UpdateNetLinkInfo l (cs_heap s ! x)")
  define s2 where "s2 = CallbackForSupplier x CALL_TYPE_UPDATE_LINK (on_supplier x (\<lambda>_. su) s)"
  have k: "cs_isDelayHandleFindBestNetwork s2 = cs_isDelayHandleFindBestNetwork s" "cs_defaultNetSupplier s2 = cs_defaultNetSupplier s"
    "supplied s2 = supplied s" "FindNetSupplier sid s2 = Some x"
    using l(2) by (simp_all add: s2_def) (simp_all add: on_supplier_def supplied_def FindNetSupplier_def)
  have f: "supplied (t\<lparr> cs_isDelayHandleFindBestNetwork := b, cs_delaySupplierId := i \<rparr>) = supplied t"
    "FindNetSupplier j (t\<lparr> cs_isDelayHandleFindBestNetwork := b, cs_delaySupplierId := i \<rparr>) = FindNetSupplier j t"
    "GetDefaultNetSupplierType (t\<lparr> cs_isDelayHandleFindBestNetwork := b, cs_delaySupplierId := i \<rparr>) = GetDefaultNetSupplierType t" for t b i j
    by (simp_all add: supplied_def FindNetSupplier_def GetDefaultNetSupplierType_def split: option.split)
  have "ret = NETMANAGER_SUCCESS" using assms by (auto simp: UpdateNetLinkInfoAsync_def l u Let_def split: if_splits)
  then have s': "s' = (let s3 = HandlePreFindBestNetworkForDelay e sid x (IsInFirstTimeDetecting (cs_heap s2 ! x)) s2
      in if \<not> cs_isDelayHandleFindBestNetwork s3 then FindBestNetworkForAllRequest e s3 else s3)"
    using assms by (simp add: UpdateNetLinkInfoAsync_def l u s2_def Let_def split: if_splits)
  show ?thesis using k s'
    by (auto simp: HandlePreFindBestNetworkForDelay_def put_off_def f Let_def split: if_splits)
qed

lemma settled_search: "s' = FindBestNetworkForAllRequest e t \<Longrightarrow> conn_inv s' \<Longrightarrow> settled s'"
  using search_settles [of t t e] conn_inv_same [of s' t] by simp

section \<open>Properties\<close>

text \<open>
  C8. In every state the service can reach, whatever the order of the calls of clients and
  suppliers, each supplier of the table is an object of its own, each request is one object, no
  list of requests is empty, and the default request stands first in the list of the manager's uid.
\<close>

theorem service_invariant: "conn_reachable s \<Longrightarrow> conn_inv s"
  by (rule reachable_inv)

theorem service_invariant_witness:
  "conn_inv (snd (RegisterNetConnCallbackAsync quiet_env (Some NetSpecifier_default) (Some 7) 0 20001 (CreateDefaultRequest conn_start)))
   \<and> length (all_activates (snd (RegisterNetConnCallbackAsync quiet_env (Some NetSpecifier_default) (Some 7) 0 20001 (CreateDefaultRequest conn_start)))) = 2"
proof -
  have "conn_reachable (snd (RegisterNetConnCallbackAsync quiet_env (Some NetSpecifier_default) (Some 7) 0 20001 (CreateDefaultRequest conn_start)))"
    by (rule reach_step [OF reach_start], rule step_register, rule prod.collapse [symmetric])
  moreover have "length (all_activates (snd (RegisterNetConnCallbackAsync quiet_env (Some NetSpecifier_default) (Some 7) 0 20001 (CreateDefaultRequest conn_start)))) = 2"
    by code_simp
  ultimately show ?thesis using service_invariant by blast
qed

text \<open>
  C6. When a supplier reports its state or leaves, the service settles: in the resulting
  state each request that is not suspended is served by the best network for it, or by none if there is
  none, and the network of the device is the one that serves the default request. When a supplier reports its link, the
  service settles too, or the search is put off: no request changes its network, and either a wait was already running
  or a WLAN in its first probe makes the service wait on a cellular network.
\<close>

theorem supplier_change_settles:
  assumes "conn_reachable s"
  shows "(UpdateNetSupplierInfoAsync e sid info s = Some (NETMANAGER_SUCCESS, s') \<longrightarrow> settled s')
    \<and> (UnregisterNetSupplierAsync e sid s = (NETMANAGER_SUCCESS, s') \<longrightarrow> settled s')
    \<and> (UpdateNetLinkInfoAsync e sid link s = (NETMANAGER_SUCCESS, s') \<longrightarrow> settled s' \<or> put_off e sid s s')"
proof -
  have "conn_inv s'" if "conn_step s s'" using that conn_step_inv reachable_inv [OF assms] by blast
  then have "UpdateNetSupplierInfoAsync e sid info s = Some (NETMANAGER_SUCCESS, s') \<Longrightarrow> conn_inv s'"
    "UnregisterNetSupplierAsync e sid s = (NETMANAGER_SUCCESS, s') \<Longrightarrow> conn_inv s'"
    "UpdateNetLinkInfoAsync e sid link s = (NETMANAGER_SUCCESS, s') \<Longrightarrow> conn_inv s'"
    by (blast intro: conn_step.intros)+
  then show ?thesis using handlers_search link_search settled_search by meson
qed

theorem supplier_change_settles_witness:
  "let s = snd (snd (the (RegisterNetSupplierAsync BEARER_WIFI ''wifi'' {NET_CAPABILITY_INTERNET, NET_CAPABILITY_INTERNAL_DEFAULT} 0 (CreateDefaultRequest conn_start)))) in
   UnregisterNetSupplierAsync quiet_env 1003 s = (NETMANAGER_SUCCESS, snd (UnregisterNetSupplierAsync quiet_env 1003 s))
   \<and> settled (snd (UnregisterNetSupplierAsync quiet_env 1003 s))"
proof -
  define s where "s = snd (snd (the (RegisterNetSupplierAsync BEARER_WIFI ''wifi'' {NET_CAPABILITY_INTERNET, NET_CAPABILITY_INTERNAL_DEFAULT} 0 (CreateDefaultRequest conn_start))))"
  have "RegisterNetSupplierAsync BEARER_WIFI ''wifi'' {NET_CAPABILITY_INTERNET, NET_CAPABILITY_INTERNAL_DEFAULT} 0 (CreateDefaultRequest conn_start) \<noteq> None"
    by code_simp
  then have "conn_step (CreateDefaultRequest conn_start) s" unfolding s_def by (auto intro: step_supplier)
  then have r: "conn_reachable s" by (rule reach_step [OF reach_start])
  have u: "UnregisterNetSupplierAsync quiet_env 1003 s = (NETMANAGER_SUCCESS, snd (UnregisterNetSupplierAsync quiet_env 1003 s))"
    unfolding s_def by (rule prod_eqI, code_simp, simp)
  then have "settled (snd (UnregisterNetSupplierAsync quiet_env 1003 s))" using supplier_change_settles [OF r] by blast
  then show ?thesis unfolding s_def [symmetric] Let_def using u by simp
qed

text \<open>
  C24. A client is told of its network: when a search finds for a request a network other than the one that
  serves it, the callback of the request gets \<open>NetAvailable\<close> with the handle of that network
  during this search.
\<close>

theorem best_network_announced:
  assumes "conn_inv s" "a \<in> set (all_activates s)" "\<not> skipped a" "netConnCallback a = Some cb"
    "snd (FindBestNetworkForRequest a s) = Some b" "netServiceSupplied a \<noteq> Some b"
  shows "\<exists>new. cs_calls (FindBestNetworkForAllRequest e s) = cs_calls s @ new \<and> NetAvailable cb (netHandle (cs_heap s ! b)) \<in> set new"
proof -
  have w: "\<forall>e \<in> set (cs_netSuppliers s). snd e < length (cs_heap s)"
    using inv_tables(1) [OF assms(1)] by (simp add: conn_wf_def)
  have u: "find_best_one e uid = find_best_one e 0" for uid by (intro ext) (simp add: find_best_one_def)
  note c = each_uid_concat [of "find_best_one e" "find_best_one e 0", OF u, of "cs_activates s" s]
  obtain new where new: "cs_calls (snd (each (find_best_one e 0) (all_activates s) s)) = cs_calls s @ new"
    "NetAvailable cb (netHandle (cs_heap s ! b)) \<in> set new"
    using calls_each [OF w, of e 0 "all_activates s"] assms(2-6) by blast
  have n: "\<exists>more. cs_calls (NotifyNetBearerTypeChange t) = cs_calls t @ more" for t by (auto simp: NotifyNetBearerTypeChange_def Let_def)
  obtain more where "cs_calls (FindBestNetworkForAllRequest e s) = cs_calls (for_activates (find_best_one e) s) @ more"
    using n unfolding FindBestNetworkForAllRequest_def by blast
  moreover have "cs_calls (for_activates (find_best_one e) s) = cs_calls s @ new" using c new(1) by (simp add: for_activates_def case_prod_beta)
  ultimately show ?thesis using new(2) by auto
qed

theorem best_network_announced_witness:
  "let s = (snd (RegisterNetConnCallbackAsync quiet_env (Some NetSpecifier_default) (Some 7) 0 20001 (CreateDefaultRequest conn_start)))
       \<lparr> cs_heap := [first_wifi], cs_netSuppliers := [(1003, 0)] \<rparr> in
   \<exists>new. cs_calls (FindBestNetworkForAllRequest quiet_env s) = cs_calls s @ new \<and> NetAvailable 7 (Some 100) \<in> set new"
proof -
  let ?r = "snd (RegisterNetConnCallbackAsync quiet_env (Some NetSpecifier_default) (Some 7) 0 20001 (CreateDefaultRequest conn_start))"
  define s where "s = ?r\<lparr> cs_heap := [first_wifi], cs_netSuppliers := [(1003, 0)] \<rparr>"
  let ?a = "all_activates s ! 1"
  have "conn_inv ?r" by (rule Register_inv [OF prod.collapse [symmetric] start_inv])
  then have i: "conn_inv s" by (simp add: s_def conn_inv_def requests_def suppliers_inv_def om_wf_def)
  have l: "1 < length (all_activates s)" unfolding s_def by code_simp
  have a: "\<not> skipped ?a" "netConnCallback ?a = Some 7" "snd (FindBestNetworkForRequest ?a s) = Some 0" "netServiceSupplied ?a \<noteq> Some 0"
    unfolding s_def by code_simp+
  have h: "netHandle (cs_heap s ! 0) = Some 100" by (simp add: s_def first_wifi_def)
  show ?thesis unfolding s_def [symmetric] Let_def using best_network_announced [OF i nth_mem [OF l] a, of quiet_env] by (simp add: h)
qed

text \<open>
  The default request has no callback and stands first in the list of the manager's uid in every
  state the service can reach. A callback registered under that uid can therefore never be given
  up: the handler that ends its request does not return.
\<close>

theorem manager_callback_never_ends:
  assumes "conn_reachable s" "RegisterNetConnCallbackAsync e (Some sp) (Some cb) timeout UID_NET_MANAGER s = (NETMANAGER_SUCCESS, s1)"
  shows "UnregisterNetConnCallbackAsync e' (Some cb) s1 = None"
proof -
  note tab = inv_tables [OF reachable_inv [OF assms(1)]]
  obtain d "as" where d: "requests_of UID_NET_MANAGER s = d # as" "netConnCallback d = None" using tab(4) by blast
  obtain s0 a where a0: "FindSameCallback cb s0 = None" "cs_activates s0 = cs_activates s" "requests_of UID_NET_MANAGER s0 = requests_of UID_NET_MANAGER s"
    and a: "netConnCallback a = Some cb" "GetUid a = UID_NET_MANAGER" "same_clients (with_request UID_NET_MANAGER a s0) s1"
    by (rule Register_accepted [OF assms(2)])
  have "null_blocks cb (requests_of UID_NET_MANAGER s0)" using d by (simp add: null_blocks_def a0)
  then show ?thesis using Unregister_new [of s0 cb a UID_NET_MANAGER s1 e'] tab(2, 3) a by (simp add: a0)
qed

theorem manager_callback_never_ends_witness:
  "UnregisterNetConnCallbackAsync quiet_env (Some 7)
     (snd (RegisterNetConnCallbackAsync quiet_env (Some NetSpecifier_default) (Some 7) 0 UID_NET_MANAGER (CreateDefaultRequest conn_start))) = None"
proof -
  have "RegisterNetConnCallbackAsync quiet_env (Some NetSpecifier_default) (Some 7) 0 UID_NET_MANAGER (CreateDefaultRequest conn_start)
      = (NETMANAGER_SUCCESS, snd (RegisterNetConnCallbackAsync quiet_env (Some NetSpecifier_default) (Some 7) 0 UID_NET_MANAGER (CreateDefaultRequest conn_start)))"
    by (rule prod_eqI, code_simp, simp)
  then show ?thesis by (rule manager_callback_never_ends [OF reach_start])
qed

end
