(* ===== verification/Bytes.thy ===== *)
theory Bytes
  imports Prelude "HOL-Library.Monad_Syntax"
begin

text \<open>
  Byte buffers. A buffer is a list of bytes and a pointer into it an index. A read outside the buffer is
  \<open>None\<close>: the C++ code has no defined behaviour there, so a parser that returns \<open>Some\<close> on
  every buffer is free of such reads. Numbers on the wire are in network order.
\<close>

unbundle bit_operations_syntax

type_synonym byte = "8 word"
type_synonym u16 = "16 word"
type_synonym buffer = "byte list"

definition read_bytes :: "buffer \<Rightarrow> nat \<Rightarrow> nat \<Rightarrow> buffer option" where
  "read_bytes buf p n = (if p + n \<le> length buf then Some (take n (drop p buf)) else None)"

definition read_byte :: "buffer \<Rightarrow> nat \<Rightarrow> byte option" where
  "read_byte buf p = (if p < length buf then Some (buf ! p) else None)"

definition be16 :: "u16 \<Rightarrow> buffer" where
  "be16 w = [ucast (drop_bit 8 w), ucast w]"

definition be32 :: "u32 \<Rightarrow> buffer" where
  "be32 w = [ucast (drop_bit 24 w), ucast (drop_bit 16 w), ucast (drop_bit 8 w), ucast w]"

fun of_be :: "buffer \<Rightarrow> 'w::len word" where
  "of_be [] = 0"
| "of_be (b # bs) = push_bit (8 * length bs) (ucast b) OR of_be bs"

definition byte_of_char :: "char \<Rightarrow> byte" where
  "byte_of_char c = of_nat (of_char c)"

definition char_of_byte :: "byte \<Rightarrow> char" where
  "char_of_byte b = char_of (unat b)"

section \<open>Lemmas\<close>

lemma char_of_byte_of_char [simp]: "char_of_byte (byte_of_char c) = c"
proof -
  have "unat (of_nat (of_char c) :: byte) = of_char c" by (simp add: unat_of_nat)
  then show ?thesis by (simp add: char_of_byte_def byte_of_char_def)
qed

lemma byte_of_char_of_byte [simp]: "byte_of_char (char_of_byte b) = b"
proof -
  have "unat b < 256" using unsigned_less [of b] by simp
  then show ?thesis by (simp add: char_of_byte_def byte_of_char_def)
qed

lemma map_bytes_chars [simp]: "map char_of_byte (map byte_of_char s) = s" "map byte_of_char (map char_of_byte bs) = bs"
  by (simp_all add: comp_def)

lemma of_be16 [simp]: "of_be (be16 w) = w"
  by (rule bit_word_eqI) (auto simp: be16_def bit_simps)

lemma of_be32 [simp]: "of_be (be32 w) = w"
proof (rule bit_word_eqI)
  fix n assume "n < LENGTH(32)"
  then consider "n < 8" | "8 \<le> n" "n < 16" | "16 \<le> n" "n < 24" | "24 \<le> n" "n < 32" by force
  then show "bit (of_be (be32 w) :: u32) n = bit w n" by cases (auto simp: be32_def bit_simps)
qed

lemma be_lengths [simp]: "length (be16 w) = 2" "length (be32 w') = 4"
  by (simp_all add: be16_def be32_def)

text \<open>Reading what stands at a known place.\<close>

lemma read_bytes_at [simp]: "n = length xs \<Longrightarrow> p = length pre \<Longrightarrow> read_bytes (pre @ xs @ post) p n = Some xs"
  by (simp add: read_bytes_def)

lemma read_bytes_some: "read_bytes buf p n \<noteq> None \<longleftrightarrow> p + n \<le> length buf"
  by (simp add: read_bytes_def)

lemma read_bytes_length: "read_bytes buf p n = Some xs \<Longrightarrow> length xs = n"
  by (auto simp: read_bytes_def split: if_splits)

end
