(* ===== verification/Mdns_Common.thy ===== *)
theory Mdns_Common
  imports Bytes
begin

text \<open>
  Names of multicast DNS services (\<open>mdns_common.cpp\<close>) and their TXT attributes (\<open>mdns_service_info.cpp\<close>). A
  \<open>string_view\<close> is its place in the string, a start and a length, since the code builds new strings from the
  beginning of one view to the end of another.
\<close>

abbreviation MDNS_DOMAIN_SPLITER :: char where "MDNS_DOMAIN_SPLITER \<equiv> CHR ''.''"
abbreviation MDNS_TOP_DOMAIN_DEFAULT :: string where "MDNS_TOP_DOMAIN_DEFAULT \<equiv> ''.local''"
abbreviation MDNS_TYPE_TCP :: string where "MDNS_TYPE_TCP \<equiv> ''_tcp''"
abbreviation MDNS_TYPE_UDP :: string where "MDNS_TYPE_UDP \<equiv> ''_udp''"

section \<open>Names\<close>

definition EndsWith :: "string \<Rightarrow> string \<Rightarrow> bool" where
  "EndsWith str pat = (length pat \<le> length str \<and> drop (length str - length pat) str = pat)"

definition StartsWith :: "string \<Rightarrow> string \<Rightarrow> bool" where
  "StartsWith str pat = (length pat \<le> length str \<and> take (length pat) str = pat)"

type_synonym view = "nat \<times> nat"

definition view_text :: "string \<Rightarrow> view \<Rightarrow> string" where
  "view_text s v = take (snd v) (drop (fst v) s)"

text \<open>The string from the beginning of one view to the end of another.\<close>

definition span_text :: "string \<Rightarrow> view \<Rightarrow> view \<Rightarrow> string" where
  "span_text s v w = take (fst w + snd w - fst v) (drop (fst v) s)"

text \<open>The loop of \<open>Split\<close> at position \<open>pos\<close>, character by character; \<open>prev\<close> is where the current piece began. Empty pieces are left out.\<close>

fun split_from :: "char \<Rightarrow> string \<Rightarrow> nat \<Rightarrow> nat \<Rightarrow> view list" where
  "split_from sep [] pos prev = (if prev < pos then [(prev, pos - prev)] else [])"
| "split_from sep (c # cs) pos prev =
     (if c = sep then (if prev < pos then [(prev, pos - prev)] else []) @ split_from sep cs (pos + 1) (pos + 1)
      else split_from sep cs (pos + 1) prev)"

definition Split :: "string \<Rightarrow> char \<Rightarrow> view list" where
  "Split s sep = split_from sep s 0 0"

definition is_protocol :: "string \<Rightarrow> bool" where
  "is_protocol t = (t = MDNS_TYPE_TCP \<or> t = MDNS_TYPE_UDP)"

text \<open>The loop of \<open>GetMDNSTypeIndex\<close> from index \<open>i\<close>: the last view that names a protocol, or -1.\<close>

fun type_index_from :: "string \<Rightarrow> view list \<Rightarrow> int \<Rightarrow> int \<Rightarrow> int" where
  "type_index_from s [] i index = index"
| "type_index_from s (v # vs) i index = type_index_from s vs (i + 1) (if is_protocol (view_text s v) then i else index)"

definition GetMDNSTypeIndex :: "string \<Rightarrow> view list \<Rightarrow> int" where
  "GetMDNSTypeIndex s views = type_index_from s views 0 (- 1)"

definition IsNameValid :: "string \<Rightarrow> bool" where
  "IsNameValid name = (0 < length name \<and> length name \<le> 63)"

definition IsTypeValid :: "string \<Rightarrow> bool" where
  "IsTypeValid type =
     (case Split type MDNS_DOMAIN_SPLITER of
        [v0, v1] \<Rightarrow> snd v0 \<le> 63 \<and> StartsWith (view_text type v0) ''_'' \<and> is_protocol (view_text type v1)
      | _ \<Rightarrow> False)"

definition IsPortValid :: "int \<Rightarrow> bool" where
  "IsPortValid port = (0 \<le> port \<and> port \<le> 65535)"

definition IsInstanceValid :: "string \<Rightarrow> bool" where
  "IsInstanceValid inst =
     (let views = Split inst MDNS_DOMAIN_SPLITER in
      if length views = 3 then
        snd (views ! 0) \<le> 63 \<and> snd (views ! 1) \<le> 63 \<and> StartsWith (view_text inst (views ! 1)) ''_'' \<and> is_protocol (view_text inst (views ! 2))
      else if 3 < length views then
        let typeIndex = GetMDNSTypeIndex inst views in
        if typeIndex \<le> 2 then False
        else
          length (span_text inst (views ! 0) (views ! nat (typeIndex - 2))) \<le> 63
          \<and> snd (views ! nat (typeIndex - 1)) \<le> 63 \<and> StartsWith (view_text inst (views ! nat (typeIndex - 1))) ''_''
          \<and> is_protocol (view_text inst (views ! nat typeIndex))
      else False)"

definition IsDomainValid :: "string \<Rightarrow> bool" where
  "IsDomainValid domain = (length domain + (if EndsWith domain [MDNS_DOMAIN_SPLITER] then 0 else 1) \<le> 254)"

text \<open>The two out parameters keep their values when no branch applies.\<close>

definition ExtractNameAndType :: "string \<Rightarrow> string \<times> string \<Rightarrow> string \<times> string" where
  "ExtractNameAndType inst old =
     (let views = Split inst MDNS_DOMAIN_SPLITER; typeIndex = GetMDNSTypeIndex inst views in
      if length views = 3 \<or> length views = 4 then (view_text inst (views ! 0), span_text inst (views ! 1) (views ! 2))
      else if 2 < typeIndex then
        (span_text inst (views ! 0) (views ! nat (typeIndex - 2)), span_text inst (views ! nat (typeIndex - 1)) (views ! nat typeIndex))
      else old)"

section \<open>TXT attributes\<close>

type_synonym TxtRecord = "(string, buffer) omap"

abbreviation MDNS_TXT_KV_EQ :: char where "MDNS_TXT_KV_EQ \<equiv> CHR ''=''"

definition IsKeyValueVaild :: "string \<Rightarrow> buffer \<Rightarrow> bool" where
  "IsKeyValueVaild key value =
     (key \<noteq> [] \<and> list_all (\<lambda>c. 0x20 \<le> byte_of_char c \<and> byte_of_char c \<le> 0x7e \<and> c \<noteq> MDNS_TXT_KV_EQ) key
      \<and> length key + length value < 255)"

definition attr_bytes :: "string \<Rightarrow> buffer \<Rightarrow> buffer" where
  "attr_bytes key value = of_nat (length key + length value + 1) # map byte_of_char key @ [byte_of_char MDNS_TXT_KV_EQ] @ value"

definition SetAttrMap :: "TxtRecord \<Rightarrow> buffer" where
  "SetAttrMap m = concat (map (\<lambda>(key, value). if IsKeyValueVaild key value then attr_bytes key value else []) m)"

text \<open>
  The loop of \<open>GetAttrMap\<close>, on the bytes from \<open>pos\<close> on. The two \<open>continue\<close> statements leave \<open>pos\<close> right behind the length
  byte: the bytes of the entry that is skipped are read again as entries.
\<close>

function (sequential) get_attrs :: "buffer \<Rightarrow> TxtRecord \<Rightarrow> TxtRecord" where
  "get_attrs [] m = m"
| "get_attrs (b # rest) m =
     (let recordLen = min (unat b) (length rest);
          entry = take recordLen rest;
          key = map char_of_byte (takeWhile (\<lambda>c. c \<noteq> byte_of_char MDNS_TXT_KV_EQ) entry);
          value = drop (length key + 1) entry
      in if om_get m key \<noteq> None then get_attrs rest m
         else if \<not> IsKeyValueVaild key value then get_attrs rest m
         else get_attrs (drop recordLen rest) (om_put key value m))"
  by pat_completeness auto
termination
  by (relation "measure (\<lambda>(buf, m). length buf)") auto

definition GetAttrMap :: "buffer \<Rightarrow> TxtRecord" where
  "GetAttrMap txtRecord = get_attrs txtRecord []"

section \<open>Lemmas on names\<close>

text \<open>A name as its labels.\<close>

fun dot_join :: "string list \<Rightarrow> string" where
  "dot_join [] = []"
| "dot_join [l] = l"
| "dot_join (l # ls) = l @ MDNS_DOMAIN_SPLITER # dot_join ls"

definition label_ok :: "string \<Rightarrow> bool" where
  "label_ok l = (l \<noteq> [] \<and> MDNS_DOMAIN_SPLITER \<notin> set l)"

text \<open>Where the labels of a joined name stand.\<close>

fun label_views :: "nat \<Rightarrow> string list \<Rightarrow> view list" where
  "label_views p [] = []"
| "label_views p (l # ls) = (p, length l) # label_views (p + length l + 1) ls"

lemma split_label: "MDNS_DOMAIN_SPLITER \<notin> set l \<Longrightarrow> split_from MDNS_DOMAIN_SPLITER (l @ r) pos prev = split_from MDNS_DOMAIN_SPLITER r (pos + length l) prev"
  by (induction l arbitrary: pos) auto

lemma split_join: "list_all label_ok ls \<Longrightarrow> ls \<noteq> [] \<Longrightarrow> split_from MDNS_DOMAIN_SPLITER (dot_join ls) p p = label_views p ls"
proof (induction ls arbitrary: p rule: dot_join.induct)
  case (2 l)
  then show ?case using split_label [of l "[]" p p] by (simp add: label_ok_def)
next
  case (3 l l' ls)
  then show ?case by (simp add: split_label label_ok_def)
qed simp

definition label_off :: "string list \<Rightarrow> nat" where
  "label_off ls = sum_list (map (\<lambda>l. length l + 1) ls)"

lemma label_off_simps [simp]:
  "label_off [] = 0" "label_off (l # ls) = length l + 1 + label_off ls" "label_off (xs @ ys) = label_off xs + label_off ys"
  by (simp_all add: label_off_def)

lemma label_views_length [simp]: "length (label_views p ls) = length ls"
  by (induction ls arbitrary: p) simp_all

lemma label_views_nth: "i < length ls \<Longrightarrow> label_views p ls ! i = (p + label_off (take i ls), length (ls ! i))"
  by (induction ls arbitrary: p i) (auto simp: nth_Cons' take_Cons' gr0_conv_Suc)

lemma dot_join_Cons: "ls \<noteq> [] \<Longrightarrow> dot_join (l # ls) = l @ MDNS_DOMAIN_SPLITER # dot_join ls"
  by (cases ls) simp_all

lemma length_join: "ls \<noteq> [] \<Longrightarrow> length (dot_join ls) + 1 = label_off ls"
  by (induction ls rule: dot_join.induct) simp_all

lemma drop_join: "ys \<noteq> [] \<Longrightarrow> drop (label_off xs) (dot_join (xs @ ys)) = dot_join ys"
  by (induction xs) (simp_all add: dot_join_Cons)

lemma take_join: "ys \<noteq> [] \<Longrightarrow> take (length (dot_join ys)) (dot_join (ys @ zs)) = dot_join ys"
  by (induction ys rule: dot_join.induct) (cases zs; simp add: dot_join_Cons)+

lemma span_join:
  assumes "i \<le> j" "j < length ls"
  shows "span_text (dot_join ls) (label_views 0 ls ! i) (label_views 0 ls ! j) = dot_join (take (j + 1 - i) (drop i ls))"
proof -
  let ?xs = "take i ls" and ?ys = "take (j + 1 - i) (drop i ls)" and ?zs = "drop (j + 1) ls"
  have ls: "ls = ?xs @ ?ys @ ?zs" using assms by (metis Suc_eq_plus1 append_take_drop_id drop_drop le_SucI ordered_cancel_comm_monoid_diff_class.diff_add)
  have ne: "?ys \<noteq> []" using assms by auto
  have "take (j + 1) ls = ?xs @ ?ys" using assms by (metis Suc_eq_plus1 le_SucI le_add_diff_inverse take_add)
  moreover have "take (j + 1) ls = take j ls @ [ls ! j]" using assms by (simp add: take_Suc_conv_app_nth)
  ultimately have "label_off (take j ls) + length (ls ! j) + 1 = label_off ?xs + label_off ?ys"
    by (metis add.assoc label_off_simps(1,2,3) add_0_right)
  then have "label_off (take j ls) + length (ls ! j) - label_off ?xs = length (dot_join ?ys)"
    using length_join [OF ne] by linarith
  moreover have "drop (label_off ?xs) (dot_join ls) = dot_join (?ys @ ?zs)"
    using drop_join [of "?ys @ ?zs" ?xs] ls ne by simp
  ultimately show ?thesis
    using assms take_join [OF ne, of ?zs] by (simp add: span_text_def label_views_nth)
qed

lemma view_join: "i < length ls \<Longrightarrow> view_text (dot_join ls) (label_views 0 ls ! i) = ls ! i"
  using span_join [of i i ls] by (simp add: span_text_def view_text_def take_Suc_conv_app_nth hd_drop_conv_nth take_Suc)

lemma type_index_join:
  "type_index_from s (vs @ ws) i index = type_index_from s ws (i + int (length vs)) (type_index_from s vs i index)"
  by (induction vs arbitrary: i index) (simp_all add: add.assoc)

lemma type_index_labels:
  assumes "is_protocol p" "\<not> is_protocol d" and s: "s = dot_join (ls @ [t, p, d])"
  shows "GetMDNSTypeIndex s (label_views 0 (ls @ [t, p, d])) = int (length ls) + 1"
proof -
  let ?all = "ls @ [t, p, d]" and ?n = "length ls"
  let ?vs = "label_views 0 ?all"
  have vs: "?vs = take (?n + 1) ?vs @ [?vs ! (?n + 1), ?vs ! (?n + 2)]"
    by (rule nth_equalityI) (auto simp: nth_append nth_Cons' less_Suc_eq)
  have "view_text s (?vs ! (?n + 1)) = p" "view_text s (?vs ! (?n + 2)) = d"
    unfolding s using view_join [of "?n + 1" ?all] view_join [of "?n + 2" ?all] by (simp_all add: nth_append)
  then show ?thesis
    using assms(1,2) unfolding GetMDNSTypeIndex_def by (subst vs, subst type_index_join) simp
qed

text \<open>
  The full name of a service is taken apart into the name and the type it was built from, also when the service's name has dots in it.
\<close>

theorem extract_full_name:
  assumes "list_all label_ok (ls @ [t, p, d])" "ls \<noteq> []" "is_protocol p" "\<not> is_protocol d"
  shows "ExtractNameAndType (dot_join (ls @ [t, p, d])) old = (dot_join ls, t @ ''.'' @ p)"
proof -
  let ?all = "ls @ [t, p, d]" and ?n = "length ls"
  let ?s = "dot_join ?all" and ?vs = "label_views 0 ?all"
  have views: "Split ?s MDNS_DOMAIN_SPLITER = ?vs" using split_join [OF assms(1)] by (simp add: Split_def)
  have index: "GetMDNSTypeIndex ?s ?vs = int ?n + 1" by (rule type_index_labels [OF assms(3,4) refl])
  have type: "span_text ?s (?vs ! ?n) (?vs ! (?n + 1)) = t @ ''.'' @ p" using span_join [of ?n "?n + 1" ?all] by simp
  show ?thesis
  proof (cases "?n = 1")
    case True
    then obtain l where "ls = [l]" by (auto simp: length_Suc_conv)
    moreover from this have "view_text ?s (?vs ! 0) = l" using view_join [of 0 ?all] by simp
    ultimately show ?thesis using type True views by (simp add: ExtractNameAndType_def)
  next
    case False
    with assms(2) have n: "2 \<le> ?n" by (cases ls) (auto simp: Suc_le_eq)
    have "span_text ?s (?vs ! 0) (?vs ! (?n - 1)) = dot_join ls" using span_join [of 0 "?n - 1" ?all] n by simp
    moreover have "nat (int ?n + 1 - 2) = ?n - 1" "nat (int ?n + 1 - 1) = ?n" "nat (int ?n + 1) = ?n + 1" using n by simp_all
    ultimately show ?thesis using type views index n assms(2) by (simp add: ExtractNameAndType_def Let_def)
  qed
qed

theorem extract_full_name_witness:
  "ExtractNameAndType ''my.web._http._tcp.local'' ([], []) = (''my.web'', ''_http._tcp'')"
  using extract_full_name [of "[''my'', ''web'']" "''_http''" "''_tcp''" "''local''" "([], [])"]
  by (simp add: label_ok_def is_protocol_def)

section \<open>Attributes come back\<close>

lemma byte_of_char_inj [simp]: "byte_of_char c = byte_of_char d \<longleftrightarrow> c = d"
  by (metis char_of_byte_of_char)

lemma get_attrs_entry:
  assumes "IsKeyValueVaild key value" "om_get m key = None"
  shows "get_attrs (attr_bytes key value @ rest) m = get_attrs rest (om_put key value m)"
proof -
  have len: "unat (of_nat (length key + length value + 1) :: byte) = length key + length value + 1"
    using assms(1) unfolding unat_of_nat by (simp add: IsKeyValueVaild_def)
  have "MDNS_TXT_KV_EQ \<notin> set key" using assms(1) by (auto simp: IsKeyValueVaild_def list_all_iff)
  then have "takeWhile (\<lambda>c. c \<noteq> byte_of_char MDNS_TXT_KV_EQ) (map byte_of_char key @ byte_of_char MDNS_TXT_KV_EQ # value) = map byte_of_char key"
    by (subst takeWhile_append2) auto
  then show ?thesis
    using assms len by (simp add: attr_bytes_def Let_def comp_def)
qed

lemma get_attrs_roundtrip:
  assumes "om_wf m" "\<And>e f. e \<in> set acc \<Longrightarrow> f \<in> set m \<Longrightarrow> fst e < fst f"
  shows "get_attrs (SetAttrMap m) acc = acc @ filter (\<lambda>(key, value). IsKeyValueVaild key value) m"
  using assms
proof (induction m arbitrary: acc)
  case (Cons e m)
  obtain key val where e: "e = (key, val)" by fastforce
  have wf: "om_wf m" using Cons.prems(1) by (simp add: om_wf_Cons)
  show ?case
  proof (cases "IsKeyValueVaild key val")
    case True
    have below: "\<And>x. x \<in> set acc \<Longrightarrow> fst x < key" using Cons.prems(2) [of _ e] e by simp
    then have "om_get acc key = None" by (auto simp: map_of_eq_None_iff)
    with True have "get_attrs (SetAttrMap (e # m)) acc = get_attrs (SetAttrMap m) (acc @ [(key, val)])"
      using get_attrs_entry [of key val acc "SetAttrMap m"] om_put_last [OF below] by (simp add: SetAttrMap_def e)
    also have "\<dots> = (acc @ [(key, val)]) @ filter (\<lambda>(key, value). IsKeyValueVaild key value) m"
      by (rule Cons.IH [OF wf]) (use Cons.prems e in \<open>auto simp: om_wf_Cons\<close>)
    finally show ?thesis using True e by simp
  next
    case False
    then show ?thesis using Cons.IH [OF wf, of acc] Cons.prems(2) e by (simp add: SetAttrMap_def)
  qed
qed (simp add: SetAttrMap_def)

text \<open>
  The attributes a service sets are the attributes its clients read, but for the entries whose key is not printable ASCII, has an equals sign
  or is too long together with its value: those are left out.
\<close>

theorem attributes_roundtrip:
  assumes "om_wf m"
  shows "GetAttrMap (SetAttrMap m) = filter (\<lambda>(key, value). IsKeyValueVaild key value) m"
  using get_attrs_roundtrip [OF assms, of "[]"] by (simp add: GetAttrMap_def)

theorem attributes_roundtrip_witness:
  "GetAttrMap (SetAttrMap [(''a=b'', [1]), (''path'', [47]), (''v'', [])]) = [(''path'', [47]), (''v'', [])]"
  using attributes_roundtrip [of "[(''a=b'', [1]), (''path'', [47]), (''v'', [])]"]
  by (simp add: om_wf_def IsKeyValueVaild_def byte_of_char_def)

text \<open>
  An entry that is skipped does not take its bytes with it: after an entry with no key, the bytes of its value are read as entries, and an attribute appears that nobody set.
\<close>

theorem skipped_entry_is_read_again:
  "GetAttrMap ([6, byte_of_char MDNS_TXT_KV_EQ, 4] @ map byte_of_char ''x=hi'') = [(''x'', map byte_of_char ''hi'')]"
  by code_simp

end
