(* ===== verification/Mdns_Packet.thy ===== *)
theory Mdns_Packet
  imports Mdns_Common
begin

text \<open>
  The packets of multicast DNS: \<open>MDnsPayloadParser\<close> of \<open>mdns_packet_parser.cpp\<close>. A pointer into the
  payload is an index, \<open>None\<close> a read outside the payload. The parser keeps error flags, which the
  functions below take and return. \<open>std::any\<close> is the datatype \<open>rdata\<close>; the addresses in it are the
  raw bytes the code copies.
\<close>

section \<open>Messages\<close>

record DnsHeader =
  hd_id :: u16
  hd_flags :: u16
  hd_qdcount :: u16
  hd_ancount :: u16
  hd_nscount :: u16
  hd_arcount :: u16

record Question =
  qn_name :: string
  qn_qtype :: u16
  qn_qclass :: u16

record RDataSrv =
  srv_priority :: u16
  srv_weight :: u16
  srv_port :: u16
  srv_name :: string

datatype rdata =
    NoData | InAddr buffer | In6Addr buffer | NameData string | SrvData RDataSrv | TxtData buffer

record ResourceRecord =
  rr_name :: string
  rr_rtype :: u16
  rr_rclass :: u16
  rr_ttl :: u32
  rr_length :: u16
  rr_rdata :: rdata

record Message =
  ms_header :: DnsHeader
  ms_questions :: "Question list"
  ms_answers :: "ResourceRecord list"
  ms_authorities :: "ResourceRecord list"
  ms_additional :: "ResourceRecord list"

abbreviation RRTYPE_A :: u16 where "RRTYPE_A \<equiv> 1"
abbreviation RRTYPE_PTR :: u16 where "RRTYPE_PTR \<equiv> 12"
abbreviation RRTYPE_TXT :: u16 where "RRTYPE_TXT \<equiv> 16"
abbreviation RRTYPE_AAAA :: u16 where "RRTYPE_AAAA \<equiv> 28"
abbreviation RRTYPE_SRV :: u16 where "RRTYPE_SRV \<equiv> 33"

abbreviation PARSE_OK :: u32 where "PARSE_OK \<equiv> 0"
abbreviation PARSE_ERROR :: u32 where "PARSE_ERROR \<equiv> 0xffff"
abbreviation PARSE_ERROR_BAD_SIZE :: u32 where "PARSE_ERROR_BAD_SIZE \<equiv> 1"
abbreviation PARSE_ERROR_BAD_STR :: u32 where "PARSE_ERROR_BAD_STR \<equiv> 2"
abbreviation PARSE_ERROR_BAD_STRPTR :: u32 where "PARSE_ERROR_BAD_STRPTR \<equiv> 4"
abbreviation PARSE_WARNING_BAD_RRTYPE :: u32 where "PARSE_WARNING_BAD_RRTYPE \<equiv> 0x80000000"

abbreviation MDNS_MAX_DOMAIN_LABEL :: byte where "MDNS_MAX_DOMAIN_LABEL \<equiv> 63"
abbreviation DNS_STR_PTR_U16_MASK :: u16 where "DNS_STR_PTR_U16_MASK \<equiv> 0xc000"

section \<open>Reading\<close>

definition ReadNUint16 :: "buffer \<Rightarrow> nat \<Rightarrow> (u16 \<times> nat) option" where
  "ReadNUint16 payload raw = do { bs \<leftarrow> read_bytes payload raw 2; Some (of_be bs, raw + 2) }"

definition ReadNUint32 :: "buffer \<Rightarrow> nat \<Rightarrow> (u32 \<times> nat) option" where
  "ReadNUint32 payload raw = do { bs \<leftarrow> read_bytes payload raw 4; Some (of_be bs, raw + 4) }"

definition failed :: "u32 \<Rightarrow> bool" where
  "failed flags = (flags AND PARSE_ERROR \<noteq> PARSE_OK)"

definition UnDotted :: "string \<Rightarrow> string" where
  "UnDotted name = (if EndsWith name [MDNS_DOMAIN_SPLITER] then take (length name - 1) name else name)"

text \<open>
  The loop of \<open>ParseDnsString\<close> at \<open>p\<close>, in a call that began at \<open>begin\<close>. The string is an out
  parameter: what was appended to it stays on every return. The recursive call follows a compression pointer, which
  must lead to a place before \<open>begin\<close>.
\<close>

function (sequential) dns_loop :: "buffer \<Rightarrow> nat \<Rightarrow> nat \<Rightarrow> string \<Rightarrow> u32 \<Rightarrow> (nat \<times> string \<times> u32) option" where
  "dns_loop payload start p str flags =
     (if \<not> p < length payload then Some (p, str, flags)
      else
        let b = payload ! p in
        if b = 0 then Some (p + 1, str, flags)
        else if b \<le> MDNS_MAX_DOMAIN_LABEL \<and> p + unat b < length payload then
          do { label \<leftarrow> read_bytes payload (p + 1) (unat b);
               dns_loop payload start (p + unat b + 1) (str @ map char_of_byte label @ [MDNS_DOMAIN_SPLITER]) flags }
        else if b AND 0xc0 = 0xc0 then
          if length payload - p < 2 then Some (start, str, flags OR PARSE_ERROR_BAD_SIZE)
          else do { (offset, tmp) \<leftarrow> ReadNUint16 payload p;
            let target = unat (offset AND NOT DNS_STR_PTR_U16_MASK);
            if target \<ge> length payload \<or> target \<ge> start then Some (start, str, flags OR PARSE_ERROR_BAD_STRPTR)
            else do { (q, str', flags') \<leftarrow> dns_loop payload target target str flags;
              if failed flags' then Some (start, str', flags') else Some (tmp, str', flags') } }
        else Some (p, str, flags OR PARSE_ERROR_BAD_STR))"
  by pat_completeness auto
termination
  by (relation "measures [\<lambda>(payload, start, p, str, flags). start, \<lambda>(payload, start, p, str, flags). length payload - p]")
    (auto simp: diff_less_mono2)

definition ParseDnsString :: "buffer \<Rightarrow> nat \<Rightarrow> string \<Rightarrow> u32 \<Rightarrow> (nat \<times> string \<times> u32) option" where
  "ParseDnsString payload start str flags = dns_loop payload start start str flags"

text \<open>The test \<open>end - begin < n\<close> on pointers, a signed comparison.\<close>

definition lacks :: "buffer \<Rightarrow> nat \<Rightarrow> nat \<Rightarrow> bool" where
  "lacks payload p n = (length payload < p + n)"

definition ParseHeader :: "buffer \<Rightarrow> nat \<Rightarrow> DnsHeader \<Rightarrow> u32 \<Rightarrow> (nat \<times> DnsHeader \<times> u32) option" where
  "ParseHeader payload p header flags =
     (if lacks payload p 12 then Some (p, header, flags OR PARSE_ERROR_BAD_SIZE)
      else do {
        (i, p1) \<leftarrow> ReadNUint16 payload p;
        (fl, p2) \<leftarrow> ReadNUint16 payload p1;
        (qd, p3) \<leftarrow> ReadNUint16 payload p2;
        (an, p4) \<leftarrow> ReadNUint16 payload p3;
        (ns, p5) \<leftarrow> ReadNUint16 payload p4;
        (ar, p6) \<leftarrow> ReadNUint16 payload p5;
        Some (p6, \<lparr> hd_id = i, hd_flags = fl, hd_qdcount = qd, hd_ancount = an, hd_nscount = ns, hd_arcount = ar \<rparr>, flags) })"

definition ParseQuestion :: "buffer \<Rightarrow> nat \<Rightarrow> Question list \<Rightarrow> u32 \<Rightarrow> (nat \<times> Question list \<times> u32) option" where
  "ParseQuestion payload p questions flags = do {
     (p1, name, flags1) \<leftarrow> ParseDnsString payload p [] flags;
     if failed flags1 then Some (p1, questions, flags1)
     else if lacks payload p1 4 then Some (p1, questions, flags1 OR PARSE_ERROR_BAD_SIZE)
     else do {
       (ty, p2) \<leftarrow> ReadNUint16 payload p1;
       (cl, p3) \<leftarrow> ReadNUint16 payload p2;
       Some (p3, questions @ [\<lparr> qn_name = UnDotted name, qn_qtype = ty, qn_qclass = cl \<rparr>], flags1) } }"

definition ParseSrv :: "buffer \<Rightarrow> nat \<Rightarrow> u32 \<Rightarrow> (nat \<times> rdata \<times> u32) option" where
  "ParseSrv payload p flags =
     (if lacks payload p 6 then Some (p, NoData, flags OR PARSE_ERROR_BAD_SIZE)
      else do {
        (priority, p1) \<leftarrow> ReadNUint16 payload p;
        (weight, p2) \<leftarrow> ReadNUint16 payload p1;
        (port, p3) \<leftarrow> ReadNUint16 payload p2;
        (p4, name, flags1) \<leftarrow> ParseDnsString payload p3 [] flags;
        if failed flags1 then Some (p4, NoData, flags1)
        else Some (p4, SrvData \<lparr> srv_priority = priority, srv_weight = weight, srv_port = port, srv_name = UnDotted name \<rparr>, flags1) })"

definition ParseTxt :: "buffer \<Rightarrow> nat \<Rightarrow> u16 \<Rightarrow> u32 \<Rightarrow> (nat \<times> rdata \<times> u32) option" where
  "ParseTxt payload p len flags =
     (if lacks payload p (unat len) then Some (p, NoData, flags OR PARSE_ERROR_BAD_SIZE)
      else do { bs \<leftarrow> read_bytes payload p (unat len); Some (p + unat len, TxtData bs, flags) })"

text \<open>The size of an IPv4 address is compared as an unsigned number, so a pointer past the end passes the test.\<close>

definition ParseRData :: "buffer \<Rightarrow> nat \<Rightarrow> u16 \<Rightarrow> u16 \<Rightarrow> u32 \<Rightarrow> (nat \<times> rdata \<times> u32) option" where
  "ParseRData payload p type len flags =
     (if type = RRTYPE_A then
        if p \<le> length payload \<and> lacks payload p 4 \<or> len \<noteq> 4 then Some (p, NoData, flags OR PARSE_ERROR_BAD_SIZE)
        else do { bs \<leftarrow> read_bytes payload p 4; Some (p + 4, InAddr bs, flags) }
      else if type = RRTYPE_AAAA then
        if lacks payload p 16 \<or> len \<noteq> 16 then Some (p, NoData, flags OR PARSE_ERROR_BAD_SIZE)
        else do { bs \<leftarrow> read_bytes payload p 16; Some (p + 16, In6Addr bs, flags) }
      else if type = RRTYPE_PTR then
        do { (p1, str, flags1) \<leftarrow> ParseDnsString payload p [] flags;
             if failed flags1 then Some (p1, NoData, flags1) else Some (p1, NameData (UnDotted str), flags1) }
      else if type = RRTYPE_SRV then ParseSrv payload p flags
      else if type = RRTYPE_TXT then ParseTxt payload p len flags
      else Some (p + unat len, NoData, flags OR PARSE_WARNING_BAD_RRTYPE))"

definition ParseRR :: "buffer \<Rightarrow> nat \<Rightarrow> ResourceRecord list \<Rightarrow> u32 \<Rightarrow> (nat \<times> ResourceRecord list \<times> u32) option" where
  "ParseRR payload p answers flags = do {
     (p1, name, flags1) \<leftarrow> ParseDnsString payload p [] flags;
     if failed flags1 then Some (p1, answers, flags1)
     else if lacks payload p1 10 then Some (p1, answers, flags1 OR PARSE_ERROR_BAD_SIZE)
     else do {
       (ty, p2) \<leftarrow> ReadNUint16 payload p1;
       (cl, p3) \<leftarrow> ReadNUint16 payload p2;
       (ttl, p4) \<leftarrow> ReadNUint32 payload p3;
       (len, p5) \<leftarrow> ReadNUint16 payload p4;
       (p6, d, flags2) \<leftarrow> ParseRData payload p5 ty len flags1;
       Some (p6, answers @ [\<lparr> rr_name = UnDotted name, rr_rtype = ty, rr_rclass = cl, rr_ttl = ttl, rr_length = len, rr_rdata = d \<rparr>], flags2) } }"

text \<open>A loop of the parser over the entries of a section; it stops at the first error.\<close>

fun parse_section :: "(nat \<Rightarrow> 'a list \<Rightarrow> u32 \<Rightarrow> (nat \<times> 'a list \<times> u32) option) \<Rightarrow> nat \<Rightarrow> nat \<Rightarrow> 'a list \<Rightarrow> u32 \<Rightarrow> (nat \<times> 'a list \<times> u32) option" where
  "parse_section f 0 p xs flags = Some (p, xs, flags)"
| "parse_section f (Suc n) p xs flags = do {
     (p1, xs1, flags1) \<leftarrow> f p xs flags;
     if failed flags1 then Some (p1, xs1, flags1) else parse_section f n p1 xs1 flags1 }"

definition Message_default :: Message where
  "Message_default =
     \<lparr> ms_header = \<lparr> hd_id = 0, hd_flags = 0, hd_qdcount = 0, hd_ancount = 0, hd_nscount = 0, hd_arcount = 0 \<rparr>,
       ms_questions = [], ms_answers = [], ms_authorities = [], ms_additional = [] \<rparr>"

definition Parse :: "buffer \<Rightarrow> nat \<Rightarrow> Message \<Rightarrow> u32 \<Rightarrow> (nat \<times> Message \<times> u32) option" where
  "Parse payload p msg flags = do {
     (p1, h, flags1) \<leftarrow> ParseHeader payload p (ms_header msg) flags;
     let m1 = msg\<lparr> ms_header := h \<rparr>;
     if failed flags1 then Some (p1, m1, flags1)
     else do {
       (p2, qs, flags2) \<leftarrow> parse_section (ParseQuestion payload) (unat (hd_qdcount h)) p1 (ms_questions m1) flags1;
       let m2 = m1\<lparr> ms_questions := qs \<rparr>;
       if failed flags2 then Some (p2, m2, flags2)
       else do {
         (p3, an, flags3) \<leftarrow> parse_section (ParseRR payload) (unat (hd_ancount h)) p2 (ms_answers m2) flags2;
         let m3 = m2\<lparr> ms_answers := an \<rparr>;
         if failed flags3 then Some (p3, m3, flags3)
         else do {
           (p4, ns, flags4) \<leftarrow> parse_section (ParseRR payload) (unat (hd_nscount h)) p3 (ms_authorities m3) flags3;
           let m4 = m3\<lparr> ms_authorities := ns \<rparr>;
           if failed flags4 then Some (p4, m4, flags4)
           else do {
             (p5, ar, flags5) \<leftarrow> parse_section (ParseRR payload) (unat (hd_arcount h)) p4 (ms_additional m4) flags4;
             Some (p5, m4\<lparr> ms_additional := ar \<rparr>, flags5) } } } } }"

text \<open>The message and the flags that \<open>GetError\<close> reads.\<close>

definition FromBytes :: "buffer \<Rightarrow> (Message \<times> u32) option" where
  "FromBytes payload = do { (p, msg, flags) \<leftarrow> Parse payload 0 Message_default PARSE_OK; Some (msg, flags) }"

definition GetError :: "u32 \<Rightarrow> u32" where
  "GetError flags = flags AND PARSE_ERROR"

section \<open>Writing\<close>

text \<open>
  A writer is the payload so far and \<open>strCacheMap\<close>, the place each name was written at. The
  parameter \<open>cachedPayload\<close> is always the payload itself. \<open>SerializeDnsString\<close>'s position is
  given by the part of the string from there on.
\<close>

type_synonym writer = "buffer \<times> (string \<rightharpoonup> u16)"

definition WriteRawData :: "buffer \<Rightarrow> writer \<Rightarrow> writer" where
  "WriteRawData bs w = (fst w @ bs, snd w)"

function (sequential) SerializeDnsString :: "string \<Rightarrow> writer \<Rightarrow> writer" where
  "SerializeDnsString str (payload, cache) =
     (if str = [] then WriteRawData [0] (payload, cache)
      else case cache str of
        Some ptr \<Rightarrow> WriteRawData (be16 ptr) (payload, cache)
      | None \<Rightarrow>
          let nextDot = length (takeWhile (\<lambda>c. c \<noteq> MDNS_DOMAIN_SPLITER) str);
              segLen = of_nat nextDot AND (0x3f :: byte);
              strptr = of_nat (length payload) :: u16
          in SerializeDnsString (drop (nextDot + 1) str)
               (payload @ [segLen] @ map byte_of_char (take (unat segLen) str),
                cache(str \<mapsto> strptr OR DNS_STR_PTR_U16_MASK)))"
  by pat_completeness auto
termination
  by (relation "measure (\<lambda>(str, w). length str)") auto

definition SerializeHeader :: "DnsHeader \<Rightarrow> writer \<Rightarrow> writer" where
  "SerializeHeader header w =
     WriteRawData (be16 (hd_id header) @ be16 (hd_flags header) @ be16 (hd_qdcount header) @ be16 (hd_ancount header)
       @ be16 (hd_nscount header) @ be16 (hd_arcount header)) w"

definition SerializeQuestion :: "Question \<Rightarrow> writer \<Rightarrow> writer" where
  "SerializeQuestion question w =
     WriteRawData (be16 (qn_qtype question) @ be16 (qn_qclass question)) (SerializeDnsString (qn_name question) w)"

fun SerializeRData :: "rdata \<Rightarrow> writer \<Rightarrow> writer" where
  "SerializeRData (InAddr addr) w = WriteRawData addr w"
| "SerializeRData (In6Addr addr) w = WriteRawData addr w"
| "SerializeRData (NameData str) w = SerializeDnsString str w"
| "SerializeRData (SrvData srv) w =
     SerializeDnsString (srv_name srv)
       (WriteRawData (be16 (srv_priority srv) @ be16 (srv_weight srv) @ be16 (srv_port srv)) w)"
| "SerializeRData (TxtData txt) w = WriteRawData txt w"
| "SerializeRData NoData w = w"

text \<open>The length of a record is written twice: the field's value first, then over it the number of bytes its data took.\<close>

definition overwrite :: "nat \<Rightarrow> buffer \<Rightarrow> buffer \<Rightarrow> buffer" where
  "overwrite i bs payload = take i payload @ bs @ drop (i + length bs) payload"

definition SerializeRR :: "ResourceRecord \<Rightarrow> writer \<Rightarrow> writer" where
  "SerializeRR rr w =
     (let w1 = WriteRawData (be16 (rr_rtype rr) @ be16 (rr_rclass rr) @ be32 (rr_ttl rr)) (SerializeDnsString (rr_name rr) w);
          lenStart = length (fst w1);
          (payload, cache) = SerializeRData (rr_rdata rr) (WriteRawData (be16 (rr_length rr)) w1);
          len = of_nat (length payload - lenStart - 2)
      in (overwrite lenStart (be16 len) payload, cache))"

definition Serialize :: "Message \<Rightarrow> writer \<Rightarrow> writer" where
  "Serialize msg w =
     (let header = (ms_header msg)\<lparr> hd_qdcount := of_nat (length (ms_questions msg)), hd_ancount := of_nat (length (ms_answers msg)),
                                     hd_nscount := of_nat (length (ms_authorities msg)), hd_arcount := of_nat (length (ms_additional msg)) \<rparr>;
          w1 = SerializeHeader header w;
          w2 = fold SerializeQuestion (take (unat (hd_qdcount header)) (ms_questions msg)) w1;
          w3 = fold SerializeRR (take (unat (hd_ancount header)) (ms_answers msg)) w2;
          w4 = fold SerializeRR (take (unat (hd_nscount header)) (ms_authorities msg)) w3
      in fold SerializeRR (take (unat (hd_arcount header)) (ms_additional msg)) w4)"

definition ToBytes :: "Message \<Rightarrow> buffer" where
  "ToBytes msg = fst (Serialize msg ([], Map.empty))"

section \<open>Well-formed messages\<close>

text \<open>
  A name that the wire format can carry: labels of 1 to 63 characters, separated by dots. A record whose data has the kind of
  its type. Sections whose sizes fit the counts of the header.
\<close>

function name_ok :: "string \<Rightarrow> bool" where
  "name_ok str =
     (let label = takeWhile (\<lambda>c. c \<noteq> MDNS_DOMAIN_SPLITER) str
      in if label = [] \<or> 63 < length label then False
         else if label = str then True
         else name_ok (drop (length label + 1) str))"
  by pat_completeness auto
termination
  by (relation "measure length") (auto intro: diff_less dest: length_pos_if_in_set)

definition dns_name :: "string \<Rightarrow> bool" where
  "dns_name str = (str = [] \<or> name_ok str)"

fun rdata_ok :: "u16 \<Rightarrow> rdata \<Rightarrow> bool" where
  "rdata_ok ty (InAddr addr) = (ty = RRTYPE_A \<and> length addr = 4)"
| "rdata_ok ty (In6Addr addr) = (ty = RRTYPE_AAAA \<and> length addr = 16)"
| "rdata_ok ty (NameData str) = (ty = RRTYPE_PTR \<and> dns_name str)"
| "rdata_ok ty (SrvData srv) = (ty = RRTYPE_SRV \<and> dns_name (srv_name srv))"
| "rdata_ok ty (TxtData txt) = (ty = RRTYPE_TXT)"
| "rdata_ok ty NoData = False"

definition rr_ok :: "ResourceRecord \<Rightarrow> bool" where
  "rr_ok rr = (dns_name (rr_name rr) \<and> rdata_ok (rr_rtype rr) (rr_rdata rr))"

definition message_ok :: "Message \<Rightarrow> bool" where
  "message_ok msg = (list_all (\<lambda>q. dns_name (qn_name q)) (ms_questions msg) \<and> list_all rr_ok (ms_answers msg)
     \<and> list_all rr_ok (ms_authorities msg) \<and> list_all rr_ok (ms_additional msg)
     \<and> length (ms_questions msg) < 2 ^ 16 \<and> length (ms_answers msg) < 2 ^ 16
     \<and> length (ms_authorities msg) < 2 ^ 16 \<and> length (ms_additional msg) < 2 ^ 16)"

text \<open>What of a message the sender decides: the counts and the lengths are the serializer's.\<close>

definition rr_content :: "ResourceRecord \<Rightarrow> ResourceRecord" where
  "rr_content rr = rr\<lparr> rr_length := 0 \<rparr>"

definition content :: "Message \<Rightarrow> Message" where
  "content msg = msg\<lparr>
     ms_header := (ms_header msg)\<lparr> hd_qdcount := 0, hd_ancount := 0, hd_nscount := 0, hd_arcount := 0 \<rparr>,
     ms_answers := map rr_content (ms_answers msg),
     ms_authorities := map rr_content (ms_authorities msg),
     ms_additional := map rr_content (ms_additional msg) \<rparr>"

declare dns_loop.simps [simp del] SerializeDnsString.simps [simp del] name_ok.simps [simp del]

section \<open>Every read is inside the payload\<close>

lemma some_triple: "\<exists>r. x = Some r \<Longrightarrow> \<exists>a b c. x = Some (a, b, c)"
  by auto

lemma dns_loop_returns: "\<exists>r. dns_loop payload start p str flags = Some r"
proof (induction payload start p str flags rule: dns_loop.induct)
  case (1 payload start p str flags)
  define b where "b = payload ! p"
  define target where "target = unat (of_be (take 2 (drop p payload)) AND NOT DNS_STR_PTR_U16_MASK :: u16)"
  consider "\<not> p < length payload" | "p < length payload" "b = 0"
    | "p < length payload" "b \<noteq> 0" "b \<le> MDNS_MAX_DOMAIN_LABEL \<and> p + unat b < length payload"
    | "p < length payload" "b \<noteq> 0" "\<not> (b \<le> MDNS_MAX_DOMAIN_LABEL \<and> p + unat b < length payload)" by blast
  then show ?case
  proof cases
    case 3
    let ?label = "take (unat b) (drop (Suc p) payload)"
    have "read_bytes payload (p + 1) (unat b) = Some ?label" using 3 by (simp add: read_bytes_def)
    from "1.IH"(1) [OF _ b_def 3(2,3) this] 3 this show ?thesis
      by (subst dns_loop.simps) (simp add: b_def [symmetric])
  next
    case 4
    show ?thesis
    proof (cases "b AND 0xc0 = 0xc0 \<and> \<not> length payload - p < 2")
      case True
      then have "p + 2 \<le> length payload" by linarith
      then have read: "ReadNUint16 payload p = Some (of_be (take 2 (drop p payload)), p + 2)"
        by (simp add: ReadNUint16_def read_bytes_def)
      from 4 True read "1.IH"(2) [OF _ b_def 4(2,3) _ _ read refl target_def] show ?thesis
        by (subst dns_loop.simps) (auto simp: b_def [symmetric] Let_def target_def)
    next
      case False
      then show ?thesis using 4 by (subst dns_loop.simps) (auto simp: b_def [symmetric])
    qed
  qed (subst dns_loop.simps, simp add: b_def)+
qed

lemma ParseDnsString_returns: "\<exists>q s f. ParseDnsString payload start str flags = Some (q, s, f)"
  using dns_loop_returns [of payload start start str flags] by (auto simp: ParseDnsString_def)

lemma ParseHeader_returns: "\<exists>r. ParseHeader payload p header flags = Some r"
proof (cases "lacks payload p 12")
  case False
  then have "p + 12 \<le> length payload" by (simp add: lacks_def)
  then show ?thesis by (simp add: ParseHeader_def ReadNUint16_def read_bytes_def)
qed (simp add: ParseHeader_def)

lemma ParseQuestion_returns: "\<exists>r. ParseQuestion payload p questions flags = Some r"
proof -
  obtain p1 name flags1 where "ParseDnsString payload p [] flags = Some (p1, name, flags1)"
    using ParseDnsString_returns by blast
  then show ?thesis by (simp add: ParseQuestion_def ReadNUint16_def read_bytes_def lacks_def)
qed

lemma ParseSrv_returns: "\<exists>r. ParseSrv payload p flags = Some r"
proof -
  obtain p4 name flags1 where "ParseDnsString payload (p + 2 + 2 + 2) [] flags = Some (p4, name, flags1)"
    using ParseDnsString_returns by blast
  then show ?thesis by (simp add: ParseSrv_def ReadNUint16_def read_bytes_def lacks_def)
qed

lemma ParseRData_returns:
  assumes "p \<le> length payload"
  shows "\<exists>r. ParseRData payload p ty len flags = Some r"
proof -
  obtain p4 name flags1 where "ParseDnsString payload p [] flags = Some (p4, name, flags1)"
    using ParseDnsString_returns by blast
  with assms show ?thesis
    using ParseSrv_returns [of payload p flags] by (simp add: ParseRData_def ParseTxt_def read_bytes_def lacks_def)
qed

lemma ParseRR_returns: "\<exists>r. ParseRR payload p answers flags = Some r"
proof -
  obtain p1 name flags1 where name: "ParseDnsString payload p [] flags = Some (p1, name, flags1)"
    using ParseDnsString_returns by blast
  show ?thesis
  proof (cases "failed flags1 \<or> lacks payload p1 10")
    case False
    then have "p1 + 10 \<le> length payload" by (simp add: lacks_def)
    then show ?thesis
      using False name ParseRData_returns [of "p1 + 2 + 2 + 4 + 2" payload "of_be (take 2 (drop p1 payload))" "of_be (take 2 (drop (p1 + 2 + 2 + 4) payload))" flags1]
      by (auto simp: ParseRR_def ReadNUint16_def ReadNUint32_def read_bytes_def)
  qed (use name in \<open>auto simp: ParseRR_def\<close>)
qed

lemma parse_section_returns:
  "(\<And>p xs flags. \<exists>r. f p xs flags = Some r) \<Longrightarrow> \<exists>r. parse_section f n p xs flags = Some r"
proof (induction n arbitrary: p xs flags)
  case (Suc n)
  obtain p1 xs1 flags1 where "f p xs flags = Some (p1, xs1, flags1)" using Suc.prems [of p xs flags] by auto
  then show ?case using Suc by simp
qed simp

lemma Parse_returns: "\<exists>r. Parse payload p msg flags = Some r"
proof -
  note sections = parse_section_returns [where f = "ParseQuestion payload", OF ParseQuestion_returns]
    parse_section_returns [where f = "ParseRR payload", OF ParseRR_returns]
  obtain p1 h f1 where 1: "ParseHeader payload p (ms_header msg) flags = Some (p1, h, f1)"
    using some_triple [OF ParseHeader_returns] by blast
  obtain p2 qs f2 where 2: "parse_section (ParseQuestion payload) (unat (hd_qdcount h)) p1 (ms_questions msg) f1 = Some (p2, qs, f2)"
    using some_triple [OF sections(1)] by blast
  obtain p3 an f3 where 3: "parse_section (ParseRR payload) (unat (hd_ancount h)) p2 (ms_answers msg) f2 = Some (p3, an, f3)"
    using some_triple [OF sections(2)] by blast
  obtain p4 ns f4 where 4: "parse_section (ParseRR payload) (unat (hd_nscount h)) p3 (ms_authorities msg) f3 = Some (p4, ns, f4)"
    using some_triple [OF sections(2)] by blast
  obtain p5 ar f5 where 5: "parse_section (ParseRR payload) (unat (hd_arcount h)) p4 (ms_additional msg) f4 = Some (p5, ar, f5)"
    using some_triple [OF sections(2)] by blast
  from 1 2 3 4 5 show ?thesis by (simp add: Parse_def Let_def)
qed

section \<open>Writing only appends\<close>

text \<open>
  What a step of the serializer writes depends on the size of the payload and on the cache, and it is appended. So the length of
  a record, known only after its data, can be put in place without disturbing anything else.
\<close>

definition appends :: "(writer \<Rightarrow> writer) \<Rightarrow> bool" where
  "appends f \<longleftrightarrow> (\<forall>n cache. \<exists>bs cache'. \<forall>payload. length payload = n \<longrightarrow> f (payload, cache) = (payload @ bs, cache'))"

lemma appendsE:
  assumes "appends f"
  obtains bs cache' where "\<And>payload. length payload = n \<Longrightarrow> f (payload, cache) = (payload @ bs, cache')"
  using assms unfolding appends_def by blast

lemma appendsI:
  "(\<And>n cache. \<exists>bs cache'. \<forall>payload. length payload = n \<longrightarrow> f (payload, cache) = (payload @ bs, cache')) \<Longrightarrow> appends f"
  by (simp add: appends_def)

lemma WriteRawData_appends [intro]: "appends (WriteRawData bs)"
  by (auto simp: appends_def WriteRawData_def)

lemma appends_id [intro]: "appends (\<lambda>w. w)"
  by (simp add: appends_def)

lemma appends_comp:
  assumes f: "appends f" and g: "appends g"
  shows "appends (\<lambda>w. g (f w))"
proof (rule appendsI)
  fix n cache
  obtain bs cache1 where 1: "\<And>payload. length payload = n \<Longrightarrow> f (payload, cache) = (payload @ bs, cache1)"
    by (rule appendsE [OF f]) blast
  obtain bs' cache2 where 2: "\<And>payload. length payload = n + length bs \<Longrightarrow> g (payload, cache1) = (payload @ bs', cache2)"
    by (rule appendsE [OF g]) blast
  from 1 2 have "\<forall>payload. length payload = n \<longrightarrow> g (f (payload, cache)) = (payload @ bs @ bs', cache2)" by simp
  then show "\<exists>bs cache'. \<forall>payload. length payload = n \<longrightarrow> g (f (payload, cache)) = (payload @ bs, cache')" by blast
qed

lemma SerializeDnsString_appends [intro]: "appends (SerializeDnsString str)"
proof (rule appendsI)
  fix n cache
  show "\<exists>bs cache'. \<forall>payload. length payload = n \<longrightarrow> SerializeDnsString str (payload, cache) = (payload @ bs, cache')"
  proof (induction "length str" arbitrary: str n cache rule: less_induct)
    case less
    show ?case
    proof (cases "str = [] \<or> cache str \<noteq> None")
      case True
      then obtain bs where "\<forall>payload. SerializeDnsString str (payload, cache) = (payload @ bs, cache)"
        by (cases "cache str"; cases "str = []") (auto simp: SerializeDnsString.simps WriteRawData_def)
      then show ?thesis by blast
    next
      case False
      define d where "d = length (takeWhile (\<lambda>c. c \<noteq> MDNS_DOMAIN_SPLITER) str)"
      define l where "l = (of_nat d AND (0x3f :: byte)) # map byte_of_char (take (unat (of_nat d AND (0x3f :: byte))) str)"
      have "length (drop (d + 1) str) < length str" using False by simp
      from less [OF this, of "n + length l" "cache(str \<mapsto> of_nat n OR DNS_STR_PTR_U16_MASK)"]
      obtain bs cache' where IH: "\<And>payload. length payload = n + length l \<Longrightarrow>
          SerializeDnsString (drop (d + 1) str) (payload, cache(str \<mapsto> of_nat n OR DNS_STR_PTR_U16_MASK)) = (payload @ bs, cache')"
        by blast
      have "\<forall>payload. length payload = n \<longrightarrow> SerializeDnsString str (payload, cache) = (payload @ l @ bs, cache')"
        using False IH [unfolded l_def] by (subst SerializeDnsString.simps) (auto simp: Let_def l_def d_def [symmetric])
      then show ?thesis by blast
    qed
  qed
qed

lemma SerializeRData_appends [intro]: "appends (SerializeRData d)"
proof (cases d)
  case (SrvData srv)
  have "appends (\<lambda>w. SerializeDnsString (srv_name srv)
       (WriteRawData (be16 (srv_priority srv) @ be16 (srv_weight srv) @ be16 (srv_port srv)) w))"
    by (intro appends_comp [where f = "WriteRawData b" and g = "SerializeDnsString s" for b s]) auto
  then show ?thesis by (simp add: SrvData appends_def)
qed (auto simp: appends_def WriteRawData_def SerializeDnsString_appends [unfolded appends_def])

section \<open>Names come back\<close>

definition ptr_target :: "u16 \<Rightarrow> nat" where
  "ptr_target w = unat (w AND NOT DNS_STR_PTR_U16_MASK)"

text \<open>A cached place is good when the parser, sent there by a pointer, reads the name, whatever follows in the payload.\<close>

definition reads_name :: "buffer \<Rightarrow> string \<Rightarrow> u16 \<Rightarrow> bool" where
  "reads_name payload name w \<longleftrightarrow> w AND DNS_STR_PTR_U16_MASK = DNS_STR_PTR_U16_MASK \<and> ptr_target w < length payload
     \<and> (\<forall>post str flags. \<not> failed flags \<longrightarrow>
          (\<exists>q. dns_loop (payload @ post) (ptr_target w) (ptr_target w) str flags
             = Some (q, str @ name @ [MDNS_DOMAIN_SPLITER], flags)))"

definition cache_ok :: "writer \<Rightarrow> bool" where
  "cache_ok w \<longleftrightarrow> (\<forall>name ptr. snd w name = Some ptr \<longrightarrow> reads_name (fst w) name ptr)"

lemma reads_name_append: "reads_name payload name w \<Longrightarrow> reads_name (payload @ post) name w"
  by (simp add: reads_name_def)

lemma ptr_masks: "DNS_STR_PTR_U16_MASK = push_bit 14 (mask 2)" "(0xc0 :: byte) = push_bit 6 (mask 2)"
  by (simp_all add: mask_eq_exp_minus_1 push_bit_eq_mult)

lemma and_mask_small:
  fixes w :: "'a::len word"
  assumes "unat w < 2 ^ k"
  shows "w AND mask k = w"
proof -
  have "unat (take_bit k w) = unat w" using assms by (simp add: unsigned_take_bit_eq take_bit_nat_eq_self)
  then have "take_bit k w = w" by (rule unsigned_word_eqI)
  then show ?thesis by (simp add: take_bit_eq_mask)
qed

lemma ptr_of_place:
  assumes "n < 0x4000"
  shows "ptr_target (of_nat n OR DNS_STR_PTR_U16_MASK) = n"
    "(of_nat n OR DNS_STR_PTR_U16_MASK) AND DNS_STR_PTR_U16_MASK = (DNS_STR_PTR_U16_MASK :: u16)"
proof -
  have "(of_nat n OR DNS_STR_PTR_U16_MASK) AND NOT DNS_STR_PTR_U16_MASK = (of_nat n AND mask 14 :: u16)"
    unfolding ptr_masks by (rule bit_word_eqI) (auto simp: bit_simps)
  also have "\<dots> = of_nat n"
    using assms by (intro and_mask_small) (simp add: unat_of_nat)
  finally show "ptr_target (of_nat n OR DNS_STR_PTR_U16_MASK) = n"
    using assms by (simp add: ptr_target_def unat_of_nat)
  show "(of_nat n OR DNS_STR_PTR_U16_MASK) AND DNS_STR_PTR_U16_MASK = (DNS_STR_PTR_U16_MASK :: u16)"
    unfolding ptr_masks by (rule bit_word_eqI) (auto simp: bit_simps)
qed

lemma ptr_first_byte:
  assumes "w AND DNS_STR_PTR_U16_MASK = DNS_STR_PTR_U16_MASK"
  shows "(ucast (drop_bit 8 w) :: byte) AND 0xc0 = 0xc0" "\<not> (ucast (drop_bit 8 w) :: byte) \<le> MDNS_MAX_DOMAIN_LABEL"
    "(ucast (drop_bit 8 w) :: byte) \<noteq> 0"
proof -
  let ?b = "ucast (drop_bit 8 w) :: byte"
  have "bit (w AND push_bit 14 (mask 2)) n" if "n = 14 \<or> n = 15" for n
    using that unfolding assms [unfolded ptr_masks] by (auto simp: bit_simps)
  then have w: "bit w 14" "bit w 15" by (auto simp: bit_and_iff)
  show c0: "?b AND 0xc0 = 0xc0"
    unfolding ptr_masks
  proof (rule bit_word_eqI)
    fix n assume "n < LENGTH(8)"
    then consider "n < 6" | "n = 6" | "n = 7" by force
    then show "bit (?b AND push_bit 6 (mask 2)) n = bit (push_bit 6 (mask 2) :: byte) n"
      by cases (use w in \<open>auto simp: bit_simps\<close>)
  qed
  show "\<not> ?b \<le> MDNS_MAX_DOMAIN_LABEL"
  proof
    assume "?b \<le> MDNS_MAX_DOMAIN_LABEL"
    then have "?b AND mask 6 = ?b" by (intro and_mask_small) (simp add: word_le_nat_alt)
    then have "\<not> bit ?b 6" by (metis bit_and_iff bit_mask_iff less_irrefl)
    with w show False by (simp add: bit_simps)
  qed
  show "?b \<noteq> 0" using c0 by auto
qed

lemma dns_loop_end: "payload = pre @ [0] @ post \<Longrightarrow> dns_loop payload start (length pre) str flags = Some (length pre + 1, str, flags)"
  by (simp add: dns_loop.simps)

lemma dns_loop_label:
  assumes "payload = pre @ [of_nat (length l)] @ map byte_of_char l @ post" and "l \<noteq> []" and "length l \<le> 63"
  shows "dns_loop payload start (length pre) str flags
       = dns_loop payload start (length pre + length l + 1) (str @ l @ [MDNS_DOMAIN_SPLITER]) flags"
proof -
  have b: "payload ! length pre = of_nat (length l)" "unat (of_nat (length l) :: byte) = length l"
    using assms by (simp_all add: unat_of_nat)
  have small: "(of_nat (length l) :: byte) \<le> MDNS_MAX_DOMAIN_LABEL" "(of_nat (length l) :: byte) \<noteq> 0"
    using assms b(2) by (auto simp: word_le_nat_alt)
  have "read_bytes payload (length pre + 1) (length l) = Some (map byte_of_char l)"
    unfolding assms(1) using read_bytes_at [of "length l" "map byte_of_char l" "length pre + 1" "pre @ [of_nat (length l)]" post] by simp
  with b small assms show ?thesis
    by (subst dns_loop.simps) (simp add: Let_def comp_def)
qed

lemma dns_loop_ptr:
  assumes payload: "payload = pre @ be16 w @ post" and w: "w AND DNS_STR_PTR_U16_MASK = DNS_STR_PTR_U16_MASK"
    and target: "ptr_target w < start" "start \<le> length pre"
    and there: "dns_loop payload (ptr_target w) (ptr_target w) str flags = Some (q, str', flags)" and "\<not> failed flags"
  shows "dns_loop payload start (length pre) str flags = Some (length pre + 2, str', flags)"
proof -
  have b: "payload ! length pre = ucast (drop_bit 8 w)" by (simp add: payload be16_def)
  have read: "ReadNUint16 payload (length pre) = Some (w, length pre + 2)"
    unfolding payload by (simp add: ReadNUint16_def)
  have "ptr_target w < length payload" using target by (simp add: payload)
  with b read ptr_first_byte [OF w] assms show ?thesis
    by (subst dns_loop.simps) (simp add: Let_def ptr_target_def)
qed

text \<open>A name as its first label and the rest.\<close>

lemma name_ok_cases:
  assumes "name_ok str"
  obtains (last) "str \<noteq> []" "length str \<le> 63" "MDNS_DOMAIN_SPLITER \<notin> set str"
  | (label) l rest where "str = l @ MDNS_DOMAIN_SPLITER # rest" "l \<noteq> []" "length l \<le> 63" "MDNS_DOMAIN_SPLITER \<notin> set l" "name_ok rest"
proof -
  define l where "l = takeWhile (\<lambda>c. c \<noteq> MDNS_DOMAIN_SPLITER) str"
  have l: "l \<noteq> []" "length l \<le> 63" and r: "l = str \<or> name_ok (drop (length l + 1) str)"
    using assms by (subst (asm) name_ok.simps, simp add: Let_def l_def [symmetric] split: if_splits)+
  have no_dot: "MDNS_DOMAIN_SPLITER \<notin> set l" by (auto simp: l_def dest: set_takeWhileD)
  show thesis
  proof (cases "l = str")
    case True
    then show ?thesis using l no_dot last by simp
  next
    case False
    then have "MDNS_DOMAIN_SPLITER \<in> set str" by (auto simp: l_def takeWhile_eq_all_conv)
    then obtain ys zs where "str = ys @ MDNS_DOMAIN_SPLITER # zs" "MDNS_DOMAIN_SPLITER \<notin> set ys" by (meson split_list_first)
    moreover then have "l = ys" by (auto simp: l_def takeWhile_append)
    ultimately show ?thesis using l r False no_dot label [of ys zs] by simp
  qed
qed

lemma name_ok_nonempty: "name_ok str \<Longrightarrow> str \<noteq> []"
  by (auto simp: name_ok.simps [of "[]"])

lemma SerializeDnsString_end: "SerializeDnsString [] (payload, cache) = (payload @ [0], cache)"
  by (simp add: SerializeDnsString.simps WriteRawData_def)

lemma SerializeDnsString_cached:
  "str \<noteq> [] \<Longrightarrow> cache str = Some w \<Longrightarrow> SerializeDnsString str (payload, cache) = (payload @ be16 w, cache)"
  by (simp add: SerializeDnsString.simps WriteRawData_def)

lemma SerializeDnsString_label:
  assumes "cache str = None" "l \<noteq> []" "length l \<le> 63" "MDNS_DOMAIN_SPLITER \<notin> set l" "str = l \<and> rest = [] \<or> str = l @ MDNS_DOMAIN_SPLITER # rest"
  shows "SerializeDnsString str (payload, cache)
       = SerializeDnsString rest (payload @ [of_nat (length l)] @ map byte_of_char l,
           cache(str \<mapsto> of_nat (length payload) OR DNS_STR_PTR_U16_MASK))"
proof -
  have d: "takeWhile (\<lambda>c. c \<noteq> MDNS_DOMAIN_SPLITER) str = l"
    using assms by (auto simp: takeWhile_append)
  have "(of_nat (length l) :: byte) AND 0x3f = of_nat (length l)"
    using and_mask_small [of "of_nat (length l) :: byte" 6] assms(3) by (simp add: unat_of_nat mask_eq_exp_minus_1)
  moreover have "unat (of_nat (length l) :: byte) = length l" using assms(3) by (simp add: unat_of_nat)
  ultimately show ?thesis
    using assms by (subst SerializeDnsString.simps) (auto simp: Let_def d)
qed

text \<open>
  What is written for a name at the end of a payload is read back from there, and the cache stays good. Only cached names not
  longer than the one being written matter: the longer ones of this name are not complete yet.
\<close>

definition short_ok :: "nat \<Rightarrow> buffer \<Rightarrow> (string \<rightharpoonup> u16) \<Rightarrow> bool" where
  "short_ok n payload cache \<longleftrightarrow> (\<forall>t w. length t \<le> n \<longrightarrow> cache t = Some w \<longrightarrow> reads_name payload t w)"

definition name_written :: "string \<Rightarrow> buffer \<Rightarrow> buffer \<Rightarrow> nat \<Rightarrow> bool" where
  "name_written str payload payload' start \<longleftrightarrow>
     (\<forall>post s flags. \<not> failed flags \<longrightarrow>
        dns_loop (payload' @ post) start (length payload) s flags = Some (length payload', s @ str, flags))"

lemma short_okD: "short_ok n payload cache \<Longrightarrow> length t \<le> n \<Longrightarrow> cache t = Some w \<Longrightarrow> reads_name payload t w"
  by (simp add: short_ok_def)

lemma place_reads_name:
  assumes "name_written (str @ [MDNS_DOMAIN_SPLITER]) payload payload' (length payload)"
    and "length payload < length payload'" "length payload' \<le> 0x4000"
  shows "reads_name payload' str (of_nat (length payload) OR DNS_STR_PTR_U16_MASK)"
proof -
  have "length payload < 0x4000" using assms(2,3) by linarith
  note p = ptr_of_place [OF this]
  show ?thesis using assms(1,2) by (auto simp: reads_name_def p name_written_def)
qed

lemma written_end: "name_written [] payload (payload @ [0]) start"
  by (simp add: name_written_def dns_loop_end)

lemma written_ptr:
  assumes "reads_name payload str w" "ptr_target w < start" "start \<le> length payload"
  shows "name_written (str @ [MDNS_DOMAIN_SPLITER]) payload (payload @ be16 w) start"
  unfolding name_written_def
proof (intro allI impI)
  fix post s flags assume f: "\<not> failed flags"
  then obtain q where "dns_loop (payload @ be16 w @ post) (ptr_target w) (ptr_target w) s flags
      = Some (q, s @ str @ [MDNS_DOMAIN_SPLITER], flags)"
    using assms(1) unfolding reads_name_def by blast
  with assms f show "dns_loop ((payload @ be16 w) @ post) start (length payload) s flags
      = Some (length (payload @ be16 w), s @ str @ [MDNS_DOMAIN_SPLITER], flags)"
    using dns_loop_ptr [OF refl] by (simp add: reads_name_def)
qed

lemma written_label:
  assumes "name_written str (payload @ [of_nat (length l)] @ map byte_of_char l) payload' start"
    and "payload' = payload @ [of_nat (length l)] @ map byte_of_char l @ bs"
    and "l \<noteq> []" "length l \<le> 63"
  shows "name_written (l @ MDNS_DOMAIN_SPLITER # str) payload payload' start"
  using assms(1) unfolding name_written_def
  by (simp add: dns_loop_label [OF _ assms(3,4), of _ payload "bs @ post" for post] assms(2))

definition dotted :: "string \<Rightarrow> string" where
  "dotted str = (if str = [] then [] else str @ [MDNS_DOMAIN_SPLITER])"

definition string_spec :: "string \<Rightarrow> writer \<Rightarrow> writer \<Rightarrow> bool" where
  "string_spec str w w' \<longleftrightarrow>
     (\<forall>start \<le> length (fst w). (\<forall>t ptr. length t \<le> length str \<longrightarrow> snd w t = Some ptr \<longrightarrow> ptr_target ptr < start)
        \<longrightarrow> name_written (dotted str) (fst w) (fst w') start)
     \<and> (\<forall>t. length str < length t \<longrightarrow> snd w' t = snd w t)
     \<and> short_ok (length str) (fst w') (snd w')"

lemma short_ok_append: "short_ok n payload cache \<Longrightarrow> short_ok n (payload @ bs) cache"
  unfolding short_ok_def by (blast intro: reads_name_append)

lemma spec_end: "short_ok 0 payload cache \<Longrightarrow> string_spec [] (payload, cache) (payload @ [0], cache)"
  by (simp add: string_spec_def dotted_def written_end short_ok_append)

lemma spec_cached:
  assumes "str \<noteq> []" "cache str = Some w" "short_ok (length str) payload cache"
  shows "string_spec str (payload, cache) (payload @ be16 w, cache)"
  using assms written_ptr [OF short_okD [OF assms(3) _ assms(2)]] by (auto simp: string_spec_def dotted_def short_ok_append)

lemma spec_label:
  assumes l: "l \<noteq> []" "length l \<le> 63" and str: "dotted str = l @ MDNS_DOMAIN_SPLITER # dotted rest" "length rest < length str"
    and short: "short_ok (length str) payload cache"
    and p1: "p1 = payload @ [of_nat (length l)] @ map byte_of_char l"
    and c1: "c1 = cache(str \<mapsto> of_nat (length payload) OR DNS_STR_PTR_U16_MASK)"
    and R: "string_spec rest (p1, c1) (p1 @ bs, cache')" and size: "length (p1 @ bs) \<le> 0x4000"
  shows "string_spec str (payload, cache) (p1 @ bs, cache')"
proof -
  have old: "c1 t = cache t" if "t \<noteq> str" for t using that by (simp add: c1)
  have W: "name_written (dotted str) payload (p1 @ bs) start"
    if "start \<le> length payload" "\<forall>t w. length t \<le> length str \<longrightarrow> cache t = Some w \<longrightarrow> ptr_target w < start" for start
  proof -
    have "\<forall>t w. length t \<le> length rest \<longrightarrow> c1 t = Some w \<longrightarrow> ptr_target w < start"
      using that(2) str(2) old by (metis less_or_eq_imp_le not_less order_trans)
    then have "name_written (dotted rest) p1 (p1 @ bs) start"
      using R that(1) by (simp add: string_spec_def p1)
    then show ?thesis unfolding str p1 by (rule written_label [of _ _ _ _ _ bs]) (use l in simp_all)
  qed
  have "dotted str = str @ [MDNS_DOMAIN_SPLITER]" using str(2) by (auto simp: dotted_def)
  with W [of "length payload"] short size
  have new: "reads_name (p1 @ bs) str (of_nat (length payload) OR DNS_STR_PTR_U16_MASK)"
    by (intro place_reads_name) (auto simp: short_ok_def reads_name_def p1)
  have keep: "reads_name (p1 @ bs) t w" if "length t \<le> length str" "cache t = Some w" for t w
    using reads_name_append [OF short_okD [OF short that]] by (simp add: p1)
  have "short_ok (length str) (p1 @ bs) cache'"
    unfolding short_ok_def
  proof (intro allI impI)
    fix t w assume t: "length t \<le> length str" "cache' t = Some w"
    show "reads_name (p1 @ bs) t w"
    proof (cases "length t \<le> length rest")
      case True
      then show ?thesis using R t(2) by (simp add: string_spec_def short_ok_def)
    next
      case False
      then have "c1 t = Some w" using R t(2) by (simp add: string_spec_def)
      then show ?thesis using new keep t(1) by (auto simp: c1 split: if_splits)
    qed
  qed
  moreover have "cache' t = cache t" if "length str < length t" for t
    using that R str(2) old [of t] by (auto simp: string_spec_def)
  ultimately show ?thesis using W by (simp add: string_spec_def)
qed

lemma SerializeDnsString_spec:
  assumes "dns_name str" "short_ok (length str) payload cache"
    and "SerializeDnsString str (payload, cache) = (payload', cache')" "length payload' \<le> 0x4000"
  shows "string_spec str (payload, cache) (payload', cache')"
  using assms
proof (induction "length str" arbitrary: str payload cache rule: less_induct)
  case less
  consider "str = []" | w where "str \<noteq> []" "cache str = Some w" | "name_ok str" "cache str = None"
    using less.prems(1) by (cases "cache str") (auto simp: dns_name_def)
  then show ?case
  proof cases
    case 3
    obtain l rest where l: "l \<noteq> []" "length l \<le> 63" "MDNS_DOMAIN_SPLITER \<notin> set l"
      and rest: "str = l \<and> rest = [] \<or> str = l @ MDNS_DOMAIN_SPLITER # rest \<and> name_ok rest"
      using 3(1) by (cases rule: name_ok_cases) blast+
    define p1 where "p1 = payload @ [of_nat (length l)] @ map byte_of_char l"
    define c1 where "c1 = cache(str \<mapsto> of_nat (length payload) OR DNS_STR_PTR_U16_MASK)"
    have step: "SerializeDnsString rest (p1, c1) = (payload', cache')"
      using SerializeDnsString_label [of cache str, OF 3(2) l, of rest payload] rest less.prems(3) by (auto simp: p1_def c1_def)
    then obtain bs where bs: "payload' = p1 @ bs"
      using appendsE [OF SerializeDnsString_appends] by (metis prod.inject)
    have shorter: "length rest < length str" and name: "dns_name rest" and str: "dotted str = l @ MDNS_DOMAIN_SPLITER # dotted rest"
      using rest l(1) by (auto simp: dns_name_def dotted_def dest: name_ok_nonempty)
    have "short_ok (length rest) p1 c1"
      using short_ok_append [OF less.prems(2)] shorter unfolding p1_def c1_def by (auto simp: short_ok_def)
    from less.hyps [OF shorter name this step less.prems(4)] show ?thesis
      unfolding bs by (rule spec_label [OF l(1,2) str shorter less.prems(2) p1_def c1_def])
        (use bs less.prems(4) in simp)
  qed (use less.prems in \<open>auto simp: SerializeDnsString_end SerializeDnsString_cached intro: spec_end spec_cached\<close>)
qed

section \<open>Messages come back\<close>

lemma UnDotted_dotted [simp]: "UnDotted (dotted str) = str"
  by (simp add: UnDotted_def dotted_def EndsWith_def)

lemma WriteRawData_simps [simp]: "fst (WriteRawData bs w) = fst w @ bs" "snd (WriteRawData bs w) = snd w"
  by (simp_all add: WriteRawData_def)

lemma appends_fst: "appends f \<Longrightarrow> \<exists>bs. fst (f w) = fst w @ bs"
  unfolding appends_def by (metis fst_conv surj_pair)

lemma appends_size: "appends f \<Longrightarrow> length (fst w) \<le> length (fst (f w))"
  using appends_fst [of f w] by auto

lemma cache_ok_short: "cache_ok (payload, cache) \<Longrightarrow> short_ok n payload cache"
  by (simp add: cache_ok_def short_ok_def)

lemma cache_ok_Write [simp]: "cache_ok w \<Longrightarrow> cache_ok (WriteRawData bs w)"
  by (auto simp: cache_ok_def WriteRawData_def intro: reads_name_append)

lemma name_step:
  assumes "dns_name str" "cache_ok w" and size: "length (fst (SerializeDnsString str w)) \<le> 0x4000"
  shows "cache_ok (SerializeDnsString str w)"
    and "\<not> failed flags \<Longrightarrow> ParseDnsString (fst (SerializeDnsString str w) @ post) (length (fst w)) [] flags
           = Some (length (fst (SerializeDnsString str w)), dotted str, flags)"
proof -
  obtain payload cache payload' cache' where w: "w = (payload, cache)" "SerializeDnsString str w = (payload', cache')"
    by (meson surj_pair)
  have "string_spec str (payload, cache) (payload', cache')"
    using assms w by (intro SerializeDnsString_spec) (auto intro: cache_ok_short)
  then have W: "name_written (dotted str) payload payload' (length payload)"
    and old: "\<And>t. length str < length t \<Longrightarrow> cache' t = cache t" and short: "short_ok (length str) payload' cache'"
    using assms(2) w by (auto simp: string_spec_def cache_ok_def reads_name_def)
  obtain bs where "payload' = payload @ bs" using appends_fst [OF SerializeDnsString_appends, of str w] w by auto
  then have "reads_name payload' t ptr" if "cache' t = Some ptr" for t ptr
    using that old [of t] short assms(2) w
    by (cases "length t \<le> length str") (auto simp: short_ok_def cache_ok_def intro: reads_name_append)
  then show "cache_ok (SerializeDnsString str w)" unfolding cache_ok_def w(2) by simp
  show "ParseDnsString (fst (SerializeDnsString str w) @ post) (length (fst w)) [] flags
           = Some (length (fst (SerializeDnsString str w)), dotted str, flags)" if "\<not> failed flags"
    using W that unfolding w(2) by (simp add: w(1) name_written_def ParseDnsString_def)
qed

lemma ReadNUint16_at [simp]: "p = length pre \<Longrightarrow> ReadNUint16 (pre @ be16 v @ post) p = Some (v, p + 2)"
  by (simp add: ReadNUint16_def)

lemma ReadNUint32_at [simp]: "p = length pre \<Longrightarrow> ReadNUint32 (pre @ be32 v @ post) p = Some (v, p + 4)"
  by (simp add: ReadNUint32_def)

text \<open>One section of a message: its entries are written one after the other and read back with the same content.\<close>

locale wire_section =
  fixes ser :: "'a \<Rightarrow> writer \<Rightarrow> writer"
    and parse :: "buffer \<Rightarrow> nat \<Rightarrow> 'a list \<Rightarrow> u32 \<Rightarrow> (nat \<times> 'a list \<times> u32) option"
    and ok :: "'a \<Rightarrow> bool"
    and erase :: "'a \<Rightarrow> 'a"
  assumes ser_appends: "appends (ser x)"
    and ser_cache: "ok x \<Longrightarrow> cache_ok w \<Longrightarrow> length (fst (ser x w)) \<le> 0x4000 \<Longrightarrow> cache_ok (ser x w)"
    and ser_parse: "ok x \<Longrightarrow> cache_ok w \<Longrightarrow> length (fst (ser x w)) \<le> 0x4000 \<Longrightarrow>
      \<exists>y. erase y = erase x \<and> (\<forall>post xs flags. \<not> failed flags \<longrightarrow>
        parse (fst (ser x w) @ post) (length (fst w)) xs flags = Some (length (fst (ser x w)), xs @ [y], flags))"
begin

lemma fold_appends: "appends (fold ser xs)"
proof (induction xs)
  case Nil
  then show ?case by (simp add: appends_def)
next
  case (Cons x xs)
  then show ?case using appends_comp [OF ser_appends [of x] Cons] by (simp add: appends_def)
qed

lemma section_roundtrip:
  "list_all ok xs \<Longrightarrow> cache_ok w \<Longrightarrow> length (fst (fold ser xs w)) \<le> 0x4000 \<Longrightarrow>
   cache_ok (fold ser xs w) \<and> (\<exists>ys. map erase ys = map erase xs \<and> (\<forall>post zs flags. \<not> failed flags \<longrightarrow>
     parse_section (parse (fst (fold ser xs w) @ post)) (length xs) (length (fst w)) zs flags
       = Some (length (fst (fold ser xs w)), zs @ ys, flags)))"
proof (induction xs arbitrary: w)
  case (Cons x xs)
  obtain bs where bs: "fst (fold ser xs (ser x w)) = fst (ser x w) @ bs"
    using appends_fst [OF fold_appends] by blast
  have size: "length (fst (ser x w)) \<le> 0x4000" using Cons.prems(3) bs by simp
  obtain y where y: "erase y = erase x" "\<And>post xs flags. \<not> failed flags \<Longrightarrow>
      parse (fst (ser x w) @ post) (length (fst w)) xs flags = Some (length (fst (ser x w)), xs @ [y], flags)"
    using ser_parse [OF _ Cons.prems(2) size] Cons.prems(1) by auto
  have "cache_ok (ser x w)" using ser_cache [OF _ Cons.prems(2) size] Cons.prems(1) by simp
  from Cons.IH [OF _ this] Cons.prems obtain ys where rest: "cache_ok (fold ser (x # xs) w)" "map erase ys = map erase xs"
    "\<And>post zs flags. \<not> failed flags \<Longrightarrow>
     parse_section (parse (fst (fold ser xs (ser x w)) @ post)) (length xs) (length (fst (ser x w))) zs flags
       = Some (length (fst (fold ser xs (ser x w))), zs @ ys, flags)" by auto
  have "\<forall>post zs flags. \<not> failed flags \<longrightarrow>
     parse_section (parse (fst (fold ser (x # xs) w) @ post)) (length (x # xs)) (length (fst w)) zs flags
       = Some (length (fst (fold ser (x # xs) w)), zs @ (y # ys), flags)"
    using rest(3) y(2) [of _ "bs @ post" for post] by (simp add: bs)
  moreover have "map erase (y # ys) = map erase (x # xs)" using y(1) rest(2) by simp
  ultimately show ?case using rest(1) by blast
qed simp

end

lemma question_step:
  assumes "dns_name (qn_name q)" "cache_ok w" and size: "length (fst (SerializeQuestion q w)) \<le> 0x4000"
  shows "cache_ok (SerializeQuestion q w)"
    and "\<not> failed flags \<Longrightarrow> ParseQuestion (fst (SerializeQuestion q w) @ post) (length (fst w)) qs flags
           = Some (length (fst (SerializeQuestion q w)), qs @ [q], flags)"
proof -
  let ?w = "SerializeDnsString (qn_name q) w"
  have "length (fst ?w) \<le> 0x4000" using size by (simp add: SerializeQuestion_def)
  note name = name_step [OF assms(1,2) this]
  from name(1) show "cache_ok (SerializeQuestion q w)" by (simp add: SerializeQuestion_def)
  show "ParseQuestion (fst (SerializeQuestion q w) @ post) (length (fst w)) qs flags
           = Some (length (fst (SerializeQuestion q w)), qs @ [q], flags)" if "\<not> failed flags"
    using name(2) [OF that, of "be16 (qn_qtype q) @ be16 (qn_qclass q) @ post"] that
      ReadNUint16_at [of _ "fst ?w @ be16 (qn_qtype q)" "qn_qclass q" post]
    by (simp add: ParseQuestion_def SerializeQuestion_def lacks_def)
qed

lemma ParseSrv_at:
  assumes "payload = pre @ be16 a @ be16 b @ be16 c @ post" "\<not> failed flags"
    and "ParseDnsString payload (length pre + 6) [] flags = Some (q, name, flags)"
  shows "ParseSrv payload (length pre) flags
       = Some (q, SrvData \<lparr> srv_priority = a, srv_weight = b, srv_port = c, srv_name = UnDotted name \<rparr>, flags)"
proof -
  have "ReadNUint16 payload (length pre) = Some (a, length pre + 2)" "ReadNUint16 payload (length pre + 2) = Some (b, length pre + 4)"
    "ReadNUint16 payload (length pre + 4) = Some (c, length pre + 6)"
    unfolding assms(1) using ReadNUint16_at [of _ "pre @ be16 a"] ReadNUint16_at [of _ "pre @ be16 a @ be16 b"] by simp_all
  then show ?thesis using assms by (simp add: ParseSrv_def lacks_def)
qed

lemma rdata_step:
  assumes "rdata_ok ty d" "cache_ok w" and size: "length (fst (SerializeRData d w)) \<le> 0x4000"
  shows "cache_ok (SerializeRData d w)"
    and "\<not> failed flags \<Longrightarrow> ParseRData (fst (SerializeRData d w) @ post) (length (fst w)) ty
             (of_nat (length (fst (SerializeRData d w)) - length (fst w))) flags
           = Some (length (fst (SerializeRData d w)), d, flags)"
proof -
  have "cache_ok (SerializeRData d w) \<and> (\<not> failed flags \<longrightarrow> ParseRData (fst (SerializeRData d w) @ post) (length (fst w)) ty
             (of_nat (length (fst (SerializeRData d w)) - length (fst w))) flags
           = Some (length (fst (SerializeRData d w)), d, flags))"
  proof (cases d)
    case (NameData str)
    then show ?thesis
      using assms name_step(1) [of str w] name_step(2) [of str w flags post] by (simp add: ParseRData_def)
  next
    case (SrvData srv)
    let ?b = "be16 (srv_priority srv) @ be16 (srv_weight srv) @ be16 (srv_port srv)"
    let ?w = "WriteRawData ?b w"
    obtain bs where bs: "fst (SerializeDnsString (srv_name srv) ?w) = fst w @ ?b @ bs"
      using appends_fst [OF SerializeDnsString_appends, of "srv_name srv" ?w] by auto
    then show ?thesis
      using SrvData assms name_step(1) [of "srv_name srv" ?w] name_step(2) [of "srv_name srv" ?w flags post]
        ParseSrv_at [of _ "fst w" "srv_priority srv" "srv_weight srv" "srv_port srv" "bs @ post" flags _ "dotted (srv_name srv)"]
      by (simp add: ParseRData_def)
  next
    case (TxtData t)
    then have "length t < 65536" using size by simp
    then have "unat (of_nat (length t) :: u16) = length t" by (simp add: unat_of_nat)
    then show ?thesis
      using TxtData assms by (simp add: ParseRData_def ParseTxt_def lacks_def)
  qed (use assms in \<open>simp_all add: ParseRData_def lacks_def\<close>)
  then show "cache_ok (SerializeRData d w)" and "\<not> failed flags \<Longrightarrow> ParseRData (fst (SerializeRData d w) @ post) (length (fst w)) ty
             (of_nat (length (fst (SerializeRData d w)) - length (fst w))) flags
           = Some (length (fst (SerializeRData d w)), d, flags)" by simp_all
qed

text \<open>The record as it is on the wire: with the length of its data in place from the start.\<close>

definition rr_head :: "ResourceRecord \<Rightarrow> writer \<Rightarrow> writer" where
  "rr_head rr w = WriteRawData (be16 (rr_rtype rr) @ be16 (rr_rclass rr) @ be32 (rr_ttl rr)) (SerializeDnsString (rr_name rr) w)"

lemma rr_head_appends: "appends (rr_head rr)"
  unfolding rr_head_def by (rule appends_comp) auto

lemma SerializeRR_head:
  "SerializeRR rr w =
     (let (payload, cache) = SerializeRData (rr_rdata rr) (fst (rr_head rr w) @ be16 (rr_length rr), snd (rr_head rr w));
          lenStart = length (fst (rr_head rr w))
      in (overwrite lenStart (be16 (of_nat (length payload - lenStart - 2))) payload, cache))"
  by (simp add: SerializeRR_def rr_head_def WriteRawData_def Let_def)

lemma SerializeRR_alt:
  obtains bs cache' where
    "SerializeRR rr w = (fst (rr_head rr w) @ be16 (of_nat (length bs)) @ bs, cache')"
    "SerializeRData (rr_rdata rr) (WriteRawData (be16 (of_nat (length bs))) (rr_head rr w)) = SerializeRR rr w"
proof -
  obtain bs cache' where bs: "\<And>payload. length payload = length (fst (rr_head rr w)) + 2 \<Longrightarrow>
      SerializeRData (rr_rdata rr) (payload, snd (rr_head rr w)) = (payload @ bs, cache')"
    using appendsE [OF SerializeRData_appends] by blast
  have "SerializeRR rr w = (fst (rr_head rr w) @ be16 (of_nat (length bs)) @ bs, cache')"
    unfolding SerializeRR_head using bs [of "fst (rr_head rr w) @ be16 (rr_length rr)"] by (simp add: overwrite_def)
  with bs [of "fst (rr_head rr w) @ be16 (of_nat (length bs))"] show ?thesis
    by (intro that [of bs cache']) (simp_all add: WriteRawData_def)
qed

lemma SerializeRR_appends: "appends (SerializeRR rr)"
proof (rule appendsI)
  fix n cache
  obtain b1 c1 where 1: "\<And>payload. length payload = n \<Longrightarrow> rr_head rr (payload, cache) = (payload @ b1, c1)"
    using appendsE [OF rr_head_appends] by blast
  obtain bs c2 where 2: "\<And>payload. length payload = n + length b1 + 2 \<Longrightarrow> SerializeRData (rr_rdata rr) (payload, c1) = (payload @ bs, c2)"
    using appendsE [OF SerializeRData_appends] by blast
  have "SerializeRR rr (payload, cache) = (payload @ b1 @ be16 (of_nat (length bs)) @ bs, c2)" if "length payload = n" for payload
    unfolding SerializeRR_head using 1 [OF that] 2 [of "payload @ b1 @ be16 (rr_length rr)"] that by (simp add: overwrite_def)
  then show "\<exists>bs cache'. \<forall>payload. length payload = n \<longrightarrow> SerializeRR rr (payload, cache) = (payload @ bs, cache')" by blast
qed

lemma ParseRR_at:
  assumes name: "ParseDnsString payload p [] flags = Some (length pre, name, flags)" and f: "\<not> failed flags"
    and payload: "payload = pre @ be16 a @ be16 b @ be32 c @ be16 len @ post"
    and d: "ParseRData payload (length pre + 10) a len flags = Some (q, d, flags)"
  shows "ParseRR payload p rrs flags
       = Some (q, rrs @ [\<lparr> rr_name = UnDotted name, rr_rtype = a, rr_rclass = b, rr_ttl = c, rr_length = len, rr_rdata = d \<rparr>], flags)"
proof -
  have "ReadNUint16 payload (length pre) = Some (a, length pre + 2)" "ReadNUint16 payload (length pre + 2) = Some (b, length pre + 4)"
    "ReadNUint32 payload (length pre + 4) = Some (c, length pre + 8)" "ReadNUint16 payload (length pre + 8) = Some (len, length pre + 10)"
    unfolding payload using ReadNUint16_at [of _ "pre @ be16 a"] ReadNUint32_at [of _ "pre @ be16 a @ be16 b"]
      ReadNUint16_at [of _ "pre @ be16 a @ be16 b @ be32 c"] by simp_all
  moreover have "\<not> lacks payload (length pre) 10" by (simp add: lacks_def payload)
  ultimately show ?thesis using name f d by (simp add: ParseRR_def)
qed

lemma rr_step:
  assumes ok: "rr_ok rr" and cache: "cache_ok w" and size: "length (fst (SerializeRR rr w)) \<le> 0x4000"
  shows "cache_ok (SerializeRR rr w)"
    and "\<exists>y. rr_content y = rr_content rr \<and> (\<forall>post rrs flags. \<not> failed flags \<longrightarrow>
      ParseRR (fst (SerializeRR rr w) @ post) (length (fst w)) rrs flags = Some (length (fst (SerializeRR rr w)), rrs @ [y], flags))"
proof -
  obtain bs cache' where RR: "SerializeRR rr w = (fst (rr_head rr w) @ be16 (of_nat (length bs)) @ bs, cache')"
    and D: "SerializeRData (rr_rdata rr) (WriteRawData (be16 (of_nat (length bs))) (rr_head rr w)) = SerializeRR rr w"
    by (rule SerializeRR_alt)
  let ?len = "of_nat (length bs) :: u16"
  let ?name = "SerializeDnsString (rr_name rr) w"
  have "length (fst ?name) \<le> 0x4000" using size by (simp add: RR rr_head_def)
  note name = name_step [OF _ cache this]
  have ok': "dns_name (rr_name rr)" "rdata_ok (rr_rtype rr) (rr_rdata rr)" using ok by (simp_all add: rr_ok_def)
  have "cache_ok (WriteRawData (be16 ?len) (rr_head rr w))" using name(1) ok' by (simp add: rr_head_def)
  from rdata_step [OF ok'(2) this] size D
  have data: "cache_ok (SerializeRR rr w)"
    "\<And>flags post. \<not> failed flags \<Longrightarrow> ParseRData (fst (SerializeRR rr w) @ post) (length (fst ?name) + 10) (rr_rtype rr) ?len flags
       = Some (length (fst (SerializeRR rr w)), rr_rdata rr, flags)"
    by (simp_all add: RR rr_head_def)
  show "cache_ok (SerializeRR rr w)" by (rule data)
  have "ParseRR (fst (SerializeRR rr w) @ post) (length (fst w)) rrs flags
      = Some (length (fst (SerializeRR rr w)), rrs @ [rr\<lparr> rr_length := ?len \<rparr>], flags)" if "\<not> failed flags" for post rrs flags
    using ParseRR_at [OF _ that _ data(2) [OF that], of post "length (fst w)" "dotted (rr_name rr)" "rr_rclass rr" "rr_ttl rr" "bs @ post" rrs]
      name(2) [OF ok'(1) that] by (simp add: RR rr_head_def)
  then show "\<exists>y. rr_content y = rr_content rr \<and> (\<forall>post rrs flags. \<not> failed flags \<longrightarrow>
      ParseRR (fst (SerializeRR rr w) @ post) (length (fst w)) rrs flags = Some (length (fst (SerializeRR rr w)), rrs @ [y], flags))"
    by (intro exI [of _ "rr\<lparr> rr_length := ?len \<rparr>"]) (simp add: rr_content_def)
qed

interpretation questions: wire_section SerializeQuestion ParseQuestion "\<lambda>q. dns_name (qn_name q)" "\<lambda>q. q"
proof (unfold_locales, goal_cases)
  case (1 q)
  show ?case unfolding SerializeQuestion_def by (rule appends_comp) auto
next
  case (2 q w)
  then show ?case by (rule question_step(1))
next
  case (3 q w)
  show ?case by (intro exI [of _ q] conjI refl allI impI question_step(2) [OF 3])
qed

interpretation records: wire_section SerializeRR ParseRR rr_ok rr_content
  by unfold_locales (rule SerializeRR_appends rr_step; assumption)+

lemma ParseHeader_at:
  "payload = fst (SerializeHeader h ([], Map.empty)) @ post \<Longrightarrow> ParseHeader payload 0 h0 flags = Some (12, h, flags)"
proof -
  assume payload: "payload = fst (SerializeHeader h ([], Map.empty)) @ post"
  let ?a = "be16 (hd_id h)" and ?b = "be16 (hd_flags h)" and ?c = "be16 (hd_qdcount h)" and ?d = "be16 (hd_ancount h)"
  have "ReadNUint16 payload 0 = Some (hd_id h, 2)" "ReadNUint16 payload 2 = Some (hd_flags h, 4)"
    "ReadNUint16 payload 4 = Some (hd_qdcount h, 6)" "ReadNUint16 payload 6 = Some (hd_ancount h, 8)"
    "ReadNUint16 payload 8 = Some (hd_nscount h, 10)" "ReadNUint16 payload 10 = Some (hd_arcount h, 12)"
    using ReadNUint16_at [of 0 "[]"] ReadNUint16_at [of 2 ?a] ReadNUint16_at [of 4 "?a @ ?b"] ReadNUint16_at [of 6 "?a @ ?b @ ?c"]
      ReadNUint16_at [of 8 "?a @ ?b @ ?c @ ?d"] ReadNUint16_at [of 10 "?a @ ?b @ ?c @ ?d @ be16 (hd_nscount h)"]
    by (simp_all add: payload SerializeHeader_def)
  then show ?thesis by (simp add: ParseHeader_def lacks_def payload SerializeHeader_def)
qed

lemma Parse_at:
  assumes "ParseHeader payload 0 (ms_header msg) 0 = Some (p1, h, 0)"
    and "parse_section (ParseQuestion payload) (unat (hd_qdcount h)) p1 (ms_questions msg) 0 = Some (p2, qs, 0)"
    and "parse_section (ParseRR payload) (unat (hd_ancount h)) p2 (ms_answers msg) 0 = Some (p3, an, 0)"
    and "parse_section (ParseRR payload) (unat (hd_nscount h)) p3 (ms_authorities msg) 0 = Some (p4, ns, 0)"
    and "parse_section (ParseRR payload) (unat (hd_arcount h)) p4 (ms_additional msg) 0 = Some (p5, ar, 0)"
  shows "Parse payload 0 msg 0 = Some (p5, msg\<lparr> ms_header := h, ms_questions := qs, ms_answers := an,
    ms_authorities := ns, ms_additional := ar \<rparr>, 0)"
  using assms by (simp add: Parse_def Let_def failed_def)

lemma sections_roundtrip:
  assumes ok: "list_all (\<lambda>q. dns_name (qn_name q)) qs" "list_all rr_ok an" "list_all rr_ok ns" "list_all rr_ok ar"
    and cache: "cache_ok w1" and w: "w2 = fold SerializeQuestion qs w1" "w3 = fold SerializeRR an w2" "w4 = fold SerializeRR ns w3"
      "w5 = fold SerializeRR ar w4"
    and size: "length (fst w5) \<le> 0x4000"
  obtains an' ns' ar' where
    "map rr_content an' = map rr_content an" "map rr_content ns' = map rr_content ns" "map rr_content ar' = map rr_content ar"
    "parse_section (ParseQuestion (fst w5)) (length qs) (length (fst w1)) [] 0 = Some (length (fst w2), qs, 0)"
    "parse_section (ParseRR (fst w5)) (length an) (length (fst w2)) [] 0 = Some (length (fst w3), an', 0)"
    "parse_section (ParseRR (fst w5)) (length ns) (length (fst w3)) [] 0 = Some (length (fst w4), ns', 0)"
    "parse_section (ParseRR (fst w5)) (length ar) (length (fst w4)) [] 0 = Some (length (fst w5), ar', 0)"
proof -
  obtain b3 b4 b5 where b: "fst w3 = fst w2 @ b3" "fst w4 = fst w3 @ b4" "fst w5 = fst w4 @ b5"
    unfolding w(2-4) using appends_fst [OF records.fold_appends] by metis
  have f: "\<not> failed 0" by (simp add: failed_def)
  have sizes: "length (fst w2) \<le> 0x4000" "length (fst w3) \<le> 0x4000" "length (fst w4) \<le> 0x4000"
    using size by (simp_all add: b)
  have Q: "cache_ok w2" "parse_section (ParseQuestion (fst w2 @ post)) (length qs) (length (fst w1)) [] 0 = Some (length (fst w2), qs, 0)" for post
    using questions.section_roundtrip [OF ok(1) cache] sizes(1) f unfolding w(1) [symmetric] by auto
  obtain an' where A: "cache_ok w3" "map rr_content an' = map rr_content an"
    "\<And>post. parse_section (ParseRR (fst w3 @ post)) (length an) (length (fst w2)) [] 0 = Some (length (fst w3), an', 0)"
    using records.section_roundtrip [OF ok(2) Q(1)] sizes(2) f unfolding w(2) [symmetric] by auto
  obtain ns' where N: "cache_ok w4" "map rr_content ns' = map rr_content ns"
    "\<And>post. parse_section (ParseRR (fst w4 @ post)) (length ns) (length (fst w3)) [] 0 = Some (length (fst w4), ns', 0)"
    using records.section_roundtrip [OF ok(3) A(1)] sizes(3) f unfolding w(3) [symmetric] by auto
  obtain ar' where R: "map rr_content ar' = map rr_content ar"
    "\<And>post. parse_section (ParseRR (fst w5 @ post)) (length ar) (length (fst w4)) [] 0 = Some (length (fst w5), ar', 0)"
    using records.section_roundtrip [OF ok(4) N(1)] size f unfolding w(4) [symmetric] by auto
  show thesis
    using that [OF A(2) N(2) R(1)] Q(2) [of "b3 @ b4 @ b5"] A(3) [of "b4 @ b5"] N(3) [of b5] R(2) [of "[]"] by (simp add: b)
qed

lemma FromBytes_ToBytes:
  assumes "message_ok msg" and "length (ToBytes msg) \<le> 0x4000"
  shows "\<exists>m. FromBytes (ToBytes msg) = Some (m, PARSE_OK) \<and> content m = content msg
    \<and> unat (hd_qdcount (ms_header m)) = length (ms_questions msg) \<and> unat (hd_ancount (ms_header m)) = length (ms_answers msg)
    \<and> unat (hd_nscount (ms_header m)) = length (ms_authorities msg) \<and> unat (hd_arcount (ms_header m)) = length (ms_additional msg)"
proof -
  define h where "h = (ms_header msg)\<lparr> hd_qdcount := of_nat (length (ms_questions msg)), hd_ancount := of_nat (length (ms_answers msg)),
                                     hd_nscount := of_nat (length (ms_authorities msg)), hd_arcount := of_nat (length (ms_additional msg)) \<rparr>"
  have counts: "unat (hd_qdcount h) = length (ms_questions msg)" "unat (hd_ancount h) = length (ms_answers msg)"
    "unat (hd_nscount h) = length (ms_authorities msg)" "unat (hd_arcount h) = length (ms_additional msg)"
    using assms(1) by (simp_all add: h_def message_ok_def unat_of_nat)
  define w1 where "w1 = SerializeHeader h ([], Map.empty)"
  define w2 where "w2 = fold SerializeQuestion (ms_questions msg) w1"
  define w3 where "w3 = fold SerializeRR (ms_answers msg) w2"
  define w4 where "w4 = fold SerializeRR (ms_authorities msg) w3"
  define w5 where "w5 = fold SerializeRR (ms_additional msg) w4"
  have bytes: "ToBytes msg = fst w5"
    by (simp add: ToBytes_def Serialize_def h_def [symmetric] Let_def counts w1_def w2_def w3_def w4_def w5_def)
  have "cache_ok w1" by (simp add: cache_ok_def w1_def SerializeHeader_def)
  then obtain an ns ar where s: "map rr_content an = map rr_content (ms_answers msg)" "map rr_content ns = map rr_content (ms_authorities msg)"
      "map rr_content ar = map rr_content (ms_additional msg)"
    and p: "parse_section (ParseQuestion (fst w5)) (length (ms_questions msg)) (length (fst w1)) [] 0 = Some (length (fst w2), ms_questions msg, 0)"
      "parse_section (ParseRR (fst w5)) (length (ms_answers msg)) (length (fst w2)) [] 0 = Some (length (fst w3), an, 0)"
      "parse_section (ParseRR (fst w5)) (length (ms_authorities msg)) (length (fst w3)) [] 0 = Some (length (fst w4), ns, 0)"
      "parse_section (ParseRR (fst w5)) (length (ms_additional msg)) (length (fst w4)) [] 0 = Some (length (fst w5), ar, 0)"
    using assms sections_roundtrip [OF _ _ _ _ _ w2_def w3_def w4_def w5_def] unfolding message_ok_def bytes by metis
  obtain bs where "fst w5 = fst w1 @ bs"
    using appends_comp [OF questions.fold_appends records.fold_appends, THEN appends_comp, OF records.fold_appends, THEN appends_comp, OF records.fold_appends]
      appends_fst unfolding w5_def w4_def w3_def w2_def by metis
  then have "ParseHeader (fst w5) 0 h0 0 = Some (length (fst w1), h, 0)" for h0
    using ParseHeader_at [of _ h bs h0 0] by (simp add: w1_def SerializeHeader_def)
  from Parse_at [where msg = Message_default, OF this] p counts
  have "FromBytes (ToBytes msg) = Some (\<lparr> ms_header = h, ms_questions = ms_questions msg, ms_answers = an, ms_authorities = ns,
      ms_additional = ar \<rparr>, 0)"
    unfolding FromBytes_def bytes by (simp add: Message_default_def)
  moreover have "content \<lparr> ms_header = h, ms_questions = ms_questions msg, ms_answers = an, ms_authorities = ns, ms_additional = ar \<rparr> = content msg"
    by (simp add: content_def s h_def)
  ultimately show ?thesis using counts by auto
qed

text \<open>
  C1. Parsing what the serializer wrote gives the message back, for messages of up to 16 KiB, the reach of a compression pointer: no error, the same header id and flags, the
  same questions, and the same records but for their lengths, with the counts of the header set to the sizes of the sections. Names
  are compressed on the wire and may share their suffixes in any way.
\<close>

theorem message_roundtrip:
  assumes "message_ok msg" and "length (ToBytes msg) \<le> 0x4000"
  shows "\<exists>m. FromBytes (ToBytes msg) = Some (m, PARSE_OK) \<and> content m = content msg
    \<and> unat (hd_qdcount (ms_header m)) = length (ms_questions msg) \<and> unat (hd_ancount (ms_header m)) = length (ms_answers msg)
    \<and> unat (hd_nscount (ms_header m)) = length (ms_authorities msg) \<and> unat (hd_arcount (ms_header m)) = length (ms_additional msg)"
  using assms by (rule FromBytes_ToBytes)

definition example_message :: Message where
  "example_message = Message_default\<lparr>
     ms_header := (ms_header Message_default)\<lparr> hd_flags := 0x8400 \<rparr>,
     ms_questions := [\<lparr> qn_name = ''_http._tcp.local'', qn_qtype = RRTYPE_PTR, qn_qclass = 1 \<rparr>],
     ms_answers := [\<lparr> rr_name = ''_http._tcp.local'', rr_rtype = RRTYPE_PTR, rr_rclass = 0x8001, rr_ttl = 120, rr_length = 0,
                      rr_rdata = NameData ''web._http._tcp.local'' \<rparr>,
                    \<lparr> rr_name = ''web._http._tcp.local'', rr_rtype = RRTYPE_SRV, rr_rclass = 0x8001, rr_ttl = 120, rr_length = 0,
                      rr_rdata = SrvData \<lparr> srv_priority = 0, srv_weight = 0, srv_port = 8080, srv_name = ''host.local'' \<rparr> \<rparr>],
     ms_additional := [\<lparr> rr_name = ''host.local'', rr_rtype = RRTYPE_A, rr_rclass = 0x8001, rr_ttl = 120, rr_length = 0,
                         rr_rdata = InAddr [192, 168, 0, 1] \<rparr>] \<rparr>"

lemma example_message_ok: "message_ok example_message"
  by (simp add: message_ok_def rr_ok_def dns_name_def name_ok.simps example_message_def Message_default_def)

lemma example_message_size: "length (ToBytes example_message) = 93"
  by code_simp

theorem message_roundtrip_witness:
  "\<exists>m. FromBytes (ToBytes example_message) = Some (m, PARSE_OK) \<and> content m = content example_message"
  using message_roundtrip [OF example_message_ok] example_message_size by auto

lemma FromBytes_returns: "\<exists>msg flags. FromBytes payload = Some (msg, flags)"
  using some_triple [OF Parse_returns, of payload 0 Message_default PARSE_OK] by (auto simp: FromBytes_def)


section \<open>Counts\<close>

text \<open>An entry that is parsed without an error adds one element.\<close>

lemma failed_error:
  assumes "e AND PARSE_ERROR = e" "e \<noteq> 0"
  shows "failed (flags OR e)"
proof (rule ccontr)
  have "e = (flags OR e) AND (e AND PARSE_ERROR)"
    unfolding assms(1) by (rule bit_word_eqI) (auto simp: bit_simps)
  also have "\<dots> = ((flags OR e) AND PARSE_ERROR) AND e" by (rule bit_word_eqI) (auto simp: bit_simps)
  finally have e: "e = ((flags OR e) AND PARSE_ERROR) AND e" .
  assume "\<not> failed (flags OR e)"
  then show False using e assms(2) by (simp add: failed_def)
qed

lemma failed_or [simp]:
  "failed (flags OR PARSE_ERROR_BAD_SIZE)" "failed (flags OR PARSE_ERROR_BAD_STR)" "failed (flags OR PARSE_ERROR_BAD_STRPTR)"
  by (rule failed_error; simp)+

lemma ParseQuestion_adds: "ParseQuestion payload p qs flags = Some (q, qs', flags') \<Longrightarrow> failed flags' \<or> length qs' = Suc (length qs)"
  by (auto simp: ParseQuestion_def split: if_splits bind_splits)

lemma ParseRR_adds: "ParseRR payload p rrs flags = Some (q, rrs', flags') \<Longrightarrow> failed flags' \<or> length rrs' = Suc (length rrs)"
  by (auto simp: ParseRR_def split: if_splits bind_splits)

lemma parse_section_adds:
  assumes "\<And>p xs flags q xs' flags'. f p xs flags = Some (q, xs', flags') \<Longrightarrow> failed flags' \<or> length xs' = Suc (length xs)"
  shows "parse_section f n p xs flags = Some (q, xs', flags') \<Longrightarrow> failed flags' \<or> length xs' = length xs + n"
proof (induction n arbitrary: p xs flags)
  case (Suc n)
  then obtain p1 xs1 flags1 where 1: "f p xs flags = Some (p1, xs1, flags1)" by (auto split: bind_splits)
  with Suc.prems Suc.IH [of p1 xs1 flags1] assms [OF 1] show ?case by (auto split: if_splits)
qed simp

lemma Parse_counts:
  assumes "Parse payload p Message_default flags = Some (q, m, flags')" "\<not> failed flags'"
  shows "length (ms_questions m) = unat (hd_qdcount (ms_header m))" "length (ms_answers m) = unat (hd_ancount (ms_header m))"
    "length (ms_authorities m) = unat (hd_nscount (ms_header m))" "length (ms_additional m) = unat (hd_arcount (ms_header m))"
proof -
  have adds: "parse_section (ParseQuestion payload) n p [] f = Some (q, xs, f') \<Longrightarrow> failed f' \<or> length xs = n"
    "parse_section (ParseRR payload) n p [] f = Some (q, ys, f') \<Longrightarrow> failed f' \<or> length ys = n" for n p f q xs ys f'
    using parse_section_adds [of "ParseQuestion payload" n p "[]"] ParseQuestion_adds
      parse_section_adds [of "ParseRR payload" n p "[]"] ParseRR_adds by (metis add_0 list.size(3))+
  show "length (ms_questions m) = unat (hd_qdcount (ms_header m))" "length (ms_answers m) = unat (hd_ancount (ms_header m))"
    "length (ms_authorities m) = unat (hd_nscount (ms_header m))" "length (ms_additional m) = unat (hd_arcount (ms_header m))"
    using assms by (auto simp: Parse_def Let_def Message_default_def split: if_splits bind_splits dest!: adds)
qed

end
