(* ===== verification/Mdns_Protocol.thy ===== *)
theory Mdns_Protocol
  imports Mdns_Packet
begin

text \<open>
  The multicast DNS responder, browser and resolver: \<open>MDnsProtocolImpl\<close> (\<open>mdns_protocol_impl.cpp\<close>) with the client tables of
  \<open>MDnsManager\<close> (\<open>mdns_manager.cpp\<close>) in one state. The tasks the code queues as closures are the constructors of
  \<open>task\<close>, with what the closure captures; \<open>run_task\<close> is their bodies. What leaves the component, a packet or a call of a
  client, is appended to a trace. The clock stands still during a handler. Sockets, reachability and the text of an address are parameters.
\<close>

section \<open>State\<close>

datatype service_state = DEAD | ADD | LIVE | REFRESH | REMOVE

record Result =
  res_serviceName :: string
  res_serviceType :: string
  res_domain :: string
  res_port :: int
  res_ipv6 :: bool
  res_addr :: string
  res_txt :: buffer
  res_state :: service_state
  res_ttl :: u32
  res_refrehTime :: int

definition Result_default :: Result where
  "Result_default = \<lparr> res_serviceName = [], res_serviceType = [], res_domain = [], res_port = - 1, res_ipv6 = False, res_addr = [],
     res_txt = [], res_state = DEAD, res_ttl = 0, res_refrehTime = - 1 \<rparr>"

record MDnsServiceInfo =
  info_name :: string
  info_type :: string
  info_family :: int
  info_addr :: string
  info_port :: int
  info_txtRecord :: buffer

record MDnsConfig =
  cfg_ipv6Support :: bool
  cfg_configAllIface :: bool
  cfg_configLo :: bool
  cfg_topDomain :: string
  cfg_hostname :: string

text \<open>Client callbacks are addresses; a resolve callback may be null.\<close>

datatype task =
    BrowseTask
  | FoundTask nat MDnsServiceInfo
  | QuestionTask string
  | ResolvedTask "nat option" MDnsServiceInfo
  | RegisteredTask nat MDnsServiceInfo int
  | DiscoveryEvent string nat
  | DomainEvent "nat option" Result
  | InstanceEvent string "nat option"
  | AddressEvent string "nat option"

datatype mdns_event =
    MulticastAll buffer
  | Multicast int buffer
  | HandleServiceFound nat MDnsServiceInfo
  | HandleServiceLost nat MDnsServiceInfo
  | HandleResolveResult nat MDnsServiceInfo
  | HandleRegisterResult nat MDnsServiceInfo int
  | ListenerStart
  | ListenerStop
  | CloseAllSocket
  | OpenSocketForEachIface bool bool
  | OpenSocketForDefault bool
  | TriggerRefresh
  | SubscribeCes

record mdns =
  md_lastRunTime :: int
  md_config :: MDnsConfig
  md_srvMap :: "(string, Result) omap"
  md_browserMap :: "(string, Result list) omap"
  md_cacheMap :: "(string, Result) omap"
  md_taskQueue :: "task list"
  md_taskOnChange :: "(string, task list) omap"
  md_nameCbMap :: "(string, nat) omap"
  md_isScreenOn :: bool
  md_registerMap :: "(nat, string) omap"
  md_discoveryMap :: "(nat, string) omap"
  md_now :: int
  md_trace :: "mdns_event list"

text \<open>
  The parameters: whether a packet of \<open>MulticastAll\<close> went out somewhere, the address of a socket of the listener, whether a
  connection to an address succeeds, \<open>inet_ntop\<close>, and the host's name with the random suffix, if \<open>gethostname\<close> succeeds.
\<close>

record mdns_env =
  en_sends :: "buffer \<Rightarrow> bool"
  en_sockaddr :: "int \<Rightarrow> rdata option"
  en_connects :: "string \<Rightarrow> int \<Rightarrow> bool"
  en_ntop :: "buffer \<Rightarrow> string"
  en_host :: "string option"

abbreviation DEFAULT_INTEVAL_MS :: int where "DEFAULT_INTEVAL_MS \<equiv> 2000"
abbreviation DEFAULT_LOST_MS :: int where "DEFAULT_LOST_MS \<equiv> 20000"
abbreviation DEFAULT_TTL :: u32 where "DEFAULT_TTL \<equiv> 120"
abbreviation RRTYPE_ANY :: u16 where "RRTYPE_ANY \<equiv> 255"
abbreviation RRCLASS_IN :: u16 where "RRCLASS_IN \<equiv> 1"
abbreviation MDNS_FLUSH_CACHE_BIT :: u16 where "MDNS_FLUSH_CACHE_BIT \<equiv> 0x8000"
abbreviation MDNS_ANSWER_FLAGS :: u16 where "MDNS_ANSWER_FLAGS \<equiv> 0x8400"
abbreviation HEADER_FLAGS_QR_MASK :: u16 where "HEADER_FLAGS_QR_MASK \<equiv> 0x8000"
abbreviation PHASE_PTR :: int where "PHASE_PTR \<equiv> 1"
abbreviation PHASE_SRV :: int where "PHASE_SRV \<equiv> 2"
abbreviation PHASE_DOMAIN :: int where "PHASE_DOMAIN \<equiv> 3"
abbreviation NETMANAGER_EXT_SUCCESS :: int where "NETMANAGER_EXT_SUCCESS \<equiv> 0"
abbreviation NET_MDNS_ERR_CALLBACK_NOT_FOUND :: int where "NET_MDNS_ERR_CALLBACK_NOT_FOUND \<equiv> 2204002"
abbreviation NET_MDNS_ERR_CALLBACK_DUPLICATED :: int where "NET_MDNS_ERR_CALLBACK_DUPLICATED \<equiv> 2204003"
abbreviation NET_MDNS_ERR_ILLEGAL_ARGUMENT :: int where "NET_MDNS_ERR_ILLEGAL_ARGUMENT \<equiv> 401"
abbreviation NET_MDNS_ERR_SERVICE_INSTANCE_DUPLICATE :: int where "NET_MDNS_ERR_SERVICE_INSTANCE_DUPLICATE \<equiv> 2204007"
abbreviation NET_MDNS_ERR_SERVICE_INSTANCE_NOT_FOUND :: int where "NET_MDNS_ERR_SERVICE_INSTANCE_NOT_FOUND \<equiv> 2204008"
abbreviation NET_MDNS_ERR_SEND :: int where "NET_MDNS_ERR_SEND \<equiv> 2204009"

definition emit :: "mdns_event \<Rightarrow> mdns \<Rightarrow> mdns" where
  "emit e s = s\<lparr> md_trace := md_trace s @ [e] \<rparr>"

section \<open>Names\<close>

definition Decorated :: "mdns \<Rightarrow> string \<Rightarrow> string" where
  "Decorated s name =
     (let top = cfg_topDomain (md_config s) in
      if top = MDNS_TOP_DOMAIN_DEFAULT \<and> name \<noteq> [] \<and> last name = MDNS_DOMAIN_SPLITER then name @ drop 1 top else name @ top)"

definition fullName :: "mdns \<Rightarrow> Result \<Rightarrow> string" where
  "fullName s r = Decorated s (res_serviceName r @ ''.'' @ res_serviceType r)"

text \<open>The host's name is found once and kept.\<close>

definition GetHostDomain :: "mdns_env \<Rightarrow> mdns \<Rightarrow> string \<times> mdns" where
  "GetHostDomain env s =
     (let s' = (case (cfg_hostname (md_config s), en_host env) of
                  ([], Some h) \<Rightarrow> s\<lparr> md_config := (md_config s)\<lparr> cfg_hostname := h \<rparr> \<rparr>
                | _ \<Rightarrow> s)
      in (Decorated s' (cfg_hostname (md_config s')), s'))"

definition ConvertResultToInfo :: "Result \<Rightarrow> MDnsServiceInfo" where
  "ConvertResultToInfo r =
     \<lparr> info_name = res_serviceName r, info_type = res_serviceType r,
       info_family = (if res_addr r = [] then - 1 else if res_ipv6 r then 1 else 0),
       info_addr = res_addr r, info_port = res_port r, info_txtRecord = res_txt r \<rparr>"

fun AddrToString :: "mdns_env \<Rightarrow> rdata \<Rightarrow> string" where
  "AddrToString env (InAddr a) = en_ntop env a"
| "AddrToString env (In6Addr a) = en_ntop env a"
| "AddrToString env _ = []"

section \<open>Sending\<close>

definition send_all :: "mdns_env \<Rightarrow> Message \<Rightarrow> mdns \<Rightarrow> bool \<times> mdns" where
  "send_all env msg s = (en_sends env (ToBytes msg), emit (MulticastAll (ToBytes msg)) s)"

definition record_of :: "string \<Rightarrow> u16 \<Rightarrow> u32 \<Rightarrow> rdata \<Rightarrow> ResourceRecord" where
  "record_of name type ttl d = \<lparr> rr_name = name, rr_rtype = type, rr_rclass = RRCLASS_IN OR MDNS_FLUSH_CACHE_BIT, rr_ttl = ttl,
     rr_length = 0, rr_rdata = d \<rparr>"

definition srv_data :: "int \<Rightarrow> string \<Rightarrow> rdata" where
  "srv_data port host = SrvData \<lparr> srv_priority = 0, srv_weight = 0, srv_port = of_int port, srv_name = host \<rparr>"

definition answer_message :: Message where
  "answer_message = Message_default\<lparr> ms_header := (ms_header Message_default)\<lparr> hd_flags := MDNS_ANSWER_FLAGS \<rparr> \<rparr>"

definition question_message :: "string \<Rightarrow> u16 list \<Rightarrow> Message" where
  "question_message name types = Message_default\<lparr> ms_questions := map (\<lambda>ty. \<lparr> qn_name = name, qn_qtype = ty, qn_qclass = RRCLASS_IN \<rparr>) types \<rparr>"

definition announcement :: "mdns \<Rightarrow> Result \<Rightarrow> bool \<Rightarrow> string \<Rightarrow> Message" where
  "announcement s info off host =
     (let name = fullName s info; ttl = (if off then 0 else DEFAULT_TTL)
      in answer_message\<lparr> ms_answers :=
           [record_of (Decorated s (res_serviceType info)) RRTYPE_PTR ttl (NameData name),
            record_of name RRTYPE_SRV ttl (srv_data (res_port info) host),
            record_of name RRTYPE_TXT ttl (TxtData (res_txt info))] \<rparr>)"

definition Announce :: "mdns_env \<Rightarrow> Result \<Rightarrow> bool \<Rightarrow> mdns \<Rightarrow> int \<times> mdns" where
  "Announce env info off s =
     (let (host, s1) = GetHostDomain env s;
          (sent, s2) = send_all env (announcement s info off host) s1
      in (if sent then NETMANAGER_EXT_SUCCESS else NET_MDNS_ERR_SEND, s2))"

section \<open>Registered services\<close>

definition Register :: "mdns_env \<Rightarrow> Result \<Rightarrow> mdns \<Rightarrow> int \<times> mdns" where
  "Register env info s =
     (if \<not> (IsNameValid (res_serviceName info) \<and> IsTypeValid (res_serviceType info) \<and> IsPortValid (res_port info))
      then (NET_MDNS_ERR_ILLEGAL_ARGUMENT, s)
      else
        let name = fullName s info in
        if \<not> IsDomainValid name then (NET_MDNS_ERR_ILLEGAL_ARGUMENT, s)
        else if om_get (md_srvMap s) name \<noteq> None then (NET_MDNS_ERR_SERVICE_INSTANCE_DUPLICATE, s)
        else Announce env info False (emit ListenerStart (s\<lparr> md_srvMap := om_put name info (md_srvMap s) \<rparr>)))"

definition UnRegister :: "mdns_env \<Rightarrow> string \<Rightarrow> mdns \<Rightarrow> int \<times> mdns" where
  "UnRegister env key s =
     (let name = Decorated s key in
      case om_get (md_srvMap s) name of
        Some info \<Rightarrow> let (_, s1) = Announce env info True s in (NETMANAGER_EXT_SUCCESS, s1\<lparr> md_srvMap := om_del name (md_srvMap s1) \<rparr>)
      | None \<Rightarrow> (NET_MDNS_ERR_SERVICE_INSTANCE_NOT_FOUND, s))"

section \<open>Questions\<close>

text \<open>
  \<open>ProcessQuestionRecord\<close> reads the table of services and fills the response; it may set the host name on the way. The
  phase and the response are threaded through.
\<close>

definition ptr_answers :: "string \<Rightarrow> string \<Rightarrow> (string \<times> Result) list \<Rightarrow> Message \<Rightarrow> Message" where
  "ptr_answers name host srvs response =
     (let hits = filter (\<lambda>e. EndsWith (fst e) name) srvs
      in response\<lparr>
        ms_answers := ms_answers response @ map (\<lambda>e. record_of name RRTYPE_PTR DEFAULT_TTL (NameData (fst e))) hits,
        ms_additional := ms_additional response @ concat (map (\<lambda>e.
          [record_of (fst e) RRTYPE_SRV DEFAULT_TTL (srv_data (res_port (snd e)) host),
           record_of (fst e) RRTYPE_TXT DEFAULT_TTL (TxtData (res_txt (snd e)))]) hits) \<rparr>)"

definition add_answer :: "string \<Rightarrow> u16 \<Rightarrow> rdata \<Rightarrow> Message \<Rightarrow> Message" where
  "add_answer name type d response = response\<lparr> ms_answers := ms_answers response @ [record_of name type DEFAULT_TTL d] \<rparr>"

definition ProcessQuestionRecord ::
    "rdata \<Rightarrow> u16 \<Rightarrow> string \<Rightarrow> (string, Result) omap \<Rightarrow> Question \<Rightarrow> int \<times> Message \<Rightarrow> int \<times> Message" where
  "ProcessQuestionRecord anyAddr anyAddrType host srvMap qu st =
     (let (phase, response) = st; name = qn_name qu; ty = qn_qtype qu;
          (phase1, response1) = (if ty = RRTYPE_ANY \<or> ty = RRTYPE_PTR then (max phase PHASE_PTR, ptr_answers name host srvMap response) else (phase, response))
      in if (ty = RRTYPE_ANY \<or> ty = RRTYPE_SRV) \<and> om_get srvMap name = None then (phase1, response1)
      else
        let (phase2, response2) = (if ty = RRTYPE_ANY \<or> ty = RRTYPE_SRV
               then (max phase1 PHASE_SRV, add_answer name RRTYPE_SRV (srv_data (res_port (the (om_get srvMap name))) host) response1)
               else (phase1, response1))
        in if (ty = RRTYPE_ANY \<or> ty = RRTYPE_TXT) \<and> om_get srvMap name = None then (phase2, response2)
        else
          let (phase3, response3) = (if ty = RRTYPE_ANY \<or> ty = RRTYPE_TXT
                 then (max phase2 PHASE_SRV, add_answer name RRTYPE_TXT (TxtData (res_txt (the (om_get srvMap name)))) response2)
                 else (phase2, response2))
          in if ty = RRTYPE_ANY \<or> ty = RRTYPE_A \<or> ty = RRTYPE_AAAA then
               if name \<noteq> host \<or> ty \<noteq> RRTYPE_ANY \<and> anyAddrType \<noteq> ty then (phase3, response3)
               else (max phase3 PHASE_DOMAIN, add_answer name anyAddrType anyAddr response3)
             else (phase3, response3))"

text \<open>
  The loop over the questions goes by the count of the header, so \<open>None\<close> is a question that is not there.
\<close>

fun process_questions :: "(Question \<Rightarrow> 'a \<Rightarrow> 'a) \<Rightarrow> Question list \<Rightarrow> nat \<Rightarrow> nat \<Rightarrow> 'a \<Rightarrow> 'a option" where
  "process_questions f qs i 0 st = Some st"
| "process_questions f qs i (Suc n) st = (if i < length qs then process_questions f qs (i + 1) n (f (qs ! i) st) else None)"

definition ProcessQuestion :: "mdns_env \<Rightarrow> int \<Rightarrow> Message \<Rightarrow> mdns \<Rightarrow> mdns option" where
  "ProcessQuestion env sock msg s =
     (case en_sockaddr env sock of
        None \<Rightarrow> Some s
      | Some anyAddr \<Rightarrow>
          let anyAddrType = (case anyAddr of In6Addr _ \<Rightarrow> RRTYPE_AAAA | _ \<Rightarrow> RRTYPE_A);
              (host, s1) = GetHostDomain env s
          in do {
            (phase, response) \<leftarrow> process_questions (ProcessQuestionRecord anyAddr anyAddrType host (md_srvMap s1)) (ms_questions msg) 0
              (unat (hd_qdcount (ms_header msg))) (0, answer_message);
            let response' = (if phase < PHASE_DOMAIN
              then response\<lparr> ms_additional := ms_additional response @ [record_of host anyAddrType DEFAULT_TTL anyAddr] \<rparr> else response);
            Some (if phase \<noteq> 0 \<and> ms_answers response' \<noteq> [] then emit (Multicast sock (ToBytes response')) s1 else s1) })"

section \<open>Tables\<close>

text \<open>
  \<open>IsCacheAvailable\<close> logs \<open>cacheMap_[key].ttl\<close> before it looks, and the index operator puts an empty entry there when there is none. The
  age of an entry is cut to 32 bits.
\<close>

definition touch_cache :: "string \<Rightarrow> mdns \<Rightarrow> mdns" where
  "touch_cache key s = (if om_get (md_cacheMap s) key = None then s\<lparr> md_cacheMap := om_put key Result_default (md_cacheMap s) \<rparr> else s)"

definition cached :: "mdns \<Rightarrow> string \<Rightarrow> Result" where
  "cached s key = (case om_get (md_cacheMap s) key of Some r \<Rightarrow> r | None \<Rightarrow> Result_default)"

definition put_cache :: "string \<Rightarrow> Result \<Rightarrow> mdns \<Rightarrow> mdns" where
  "put_cache key r s = s\<lparr> md_cacheMap := om_put key r (md_cacheMap s) \<rparr>"

definition IsCacheAvailable :: "string \<Rightarrow> mdns \<Rightarrow> bool \<times> mdns" where
  "IsCacheAvailable key s =
     (let s' = touch_cache key s; r = cached s' key
      in ((md_now s - res_refrehTime r) mod 2 ^ 32 < 1000 * uint (res_ttl r), s'))"

definition IsDomainCacheAvailable :: "string \<Rightarrow> mdns \<Rightarrow> bool \<times> mdns" where
  "IsDomainCacheAvailable key s = (let (ok, s') = IsCacheAvailable key s in (ok \<and> res_addr (cached s' key) \<noteq> [], s'))"

definition IsInstanceCacheAvailable :: "string \<Rightarrow> mdns \<Rightarrow> bool \<times> mdns" where
  "IsInstanceCacheAvailable key s = (let (ok, s') = IsCacheAvailable key s in (ok \<and> res_domain (cached s' key) \<noteq> [], s'))"

definition browsed :: "mdns \<Rightarrow> string \<Rightarrow> Result list" where
  "browsed s key = (case om_get (md_browserMap s) key of Some rs \<Rightarrow> rs | None \<Rightarrow> [])"

definition IsBrowserAvailable :: "mdns \<Rightarrow> string \<Rightarrow> bool" where
  "IsBrowserAvailable s key = (browsed s key \<noteq> [])"

definition put_browser :: "string \<Rightarrow> Result list \<Rightarrow> mdns \<Rightarrow> mdns" where
  "put_browser key rs s = s\<lparr> md_browserMap := om_put key rs (md_browserMap s) \<rparr>"

definition IsAvailableCallback :: "mdns \<Rightarrow> nat \<Rightarrow> bool" where
  "IsAvailableCallback s cb = (om_get (md_discoveryMap s) cb \<noteq> None)"

section \<open>Tasks\<close>

definition AddTask :: "task \<Rightarrow> bool \<Rightarrow> mdns \<Rightarrow> mdns" where
  "AddTask t atonce s =
     (let s' = s\<lparr> md_taskQueue := md_taskQueue s @ [t] \<rparr> in if atonce then emit TriggerRefresh s' else s')"

definition events_on :: "mdns \<Rightarrow> string \<Rightarrow> task list" where
  "events_on s key = (case om_get (md_taskOnChange s) key of Some ts \<Rightarrow> ts | None \<Rightarrow> [])"

definition put_events :: "string \<Rightarrow> task list \<Rightarrow> mdns \<Rightarrow> mdns" where
  "put_events key ts s = s\<lparr> md_taskOnChange := om_put key ts (md_taskOnChange s) \<rparr>"

definition AddEvent :: "string \<Rightarrow> task \<Rightarrow> mdns \<Rightarrow> mdns" where
  "AddEvent key t s = put_events key (events_on s key @ [t]) s"

section \<open>Resolving\<close>

definition notify_resolved :: "nat option \<Rightarrow> MDnsServiceInfo \<Rightarrow> mdns \<Rightarrow> mdns" where
  "notify_resolved cb info s = (case cb of Some c \<Rightarrow> emit (HandleResolveResult c info) s | None \<Rightarrow> s)"

definition ResolveFromCache :: "string \<Rightarrow> nat option \<Rightarrow> mdns \<Rightarrow> bool \<times> mdns" where
  "ResolveFromCache domain cb s =
     (let (ok, s1) = IsDomainCacheAvailable domain s
      in if ok then (True, AddTask (ResolvedTask cb (ConvertResultToInfo (cached s1 domain))) True s1) else (False, s1))"

definition ResolveFromNet :: "mdns_env \<Rightarrow> string \<Rightarrow> nat option \<Rightarrow> mdns \<Rightarrow> bool \<times> mdns" where
  "ResolveFromNet env domain cb s =
     (let s1 = put_cache domain ((cached s domain)\<lparr> res_domain := domain \<rparr>) s;
          s2 = AddEvent domain (AddressEvent domain cb) s1
      in send_all env (question_message domain [RRTYPE_A, RRTYPE_AAAA]) s2)"

definition with_address :: "Result \<Rightarrow> Result \<Rightarrow> Result" where
  "with_address r d = r\<lparr> res_ipv6 := res_ipv6 d, res_addr := res_addr d \<rparr>"

definition ResolveInstanceFromCache :: "mdns_env \<Rightarrow> string \<Rightarrow> nat option \<Rightarrow> mdns \<Rightarrow> bool \<times> mdns" where
  "ResolveInstanceFromCache env name cb s =
     (let (ok, s1) = IsInstanceCacheAvailable name s in
      if \<not> ok then (False, s1)
      else
        let r = cached s1 name; domain = res_domain r; (known, s2) = IsDomainCacheAvailable domain s1 in
        if known then (True, AddTask (ResolvedTask cb (ConvertResultToInfo (with_address r (cached s2 domain)))) True s2)
        else let (_, s3) = ResolveFromNet env domain None s2 in (True, AddEvent domain (DomainEvent cb r) s3))"

definition ResolveInstanceFromNet :: "mdns_env \<Rightarrow> string \<Rightarrow> nat option \<Rightarrow> mdns \<Rightarrow> bool \<times> mdns" where
  "ResolveInstanceFromNet env name cb s =
     (let r = (cached s name)\<lparr> res_state := ADD \<rparr>;
          (n, t) = ExtractNameAndType name (res_serviceName r, res_serviceType r);
          s1 = put_cache name (r\<lparr> res_serviceName := n, res_serviceType := t \<rparr>) s;
          s2 = AddEvent name (InstanceEvent name cb) s1
      in send_all env ((question_message name [RRTYPE_SRV, RRTYPE_TXT])\<lparr> ms_header := (ms_header Message_default)\<lparr> hd_qdcount := 2 \<rparr> \<rparr>) s2)"

definition ResolveInstance :: "mdns_env \<Rightarrow> string \<Rightarrow> nat option \<Rightarrow> mdns \<Rightarrow> int \<times> mdns" where
  "ResolveInstance env inst cb s =
     (let name = Decorated s inst in
      if \<not> IsInstanceValid inst \<or> \<not> IsDomainValid name then (NET_MDNS_ERR_ILLEGAL_ARGUMENT, s)
      else
        let (found, s1) = ResolveInstanceFromCache env name cb s in
        if found then (NETMANAGER_EXT_SUCCESS, s1)
        else let (sent, s2) = ResolveInstanceFromNet env name cb s1
             in (if sent then NETMANAGER_EXT_SUCCESS else NET_MDNS_ERR_SEND, s2))"

section \<open>Browsing\<close>

text \<open>
  \<open>handleOfflineService\<close>: a live service not heard of for 20 seconds is dropped, unless its cached address still accepts a
  connection. \<open>cacheMap_[fullName]\<close> is read only where the entry exists.
\<close>

definition IsConnectivity :: "mdns_env \<Rightarrow> string \<Rightarrow> int \<Rightarrow> bool" where
  "IsConnectivity env ip port = (ip \<noteq> [] \<and> en_connects env ip port)"

fun handle_offline :: "mdns_env \<Rightarrow> string \<Rightarrow> Result list \<Rightarrow> mdns \<Rightarrow> Result list \<times> mdns" where
  "handle_offline env key [] s = ([], s)"
| "handle_offline env key (r # rs) s =
     (let full = fullName s r in
      if DEFAULT_LOST_MS < md_lastRunTime s - res_refrehTime r \<and> res_state r = LIVE
         \<and> \<not> (case om_get (md_cacheMap s) full of Some c \<Rightarrow> IsConnectivity env (res_addr c) (res_port c) | None \<Rightarrow> False)
      then
        let s1 = (case om_get (md_nameCbMap s) key of
                    Some cb \<Rightarrow> emit (HandleServiceLost cb (ConvertResultToInfo (r\<lparr> res_state := DEAD \<rparr>))) s
                  | None \<Rightarrow> s)
        in handle_offline env key rs (s1\<lparr> md_cacheMap := om_del full (md_cacheMap s1) \<rparr>)
      else let (rs', s') = handle_offline env key rs s in (r # rs', s'))"

definition handleOfflineService :: "mdns_env \<Rightarrow> string \<Rightarrow> mdns \<Rightarrow> mdns" where
  "handleOfflineService env key s = (let (rs, s') = handle_offline env key (browsed s key) s in put_browser key rs s')"

definition browse_one :: "mdns_env \<Rightarrow> string \<Rightarrow> mdns \<Rightarrow> mdns" where
  "browse_one env key s =
     (case om_get (md_nameCbMap s) key of
        Some cb \<Rightarrow> if \<not> IsAvailableCallback s cb then s
                   else snd (send_all env (question_message key [RRTYPE_PTR]) (handleOfflineService env key s))
      | None \<Rightarrow> snd (send_all env (question_message key [RRTYPE_PTR]) (handleOfflineService env key s)))"

text \<open>Always returns false, so its task stays in the queue.\<close>

definition Browse :: "mdns_env \<Rightarrow> mdns \<Rightarrow> bool \<times> mdns" where
  "Browse env s =
     (if md_lastRunTime s \<noteq> - 1 \<and> md_now s - md_lastRunTime s < DEFAULT_INTEVAL_MS \<or> \<not> md_isScreenOn s then (False, s)
      else (False, fold (browse_one env) (map fst (md_browserMap s)) (s\<lparr> md_lastRunTime := md_now s \<rparr>)))"

section \<open>What a task does\<close>

text \<open>The loop of the event that \<open>DiscoveryFromNet\<close> leaves, over the services found so far.\<close>

definition discovery_one :: "nat \<Rightarrow> Result \<Rightarrow> mdns \<Rightarrow> Result \<times> mdns" where
  "discovery_one cb r s =
     (let full = fullName s r;
          (r1, s1) = (if om_get (md_cacheMap s) full = None \<or> res_state r = ADD \<or> res_state r = REFRESH
                      then (r\<lparr> res_state := LIVE \<rparr>, emit (HandleServiceFound cb (ConvertResultToInfo r)) s) else (r, s))
      in if res_state r1 = REMOVE
         then (r1\<lparr> res_state := DEAD \<rparr>,
               (emit (HandleServiceLost cb (ConvertResultToInfo r1)) s1)\<lparr> md_cacheMap := om_del full (md_cacheMap s1) \<rparr>)
         else (r1, s1))"

fun discovery_pass :: "nat \<Rightarrow> Result list \<Rightarrow> mdns \<Rightarrow> Result list \<times> mdns" where
  "discovery_pass cb [] s = ([], s)"
| "discovery_pass cb (r # rs) s =
     (let (r', s1) = discovery_one cb r s; (rs', s2) = discovery_pass cb rs s1 in (r' # rs', s2))"

definition discovery_event :: "string \<Rightarrow> nat \<Rightarrow> mdns \<Rightarrow> bool \<times> mdns" where
  "discovery_event name cb s =
     (if \<not> IsBrowserAvailable s name then (False, s)
      else if \<not> IsAvailableCallback s cb then (True, s)
      else let (rs, s') = discovery_pass cb (browsed s name) s in (False, put_browser name rs s'))"

fun run_task :: "mdns_env \<Rightarrow> task \<Rightarrow> mdns \<Rightarrow> bool \<times> mdns" where
  "run_task env BrowseTask s = Browse env s"
| "run_task env (FoundTask cb info) s = (True, if IsAvailableCallback s cb then emit (HandleServiceFound cb info) s else s)"
| "run_task env (QuestionTask name) s = (True, snd (send_all env (question_message name [RRTYPE_PTR]) s))"
| "run_task env (ResolvedTask cb info) s = (True, notify_resolved cb info s)"
| "run_task env (RegisteredTask cb info err) s = (True, emit (HandleRegisterResult cb info err) s)"
| "run_task env (DiscoveryEvent name cb) s = discovery_event name cb s"
| "run_task env (DomainEvent cb r) s =
     (let (known, s1) = IsDomainCacheAvailable (res_domain r) s in
      if \<not> known then (False, s1)
      else (True, notify_resolved cb (ConvertResultToInfo (with_address r (cached s1 (res_domain r)))) s1))"
| "run_task env (InstanceEvent name cb) s = ResolveInstanceFromCache env name cb s"
| "run_task env (AddressEvent domain cb) s = ResolveFromCache domain cb s"

text \<open>
  \<open>RunTaskQueue\<close> goes through the list while the tasks run, and a task may append to the same list: those are run
  in the same pass. A task that returns false is kept.
\<close>

datatype queue_ref = MainQueue | ChangeQueue string

fun queue_of :: "queue_ref \<Rightarrow> mdns \<Rightarrow> task list" where
  "queue_of MainQueue s = md_taskQueue s"
| "queue_of (ChangeQueue key) s = events_on s key"

fun set_queue :: "queue_ref \<Rightarrow> task list \<Rightarrow> mdns \<Rightarrow> mdns" where
  "set_queue MainQueue ts s = s\<lparr> md_taskQueue := ts \<rparr>"
| "set_queue (ChangeQueue key) ts s = put_events key ts s"

fun task_weight :: "task \<Rightarrow> nat" where
  "task_weight (InstanceEvent _ _) = 4"
| "task_weight (AddressEvent _ _) = 2"
| "task_weight _ = 1"

definition weight :: "task list \<Rightarrow> nat" where
  "weight ts = sum_list (map task_weight ts)"

lemma weight_simps [simp]: "weight [] = 0" "weight (t # ts) = task_weight t + weight ts" "weight (ts @ us) = weight ts + weight us"
  by (simp_all add: weight_def)

lemma queue_frame [simp]:
  "queue_of q (emit e s) = queue_of q s" "queue_of q (touch_cache key s) = queue_of q s" "queue_of q (put_cache key r s) = queue_of q s"
  "queue_of q (put_browser key rs s) = queue_of q s" "queue_of q (snd (send_all env msg s)) = queue_of q s"
  "queue_of q (notify_resolved cb info s) = queue_of q s" "queue_of q (s\<lparr> md_cacheMap := m \<rparr>) = queue_of q s"
  "queue_of q (s\<lparr> md_lastRunTime := now \<rparr>) = queue_of q s"
  by (cases q; simp add: emit_def touch_cache_def put_cache_def put_browser_def send_all_def notify_resolved_def events_on_def
      split: option.split)+

lemma available_frame [simp]:
  "queue_of q (snd (IsCacheAvailable key s)) = queue_of q s" "queue_of q (snd (IsDomainCacheAvailable key s)) = queue_of q s"
  "queue_of q (snd (IsInstanceCacheAvailable key s)) = queue_of q s"
  by (simp_all add: IsCacheAvailable_def IsDomainCacheAvailable_def IsInstanceCacheAvailable_def Let_def split_beta)

lemma handle_offline_frame: "queue_of q (snd (handle_offline env key rs s)) = queue_of q s"
  by (induction rs arbitrary: s) (simp_all add: Let_def split_beta split: option.split)

lemma discovery_pass_frame: "queue_of q (snd (discovery_pass cb rs s)) = queue_of q s"
proof (induction rs arbitrary: s)
  case (Cons r rs)
  have "queue_of q (snd (discovery_one cb r s)) = queue_of q s" by (simp add: discovery_one_def Let_def)
  with Cons show ?case by (simp add: Let_def split_beta)
qed simp

lemma browse_one_frame: "queue_of q (browse_one env key s) = queue_of q s"
  by (simp add: browse_one_def handleOfflineService_def handle_offline_frame split_beta split: option.split)

lemma Browse_frame: "queue_of q (snd (Browse env s)) = queue_of q s"
proof -
  have "queue_of q (fold (browse_one env) ks s) = queue_of q s" for ks s
    by (induction ks arbitrary: s) (simp_all add: browse_one_frame)
  then show ?thesis by (simp add: Browse_def)
qed

text \<open>What a task appends to a queue weighs less than the task.\<close>

lemma queue_AddTask: "queue_of q (AddTask t now s) = queue_of q s @ (if q = MainQueue then [t] else [])"
  by (cases q) (simp_all add: AddTask_def Let_def emit_def events_on_def)

lemma queue_AddEvent: "queue_of q (AddEvent key t s) = queue_of q s @ (if q = ChangeQueue key then [t] else [])"
  by (cases q) (simp_all add: AddEvent_def put_events_def events_on_def)

lemma run_task_queue: "\<exists>new. queue_of q (snd (run_task env t s)) = queue_of q s @ new \<and> weight new < task_weight t"
proof (cases t)
  case (InstanceEvent name cb)
  then show ?thesis
    by (auto simp: ResolveInstanceFromCache_def ResolveFromNet_def Let_def split_beta queue_AddTask queue_AddEvent)
next
  case (AddressEvent domain cb)
  then show ?thesis by (auto simp: ResolveFromCache_def Let_def split_beta queue_AddTask)
qed (auto simp: Browse_frame discovery_event_def discovery_pass_frame Let_def split_beta)

function run_queue :: "mdns_env \<Rightarrow> queue_ref \<Rightarrow> nat \<Rightarrow> task list \<Rightarrow> mdns \<Rightarrow> mdns" where
  "run_queue env q i tmp s =
     (if i < length (queue_of q s) then
        let t = queue_of q s ! i; (done, s') = run_task env t s
        in run_queue env q (i + 1) (if done then tmp else tmp @ [t]) s'
      else set_queue q tmp s)"
  by pat_completeness auto
termination
proof (relation "measure (\<lambda>(env, q, i, tmp, s). weight (drop i (queue_of q s)))", goal_cases)
  case (2 env q i tmp s t x done' s')
  have "s' = snd (run_task env t s)" using 2(3,4) by (cases "run_task env t s") simp
  then obtain new where new: "queue_of q s' = queue_of q s @ new" "weight new < task_weight t"
    using run_task_queue [of q env t s] by blast
  have "drop i (queue_of q s) = t # drop (i + 1) (queue_of q s)"
    using 2(1,2) by (simp add: Cons_nth_drop_Suc)
  then show ?case using new 2(1) by simp
qed simp

definition RunTaskQueue :: "mdns_env \<Rightarrow> queue_ref \<Rightarrow> mdns \<Rightarrow> mdns" where
  "RunTaskQueue env q s = run_queue env q 0 [] s"

section \<open>Answers\<close>

text \<open>The end common to the update functions: a last record, the state, what has changed.\<close>

definition settle_update :: "ResourceRecord \<Rightarrow> int \<Rightarrow> Result \<Rightarrow> string \<Rightarrow> string list \<Rightarrow> Result \<times> string list" where
  "settle_update rr now r name changed =
     (let r1 = (if rr_ttl rr = 0 then r\<lparr> res_state := REMOVE \<rparr> else r)
      in (r1\<lparr> res_ttl := rr_ttl rr, res_refrehTime := now \<rparr>,
          if res_state r1 \<noteq> LIVE \<and> res_state r1 \<noteq> DEAD then insort_insert name changed else changed))"

fun update_first :: "('a \<Rightarrow> bool) \<Rightarrow> ('a \<Rightarrow> 'a) \<Rightarrow> 'a list \<Rightarrow> 'a list" where
  "update_first P f [] = []"
| "update_first P f (x # xs) = (if P x then f x # xs else x # update_first P f xs)"

definition UpdatePtr :: "ResourceRecord \<Rightarrow> mdns \<times> string list \<Rightarrow> mdns \<times> string list" where
  "UpdatePtr rr st =
     (let (s, changed) = st; name = rr_name rr in
      case (rr_rdata rr, om_get (md_browserMap s) name) of
        (NameData data, Some results) \<Rightarrow>
          let (srvName, srvType) = ExtractNameAndType data ([], []) in
          if srvName = [] \<or> srvType = [] then (s, changed)
          else
            let this = (\<lambda>r. res_serviceName r = srvName);
                results1 = (if list_ex this results then results
                            else results @ [Result_default\<lparr> res_serviceName := srvName, res_serviceType := srvType, res_state := ADD \<rparr>]);
                r = the (find this results1);
                r1 = (if res_state r = DEAD then r\<lparr> res_state := REFRESH \<rparr> else r);
                (r2, changed') = settle_update rr (md_now s) r1 name changed
            in (put_browser name (update_first this (\<lambda>_. r2) results1) s, changed')
      | _ \<Rightarrow> (s, changed))"

text \<open>An entry that was not there begins with the name and type taken from its key.\<close>

definition fresh_result :: "string \<Rightarrow> Result" where
  "fresh_result name =
     (let (n, t) = ExtractNameAndType name ([], []) in Result_default\<lparr> res_serviceName := n, res_serviceType := t, res_state := ADD \<rparr>)"

definition finish_cache :: "ResourceRecord \<Rightarrow> Result \<Rightarrow> mdns \<times> string list \<Rightarrow> mdns \<times> string list" where
  "finish_cache rr r st =
     (let (s, changed) = st; (r', changed') = settle_update rr (md_now s) r (rr_name rr) changed in (put_cache (rr_name rr) r' s, changed'))"

definition UpdateSrv :: "ResourceRecord \<Rightarrow> mdns \<times> string list \<Rightarrow> mdns \<times> string list" where
  "UpdateSrv rr st =
     (case rr_rdata rr of
        SrvData srv \<Rightarrow>
          let name = rr_name rr; port = uint (srv_port srv);
              r = (case om_get (md_cacheMap (fst st)) name of
                     Some r \<Rightarrow> r
                   | None \<Rightarrow> (fresh_result name)\<lparr> res_domain := srv_name srv, res_port := port \<rparr>);
              r1 = (if res_domain r \<noteq> srv_name srv \<or> res_port r \<noteq> port \<or> res_state r = DEAD
                    then r\<lparr> res_state := (if res_state r \<noteq> ADD then REFRESH else ADD), res_domain := srv_name srv, res_port := port \<rparr>
                    else r)
          in finish_cache rr r1 st
      | _ \<Rightarrow> st)"

definition UpdateTxt :: "ResourceRecord \<Rightarrow> mdns \<times> string list \<Rightarrow> mdns \<times> string list" where
  "UpdateTxt rr st =
     (case rr_rdata rr of
        TxtData data \<Rightarrow>
          let name = rr_name rr;
              r = (case om_get (md_cacheMap (fst st)) name of
                     Some r \<Rightarrow> r
                   | None \<Rightarrow> (fresh_result name)\<lparr> res_txt := data \<rparr>);
              r1 = (if res_txt r \<noteq> data \<or> res_state r = DEAD
                    then r\<lparr> res_state := (if res_state r \<noteq> ADD then REFRESH else ADD), res_txt := data \<rparr>
                    else r)
          in finish_cache rr r1 st
      | _ \<Rightarrow> st)"

definition UpdateAddr :: "mdns_env \<Rightarrow> bool \<Rightarrow> ResourceRecord \<Rightarrow> mdns \<times> string list \<Rightarrow> mdns \<times> string list" where
  "UpdateAddr env v6 rr st =
     (let v6rr = (rr_rtype rr = RRTYPE_AAAA); addr = AddrToString env (rr_rdata rr); name = rr_name rr in
      if v6 \<noteq> v6rr \<or> addr = [] then st
      else
        let r = (case om_get (md_cacheMap (fst st)) name of
                   Some r \<Rightarrow> r
                 | None \<Rightarrow> (fresh_result name)\<lparr> res_ipv6 := v6rr, res_addr := addr \<rparr>);
            r1 = (if res_addr r \<noteq> addr \<or> res_ipv6 r \<noteq> v6rr \<or> res_state r = DEAD
                  then r\<lparr> res_state := REFRESH, res_addr := addr, res_ipv6 := v6rr \<rparr>
                  else r)
        in finish_cache rr r1 st)"

definition ProcessAnswerRecord :: "mdns_env \<Rightarrow> bool \<Rightarrow> ResourceRecord \<Rightarrow> mdns \<times> string list \<Rightarrow> mdns \<times> string list" where
  "ProcessAnswerRecord env v6 rr st =
     (let s = fst st; name = rr_name rr in
      if om_get (md_cacheMap s) name = None \<and> om_get (md_browserMap s) name = None \<and> om_get (md_srvMap s) name \<noteq> None then st
      else if rr_rtype rr = RRTYPE_PTR then UpdatePtr rr st
      else if rr_rtype rr = RRTYPE_SRV then UpdateSrv rr st
      else if rr_rtype rr = RRTYPE_TXT then UpdateTxt rr st
      else if rr_rtype rr = RRTYPE_A \<or> rr_rtype rr = RRTYPE_AAAA then UpdateAddr env v6 rr st
      else st)"

text \<open>The loop of \<open>KillCache\<close> over the services found under a key (\<open>KillBrowseCache\<close>).\<close>

fun kill_browsed :: "string \<Rightarrow> Result list \<Rightarrow> mdns \<Rightarrow> Result list \<times> mdns" where
  "kill_browsed key [] s = ([], s)"
| "kill_browsed key (r # rs) s =
     (if res_state r = REMOVE then
        let s1 = (case om_get (md_nameCbMap s) key of
                    Some cb \<Rightarrow> emit (HandleServiceLost cb (ConvertResultToInfo r)) s
                  | None \<Rightarrow> s)
        in kill_browsed key rs (s1\<lparr> md_cacheMap := om_del (fullName s1 r) (md_cacheMap s1) \<rparr>)
      else
        let (rs', s') = kill_browsed key rs s
        in ((if res_state r = ADD \<or> res_state r = REFRESH then r\<lparr> res_state := LIVE \<rparr> else r) # rs', s'))"

definition KillCache :: "string \<Rightarrow> mdns \<Rightarrow> mdns" where
  "KillCache key s =
     (let s1 = (if IsBrowserAvailable s key then let (rs, s') = kill_browsed key (browsed s key) s in put_browser key rs s' else s);
          (ok, s2) = IsCacheAvailable key s1; elem = cached s2 key
      in if \<not> ok then s2
         else if res_state elem = REMOVE then s2\<lparr> md_cacheMap := om_del key (md_cacheMap s2) \<rparr>
         else if res_state elem = ADD \<or> res_state elem = REFRESH then put_cache key (elem\<lparr> res_state := LIVE \<rparr>) s2
         else s2)"

definition ProcessAnswer :: "mdns_env \<Rightarrow> int \<Rightarrow> Message \<Rightarrow> mdns \<Rightarrow> mdns" where
  "ProcessAnswer env sock msg s =
     (case en_sockaddr env sock of
        None \<Rightarrow> s
      | Some a \<Rightarrow>
          let v6 = (case a of In6Addr _ \<Rightarrow> True | _ \<Rightarrow> False);
              (s1, changed) = fold (ProcessAnswerRecord env v6) (ms_answers msg @ ms_additional msg) (s, [])
          in fold (\<lambda>key s. KillCache key (RunTaskQueue env (ChangeQueue key) s)) changed s1)"

text \<open>A packet from the network; \<open>None\<close> would be a read outside it, or a question that is not there.\<close>

definition ReceivePacket :: "mdns_env \<Rightarrow> int \<Rightarrow> buffer \<Rightarrow> mdns \<Rightarrow> mdns option" where
  "ReceivePacket env sock payload s =
     (if payload = [] then Some s
      else do {
        (msg, flags) \<leftarrow> FromBytes payload;
        if GetError flags \<noteq> 0 then Some s
        else if hd_flags (ms_header msg) AND HEADER_FLAGS_QR_MASK = 0 then ProcessQuestion env sock msg s
        else Some (ProcessAnswer env sock msg s) })"

section \<open>Discovery\<close>

definition DiscoveryFromCache :: "string \<Rightarrow> nat \<Rightarrow> mdns \<Rightarrow> mdns" where
  "DiscoveryFromCache serviceType cb s =
     (let name = Decorated s serviceType in
      if \<not> IsBrowserAvailable s name then s
      else fold (\<lambda>r s. AddTask (FoundTask cb (ConvertResultToInfo r)) True s)
        (filter (\<lambda>r. res_state r \<noteq> REMOVE \<and> res_state r \<noteq> DEAD) (browsed s name)) s)"

definition DiscoveryFromNet :: "string \<Rightarrow> nat \<Rightarrow> mdns \<Rightarrow> mdns" where
  "DiscoveryFromNet serviceType cb s =
     (let name = Decorated s serviceType;
          s1 = (if om_get (md_browserMap s) name = None then put_browser name [] s else s);
          s2 = s1\<lparr> md_nameCbMap := om_put name cb (md_nameCbMap s1) \<rparr>
      in AddTask (QuestionTask name) False (AddEvent name (DiscoveryEvent name cb) s2))"

definition Discovery :: "string \<Rightarrow> nat \<Rightarrow> mdns \<Rightarrow> int \<times> mdns" where
  "Discovery serviceType cb s =
     (NETMANAGER_EXT_SUCCESS, emit ListenerStart (DiscoveryFromNet serviceType cb (DiscoveryFromCache serviceType cb s)))"

definition StopCbMap :: "string \<Rightarrow> mdns \<Rightarrow> int \<times> mdns" where
  "StopCbMap serviceType s =
     (let name = Decorated s serviceType; cb = om_get (md_nameCbMap s) name;
          s1 = s\<lparr> md_nameCbMap := om_del name (md_nameCbMap s), md_taskOnChange := om_del name (md_taskOnChange s) \<rparr>;
          s2 = (case cb of
                  Some c \<Rightarrow> fold (\<lambda>r. emit (HandleServiceLost c (ConvertResultToInfo r))) (browsed s1 name) s1
                | None \<Rightarrow> s1)
      in (NETMANAGER_SUCCESS, s2\<lparr> md_browserMap := om_del name (md_browserMap s2) \<rparr>))"

definition Init :: "mdns \<Rightarrow> mdns" where
  "Init s =
     (let c = md_config s;
          s1 = emit CloseAllSocket (emit ListenerStop s);
          s2 = emit (if cfg_configAllIface c then OpenSocketForEachIface (cfg_ipv6Support c) (cfg_configLo c)
                     else OpenSocketForDefault (cfg_ipv6Support c)) s1;
          s3 = s2\<lparr> md_taskQueue := [], md_taskOnChange := [] \<rparr>
      in emit SubscribeCes (AddTask BrowseTask False s3))"

text \<open>What the listener calls after it has handled its sockets.\<close>

definition on_finished :: "mdns_env \<Rightarrow> mdns \<Rightarrow> mdns" where
  "on_finished env s = RunTaskQueue env MainQueue s"

definition SetScreenState :: "bool \<Rightarrow> mdns \<Rightarrow> mdns" where
  "SetScreenState on s = s\<lparr> md_isScreenOn := on \<rparr>"

definition SetConfig :: "MDnsConfig \<Rightarrow> mdns \<Rightarrow> mdns" where
  "SetConfig config s = s\<lparr> md_config := config \<rparr>"

section \<open>The manager\<close>

text \<open>The client's callback is \<open>None\<close> when it or its remote object is null.\<close>

definition RegisterService :: "mdns_env \<Rightarrow> MDnsServiceInfo \<Rightarrow> nat option \<Rightarrow> mdns \<Rightarrow> int \<times> mdns" where
  "RegisterService env info cb s =
     (case cb of
        None \<Rightarrow> (NET_MDNS_ERR_ILLEGAL_ARGUMENT, s)
      | Some c \<Rightarrow>
          let (err, s1) = Register env (Result_default\<lparr> res_serviceName := info_name info, res_serviceType := info_type info,
                            res_port := info_port info, res_txt := info_txtRecord info \<rparr>) s;
              s2 = AddTask (RegisteredTask c info err) True s1
          in (err, if err = NETMANAGER_EXT_SUCCESS \<and> om_get (md_registerMap s2) c = None
                   then s2\<lparr> md_registerMap := om_put c (info_name info @ ''.'' @ info_type info) (md_registerMap s2) \<rparr> else s2))"

definition UnRegisterService :: "mdns_env \<Rightarrow> nat option \<Rightarrow> mdns \<Rightarrow> int \<times> mdns" where
  "UnRegisterService env cb s =
     (case cb of
        None \<Rightarrow> (NET_MDNS_ERR_ILLEGAL_ARGUMENT, s)
      | Some c \<Rightarrow>
          (case om_get (md_registerMap s) c of
             None \<Rightarrow> (NET_MDNS_ERR_CALLBACK_NOT_FOUND, s)
           | Some key \<Rightarrow>
               let (err, s1) = UnRegister env key s
               in (err, if err = NETMANAGER_EXT_SUCCESS then s1\<lparr> md_registerMap := om_del c (md_registerMap s1) \<rparr> else s1)))"

definition StartDiscoverService :: "string \<Rightarrow> nat option \<Rightarrow> mdns \<Rightarrow> int \<times> mdns" where
  "StartDiscoverService serviceType cb s =
     (case cb of
        None \<Rightarrow> (NET_MDNS_ERR_ILLEGAL_ARGUMENT, s)
      | Some c \<Rightarrow>
          if \<not> IsTypeValid serviceType then (NET_MDNS_ERR_ILLEGAL_ARGUMENT, s)
          else if \<not> IsDomainValid (Decorated s serviceType) then (NET_MDNS_ERR_ILLEGAL_ARGUMENT, s)
          else if om_get (md_discoveryMap s) c \<noteq> None then (NET_MDNS_ERR_CALLBACK_DUPLICATED, s)
          else Discovery serviceType c (s\<lparr> md_discoveryMap := om_put c serviceType (md_discoveryMap s) \<rparr>))"

definition StopDiscoverService :: "nat option \<Rightarrow> mdns \<Rightarrow> int \<times> mdns" where
  "StopDiscoverService cb s =
     (case cb of
        None \<Rightarrow> (NET_MDNS_ERR_ILLEGAL_ARGUMENT, s)
      | Some c \<Rightarrow>
          (case om_get (md_discoveryMap s) c of
             None \<Rightarrow> (NET_MDNS_ERR_CALLBACK_NOT_FOUND, s)
           | Some key \<Rightarrow> StopCbMap key (s\<lparr> md_discoveryMap := om_del c (md_discoveryMap s) \<rparr>)))"

definition RestartDiscoverService :: "mdns \<Rightarrow> mdns" where
  "RestartDiscoverService s = fold (\<lambda>(cb, serviceType) s. snd (Discovery serviceType cb (snd (StopCbMap serviceType s)))) (md_discoveryMap s) s"

definition RestartMDnsProtocolImpl :: "mdns \<Rightarrow> mdns" where
  "RestartMDnsProtocolImpl s = RestartDiscoverService (Init s)"

definition ResolveService :: "mdns_env \<Rightarrow> MDnsServiceInfo \<Rightarrow> nat option \<Rightarrow> mdns \<Rightarrow> int \<times> mdns" where
  "ResolveService env info cb s =
     (case cb of
        None \<Rightarrow> (NET_MDNS_ERR_ILLEGAL_ARGUMENT, s)
      | Some c \<Rightarrow> ResolveInstance env (info_name info @ ''.'' @ info_type info) (Some c) s)"

declare run_queue.simps [simp del]

end
