(* ===== verification/Mdns_Responder.thy ===== *)
theory Mdns_Responder
  imports Mdns_Protocol "HOL-Library.Sublist"
begin

text \<open>
  What the multicast DNS responder does for its neighbours: every packet is handled without a read outside it, a question for a service type
  is answered with exactly the registered services whose full name ends in the name asked for, in a packet that parses back to them, and
  registering and unregistering announce what the neighbours should know.
\<close>

section \<open>Handling a packet\<close>

lemma process_questions_fold: "n + i = length qs \<Longrightarrow> process_questions f qs i n st = Some (fold f (drop i qs) st)"
proof (induction n arbitrary: i st)
  case (Suc n)
  then have "drop i qs = qs ! i # drop (Suc i) qs" by (simp add: Cons_nth_drop_Suc)
  with Suc show ?case by simp
qed simp

definition addr_type :: "rdata \<Rightarrow> u16" where
  "addr_type a = (case a of In6Addr _ \<Rightarrow> RRTYPE_AAAA | _ \<Rightarrow> RRTYPE_A)"

text \<open>The response to a list of questions, and the phase it has reached.\<close>

definition answers_to :: "rdata \<Rightarrow> string \<Rightarrow> (string, Result) omap \<Rightarrow> Question list \<Rightarrow> int \<times> Message" where
  "answers_to a host srvMap qs = fold (ProcessQuestionRecord a (addr_type a) host srvMap) qs (0, answer_message)"

definition response_of :: "rdata \<Rightarrow> string \<Rightarrow> (string, Result) omap \<Rightarrow> Question list \<Rightarrow> Message" where
  "response_of a host srvMap qs =
     (let (phase, response) = answers_to a host srvMap qs
      in if phase < PHASE_DOMAIN
         then response\<lparr> ms_additional := ms_additional response @ [record_of host (addr_type a) DEFAULT_TTL a] \<rparr> else response)"

lemma ProcessQuestion_response:
  assumes "length (ms_questions msg) = unat (hd_qdcount (ms_header msg))" "en_sockaddr env sock = Some a"
    "GetHostDomain env s = (host, s1)"
  shows "ProcessQuestion env sock msg s =
    Some (if fst (answers_to a host (md_srvMap s1) (ms_questions msg)) \<noteq> 0
             \<and> ms_answers (response_of a host (md_srvMap s1) (ms_questions msg)) \<noteq> []
          then emit (Multicast sock (ToBytes (response_of a host (md_srvMap s1) (ms_questions msg)))) s1 else s1)"
proof -
  have "process_questions (ProcessQuestionRecord a (addr_type a) host (md_srvMap s1)) (ms_questions msg) 0 (unat (hd_qdcount (ms_header msg)))
      (0, answer_message) = Some (answers_to a host (md_srvMap s1) (ms_questions msg))"
    using assms(1) by (subst process_questions_fold) (simp_all add: answers_to_def)
  then show ?thesis
    using assms(2,3) by (simp add: ProcessQuestion_def response_of_def addr_type_def Let_def split_beta)
qed

text \<open>
  C29. Whatever arrives is handled: the parser stays inside the packet, and the loop over the questions, which goes by the count in the
  packet's header, finds every question it asks for.
\<close>

theorem receive_total: "\<exists>s'. ReceivePacket env sock payload s = Some s'"
proof -
  obtain msg flags where parsed: "FromBytes payload = Some (msg, flags)" using FromBytes_returns by blast
  show ?thesis
  proof (cases "payload = [] \<or> GetError flags \<noteq> 0 \<or> hd_flags (ms_header msg) AND HEADER_FLAGS_QR_MASK \<noteq> 0 \<or> en_sockaddr env sock = None")
    case True
    then show ?thesis using parsed by (auto simp: ReceivePacket_def ProcessQuestion_def)
  next
    case False
    obtain p where "Parse payload 0 Message_default PARSE_OK = Some (p, msg, flags)"
      using parsed by (auto simp: FromBytes_def split: bind_splits)
    moreover have "\<not> failed flags" using False by (simp add: failed_def GetError_def)
    ultimately have "length (ms_questions msg) = unat (hd_qdcount (ms_header msg))" by (simp add: Parse_counts(1))
    from ProcessQuestion_response [OF this]
    show ?thesis using False parsed by (cases "GetHostDomain env s") (auto simp: ReceivePacket_def)
  qed
qed

section \<open>The answer to a question for a service type\<close>

lemma GetHostDomain_srvMap: "GetHostDomain env s = (host, s1) \<Longrightarrow> md_srvMap s1 = md_srvMap s \<and> md_trace s1 = md_trace s"
  by (auto simp: GetHostDomain_def Let_def split: list.splits option.splits)

text \<open>
  The services whose full name ends in the name asked for, and the services of that type: those whose full name is an
  instance name, a dot and the type.
\<close>

definition services_of :: "string \<Rightarrow> (string, Result) omap \<Rightarrow> (string, Result) omap" where
  "services_of name srvMap = filter (\<lambda>e. suffix name (fst e)) srvMap"

definition of_type :: "string \<Rightarrow> string \<times> Result \<Rightarrow> bool" where
  "of_type name e = suffix (CHR ''.'' # name) (fst e)"

lemma EndsWith_suffix: "EndsWith str pat \<longleftrightarrow> suffix pat str"
proof
  assume "EndsWith str pat"
  then show "suffix pat str" by (metis EndsWith_def suffix_drop)
qed (auto simp: EndsWith_def elim: suffixE)

lemma services_of_type:
  "(\<And>e. e \<in> set srvMap \<Longrightarrow> suffix name (fst e) \<Longrightarrow> of_type name e) \<Longrightarrow> services_of name srvMap = filter (of_type name) srvMap"
  unfolding services_of_def by (rule filter_cong) (auto simp: of_type_def dest: suffix_ConsD)

lemma ptr_response:
  "response_of a host srvMap [\<lparr> qn_name = name, qn_qtype = RRTYPE_PTR, qn_qclass = c \<rparr>] = answer_message\<lparr>
     ms_answers := map (\<lambda>e. record_of name RRTYPE_PTR DEFAULT_TTL (NameData (fst e))) (services_of name srvMap),
     ms_additional := concat (map (\<lambda>e.
          [record_of (fst e) RRTYPE_SRV DEFAULT_TTL (srv_data (res_port (snd e)) host),
           record_of (fst e) RRTYPE_TXT DEFAULT_TTL (TxtData (res_txt (snd e)))]) (services_of name srvMap))
       @ [record_of host (addr_type a) DEFAULT_TTL a] \<rparr>"
  "fst (answers_to a host srvMap [\<lparr> qn_name = name, qn_qtype = RRTYPE_PTR, qn_qclass = c \<rparr>]) = PHASE_PTR"
  by (simp_all add: response_of_def answers_to_def ProcessQuestionRecord_def ptr_answers_def services_of_def EndsWith_suffix Let_def
      answer_message_def Message_default_def)

definition registry_ok :: "(string, Result) omap \<Rightarrow> bool" where
  "registry_ok srvMap = (list_all (\<lambda>e. dns_name (fst e)) srvMap \<and> length srvMap < 32000)"

definition ptr_question :: "string \<Rightarrow> Question" where
  "ptr_question name = \<lparr> qn_name = name, qn_qtype = RRTYPE_PTR, qn_qclass = RRCLASS_IN \<rparr>"

lemma ptr_response_ok:
  assumes "registry_ok srvMap" "dns_name name" "dns_name host" "rdata_ok (addr_type a) a"
  shows "message_ok (response_of a host srvMap [ptr_question name])"
proof -
  have hits: "list_all (\<lambda>e. dns_name (fst e)) (services_of name srvMap)" "length (services_of name srvMap) < 32000"
    using assms(1) le_less_trans [OF length_filter_le]
    by (auto simp: registry_ok_def services_of_def list_all_iff)
  have "length (concat (map (\<lambda>e. [f e, g e]) xs)) = 2 * length xs" for f g :: "string \<times> Result \<Rightarrow> ResourceRecord" and xs
    by (induction xs) simp_all
  then show ?thesis
    using hits assms(2-4)
    by (auto simp: ptr_question_def ptr_response message_ok_def answer_message_def Message_default_def list_all_iff rr_ok_def record_of_def srv_data_def)
qed

lemma question_parsed:
  assumes "dns_name name" "length (ToBytes (question_message name [RRTYPE_PTR])) \<le> 0x4000"
  obtains m where "FromBytes (ToBytes (question_message name [RRTYPE_PTR])) = Some (m, PARSE_OK)" "ms_questions m = [ptr_question name]"
    "hd_flags (ms_header m) = 0" "unat (hd_qdcount (ms_header m)) = 1"
proof -
  have "message_ok (question_message name [RRTYPE_PTR])"
    using assms(1) by (simp add: message_ok_def question_message_def Message_default_def)
  from FromBytes_ToBytes [OF this assms(2)] obtain m where
    m: "FromBytes (ToBytes (question_message name [RRTYPE_PTR])) = Some (m, PARSE_OK)"
      "content m = content (question_message name [RRTYPE_PTR])" "unat (hd_qdcount (ms_header m)) = 1"
    by (auto simp: question_message_def)
  have "ms_questions (content m) = [ptr_question name]" "hd_flags (ms_header (content m)) = 0"
    unfolding m(2) by (simp_all add: content_def question_message_def ptr_question_def Message_default_def)
  then show thesis using that [OF m(1)] m(3) by (simp add: content_def)
qed

text \<open>
  C2. A neighbour's question for a service type, as a packet, is answered with one packet when the full name of a registered service ends in the
  name asked for, and with none otherwise. The packet parses back to pointers to exactly those services, in the order of the table, followed by
  their ports, attributes and the address of the socket. They are the services of that type if no full name ends in the name
  asked for in the middle of a label. The names are DNS names, fewer than 32000 services are registered, and the two packets have at most
  16384 bytes.
\<close>

theorem type_question_answered:
  assumes names: "registry_ok (md_srvMap s)" "dns_name name" "dns_name host"
    and sock: "en_sockaddr env sock = Some a" "rdata_ok (addr_type a) a" and host: "GetHostDomain env s = (host, s1)"
    and sizes: "length (ToBytes (question_message name [RRTYPE_PTR])) \<le> 0x4000"
      "length (ToBytes (response_of a host (md_srvMap s) [ptr_question name])) \<le> 0x4000"
  shows "(if services_of name (md_srvMap s) = []
    then ReceivePacket env sock (ToBytes (question_message name [RRTYPE_PTR])) s = Some s1
    else \<exists>bytes m. ReceivePacket env sock (ToBytes (question_message name [RRTYPE_PTR])) s = Some (emit (Multicast sock bytes) s1)
      \<and> FromBytes bytes = Some (m, PARSE_OK)
      \<and> map rr_rdata (ms_answers m) = map (\<lambda>e. NameData (fst e)) (services_of name (md_srvMap s))
      \<and> map rr_rdata (ms_additional m) = concat (map (\<lambda>e. [srv_data (res_port (snd e)) host, TxtData (res_txt (snd e))])
            (services_of name (md_srvMap s))) @ [a])
    \<and> ((\<forall>e \<in> set (md_srvMap s). suffix name (fst e) \<longrightarrow> of_type name e) \<longrightarrow> services_of name (md_srvMap s) = filter (of_type name) (md_srvMap s))"
proof -
  let ?q = "ToBytes (question_message name [RRTYPE_PTR])" and ?hits = "services_of name (md_srvMap s)"
  let ?r = "response_of a host (md_srvMap s) [ptr_question name]"
  obtain qm where qm: "FromBytes ?q = Some (qm, PARSE_OK)" "ms_questions qm = [ptr_question name]" "hd_flags (ms_header qm) = 0"
      "unat (hd_qdcount (ms_header qm)) = 1"
    by (rule question_parsed [OF names(2) sizes(1)])
  have "?q \<noteq> []" by (rule notI) (use qm(1) in \<open>simp add: FromBytes_def Parse_def ParseHeader_def lacks_def Message_default_def failed_def Let_def\<close>)
  have srv: "md_srvMap s1 = md_srvMap s" using GetHostDomain_srvMap [OF host] by simp
  have handled: "ReceivePacket env sock ?q s = Some (if ?hits \<noteq> [] then emit (Multicast sock (ToBytes ?r)) s1 else s1)"
    using \<open>?q \<noteq> []\<close> qm ProcessQuestion_response [OF _ sock(1) host, of qm] ptr_response(1) [of a host "md_srvMap s" name RRCLASS_IN]
      ptr_response(2) [of a host "md_srvMap s" name RRCLASS_IN]
    by (simp add: ReceivePacket_def GetError_def ptr_question_def srv)
  obtain m where m: "FromBytes (ToBytes ?r) = Some (m, PARSE_OK)" "content m = content ?r"
    using FromBytes_ToBytes [OF ptr_response_ok [OF names sock(2)] sizes(2)] by blast
  have rdata: "map rr_rdata (map rr_content rrs) = map rr_rdata rrs" for rrs by (simp add: rr_content_def)
  have "map rr_rdata (ms_answers (content m)) = map rr_rdata (ms_answers ?r)" "map rr_rdata (ms_additional (content m)) = map rr_rdata (ms_additional ?r)"
    unfolding m(2) by (simp_all add: content_def rr_content_def)
  then have "map rr_rdata (ms_answers m) = map (\<lambda>e. NameData (fst e)) ?hits"
    "map rr_rdata (ms_additional m) = concat (map (\<lambda>e. [srv_data (res_port (snd e)) host, TxtData (res_txt (snd e))]) ?hits) @ [a]"
    by (simp_all add: content_def rr_content_def ptr_question_def ptr_response record_of_def map_concat comp_def)
  with handled m(1) show ?thesis using services_of_type [of "md_srvMap s" name] by auto
qed

definition example_env :: mdns_env where
  "example_env = \<lparr> en_sends = \<lambda>bytes. True, en_sockaddr = \<lambda>sock. Some (InAddr [10, 0, 0, 2]), en_connects = \<lambda>ip port. False,
     en_ntop = \<lambda>a. ''10.0.0.2'', en_host = Some ''host7'' \<rparr>"

definition example_state :: mdns where
  "example_state = \<lparr> md_lastRunTime = - 1,
     md_config = \<lparr> cfg_ipv6Support = False, cfg_configAllIface = True, cfg_configLo = True, cfg_topDomain = MDNS_TOP_DOMAIN_DEFAULT, cfg_hostname = [] \<rparr>,
     md_srvMap = [], md_browserMap = [], md_cacheMap = [], md_taskQueue = [], md_taskOnChange = [], md_nameCbMap = [], md_isScreenOn = True,
     md_registerMap = [], md_discoveryMap = [], md_now = 1000, md_trace = [] \<rparr>"

definition web_service :: Result where
  "web_service = Result_default\<lparr> res_serviceName := ''web'', res_serviceType := ''_http._tcp'', res_port := 80 \<rparr>"

definition serving_state :: mdns where
  "serving_state = example_state\<lparr> md_srvMap := [(''web._http._tcp.local'', web_service)] \<rparr>"

definition hosted_state :: mdns where
  "hosted_state = serving_state\<lparr> md_config := (md_config serving_state)\<lparr> cfg_hostname := ''host7'' \<rparr> \<rparr>"

lemma serving_sizes:
  "length (ToBytes (question_message ''_http._tcp.local'' [RRTYPE_PTR])) = 34"
  "length (ToBytes (response_of (InAddr [10, 0, 0, 2]) ''host7.local'' (md_srvMap serving_state) [ptr_question ''_http._tcp.local''])) = 100"
  by code_simp+

theorem type_question_answered_witness:
  "\<exists>bytes m. ReceivePacket example_env 3 (ToBytes (question_message ''_http._tcp.local'' [RRTYPE_PTR])) serving_state
       = Some (emit (Multicast 3 bytes) hosted_state)
     \<and> FromBytes bytes = Some (m, PARSE_OK) \<and> map rr_rdata (ms_answers m) = [NameData ''web._http._tcp.local'']"
proof -
  have host: "GetHostDomain example_env serving_state = (''host7.local'', hosted_state)" by code_simp
  have names: "registry_ok (md_srvMap serving_state)" "dns_name ''_http._tcp.local''" "dns_name ''host7.local''"
    by (simp_all add: registry_ok_def serving_state_def dns_name_def name_ok.simps)
  have sock: "en_sockaddr example_env 3 = Some (InAddr [10, 0, 0, 2])" "rdata_ok (addr_type (InAddr [10, 0, 0, 2])) (InAddr [10, 0, 0, 2])"
    by (simp_all add: example_env_def addr_type_def)
  have "services_of ''_http._tcp.local'' (md_srvMap serving_state) = [(''web._http._tcp.local'', web_service)]"
    by (simp add: services_of_def serving_state_def flip: EndsWith_suffix) (simp add: EndsWith_def)
  with type_question_answered [OF names sock host] serving_sizes show ?thesis by fastforce
qed

text \<open>
  The comparison does not stop at a label: a service of the type \<open>_x_http._tcp\<close> is answered to the question for
  \<open>_http._tcp\<close> as well.
\<close>

lemma near_type_answered:
  "services_of ''_http._tcp.local'' [(''web._x_http._tcp.local'', web_service)] = [(''web._x_http._tcp.local'', web_service)]
   \<and> \<not> of_type ''_http._tcp.local'' (''web._x_http._tcp.local'', web_service)"
  by (simp add: services_of_def of_type_def flip: EndsWith_suffix) (simp add: EndsWith_def)

section \<open>Registering\<close>

lemma fullName_frame: "md_config s' = md_config s \<Longrightarrow> fullName s' r = fullName s r \<and> Decorated s' n = Decorated s n"
  by (simp add: fullName_def Decorated_def)

lemma GetHostDomain_config:
  "cfg_topDomain (md_config (snd (GetHostDomain env s))) = cfg_topDomain (md_config s)"
  by (simp add: GetHostDomain_def Let_def split: list.split option.split)

lemma GetHostDomain_again:
  assumes "GetHostDomain env s = (host, s1)" "md_config s2 = md_config s1"
  shows "GetHostDomain env s2 = (host, s2)"
  using assms by (auto simp: GetHostDomain_def Decorated_def Let_def split: list.splits option.splits)

lemma announcement_frame: "cfg_topDomain (md_config s') = cfg_topDomain (md_config s) \<Longrightarrow> announcement s' info off host = announcement s info off host"
  by (simp add: announcement_def fullName_def Decorated_def)

lemma GetHostDomain_fields:
  "md_srvMap (snd (GetHostDomain env s)) = md_srvMap s" "md_trace (snd (GetHostDomain env s)) = md_trace s"
  "md_registerMap (snd (GetHostDomain env s)) = md_registerMap s"
  by (simp_all add: GetHostDomain_def Let_def split: list.split option.split)

lemma Announce_unfold:
  "Announce env info off s = (if en_sends env (ToBytes (announcement s info off (fst (GetHostDomain env s)))) then 0 else NET_MDNS_ERR_SEND,
     emit (MulticastAll (ToBytes (announcement s info off (fst (GetHostDomain env s))))) (snd (GetHostDomain env s)))"
  by (simp add: Announce_def send_all_def split_beta Let_def)

text \<open>
  A service that has been registered is in the table under its full name, and it was announced. Unregistering it takes it out again, so that
  the table is what it was before, and the neighbours are told by the same records with a lifetime of zero.
\<close>

theorem register_then_unregister:
  assumes "om_wf (md_srvMap s)" and reg: "Register env info s = (NETMANAGER_EXT_SUCCESS, s1)"
    and unreg: "UnRegister env (res_serviceName info @ ''.'' @ res_serviceType info) s1 = (err, s2)"
  shows "om_get (md_srvMap s1) (fullName s info) = Some info \<and> err = NETMANAGER_EXT_SUCCESS \<and> md_srvMap s2 = md_srvMap s
    \<and> (\<exists>host. md_trace s2 = md_trace s @ [ListenerStart, MulticastAll (ToBytes (announcement s info False host)),
         MulticastAll (ToBytes (announcement s info True host))])"
proof -
  let ?s0 = "emit ListenerStart (s\<lparr> md_srvMap := om_put (fullName s info) info (md_srvMap s) \<rparr>)"
  let ?host = "fst (GetHostDomain env ?s0)"
  have new: "om_get (md_srvMap s) (fullName s info) = None" and ann: "Announce env info False ?s0 = (0, s1)"
    using reg by (auto simp: Register_def Let_def split: if_splits)
  have s1: "s1 = emit (MulticastAll (ToBytes (announcement s info False ?host))) (snd (GetHostDomain env ?s0))"
    using ann announcement_frame [of ?s0 s] by (auto simp: Announce_unfold emit_def)
  have top: "cfg_topDomain (md_config s1) = cfg_topDomain (md_config s)"
    using GetHostDomain_config [of env ?s0] by (simp add: s1 emit_def)
  then have name: "Decorated s1 (res_serviceName info @ ''.'' @ res_serviceType info) = fullName s info"
    by (simp add: fullName_def Decorated_def)
  have srv1: "md_srvMap s1 = om_put (fullName s info) info (md_srvMap s)"
    using GetHostDomain_fields(1) [of env ?s0] by (simp add: s1 emit_def)
  have host: "GetHostDomain env s1 = (?host, s1)"
    by (rule GetHostDomain_again [of env ?s0 _ "snd (GetHostDomain env ?s0)"]) (simp_all add: s1 emit_def)
  have s2: "err = 0" "s2 = (emit (MulticastAll (ToBytes (announcement s info True ?host))) s1)\<lparr> md_srvMap := md_srvMap s \<rparr>"
    using unreg new assms(1) announcement_frame [OF top]
    by (auto simp: UnRegister_def name [simplified] srv1 Announce_unfold host [simplified] Let_def emit_def om_del_put_new)
  have "md_trace s1 = md_trace s @ [ListenerStart, MulticastAll (ToBytes (announcement s info False ?host))]"
    using GetHostDomain_fields(2) [of env ?s0] by (simp add: s1 emit_def)
  then show ?thesis using s2 srv1 by (auto simp: emit_def)
qed

theorem register_then_unregister_witness:
  "md_srvMap (snd (UnRegister example_env ''web._http._tcp'' (snd (Register example_env web_service example_state)))) = md_srvMap example_state"
proof -
  let ?s1 = "snd (Register example_env web_service example_state)"
  have reg: "Register example_env web_service example_state = (NETMANAGER_EXT_SUCCESS, ?s1)"
    by (rule prod_eqI, code_simp, simp)
  have "om_wf (md_srvMap example_state)" by (simp add: example_state_def)
  moreover have "res_serviceName web_service @ ''.'' @ res_serviceType web_service = ''web._http._tcp''" by (simp add: web_service_def)
  ultimately show ?thesis using register_then_unregister [OF _ reg prod.collapse [symmetric]] by metis
qed

text \<open>
  When the announcement cannot be sent, registering returns an error but the service stays in the table: it is answered for from then on, the
  client cannot register it again, and the client cannot unregister it either.
\<close>

theorem failed_send_keeps_service:
  assumes reg: "RegisterService env info (Some cb) s = (NET_MDNS_ERR_SEND, s1)" and "om_get (md_registerMap s) cb = None"
  shows "om_get (md_srvMap s1) (Decorated s (info_name info @ ''.'' @ info_type info)) \<noteq> None
    \<and> fst (RegisterService env info (Some cb) s1) = NET_MDNS_ERR_SERVICE_INSTANCE_DUPLICATE
    \<and> UnRegisterService env (Some cb) s1 = (NET_MDNS_ERR_CALLBACK_NOT_FOUND, s1)"
proof -
  define r where "r = Result_default\<lparr> res_serviceName := info_name info, res_serviceType := info_type info,
                            res_port := info_port info, res_txt := info_txtRecord info \<rparr>"
  obtain s' where s': "Register env r s = (NET_MDNS_ERR_SEND, s')" "s1 = AddTask (RegisteredTask cb info NET_MDNS_ERR_SEND) True s'"
    using reg by (auto simp: RegisterService_def r_def [symmetric] Let_def split_beta prod_eq_iff)
  let ?s0 = "emit ListenerStart (s\<lparr> md_srvMap := om_put (fullName s r) r (md_srvMap s) \<rparr>)"
  have ok: "IsNameValid (res_serviceName r) \<and> IsTypeValid (res_serviceType r) \<and> IsPortValid (res_port r)" "IsDomainValid (fullName s r)"
    and ann: "Announce env r False ?s0 = (NET_MDNS_ERR_SEND, s')"
    using s'(1) by (auto simp: Register_def Let_def split: if_splits)
  have fields: "md_srvMap s1 = om_put (fullName s r) r (md_srvMap s)" "md_registerMap s1 = md_registerMap s"
    "cfg_topDomain (md_config s1) = cfg_topDomain (md_config s)"
    using ann GetHostDomain_fields [of env ?s0] GetHostDomain_config [of env ?s0]
    by (auto simp: s'(2) Announce_unfold AddTask_def emit_def Let_def)
  have name: "fullName s1 r = fullName s r" using fields(3) by (simp add: fullName_def Decorated_def)
  have "Register env r s1 = (NET_MDNS_ERR_SERVICE_INSTANCE_DUPLICATE, s1)" using ok by (simp add: Register_def name fields(1))
  then have "fst (RegisterService env info (Some cb) s1) = NET_MDNS_ERR_SERVICE_INSTANCE_DUPLICATE"
    by (simp add: RegisterService_def r_def [symmetric] Let_def)
  moreover have "fullName s r = Decorated s (info_name info @ ''.'' @ info_type info)" by (simp add: fullName_def r_def)
  moreover have "UnRegisterService env (Some cb) s1 = (NET_MDNS_ERR_CALLBACK_NOT_FOUND, s1)"
    using assms(2) by (simp add: UnRegisterService_def fields(2))
  ultimately show ?thesis by (simp add: fields(1))
qed

definition deaf_env :: mdns_env where
  "deaf_env = example_env\<lparr> en_sends := \<lambda>bytes. False \<rparr>"

definition web_info :: MDnsServiceInfo where
  "web_info = \<lparr> info_name = ''web'', info_type = ''_http._tcp'', info_family = - 1, info_addr = [], info_port = 80, info_txtRecord = [] \<rparr>"

theorem failed_send_keeps_service_witness:
  "fst (RegisterService deaf_env web_info (Some 1) example_state) = NET_MDNS_ERR_SEND
   \<and> fst (UnRegisterService deaf_env (Some 1) (snd (RegisterService deaf_env web_info (Some 1) example_state))) = NET_MDNS_ERR_CALLBACK_NOT_FOUND"
proof -
  have reg: "RegisterService deaf_env web_info (Some 1) example_state = (NET_MDNS_ERR_SEND, snd (RegisterService deaf_env web_info (Some 1) example_state))"
    by (rule prod_eqI, code_simp, simp)
  have "om_get (md_registerMap example_state) 1 = None" by (simp add: example_state_def)
  from failed_send_keeps_service [OF reg this] reg show ?thesis by (simp add: prod_eq_iff)
qed

section \<open>Discovery\<close>

lemma StopCbMap_fields:
  assumes "StopCbMap type s = (err, s1)"
  shows "md_discoveryMap s1 = md_discoveryMap s" "md_browserMap s1 = om_del (Decorated s type) (md_browserMap s)"
    "md_taskOnChange s1 = om_del (Decorated s type) (md_taskOnChange s)" "md_nameCbMap s1 = om_del (Decorated s type) (md_nameCbMap s)"
proof -
  have "md_discoveryMap (fold (\<lambda>r. emit (f r)) rs s) = md_discoveryMap s \<and> md_browserMap (fold (\<lambda>r. emit (f r)) rs s) = md_browserMap s
      \<and> md_taskOnChange (fold (\<lambda>r. emit (f r)) rs s) = md_taskOnChange s \<and> md_nameCbMap (fold (\<lambda>r. emit (f r)) rs s) = md_nameCbMap s"
    for f :: "Result \<Rightarrow> mdns_event" and rs s
    by (induction rs arbitrary: s) (simp_all add: emit_def)
  then show "md_discoveryMap s1 = md_discoveryMap s" "md_browserMap s1 = om_del (Decorated s type) (md_browserMap s)"
    "md_taskOnChange s1 = om_del (Decorated s type) (md_taskOnChange s)" "md_nameCbMap s1 = om_del (Decorated s type) (md_nameCbMap s)"
    using assms by (auto simp: StopCbMap_def Let_def split: option.splits)
qed

text \<open>
  The tables of discovery are kept per service type, not per client. When one of two clients that look for the same type stops, the other stays on the
  list of clients but nothing is kept for it: the services found, the event and the callback are gone, and the records that arrive afterwards are ignored.
\<close>

theorem stop_silences_others:
  assumes stop: "StopDiscoverService (Some c1) s = (err, s1)" and types: "om_get (md_discoveryMap s) c1 = Some type"
    "om_get (md_discoveryMap s) c2 = Some type" and "c1 \<noteq> c2"
    and rr: "rr_name rr = Decorated s type"
  shows "om_get (md_discoveryMap s1) c2 = Some type \<and> om_get (md_nameCbMap s1) (Decorated s type) = None
    \<and> events_on s1 (Decorated s type) = [] \<and> UpdatePtr rr (s1, changed) = (s1, changed)"
proof -
  let ?s = "s\<lparr> md_discoveryMap := om_del c1 (md_discoveryMap s) \<rparr>"
  have "StopCbMap type ?s = (err, s1)" using stop types(1) by (simp add: StopDiscoverService_def)
  note fields = StopCbMap_fields [OF this]
  have name: "Decorated ?s type = Decorated s type" by (simp add: Decorated_def)
  have "om_get (md_browserMap s1) (rr_name rr) = None" by (simp add: fields name rr)
  then have "UpdatePtr rr (s1, changed) = (s1, changed)" by (simp add: UpdatePtr_def Let_def split: rdata.split)
  then show ?thesis using types(2) assms(4) by (simp add: fields name events_on_def)
qed

definition two_clients :: mdns where
  "two_clients = snd (StartDiscoverService ''_http._tcp'' (Some 2) (snd (StartDiscoverService ''_http._tcp'' (Some 1) example_state)))"

theorem stop_silences_others_witness:
  "om_get (md_discoveryMap (snd (StopDiscoverService (Some 1) two_clients))) 2 = Some ''_http._tcp''
   \<and> events_on (snd (StopDiscoverService (Some 1) two_clients)) ''_http._tcp.local'' = []"
proof -
  have types: "om_get (md_discoveryMap two_clients) 1 = Some ''_http._tcp''" "om_get (md_discoveryMap two_clients) 2 = Some ''_http._tcp''"
    and name: "Decorated two_clients ''_http._tcp'' = ''_http._tcp.local''" by code_simp+
  have rr: "rr_name (record_of ''_http._tcp.local'' RRTYPE_PTR 120 NoData) = Decorated two_clients ''_http._tcp''"
    by (simp add: record_of_def name)
  from stop_silences_others [OF prod.collapse [symmetric] types _ rr] name show ?thesis by simp
qed

text \<open>The packets of a neighbour: its announcement of a service by a pointer alone, and its goodbye.\<close>

definition ptr_packet :: "u32 \<Rightarrow> buffer" where
  "ptr_packet ttl = ToBytes (answer_message\<lparr> ms_answers := [record_of ''_http._tcp.local'' RRTYPE_PTR ttl (NameData ''tv._http._tcp.local'')] \<rparr>)"

definition browsing_state :: mdns where
  "browsing_state = snd (StartDiscoverService ''_http._tcp'' (Some 1) example_state)"

definition tv_info :: MDnsServiceInfo where
  "tv_info = \<lparr> info_name = ''tv'', info_type = ''_http._tcp'', info_family = - 1, info_addr = [], info_port = - 1, info_txtRecord = [] \<rparr>"

text \<open>
  A service of which only the pointer is known says goodbye: the client, which was told that the service is there, is told so once more instead of
  being told that it is lost.
\<close>

theorem goodbye_reported_as_found:
  "map_option md_trace (do { s1 \<leftarrow> ReceivePacket example_env 3 (ptr_packet 120) browsing_state; ReceivePacket example_env 3 (ptr_packet 0) s1 })
     = Some (md_trace browsing_state @ [HandleServiceFound 1 tv_info, HandleServiceFound 1 tv_info])"
  by code_simp

definition srv_packet :: "u32 \<Rightarrow> buffer" where
  "srv_packet ttl = ToBytes (answer_message\<lparr> ms_answers := [record_of ''tv._http._tcp.local'' RRTYPE_SRV ttl (srv_data 80 ''tv.local'')] \<rparr>)"

text \<open>
  The place of a service that said goodbye stays in the cache, marked for removal: its lifetime of zero keeps \<open>KillCache\<close> away from it. When the service
  comes back, the mark is still there, and now the entry is removed.
\<close>

theorem reannouncement_erased:
  "map_option (\<lambda>s. om_get (md_cacheMap s) ''tv._http._tcp.local'')
     (do { s1 \<leftarrow> ReceivePacket example_env 3 (srv_packet 120) browsing_state;
           s2 \<leftarrow> ReceivePacket example_env 3 (srv_packet 0) s1;
           ReceivePacket example_env 3 (srv_packet 120) s2 }) = Some None"
  by code_simp

text \<open>A callback that registers two services is remembered with the first only: the second service stays in the table for good.\<close>

theorem second_service_stuck:
  "let s1 = snd (RegisterService example_env web_info (Some 1) example_state);
       s2 = snd (RegisterService example_env (web_info\<lparr> info_name := ''tv'' \<rparr>) (Some 1) s1);
       (err3, s3) = UnRegisterService example_env (Some 1) s2;
       (err4, s4) = UnRegisterService example_env (Some 1) s3
   in err3 = NETMANAGER_EXT_SUCCESS \<and> err4 = NET_MDNS_ERR_CALLBACK_NOT_FOUND \<and> map fst (md_srvMap s4) = [''tv._http._tcp.local'']"
  by code_simp

end
