(* ===== verification/Mdns_Reach.thy ===== *)
theory Mdns_Reach
  imports Mdns_Responder
begin

text \<open>
  The multicast DNS component under any sequence of client calls, packets, timer rounds and configuration changes: the step relation, and
  what holds in every state it reaches.
\<close>

inductive mdns_step :: "mdns_env \<Rightarrow> mdns \<Rightarrow> mdns \<Rightarrow> bool" for env where
  register: "mdns_step env s (snd (RegisterService env info cb s))"
| unregister: "mdns_step env s (snd (UnRegisterService env cb s))"
| discover: "mdns_step env s (snd (StartDiscoverService serviceType cb s))"
| stop: "mdns_step env s (snd (StopDiscoverService cb s))"
| resolve: "mdns_step env s (snd (ResolveService env info cb s))"
| packet: "ReceivePacket env sock payload s = Some s' \<Longrightarrow> mdns_step env s s'"
| finished: "mdns_step env s (on_finished env s)"
| restart: "mdns_step env s (RestartMDnsProtocolImpl s)"
| screen: "mdns_step env s (SetScreenState on s)"
| config: "mdns_step env s (SetConfig c s)"
| clock: "mdns_step env s (s\<lparr> md_now := t \<rparr>)"

definition mdns_initial :: "mdns \<Rightarrow> bool" where
  "mdns_initial s = (md_srvMap s = [] \<and> md_browserMap s = [] \<and> md_nameCbMap s = [])"

inductive mdns_reachable :: "mdns_env \<Rightarrow> mdns \<Rightarrow> bool" for env where
  initial: "mdns_initial s \<Longrightarrow> mdns_reachable env (Init s)"
| step: "mdns_reachable env s \<Longrightarrow> mdns_step env s s' \<Longrightarrow> mdns_reachable env s'"

text \<open>
  Every service in the table has a valid name, type and port under a full name of legal size; the services found under a type have different names;
  a callback for a type has a list of services to report from.
\<close>

type_synonym mdns_core = "(string, Result) omap \<times> (string, Result list) omap \<times> (string, nat) omap"

definition core_of :: "mdns \<Rightarrow> mdns_core" where
  "core_of s = (md_srvMap s, md_browserMap s, md_nameCbMap s)"

definition service_valid :: "string \<Rightarrow> Result \<Rightarrow> bool" where
  "service_valid name r = (IsNameValid (res_serviceName r) \<and> IsTypeValid (res_serviceType r) \<and> IsPortValid (res_port r) \<and> IsDomainValid name)"

definition core_ok :: "mdns_core \<Rightarrow> bool" where
  "core_ok c = (case c of (srvMap, browserMap, nameCbMap) \<Rightarrow>
     (\<forall>name r. om_get srvMap name = Some r \<longrightarrow> service_valid name r)
     \<and> (\<forall>key rs. om_get browserMap key = Some rs \<longrightarrow> distinct (map res_serviceName rs))
     \<and> (\<forall>key cb. om_get nameCbMap key = Some cb \<longrightarrow> om_get browserMap key \<noteq> None))"

definition mdns_inv :: "mdns \<Rightarrow> bool" where
  "mdns_inv s = core_ok (core_of s)"

section \<open>What leaves the tables alone\<close>

lemma core_frame [simp]:
  "core_of (emit e s) = core_of s" "core_of (touch_cache key s) = core_of s" "core_of (put_cache key r s) = core_of s"
  "core_of (snd (send_all env msg s)) = core_of s" "core_of (notify_resolved cb info s) = core_of s"
  "core_of (AddTask t now s) = core_of s" "core_of (AddEvent key t s) = core_of s" "core_of (put_events key ts s) = core_of s"
  "core_of (s\<lparr> md_cacheMap := cm \<rparr>) = core_of s" "core_of (s\<lparr> md_lastRunTime := n \<rparr>) = core_of s"
  "core_of (s\<lparr> md_registerMap := rm \<rparr>) = core_of s" "core_of (s\<lparr> md_discoveryMap := dm \<rparr>) = core_of s" "core_of (s\<lparr> md_now := n \<rparr>) = core_of s"
  "core_of (s\<lparr> md_config := c \<rparr>) = core_of s" "core_of (s\<lparr> md_taskQueue := ts, md_taskOnChange := tc \<rparr>) = core_of s"
  "core_of (SetScreenState on s) = core_of s" "core_of (SetConfig c s) = core_of s" "core_of (set_queue q ts s) = core_of s"
  by (simp_all add: core_of_def emit_def touch_cache_def put_cache_def send_all_def notify_resolved_def AddTask_def AddEvent_def put_events_def
      SetScreenState_def SetConfig_def Let_def split: option.split) (cases q; simp add: put_events_def)+

lemma core_frame_calls [simp]:
  "core_of (snd (GetHostDomain env s)) = core_of s" "core_of (snd (Announce env info off s)) = core_of s"
  "core_of (snd (IsCacheAvailable key s)) = core_of s" "core_of (snd (IsDomainCacheAvailable key s)) = core_of s"
  "core_of (snd (IsInstanceCacheAvailable key s)) = core_of s" "core_of (snd (ResolveFromCache domain cb s)) = core_of s"
  "core_of (snd (ResolveFromNet env domain cb s)) = core_of s" "core_of (snd (ResolveInstanceFromCache env name cb s)) = core_of s"
  "core_of (snd (ResolveInstanceFromNet env name cb s)) = core_of s" "core_of (Init s) = core_of s"
proof -
  show host: "core_of (snd (GetHostDomain env s)) = core_of s" for s
    by (simp add: GetHostDomain_def Let_def split: list.split option.split)
  show "core_of (snd (Announce env info off s)) = core_of s" by (simp add: Announce_unfold host)
  show "core_of (snd (IsCacheAvailable key s)) = core_of s" "core_of (snd (IsDomainCacheAvailable key s)) = core_of s"
    "core_of (snd (IsInstanceCacheAvailable key s)) = core_of s" for key s
    by (simp_all add: IsCacheAvailable_def IsDomainCacheAvailable_def IsInstanceCacheAvailable_def Let_def split_beta)
  note available = this
  show "core_of (snd (ResolveFromCache domain cb s)) = core_of s" by (simp add: ResolveFromCache_def Let_def split_beta available)
  show net: "core_of (snd (ResolveFromNet env domain cb s)) = core_of s" for domain cb s by (simp add: ResolveFromNet_def Let_def)
  show "core_of (snd (ResolveInstanceFromCache env name cb s)) = core_of s"
    by (simp add: ResolveInstanceFromCache_def Let_def split_beta available net)
  show "core_of (snd (ResolveInstanceFromNet env name cb s)) = core_of s" by (simp add: ResolveInstanceFromNet_def Let_def split_beta)
  show "core_of (Init s) = core_of s" by (simp add: Init_def Let_def)
qed

lemma core_frame_update [simp]: "core_of (fst (finish_cache rr r st)) = core_of (fst st)"
  by (simp add: finish_cache_def Let_def split_beta)

lemma core_frame_fold [simp]: "(\<And>x s. core_of (f x s) = core_of s) \<Longrightarrow> core_of (fold f xs s) = core_of s"
  by (induction xs arbitrary: s) simp_all

section \<open>What changes them\<close>

lemma inv_frame: "core_of s' = core_of s \<Longrightarrow> mdns_inv s \<Longrightarrow> mdns_inv s'"
  by (simp add: mdns_inv_def)

lemma inv_put_browser: "mdns_inv s \<Longrightarrow> distinct (map res_serviceName rs) \<Longrightarrow> mdns_inv (put_browser key rs s)"
  by (auto simp: mdns_inv_def core_ok_def core_of_def put_browser_def)

lemma inv_browsed: "mdns_inv s \<Longrightarrow> distinct (map res_serviceName (browsed s key))"
  by (simp add: mdns_inv_def core_ok_def core_of_def browsed_def split: option.split)

lemma handle_offline_core: "core_of (snd (handle_offline env key rs s)) = core_of s"
  by (induction rs arbitrary: s) (simp_all add: Let_def split_beta split: option.split)

lemma handle_offline_names:
  "set (map res_serviceName (fst (handle_offline env key rs s))) \<subseteq> set (map res_serviceName rs)
   \<and> (distinct (map res_serviceName rs) \<longrightarrow> distinct (map res_serviceName (fst (handle_offline env key rs s))))"
proof (induction rs arbitrary: s)
  case (Cons r rs)
  have "\<exists>s1 r'. res_serviceName r' = res_serviceName r \<and>
      (fst (handle_offline env key (r # rs) s) = fst (handle_offline env key rs s1) \<or> fst (handle_offline env key (r # rs) s) = r' # fst (handle_offline env key rs s1))"
    by (simp add: Let_def split_beta) force
  then obtain s1 r' where "res_serviceName r' = res_serviceName r"
    "fst (handle_offline env key (r # rs) s) = fst (handle_offline env key rs s1) \<or> fst (handle_offline env key (r # rs) s) = r' # fst (handle_offline env key rs s1)" by blast
  then show ?case using Cons.IH [of s1] by (elim disjE) (auto simp del: handle_offline.simps)
qed simp

lemma kill_browsed_core: "core_of (snd (kill_browsed key rs s)) = core_of s"
  by (induction rs arbitrary: s) (simp_all add: Let_def split_beta split: option.split)

lemma kill_browsed_names:
  "set (map res_serviceName (fst (kill_browsed key rs s))) \<subseteq> set (map res_serviceName rs)
   \<and> (distinct (map res_serviceName rs) \<longrightarrow> distinct (map res_serviceName (fst (kill_browsed key rs s))))"
proof (induction rs arbitrary: s)
  case (Cons r rs)
  have "\<exists>s1 r'. res_serviceName r' = res_serviceName r \<and>
      (fst (kill_browsed key (r # rs) s) = fst (kill_browsed key rs s1) \<or> fst (kill_browsed key (r # rs) s) = r' # fst (kill_browsed key rs s1))"
  proof (cases "res_state r = REMOVE")
    case True
    then show ?thesis by (simp add: Let_def) blast
  next
    case False
    then show ?thesis
      by (intro exI [of _ s] exI [of _ "if res_state r = ADD \<or> res_state r = REFRESH then r\<lparr> res_state := LIVE \<rparr> else r"])
        (simp add: Let_def split_beta)
  qed
  then obtain s1 r' where "res_serviceName r' = res_serviceName r"
    "fst (kill_browsed key (r # rs) s) = fst (kill_browsed key rs s1) \<or> fst (kill_browsed key (r # rs) s) = r' # fst (kill_browsed key rs s1)" by blast
  then show ?case using Cons.IH [of s1] by (elim disjE) (auto simp del: kill_browsed.simps)
qed simp

lemma discovery_pass_core: "core_of (snd (discovery_pass cb rs s)) = core_of s"
proof (induction rs arbitrary: s)
  case (Cons r rs)
  have "core_of (snd (discovery_one cb r s)) = core_of s" by (simp add: discovery_one_def Let_def)
  with Cons show ?case by (simp add: Let_def split_beta)
qed simp

lemma discovery_pass_names: "map res_serviceName (fst (discovery_pass cb rs s)) = map res_serviceName rs"
  by (induction rs arbitrary: s) (simp_all add: discovery_one_def Let_def split_beta)

lemma inv_browse_one: "mdns_inv s \<Longrightarrow> mdns_inv (browse_one env key s)"
proof -
  assume inv: "mdns_inv s"
  obtain rs s' where off: "handle_offline env key (browsed s key) s = (rs, s')" by fastforce
  then have "core_of s' = core_of s" "distinct (map res_serviceName rs)"
    using handle_offline_core [of env key "browsed s key" s] handle_offline_names [of env key "browsed s key" s] inv_browsed [OF inv, of key] by simp_all
  then have "mdns_inv (handleOfflineService env key s)"
    using inv inv_frame [of s' s] by (simp add: handleOfflineService_def off inv_put_browser)
  then show ?thesis
    using inv inv_frame [of "snd (send_all env m (handleOfflineService env key s))" "handleOfflineService env key s" for m]
    by (simp add: browse_one_def split: option.split)
qed

lemma inv_fold: "(\<And>x s. mdns_inv s \<Longrightarrow> mdns_inv (f x s)) \<Longrightarrow> mdns_inv s \<Longrightarrow> mdns_inv (fold f xs s)"
  by (induction xs arbitrary: s) simp_all

lemma inv_run_task: "mdns_inv s \<Longrightarrow> mdns_inv (snd (run_task env t s))"
proof (cases t)
  case BrowseTask
  assume "mdns_inv s"
  moreover from this have "mdns_inv (s\<lparr> md_lastRunTime := n \<rparr>)" for n by (rule inv_frame [rotated]) simp
  ultimately show ?thesis by (simp add: BrowseTask Browse_def inv_fold inv_browse_one)
next
  case (DiscoveryEvent name cb)
  assume inv: "mdns_inv s"
  obtain rs s' where pass: "discovery_pass cb (browsed s name) s = (rs, s')" by fastforce
  then have "mdns_inv s'" "distinct (map res_serviceName rs)"
    using inv discovery_pass_core [of cb "browsed s name" s] discovery_pass_names [of cb "browsed s name" s] inv_browsed [OF inv, of name] inv_frame [of s' s]
    by simp_all
  then show ?thesis using inv by (simp add: DiscoveryEvent discovery_event_def pass inv_put_browser)
qed (rule inv_frame [rotated], assumption, simp add: Let_def split_beta)+

lemma inv_RunTaskQueue: "mdns_inv s \<Longrightarrow> mdns_inv (RunTaskQueue env q s)"
proof -
  have "mdns_inv s \<Longrightarrow> mdns_inv (run_queue env q i tmp s)" for i tmp
  proof (induction env q i tmp s rule: run_queue.induct)
    case (1 env q i tmp s)
    show ?case
    proof (cases "i < length (queue_of q s)")
      case True
      then show ?thesis
        using "1.IH" [OF True refl refl prod.collapse] inv_run_task [OF "1.prems", of env "queue_of q s ! i"]
        by (subst run_queue.simps) (simp add: Let_def split_beta)
    next
      case False
      then show ?thesis using inv_frame [OF _ "1.prems"] by (subst run_queue.simps) simp
    qed
  qed
  then show "mdns_inv s \<Longrightarrow> mdns_inv (RunTaskQueue env q s)" by (simp add: RunTaskQueue_def)
qed

lemma find_ex: "list_ex P xs \<Longrightarrow> P (the (find P xs))"
  by (induction xs) auto

lemma update_first_map: "(\<And>x. P x \<Longrightarrow> g (f x) = g x) \<Longrightarrow> map g (update_first P f xs) = map g xs"
  by (induction xs) auto

lemma settle_update_name [simp]: "res_serviceName (fst (settle_update rr now r name changed)) = res_serviceName r"
  by (simp add: settle_update_def Let_def)

lemma inv_UpdatePtr: "mdns_inv (fst st) \<Longrightarrow> mdns_inv (fst (UpdatePtr rr st))"
proof -
  assume inv: "mdns_inv (fst st)"
  show ?thesis
  proof (cases "\<exists>data rs. rr_rdata rr = NameData data \<and> om_get (md_browserMap (fst st)) (rr_name rr) = Some rs
      \<and> fst (ExtractNameAndType data ([], [])) \<noteq> [] \<and> snd (ExtractNameAndType data ([], [])) \<noteq> []")
    case True
    then obtain data rs n ty where data: "rr_rdata rr = NameData data" "om_get (md_browserMap (fst st)) (rr_name rr) = Some rs"
      "ExtractNameAndType data ([], []) = (n, ty)" "n \<noteq> []" "ty \<noteq> []" by (metis prod.collapse)
    define this where "this = (\<lambda>r :: Result. res_serviceName r = n)"
    define rs1 where "rs1 = (if list_ex this rs then rs
        else rs @ [Result_default\<lparr> res_serviceName := n, res_serviceType := ty, res_state := ADD \<rparr>])"
    define r1 where "r1 = (let r = the (find this rs1) in if res_state r = DEAD then r\<lparr> res_state := REFRESH \<rparr> else r)"
    have "list_ex this rs1" by (simp add: rs1_def this_def)
    then have name: "res_serviceName r1 = n" using find_ex [of this rs1] by (simp add: r1_def this_def Let_def)
    have "distinct (map res_serviceName rs)" using inv_browsed [OF inv, of "rr_name rr"] data(2) by (simp add: browsed_def)
    then have "distinct (map res_serviceName rs1)" by (auto simp: rs1_def this_def list_ex_iff)
    moreover obtain r2 changed' where r2: "settle_update rr (md_now (fst st)) r1 (rr_name rr) (snd st) = (r2, changed')" by fastforce
    moreover have "map res_serviceName (update_first this (\<lambda>_. r2) rs1) = map res_serviceName rs1"
      using settle_update_name [of rr "md_now (fst st)" r1 "rr_name rr" "snd st"] r2 name by (intro update_first_map) (simp add: this_def)
    moreover have "UpdatePtr rr st = (put_browser (rr_name rr) (update_first this (\<lambda>_. r2) rs1) (fst st), changed')"
      using data r2 by (simp add: UpdatePtr_def split_beta Let_def this_def rs1_def r1_def split del: if_split cong: if_cong)
    ultimately show ?thesis using inv_put_browser [OF inv] by simp
  next
    case False
    then have "fst (UpdatePtr rr st) = fst st" by (auto simp: UpdatePtr_def Let_def split_beta split: rdata.split option.split)
    then show ?thesis using inv by simp
  qed
qed

lemma inv_ProcessAnswerRecord: "mdns_inv (fst st) \<Longrightarrow> mdns_inv (fst (ProcessAnswerRecord env v6 rr st))"
proof -
  assume inv: "mdns_inv (fst st)"
  have "core_of (fst (UpdateSrv rr st)) = core_of (fst st)" "core_of (fst (UpdateTxt rr st)) = core_of (fst st)"
    "core_of (fst (UpdateAddr env v6 rr st)) = core_of (fst st)"
    by (simp_all add: UpdateSrv_def UpdateTxt_def UpdateAddr_def Let_def split: rdata.split)
  then show ?thesis
    using inv inv_UpdatePtr [OF inv] inv_frame [OF _ inv] by (simp add: ProcessAnswerRecord_def Let_def)
qed

lemma inv_KillCache: "mdns_inv s \<Longrightarrow> mdns_inv (KillCache key s)"
proof -
  assume inv: "mdns_inv s"
  define s1 where "s1 = (if IsBrowserAvailable s key then let (rs, s') = kill_browsed key (browsed s key) s in put_browser key rs s' else s)"
  have "mdns_inv s1"
  proof (cases "IsBrowserAvailable s key")
    case True
    obtain rs s' where kill: "kill_browsed key (browsed s key) s = (rs, s')" by fastforce
    then have "mdns_inv s'" "distinct (map res_serviceName rs)"
      using inv kill_browsed_core [of key "browsed s key" s] kill_browsed_names [of key "browsed s key" s] inv_browsed [OF inv, of key] inv_frame [of s' s]
      by simp_all
    then show ?thesis using True by (simp add: s1_def kill inv_put_browser)
  qed (simp add: s1_def inv)
  moreover have "core_of (KillCache key s) = core_of s1"
    by (simp add: KillCache_def s1_def [symmetric] Let_def split_beta)
  ultimately show ?thesis using inv_frame by blast
qed

lemma inv_ReceivePacket: "mdns_inv s \<Longrightarrow> ReceivePacket env sock payload s = Some s' \<Longrightarrow> mdns_inv s'"
proof -
  assume inv: "mdns_inv s" and rcv: "ReceivePacket env sock payload s = Some s'"
  have answer: "mdns_inv (ProcessAnswer env sock msg s)" for msg
  proof (cases "en_sockaddr env sock")
    case (Some a)
    have records: "mdns_inv (fst (fold (ProcessAnswerRecord env v6) rrs st))" if "mdns_inv (fst st)" for v6 rrs st
      using that by (induction rrs arbitrary: st) (simp_all add: inv_ProcessAnswerRecord)
    show ?thesis
      using inv by (auto simp: ProcessAnswer_def Some Let_def split_beta intro!: inv_fold inv_KillCache inv_RunTaskQueue records)
  qed (simp add: ProcessAnswer_def inv)
  have question: "mdns_inv s''" if "ProcessQuestion env sock msg s = Some s''" for msg s''
    using that inv_frame [OF _ inv, of "snd (GetHostDomain env s)"] inv
    by (auto simp: ProcessQuestion_def Let_def split_beta mdns_inv_def split: option.splits bind_splits if_splits)
  show ?thesis using rcv inv answer question by (auto simp: ReceivePacket_def split: if_splits bind_splits)
qed

lemma inv_Discovery: "mdns_inv s \<Longrightarrow> mdns_inv (snd (Discovery type cb s))"
proof -
  assume inv: "mdns_inv s"
  have "core_of (DiscoveryFromCache type cb s) = core_of s" by (simp add: DiscoveryFromCache_def Let_def)
  then have "mdns_inv (DiscoveryFromCache type cb s)" using inv inv_frame by blast
  moreover have "mdns_inv (DiscoveryFromNet type cb t)" if "mdns_inv t" for t
    using that by (auto simp: DiscoveryFromNet_def Let_def mdns_inv_def) (auto simp: core_ok_def core_of_def put_browser_def)
  ultimately show ?thesis by (simp add: Discovery_def mdns_inv_def)
qed

lemma inv_StopCbMap: "mdns_inv s \<Longrightarrow> mdns_inv (snd (StopCbMap type s))"
proof -
  assume inv: "mdns_inv s"
  obtain err s1 where stop: "StopCbMap type s = (err, s1)" by fastforce
  have "md_srvMap (fold (\<lambda>r. emit (f r)) rs t) = md_srvMap t" for f :: "Result \<Rightarrow> mdns_event" and rs t
    by (induction rs arbitrary: t) (simp_all add: emit_def)
  then have "md_srvMap s1 = md_srvMap s" using stop by (auto simp: StopCbMap_def Let_def split: option.splits)
  then show ?thesis using StopCbMap_fields [OF stop] inv by (auto simp: stop mdns_inv_def core_ok_def core_of_def)
qed

lemma inv_RegisterService: "mdns_inv s \<Longrightarrow> mdns_inv (snd (RegisterService env info cb s))"
proof -
  assume inv: "mdns_inv s"
  have "mdns_inv (snd (Register env r s))" for r
    using inv by (auto simp: Register_def Let_def mdns_inv_def) (auto simp: core_of_def core_ok_def service_valid_def split: if_splits)
  then show ?thesis using inv by (auto simp: RegisterService_def Let_def split_beta mdns_inv_def split: option.split)
qed

lemma inv_UnRegisterService: "mdns_inv s \<Longrightarrow> mdns_inv (snd (UnRegisterService env cb s))"
proof -
  assume inv: "mdns_inv s"
  have drop: "mdns_inv t \<Longrightarrow> mdns_inv (t\<lparr> md_srvMap := om_del k (md_srvMap t) \<rparr>)" for t k
    by (auto simp: mdns_inv_def core_ok_def core_of_def)
  have "mdns_inv (snd (UnRegister env key s))" for key
    using inv by (auto simp: UnRegister_def Let_def split_beta split: option.split intro!: drop inv_frame [OF core_frame_calls(2) inv])
  then show ?thesis using inv by (auto simp: UnRegisterService_def Let_def split_beta mdns_inv_def split: option.split)
qed

lemma inv_step:
  assumes "mdns_step env s s'" "mdns_inv s"
  shows "mdns_inv s'"
  using assms
proof cases
  case (discover serviceType cb)
  then show ?thesis
    using assms(2) inv_Discovery [OF inv_frame [OF core_frame(12) assms(2)]] by (auto simp: StartDiscoverService_def split: option.split)
next
  case (stop cb)
  then show ?thesis
    using assms(2) inv_StopCbMap [OF inv_frame [OF core_frame(12) assms(2)]] by (auto simp: StopDiscoverService_def split: option.split)
next
  case (resolve info cb)
  then show ?thesis
    using assms(2) by (auto simp: ResolveService_def ResolveInstance_def Let_def split_beta mdns_inv_def split: option.split)
next
  case restart
  have "mdns_inv (Init s)" using assms(2) by (simp add: mdns_inv_def)
  then show ?thesis
    unfolding restart RestartMDnsProtocolImpl_def RestartDiscoverService_def
    by (intro inv_fold) (auto intro!: inv_Discovery inv_StopCbMap)
qed (use assms(2) in \<open>auto simp: on_finished_def intro: inv_RegisterService inv_UnRegisterService inv_ReceivePacket inv_RunTaskQueue
      inv_frame [rotated]\<close>)

text \<open>
  C30. In every state the component can reach, whatever its clients and neighbours do: each service it answers for has a valid name, type and port and a full name
  of legal size; under each service type, every found service is listed once; and a type with a callback has its list.
\<close>

theorem mdns_tables_ok:
  assumes "mdns_reachable env s"
  shows "(\<forall>name r. om_get (md_srvMap s) name = Some r \<longrightarrow> service_valid name r)
    \<and> (\<forall>key rs. om_get (md_browserMap s) key = Some rs \<longrightarrow> distinct (map res_serviceName rs))
    \<and> (\<forall>key cb. om_get (md_nameCbMap s) key = Some cb \<longrightarrow> om_get (md_browserMap s) key \<noteq> None)"
proof -
  from assms have "mdns_inv s"
  proof induction
    case (initial s)
    then show ?case by (simp add: mdns_inv_def) (simp add: core_ok_def core_of_def mdns_initial_def)
  qed (rule inv_step)
  then show ?thesis by (simp add: mdns_inv_def core_ok_def core_of_def)
qed

lemma example_reachable: "mdns_reachable example_env (snd (RegisterService example_env web_info (Some 1) (Init example_state)))"
  by (rule mdns_reachable.step [OF mdns_reachable.initial mdns_step.register]) (simp add: mdns_initial_def example_state_def)

theorem mdns_tables_ok_witness:
  "\<exists>r. om_get (md_srvMap (snd (RegisterService example_env web_info (Some 1) (Init example_state)))) ''web._http._tcp.local'' = Some r
     \<and> service_valid ''web._http._tcp.local'' r"
proof -
  have "om_get (md_srvMap (snd (RegisterService example_env web_info (Some 1) (Init example_state)))) ''web._http._tcp.local'' \<noteq> None"
    by code_simp
  then show ?thesis using mdns_tables_ok [OF example_reachable] by blast
qed

end
