(* ===== verification/Hash_Map.thy ===== *)
theory Hash_Map
  imports Prelude
begin

text \<open>
  The string map of the C interface of the HTTP client (\<open>netstack_hash_map.cpp\<close>): an array of chains that doubles when every
  chain is occupied. A chain owns its nodes, so it is a list; values are addresses, 0 the null pointer; a null map or key is \<open>None\<close>.
  Whether an allocation succeeds, and whether \<open>char\<close> is signed, are parameters.
\<close>

section \<open>Model\<close>

abbreviation OH_HTTP_RESULT_OK :: u32 where "OH_HTTP_RESULT_OK \<equiv> 0"
abbreviation OH_HTTP_PARAMETER_ERROR :: u32 where "OH_HTTP_PARAMETER_ERROR \<equiv> 401"
abbreviation OH_HTTP_OUT_OF_MEMORY :: u32 where "OH_HTTP_OUT_OF_MEMORY \<equiv> 2300027"
abbreviation DEFAULT_MAP_CAPACITY :: u32 where "DEFAULT_MAP_CAPACITY \<equiv> 16"
abbreviation MAX_MAP_CAPACITY :: u32 where "MAX_MAP_CAPACITY \<equiv> 16384"

type_synonym hm_chain = "(string \<times> nat) list"

record Netstack_HashMap =
  hm_entries :: "hm_chain list"
  hm_size :: u32
  hm_capacity :: u32

text \<open>The answers of \<open>calloc\<close> in a resize, \<open>malloc\<close> for a node and \<open>strdup\<close> for its key.\<close>

record hm_alloc =
  al_resize :: bool
  al_entry :: bool
  al_key :: bool

definition char_value :: "bool \<Rightarrow> char \<Rightarrow> u32" where
  "char_value sc c = (let n = of_char c :: int in of_int (if sc \<and> 128 \<le> n then n - 256 else n))"

definition Netstack_Hash :: "bool \<Rightarrow> string \<Rightarrow> u32 \<Rightarrow> u32" where
  "Netstack_Hash sc key capacity = fold (\<lambda>c hash. 31 * hash + char_value sc c) key 0 mod capacity"

definition CreateMap :: "bool \<Rightarrow> bool \<Rightarrow> Netstack_HashMap option" where
  "CreateMap map_allocated entries_allocated =
     (if \<not> map_allocated then None
      else if \<not> entries_allocated then None
      else Some \<lparr> hm_entries = replicate 16 [], hm_size = 0, hm_capacity = DEFAULT_MAP_CAPACITY \<rparr>)"

fun insert_after_first :: "string \<times> nat \<Rightarrow> hm_chain \<Rightarrow> hm_chain" where
  "insert_after_first e [] = [e]"
| "insert_after_first e (x # xs) = x # e # xs"

fun Netstack_RehashEntry :: "bool \<Rightarrow> hm_chain \<Rightarrow> u32 \<Rightarrow> hm_chain list \<Rightarrow> u32 \<times> hm_chain list" where
  "Netstack_RehashEntry sc [] newCapacity newEntries = (0, newEntries)"
| "Netstack_RehashEntry sc (e # es) newCapacity newEntries =
     (let newHash = unat (Netstack_Hash sc (fst e) newCapacity);
          (n, entries') = Netstack_RehashEntry sc es newCapacity (newEntries[newHash := insert_after_first e (newEntries ! newHash)])
      in (if newEntries ! newHash = [] then n + 1 else n, entries'))"

definition NetstackInvalidMap :: "Netstack_HashMap option \<Rightarrow> bool" where
  "NetstackInvalidMap mp = (case mp of None \<Rightarrow> True | Some m \<Rightarrow> hm_capacity m < DEFAULT_MAP_CAPACITY \<or> MAX_MAP_CAPACITY < hm_capacity m)"

definition NetstackResizeMap :: "bool \<Rightarrow> bool \<Rightarrow> Netstack_HashMap \<Rightarrow> u32 \<times> Netstack_HashMap" where
  "NetstackResizeMap sc allocated m =
     (if MAX_MAP_CAPACITY \<le> hm_capacity m then (OH_HTTP_PARAMETER_ERROR, m)
      else if \<not> allocated then (OH_HTTP_OUT_OF_MEMORY, m)
      else
        let newCapacity = hm_capacity m * 2;
            (n, newEntries) = fold (\<lambda>chain (n, entries).
                let (k, entries') = Netstack_RehashEntry sc chain newCapacity entries in (n + k, entries'))
              (filter (\<lambda>chain. chain \<noteq> []) (hm_entries m)) (0, replicate (unat newCapacity) [])
        in (OH_HTTP_RESULT_OK, \<lparr> hm_entries = newEntries, hm_size = n, hm_capacity = newCapacity \<rparr>))"

text \<open>The loop that replaces the value of the first node with the key.\<close>

fun replace_value :: "string \<Rightarrow> nat \<Rightarrow> hm_chain \<Rightarrow> hm_chain" where
  "replace_value key val [] = []"
| "replace_value key val (e # es) = (if fst e = key then (fst e, val) # es else e # replace_value key val es)"

definition put_chain :: "bool \<Rightarrow> hm_alloc \<Rightarrow> string \<Rightarrow> nat \<Rightarrow> Netstack_HashMap \<Rightarrow> u32 \<times> Netstack_HashMap" where
  "put_chain sc al key val m =
     (let idx = unat (Netstack_Hash sc key (hm_capacity m)); chain = hm_entries m ! idx in
      if chain = [] then
        if \<not> al_entry al \<or> \<not> al_key al then (OH_HTTP_OUT_OF_MEMORY, m)
        else (OH_HTTP_RESULT_OK, m\<lparr> hm_entries := (hm_entries m)[idx := [(key, val)]], hm_size := hm_size m + 1 \<rparr>)
      else if key \<in> fst ` set chain then
        (OH_HTTP_RESULT_OK, m\<lparr> hm_entries := (hm_entries m)[idx := replace_value key val chain] \<rparr>)
      else if \<not> al_entry al \<or> \<not> al_key al then (OH_HTTP_OUT_OF_MEMORY, m)
      else (OH_HTTP_RESULT_OK, m\<lparr> hm_entries := (hm_entries m)[idx := insert_after_first (key, val) chain] \<rparr>))"

definition Netstack_PutMapEntry :: "bool \<Rightarrow> hm_alloc \<Rightarrow> Netstack_HashMap option \<Rightarrow> string option \<Rightarrow> nat \<Rightarrow> u32 \<times> Netstack_HashMap option" where
  "Netstack_PutMapEntry sc al mp key val =
     (case (mp, key) of
        (Some m, Some k) \<Rightarrow>
          if NetstackInvalidMap mp then (OH_HTTP_PARAMETER_ERROR, mp)
          else
            let m1 = (if hm_capacity m \<le> hm_size m then snd (NetstackResizeMap sc (al_resize al) m) else m);
                (r, m2) = put_chain sc al k val m1
            in (r, Some m2)
      | _ \<Rightarrow> (OH_HTTP_PARAMETER_ERROR, mp))"

definition Netstack_GetMapEntry :: "bool \<Rightarrow> Netstack_HashMap option \<Rightarrow> string option \<Rightarrow> nat" where
  "Netstack_GetMapEntry sc mp key =
     (case (mp, key) of
        (Some m, Some k) \<Rightarrow>
          if NetstackInvalidMap mp then 0
          else (case map_of (hm_entries m ! unat (Netstack_Hash sc k (hm_capacity m))) k of Some v \<Rightarrow> v | None \<Rightarrow> 0)
      | _ \<Rightarrow> 0)"

text \<open>The loop that unlinks the first node with the key from a chain.\<close>

fun unlink :: "string \<Rightarrow> hm_chain \<Rightarrow> hm_chain" where
  "unlink key [] = []"
| "unlink key (e # es) = (if fst e = key then es else e # unlink key es)"

definition Netstack_DeleteMapEntry :: "bool \<Rightarrow> Netstack_HashMap option \<Rightarrow> string option \<Rightarrow> u32 \<times> Netstack_HashMap option" where
  "Netstack_DeleteMapEntry sc mp key =
     (case (mp, key) of
        (Some m, Some k) \<Rightarrow>
          if NetstackInvalidMap mp then (OH_HTTP_PARAMETER_ERROR, mp)
          else
            let idx = unat (Netstack_Hash sc k (hm_capacity m)); chain = hm_entries m ! idx
            in (OH_HTTP_RESULT_OK, Some
                 (case chain of
                    [] \<Rightarrow> m
                  | e # es \<Rightarrow>
                      if fst e = k then m\<lparr> hm_entries := (hm_entries m)[idx := es], hm_size := (if es = [] then hm_size m - 1 else hm_size m) \<rparr>
                      else m\<lparr> hm_entries := (hm_entries m)[idx := e # unlink k es] \<rparr>))
      | _ \<Rightarrow> (OH_HTTP_PARAMETER_ERROR, mp))"

text \<open>The values the destroy function is called with, in order.\<close>

definition Netstack_DestroyMapWithValue :: "Netstack_HashMap option \<Rightarrow> bool \<Rightarrow> nat list" where
  "Netstack_DestroyMapWithValue mp has_function =
     (if NetstackInvalidMap mp \<or> \<not> has_function then [] else map snd (concat (hm_entries (the mp))))"

text \<open>An iterator: the index of its chain, and the rest of the chain from the current node on, empty for the null pointer.\<close>

record Netstack_MapIterator =
  it_idx :: nat
  it_entry :: hm_chain

text \<open>The search for the next occupied chain from index \<open>i\<close> on.\<close>

fun next_chain :: "nat \<Rightarrow> hm_chain list \<Rightarrow> (nat \<times> hm_chain) option" where
  "next_chain i [] = None"
| "next_chain i (c # cs) = (if c \<noteq> [] then Some (i, c) else next_chain (i + 1) cs)"

definition Netstack_CreateMapIterator :: "bool \<Rightarrow> Netstack_HashMap option \<Rightarrow> Netstack_MapIterator option" where
  "Netstack_CreateMapIterator allocated mp =
     (if NetstackInvalidMap mp \<or> \<not> allocated then None
      else map_option (\<lambda>(i, c). \<lparr> it_idx = i, it_entry = c \<rparr>) (next_chain 0 (hm_entries (the mp))))"

definition Netstack_MapIterateNext :: "Netstack_HashMap \<Rightarrow> Netstack_MapIterator \<Rightarrow> Netstack_MapIterator" where
  "Netstack_MapIterateNext m it =
     (if it_entry it = [] \<or> NetstackInvalidMap (Some m) \<or> unat (hm_capacity m) \<le> it_idx it then it
      else if tl (it_entry it) \<noteq> [] then it\<lparr> it_entry := tl (it_entry it) \<rparr>
      else case next_chain (it_idx it + 1) (drop (it_idx it + 1) (hm_entries m)) of
        Some (i, c) \<Rightarrow> \<lparr> it_idx = i, it_entry = c \<rparr>
      | None \<Rightarrow> \<lparr> it_idx = unat (hm_capacity m), it_entry = [] \<rparr>)"

section \<open>Invariant\<close>

text \<open>
  The capacity is a power of two in its range, every key stands in the chain of its hash and once, and the size is the number of
  occupied chains.
\<close>

definition chains_ok :: "bool \<Rightarrow> u32 \<Rightarrow> hm_chain list \<Rightarrow> bool" where
  "chains_ok sc capacity cs \<longleftrightarrow> length cs = unat capacity
     \<and> (\<forall>i < length cs. distinct (map fst (cs ! i)) \<and> (\<forall>e \<in> set (cs ! i). unat (Netstack_Hash sc (fst e) capacity) = i))"

definition occupied :: "hm_chain list \<Rightarrow> nat" where
  "occupied cs = length (filter (\<lambda>c. c \<noteq> []) cs)"

definition hm_inv :: "bool \<Rightarrow> Netstack_HashMap \<Rightarrow> bool" where
  "hm_inv sc m \<longleftrightarrow> (\<exists>k. 4 \<le> k \<and> k \<le> 14 \<and> hm_capacity m = 2 ^ k) \<and> chains_ok sc (hm_capacity m) (hm_entries m)
     \<and> unat (hm_size m) = occupied (hm_entries m)"

text \<open>The map it stands for.\<close>

definition hm_map :: "Netstack_HashMap \<Rightarrow> string \<rightharpoonup> nat" where
  "hm_map m = map_of (concat (hm_entries m))"

text \<open>The entries an iterator has still to show, the current one first.\<close>

definition remaining :: "Netstack_HashMap \<Rightarrow> Netstack_MapIterator \<Rightarrow> hm_chain" where
  "remaining m it = it_entry it @ concat (drop (it_idx it + 1) (hm_entries m))"

text \<open>The operations on a map that is there, for a key that is there, and a sequence of them.\<close>

definition hm_put :: "bool \<Rightarrow> hm_alloc \<Rightarrow> string \<Rightarrow> nat \<Rightarrow> Netstack_HashMap \<Rightarrow> Netstack_HashMap" where
  "hm_put sc al key val m = the (snd (Netstack_PutMapEntry sc al (Some m) (Some key) val))"

definition hm_del :: "bool \<Rightarrow> string \<Rightarrow> Netstack_HashMap \<Rightarrow> Netstack_HashMap" where
  "hm_del sc key m = the (snd (Netstack_DeleteMapEntry sc (Some m) (Some key)))"

datatype ('a, 'k, 'v) store_op = PutOp 'a 'k 'v | DelOp 'k

section \<open>Chains\<close>

lemma hash_bound: "capacity \<noteq> 0 \<Longrightarrow> unat (Netstack_Hash sc key capacity) < unat capacity"
proof -
  assume "capacity \<noteq> 0"
  then have "0 < unat capacity" using unat_u32_zero(1) [of capacity] by blast
  then show ?thesis by (simp add: Netstack_Hash_def unat_mod_distrib)
qed

lemma in_concat_nth: "e \<in> set (concat cs) \<longleftrightarrow> (\<exists>i < length cs. e \<in> set (cs ! i))"
  by simp (metis in_set_conv_nth)

lemma distinct_concat_hash:
  "(\<And>i. i < length cs \<Longrightarrow> distinct (map fst (cs ! i))) \<Longrightarrow> (\<And>i e. i < length cs \<Longrightarrow> e \<in> set (cs ! i) \<Longrightarrow> h (fst e) = off + i)
   \<Longrightarrow> distinct (map fst (concat cs))"
proof (induction cs arbitrary: off)
  case (Cons c cs)
  have "distinct (map fst (concat cs))"
  proof (rule Cons.IH [of "off + 1"])
    show "distinct (map fst (cs ! i))" if "i < length cs" for i using Cons.prems(1) [of "Suc i"] that by simp
    show "h (fst e) = off + 1 + i" if "i < length cs" "e \<in> set (cs ! i)" for i e using Cons.prems(2) [of "Suc i" e] that by simp
  qed
  moreover have "fst ` set c \<inter> fst ` set (concat cs) = {}"
  proof -
    have "h (fst e) = off" if "e \<in> set c" for e using Cons.prems(2) [of 0 e] that by simp
    moreover have "h (fst e) \<noteq> off" if e: "e \<in> set (concat cs)" for e
    proof -
      obtain i where "i < length cs" "e \<in> set (cs ! i)" using e unfolding in_concat_nth by blast
      then show ?thesis using Cons.prems(2) [of "Suc i" e] by simp
    qed
    ultimately have "fst e \<noteq> fst e'" if "e \<in> set c" "e' \<in> set (concat cs)" for e e' using that by metis
    then show ?thesis by blast
  qed
  moreover have "distinct (map fst c)" using Cons.prems(1) [of 0] by simp
  ultimately show ?case by simp
qed simp

lemma chains_ok_distinct: "chains_ok sc capacity cs \<Longrightarrow> distinct (map fst (concat cs))"
  by (rule distinct_concat_hash [where h = "\<lambda>k. unat (Netstack_Hash sc k capacity)" and off = 0]) (auto simp: chains_ok_def)

lemma chains_ok_place:
  assumes "chains_ok sc capacity cs" "e \<in> set (concat cs)"
  shows "e \<in> set (cs ! unat (Netstack_Hash sc (fst e) capacity))"
proof -
  obtain i where "i < length cs" "e \<in> set (cs ! i)" using assms(2) unfolding in_concat_nth by blast
  then show ?thesis using assms(1) by (auto simp: chains_ok_def)
qed

lemma chains_ok_update:
  "chains_ok sc capacity cs \<Longrightarrow> j < length cs \<Longrightarrow> distinct (map fst c) \<Longrightarrow> (\<And>e. e \<in> set c \<Longrightarrow> unat (Netstack_Hash sc (fst e) capacity) = j)
   \<Longrightarrow> chains_ok sc capacity (cs[j := c])"
  by (auto simp: chains_ok_def nth_list_update)

lemma map_of_same: "distinct (map fst xs) \<Longrightarrow> distinct (map fst ys) \<Longrightarrow> set xs = set ys \<Longrightarrow> map_of xs = map_of ys"
  by (simp add: map_of_inject_set)

lemma lookup_chain:
  assumes "chains_ok sc capacity cs" "capacity \<noteq> 0"
  shows "map_of (concat cs) k = map_of (cs ! unat (Netstack_Hash sc k capacity)) k"
proof -
  let ?i = "unat (Netstack_Hash sc k capacity)"
  have i: "?i < length cs" using assms hash_bound by (simp add: chains_ok_def)
  then have d: "distinct (map fst (cs ! ?i))" using assms(1) by (simp add: chains_ok_def)
  have "map_of (concat cs) k = Some v \<longleftrightarrow> map_of (cs ! ?i) k = Some v" for v
  proof -
    have "(k, v) \<in> set (concat cs) \<longleftrightarrow> (k, v) \<in> set (cs ! ?i)"
      using chains_ok_place [OF assms(1), of "(k, v)"] i by auto
    then show ?thesis using chains_ok_distinct [OF assms(1)] d by simp
  qed
  then show ?thesis by (metis not_Some_eq)
qed

lemma insert_after_first_set [simp]: "set (insert_after_first e c) = insert e (set c)"
  by (cases c) auto

lemma insert_after_first_distinct: "distinct (map fst c) \<Longrightarrow> fst e \<notin> fst ` set c \<Longrightarrow> distinct (map fst (insert_after_first e c))"
  by (cases c) auto

lemma replace_value_keys [simp]: "map fst (replace_value k v c) = map fst c"
  by (induction c) auto

lemma replace_value_set [simp]: "fst ` set (replace_value k v c) = fst ` set c"
  by (metis list.set_map replace_value_keys)

lemma replace_value_lookup: "map_of (replace_value k v c) k' = (if k' = k \<and> map_of c k \<noteq> None then Some v else map_of c k')"
  by (induction c) auto

lemma replace_value_members: "e \<in> set (replace_value k v c) \<Longrightarrow> e \<in> set c \<or> fst e = k"
  by (induction c) (auto split: if_splits)

lemma replace_value_empty [simp]: "replace_value k v c = [] \<longleftrightarrow> c = []"
  by (cases c) auto

lemma insert_after_first_lookup: "fst e \<notin> fst ` set c \<Longrightarrow> map_of (insert_after_first e c) k = (if k = fst e then Some (snd e) else map_of c k)"
  by (cases e; cases c) (auto dest: map_of_SomeD)

lemma unlink_lookup: "distinct (map fst c) \<Longrightarrow> map_of (unlink k c) k' = (if k' = k then None else map_of c k')"
proof (induction c)
  case (Cons e c)
  then have "k \<notin> fst ` set c \<longrightarrow> map_of c k = None" by (simp add: map_of_eq_None_iff)
  with Cons show ?case by auto
qed simp

lemma unlink_subset: "set (unlink k c) \<subseteq> set c"
  by (induction c) auto

lemma unlink_distinct: "distinct (map fst c) \<Longrightarrow> distinct (map fst (unlink k c))"
proof (induction c)
  case (Cons e c)
  then show ?case using unlink_subset [of k c] by auto
qed simp

lemma occupied_update:
  "j < length cs \<Longrightarrow> occupied (cs[j := c]) + (if cs ! j = [] then 0 else 1) = occupied cs + (if c = [] then 0 else 1)"
  unfolding occupied_def
proof (induction cs arbitrary: j)
  case (Cons d cs)
  then show ?case
  proof (cases j)
    case (Suc i)
    then show ?thesis using Cons.IH [of i] Cons.prems by (auto split: if_splits)
  qed simp
qed simp

lemma occupied_bound: "occupied cs \<le> length cs"
  by (simp add: occupied_def)

section \<open>Rehashing\<close>

lemma rehash_one:
  assumes ok: "chains_ok sc cap cs" and "cap \<noteq> 0" and new: "fst e \<notin> fst ` set (concat cs)" and h: "h = unat (Netstack_Hash sc (fst e) cap)"
  shows "chains_ok sc cap (cs[h := insert_after_first e (cs ! h)])" "set (concat (cs[h := insert_after_first e (cs ! h)])) = insert e (set (concat cs))"
    "occupied (cs[h := insert_after_first e (cs ! h)]) = occupied cs + (if cs ! h = [] then 1 else 0)"
proof -
  have hl: "h < length cs" using ok hash_bound [OF assms(2)] by (simp add: h chains_ok_def)
  have "set (cs ! h) \<subseteq> set (concat cs)" using hl unfolding in_concat_nth subset_iff by blast
  then have "fst e \<notin> fst ` set (cs ! h)" using new by blast
  moreover have chain: "distinct (map fst (cs ! h))" "\<forall>x \<in> set (cs ! h). unat (Netstack_Hash sc (fst x) cap) = h"
    using ok hl by (simp_all add: chains_ok_def)
  ultimately show "chains_ok sc cap (cs[h := insert_after_first e (cs ! h)])"
    using ok hl h by (intro chains_ok_update insert_after_first_distinct) auto
  have "x \<in> set (cs[h := insert_after_first e (cs ! h)] ! i) \<longleftrightarrow> x \<in> set (cs ! i) \<or> i = h \<and> x = e" if "i < length cs" for x i
    using that hl by (auto simp: nth_list_update)
  then have "x \<in> set (concat (cs[h := insert_after_first e (cs ! h)])) \<longleftrightarrow> x \<in> insert e (set (concat cs))" for x
    using hl unfolding in_concat_nth insert_iff length_list_update by blast
  then show "set (concat (cs[h := insert_after_first e (cs ! h)])) = insert e (set (concat cs))" by blast
  show "occupied (cs[h := insert_after_first e (cs ! h)]) = occupied cs + (if cs ! h = [] then 1 else 0)"
    using occupied_update [OF hl, of "insert_after_first e (cs ! h)"] by (cases "cs ! h") auto
qed

lemma rehash_chain:
  assumes "chains_ok sc cap cs" "cap \<noteq> 0" "distinct (map fst chain)" "fst ` set chain \<inter> fst ` set (concat cs) = {}"
    and "Netstack_RehashEntry sc chain cap cs = (n, cs')"
  shows "chains_ok sc cap cs' \<and> set (concat cs') = set (concat cs) \<union> set chain \<and> of_nat (occupied cs') = of_nat (occupied cs) + n"
  using assms
proof (induction chain arbitrary: cs n)
  case (Cons e chain)
  define h where "h = unat (Netstack_Hash sc (fst e) cap)"
  define cs1 where "cs1 = cs[h := insert_after_first e (cs ! h)]"
  have one: "chains_ok sc cap cs1" "set (concat cs1) = insert e (set (concat cs))" "occupied cs1 = occupied cs + (if cs ! h = [] then 1 else 0)"
    unfolding cs1_def using Cons.prems by (intro rehash_one [OF _ _ _ h_def]; auto)+
  obtain n1 where n1: "Netstack_RehashEntry sc chain cap cs1 = (n1, cs')" "n = (if cs ! h = [] then n1 + 1 else n1)"
    using Cons.prems(5) by (auto simp: Let_def h_def [symmetric] cs1_def [symmetric] split: prod.splits)
  have "fst ` set chain \<inter> fst ` set (concat cs1) = {}" unfolding one(2) using Cons.prems(3,4) by auto
  from Cons.IH [OF one(1) Cons.prems(2) _ this n1(1)] Cons.prems(3) show ?case using one n1(2) by auto
qed simp

lemma occupied_empty [simp]: "occupied (replicate n []) = 0"
  by (simp add: occupied_def)

lemma rehash_all:
  assumes "chains_ok sc cap cs" "cap \<noteq> 0" "distinct (map fst (concat chs))" "fst ` set (concat chs) \<inter> fst ` set (concat cs) = {}"
    and "n = of_nat (occupied cs)"
    and "fold (\<lambda>chain (n, entries). let (k, entries') = Netstack_RehashEntry sc chain cap entries in (n + k, entries')) chs (n, cs) = (n', cs')"
  shows "chains_ok sc cap cs' \<and> set (concat cs') = set (concat cs) \<union> set (concat chs) \<and> n' = of_nat (occupied cs')"
  using assms
proof (induction chs arbitrary: cs n)
  case (Cons chain chs)
  obtain k cs1 where k: "Netstack_RehashEntry sc chain cap cs = (k, cs1)" by fastforce
  have one: "chains_ok sc cap cs1" "set (concat cs1) = set (concat cs) \<union> set chain" "of_nat (occupied cs1) = of_nat (occupied cs) + k"
    using rehash_chain [OF Cons.prems(1,2) _ _ k] Cons.prems(3,4) by auto
  have "fst ` set chain \<inter> fst ` set (concat chs) = {}" "fst ` set (concat chs) \<inter> fst ` set (concat cs) = {}"
    using Cons.prems(3,4) by auto
  then have "fst ` set (concat chs) \<inter> fst ` set (concat cs1) = {}" unfolding one(2) image_Un by blast
  from Cons.IH [OF one(1) Cons.prems(2) _ this, of "n + k"] Cons.prems(3,5,6) k one(2,3) show ?case by auto
qed simp

section \<open>The operations on valid maps\<close>

lemma inv_valid:
  assumes "hm_inv sc m"
  shows "\<not> NetstackInvalidMap (Some m)" "hm_capacity m \<noteq> 0" "length (hm_entries m) = unat (hm_capacity m)"
    "distinct (map fst (concat (hm_entries m)))" "unat (hm_capacity m) \<le> 16384" "unat (hm_size m) \<le> unat (hm_capacity m)"
proof -
  obtain k where k: "4 \<le> k" "k \<le> 14" "hm_capacity m = 2 ^ k" using assms by (auto simp: hm_inv_def)
  have "k = 4 \<or> k = 5 \<or> k = 6 \<or> k = 7 \<or> k = 8 \<or> k = 9 \<or> k = 10 \<or> k = 11 \<or> k = 12 \<or> k = 13 \<or> k = 14"
    using k(1,2) by arith
  with k(3) show "\<not> NetstackInvalidMap (Some m)" "hm_capacity m \<noteq> 0" "unat (hm_capacity m) \<le> 16384"
    by (auto simp: NetstackInvalidMap_def)
  show "length (hm_entries m) = unat (hm_capacity m)" using assms by (simp add: hm_inv_def chains_ok_def)
  show "distinct (map fst (concat (hm_entries m)))" using assms chains_ok_distinct by (auto simp: hm_inv_def)
  show "unat (hm_size m) \<le> unat (hm_capacity m)" using assms occupied_bound [of "hm_entries m"] by (simp add: hm_inv_def chains_ok_def)
qed

lemma hm_map_chain: "hm_inv sc m \<Longrightarrow> hm_map m k = map_of (hm_entries m ! unat (Netstack_Hash sc k (hm_capacity m))) k"
  unfolding hm_map_def using inv_valid(2) by (intro lookup_chain) (auto simp: hm_inv_def)

lemma size_of_occupied: "n \<le> 0x10000 \<Longrightarrow> unat (of_nat n :: u32) = n"
  by (simp add: unat_of_nat)

lemma concat_occupied: "concat (filter (\<lambda>c. c \<noteq> []) cs) = concat cs"
  by (induction cs) simp_all

lemma resize_ok:
  assumes inv: "hm_inv sc m" and res: "NetstackResizeMap sc allocated m = (r, m')"
  shows "hm_inv sc m' \<and> hm_map m' = hm_map m"
proof (cases "MAX_MAP_CAPACITY \<le> hm_capacity m \<or> \<not> allocated")
  case True
  then show ?thesis using res inv by (auto simp: NetstackResizeMap_def split: if_splits)
next
  case False
  obtain k where k: "4 \<le> k" "k \<le> 14" "hm_capacity m = 2 ^ k" using inv by (auto simp: hm_inv_def)
  with False have "k \<noteq> 14" by auto
  with k have "4 \<le> k + 1" "k + 1 \<le> 14" "hm_capacity m * 2 = 2 ^ (k + 1)" by auto
  moreover define cap where "cap = hm_capacity m * 2"
  ultimately have cap: "\<exists>k. 4 \<le> k \<and> k \<le> 14 \<and> cap = 2 ^ k" by blast
  then have c0: "cap \<noteq> 0" "unat cap \<le> 16384"
    using inv_valid(2,5) [of sc "\<lparr> hm_entries = replicate (unat cap) [], hm_size = 0, hm_capacity = cap \<rparr>"]
    by (auto simp: hm_inv_def chains_ok_def)
  let ?chs = "filter (\<lambda>chain. chain \<noteq> []) (hm_entries m)"
  obtain n cs' where fold: "fold (\<lambda>chain (n, entries). let (k, entries') = Netstack_RehashEntry sc chain cap entries in (n + k, entries'))
      ?chs (0, replicate (unat cap) []) = (n, cs')" by fastforce
  have "chains_ok sc cap (replicate (unat cap) [])" by (simp add: chains_ok_def)
  from rehash_all [OF this c0(1) _ _ _ fold] inv_valid(4) [OF inv]
  have new: "chains_ok sc cap cs'" "set (concat cs') = set (concat (hm_entries m))" "n = of_nat (occupied cs')"
    by (auto simp: concat_occupied)
  have m': "m' = \<lparr> hm_entries = cs', hm_size = n, hm_capacity = cap \<rparr>"
    using res False fold by (auto simp: NetstackResizeMap_def Let_def cap_def [symmetric])
  have "occupied cs' \<le> 16384" using occupied_bound [of cs'] new(1) c0(2) by (simp add: chains_ok_def)
  then have "hm_inv sc m'" using cap new by (simp add: hm_inv_def m' size_of_occupied)
  moreover have "hm_map m' = hm_map m"
    unfolding hm_map_def using map_of_same [OF chains_ok_distinct [OF new(1)] inv_valid(4) [OF inv] new(2)] by (simp add: m')
  ultimately show ?thesis by blast
qed

text \<open>A map with one chain exchanged.\<close>

lemma inv_exchange:
  assumes inv: "hm_inv sc m" and j: "j = unat (Netstack_Hash sc key (hm_capacity m))"
    and c: "distinct (map fst c)" "\<And>e. e \<in> set c \<Longrightarrow> e \<in> set (hm_entries m ! j) \<or> fst e = key"
    and size: "unat n + (if hm_entries m ! j = [] then 0 else 1) = unat (hm_size m) + (if c = [] then 0 else 1)"
    and look: "\<And>k. k \<noteq> key \<Longrightarrow> map_of c k = map_of (hm_entries m ! j) k"
  shows "hm_inv sc (m\<lparr> hm_entries := (hm_entries m)[j := c], hm_size := n \<rparr>)
    \<and> hm_map (m\<lparr> hm_entries := (hm_entries m)[j := c], hm_size := n \<rparr>) = (hm_map m)(key := map_of c key)"
proof -
  let ?m = "m\<lparr> hm_entries := (hm_entries m)[j := c], hm_size := n \<rparr>"
  have jl: "j < length (hm_entries m)" using hash_bound [OF inv_valid(2) [OF inv]] inv_valid(3) [OF inv] by (simp add: j)
  have chain: "\<And>e. e \<in> set (hm_entries m ! j) \<Longrightarrow> unat (Netstack_Hash sc (fst e) (hm_capacity m)) = j"
    using inv jl by (simp add: hm_inv_def chains_ok_def)
  have "chains_ok sc (hm_capacity m) ((hm_entries m)[j := c])"
    using inv jl c chain j by (intro chains_ok_update) (auto simp: hm_inv_def)
  moreover have "unat n = occupied ((hm_entries m)[j := c])"
    using occupied_update [OF jl, of c] size inv by (auto simp: hm_inv_def split: if_splits)
  ultimately have inv': "hm_inv sc ?m" using inv by (simp add: hm_inv_def)
  have "hm_map ?m k = ((hm_map m)(key := map_of c key)) k" for k
    using hm_map_chain [OF inv', of k] hm_map_chain [OF inv, of k] jl look [of k] j by (auto simp: nth_list_update)
  then show ?thesis using inv' by blast
qed

lemma put_chain_ok:
  assumes inv: "hm_inv sc m" and put: "put_chain sc al key val m = (r, m')"
  shows "hm_inv sc m' \<and> hm_map m' = (if r = OH_HTTP_RESULT_OK then (hm_map m)(key \<mapsto> val) else hm_map m)
    \<and> r = (if hm_map m key \<noteq> None \<or> al_entry al \<and> al_key al then OH_HTTP_RESULT_OK else OH_HTTP_OUT_OF_MEMORY)"
proof -
  define j where "j = unat (Netstack_Hash sc key (hm_capacity m))"
  define chain where "chain = hm_entries m ! j"
  have jl: "j < length (hm_entries m)" using hash_bound [OF inv_valid(2) [OF inv]] inv_valid(3) [OF inv] by (simp add: j_def)
  have d: "distinct (map fst chain)" using inv jl by (simp add: hm_inv_def chains_ok_def chain_def)
  have room: "chain = [] \<Longrightarrow> unat (hm_size m + 1) = unat (hm_size m) + 1"
    using inv_valid(5,6) [OF inv] by (simp add: unat_word_ariths)
  have present: "hm_map m key \<noteq> None \<longleftrightarrow> key \<in> fst ` set chain"
    unfolding hm_map_chain [OF inv] j_def [symmetric] chain_def [symmetric] by (simp add: map_of_eq_None_iff)
  note ex = inv_exchange [OF inv j_def, folded chain_def]
  note def = put [unfolded put_chain_def Let_def, folded j_def, folded chain_def]
  consider "chain = []" | "chain \<noteq> []" "key \<in> fst ` set chain" | "chain \<noteq> []" "key \<notin> fst ` set chain" by blast
  then show ?thesis
  proof cases
    case 1
    have "\<And>n. unat n = unat (hm_size m) + 1 \<Longrightarrow> hm_inv sc (m\<lparr> hm_entries := (hm_entries m)[j := [(key, val)]], hm_size := n \<rparr>)
        \<and> hm_map (m\<lparr> hm_entries := (hm_entries m)[j := [(key, val)]], hm_size := n \<rparr>) = (hm_map m)(key \<mapsto> val)"
      using ex [of "[(key, val)]"] 1 by auto
    from this [OF room [OF 1]] show ?thesis using def 1 inv present by (auto split: if_splits)
  next
    case 2
    then have "map_of chain key \<noteq> None" by (simp add: map_of_eq_None_iff)
    then have look: "map_of (replace_value key val chain) k = (if k = key then Some val else map_of chain k)" for k
      by (simp add: replace_value_lookup)
    have "hm_inv sc (m\<lparr> hm_entries := (hm_entries m)[j := replace_value key val chain], hm_size := hm_size m \<rparr>)
        \<and> hm_map (m\<lparr> hm_entries := (hm_entries m)[j := replace_value key val chain], hm_size := hm_size m \<rparr>)
          = (hm_map m)(key := map_of (replace_value key val chain) key)"
      by (rule ex) (use d replace_value_members [of _ key val chain] look in auto)
    then show ?thesis using def 2 look present by auto
  next
    case 3
    then have look: "map_of (insert_after_first (key, val) chain) k = (if k = key then Some val else map_of chain k)" for k
      using insert_after_first_lookup [of "(key, val)" chain] by simp
    have ne: "insert_after_first (key, val) chain \<noteq> []" by (cases chain) auto
    have "distinct (map fst (insert_after_first (key, val) chain))" using insert_after_first_distinct [OF d] 3 by simp
    then have "hm_inv sc (m\<lparr> hm_entries := (hm_entries m)[j := insert_after_first (key, val) chain], hm_size := hm_size m \<rparr>)
        \<and> hm_map (m\<lparr> hm_entries := (hm_entries m)[j := insert_after_first (key, val) chain], hm_size := hm_size m \<rparr>)
          = (hm_map m)(key := map_of (insert_after_first (key, val) chain) key)"
      by (rule ex) (use 3 look ne in auto)
    then show ?thesis using def 3 inv look present by (auto split: if_splits)
  qed
qed

lemma put_ok:
  assumes inv: "hm_inv sc m" and put: "Netstack_PutMapEntry sc al (Some m) (Some key) val = (r, mp)"
  shows "\<exists>m'. mp = Some m' \<and> hm_inv sc m' \<and> hm_map m' = (if r = OH_HTTP_RESULT_OK then (hm_map m)(key \<mapsto> val) else hm_map m)
    \<and> r = (if hm_map m key \<noteq> None \<or> al_entry al \<and> al_key al then OH_HTTP_RESULT_OK else OH_HTTP_OUT_OF_MEMORY)"
proof -
  define m1 where "m1 = (if hm_capacity m \<le> hm_size m then snd (NetstackResizeMap sc (al_resize al) m) else m)"
  have m1: "hm_inv sc m1" "hm_map m1 = hm_map m" using resize_ok [OF inv prod.collapse [symmetric]] inv by (simp_all add: m1_def)
  obtain m' where "put_chain sc al key val m1 = (r, m')" "mp = Some m'"
    using put inv_valid(1) [OF inv] by (auto simp: Netstack_PutMapEntry_def m1_def [symmetric] Let_def split: prod.splits)
  with put_chain_ok [OF m1(1), of al key val] m1(2) show ?thesis by auto
qed

lemma delete_ok:
  assumes inv: "hm_inv sc m"
  shows "\<exists>m'. Netstack_DeleteMapEntry sc (Some m) (Some key) = (OH_HTTP_RESULT_OK, Some m') \<and> hm_inv sc m' \<and> hm_map m' = (hm_map m)(key := None)"
proof -
  define j where "j = unat (Netstack_Hash sc key (hm_capacity m))"
  define chain where "chain = hm_entries m ! j"
  have jl: "j < length (hm_entries m)" using hash_bound [OF inv_valid(2) [OF inv]] inv_valid(3) [OF inv] by (simp add: j_def)
  have d: "distinct (map fst chain)" using inv jl by (simp add: hm_inv_def chains_ok_def chain_def)
  have def: "Netstack_DeleteMapEntry sc (Some m) (Some key) = (OH_HTTP_RESULT_OK, Some
                 (case chain of
                    [] \<Rightarrow> m
                  | e # es \<Rightarrow>
                      if fst e = key then m\<lparr> hm_entries := (hm_entries m)[j := es], hm_size := (if es = [] then hm_size m - 1 else hm_size m) \<rparr>
                      else m\<lparr> hm_entries := (hm_entries m)[j := e # unlink key es] \<rparr>))"
    unfolding chain_def j_def using inv_valid(1) [OF inv] by (simp add: Netstack_DeleteMapEntry_def Let_def)
  show ?thesis
  proof (cases chain)
    case Nil
    then have "hm_map m key = None" using hm_map_chain [OF inv, of key] by (simp add: chain_def j_def)
    then show ?thesis using def Nil inv by (auto simp: fun_upd_idem)
  next
    case (Cons e es)
    define n where "n = (if unlink key chain = [] then hm_size m - 1 else hm_size m)"
    have "0 < occupied (hm_entries m)"
      using nth_mem [OF jl] Cons by (auto simp: occupied_def chain_def filter_empty_conv)
    then have pos: "0 < unat (hm_size m)" using inv by (simp add: hm_inv_def)
    then have "unat (hm_size m - 1) = unat (hm_size m) - 1" using unat_u32_zero(1) [of "hm_size m"] by (intro unat_minus_one) auto
    then have "unat n + 1 = unat (hm_size m) + (if unlink key chain = [] then 0 else 1)" using pos by (simp add: n_def)
    then have "hm_inv sc (m\<lparr> hm_entries := (hm_entries m)[j := unlink key chain], hm_size := n \<rparr>)
        \<and> hm_map (m\<lparr> hm_entries := (hm_entries m)[j := unlink key chain], hm_size := n \<rparr>) = (hm_map m)(key := map_of (unlink key chain) key)"
      using d unlink_distinct [OF d] unlink_subset [of key chain] unlink_lookup [OF d]
      by (intro inv_exchange [OF inv j_def, folded chain_def]) (auto simp: Cons)
    then show ?thesis using def Cons d unlink_lookup [OF d, of key key] by (auto simp: n_def)
  qed
qed

lemma get_ok:
  assumes "hm_inv sc m"
  shows "Netstack_GetMapEntry sc (Some m) (Some key) = (case hm_map m key of Some v \<Rightarrow> v | None \<Rightarrow> 0)"
  using inv_valid(1) [OF assms] hm_map_chain [OF assms, of key] by (simp add: Netstack_GetMapEntry_def)

section \<open>A store of values by key\<close>

text \<open>
  What a client of the map relies on. An insertion takes resources, which may be refused: then it succeeds only for a key that is
  there already.
\<close>

locale value_store =
  fixes lookup :: "'m \<Rightarrow> 'k \<Rightarrow> 'v option"
    and put :: "'a \<Rightarrow> 'k \<Rightarrow> 'v \<Rightarrow> 'm \<Rightarrow> 'm"
    and del :: "'k \<Rightarrow> 'm \<Rightarrow> 'm"
    and granted :: "'a \<Rightarrow> bool"
    and wf :: "'m \<Rightarrow> bool"
  assumes lookup_put: "wf m \<Longrightarrow> lookup (put a k v m) = (if lookup m k \<noteq> None \<or> granted a then (lookup m)(k \<mapsto> v) else lookup m)"
    and lookup_del: "wf m \<Longrightarrow> lookup (del k m) = (lookup m)(k := None)"
    and wf_put: "wf m \<Longrightarrow> wf (put a k v m)"
    and wf_del: "wf m \<Longrightarrow> wf (del k m)"
begin

lemma run_ops:
  "wf m \<Longrightarrow>
   lookup (fold (case_store_op put del) ops m)
     = fold (\<lambda>op f. case op of PutOp a k v \<Rightarrow> if f k \<noteq> None \<or> granted a then f(k \<mapsto> v) else f | DelOp k \<Rightarrow> f(k := None)) ops (lookup m)
   \<and> wf (fold (case_store_op put del) ops m)"
proof (induction ops arbitrary: m)
  case (Cons op ops)
  show ?case
  proof (cases op)
    case (PutOp a k v)
    then show ?thesis using Cons.IH [OF wf_put [OF Cons.prems, of a k v]] by (simp add: lookup_put [OF Cons.prems, of a k v])
  next
    case (DelOp k)
    then show ?thesis using Cons.IH [OF wf_del [OF Cons.prems, of k]] by (simp add: lookup_del [OF Cons.prems, of k] del: fun_upd_apply)
  qed
qed simp

end

interpretation hash: value_store hm_map "hm_put sc" "hm_del sc" "\<lambda>al. al_entry al \<and> al_key al" "hm_inv sc" for sc
proof
  fix m al key val assume inv: "hm_inv sc m"
  obtain r mp where put: "Netstack_PutMapEntry sc al (Some m) (Some key) val = (r, mp)" by fastforce
  from put_ok [OF inv put] put
  show "hm_map (hm_put sc al key val m) = (if hm_map m key \<noteq> None \<or> al_entry al \<and> al_key al then (hm_map m)(key \<mapsto> val) else hm_map m)"
    "hm_inv sc (hm_put sc al key val m)" by (auto simp: hm_put_def)
  from delete_ok [OF inv, of key]
  show "hm_map (hm_del sc key m) = (hm_map m)(key := None)" "hm_inv sc (hm_del sc key m)" by (auto simp: hm_del_def)
qed

lemma concat_empty_chains: "concat (replicate n []) = []" "occupied (replicate n []) = 0"
  by (induction n) (simp_all add: occupied_def)

lemma create_ok:
  assumes "CreateMap True True = Some m"
  shows "hm_inv sc m \<and> hm_map m = Map.empty"
proof -
  have m: "m = \<lparr> hm_entries = replicate 16 [], hm_size = 0, hm_capacity = 16 \<rparr>" using assms by (simp add: CreateMap_def)
  have "chains_ok sc 16 (replicate 16 [])" by (simp add: chains_ok_def)
  moreover have "\<exists>k. 4 \<le> k \<and> k \<le> (14 :: nat) \<and> (16 :: u32) = 2 ^ k" by (rule exI [of _ 4]) simp
  ultimately show ?thesis
    unfolding m hm_inv_def hm_map_def by (simp add: concat_empty_chains)
qed

text \<open>
  C31. Over any sequence of insertions and deletions, with allocations that fail at any point, also in a resize, the hash map is the map from keys to
  values: a lookup returns what the last successful insertion stored, and null for a key that is not there. An insertion fails only for a new key
  that gets no memory, and then nothing changes.
\<close>

theorem hash_map_refines_map:
  assumes "CreateMap True True = Some m"
  shows "Netstack_GetMapEntry sc (Some (fold (case_store_op (hm_put sc) (hm_del sc)) ops m)) (Some key) =
    (case fold (\<lambda>op f. case op of PutOp al k v \<Rightarrow> if f k \<noteq> None \<or> al_entry al \<and> al_key al then f(k \<mapsto> v) else f | DelOp k \<Rightarrow> f(k := None))
       ops Map.empty key of Some v \<Rightarrow> v | None \<Rightarrow> 0)"
proof -
  have inv: "hm_inv sc m" "hm_map m = Map.empty" using create_ok [OF assms] by blast+
  show ?thesis using hash.run_ops [OF inv(1), of ops] get_ok [of sc _ key] inv(2) by simp
qed

theorem hash_map_refines_map_witness:
  "\<exists>m. CreateMap True True = Some m \<and>
     Netstack_GetMapEntry True (Some (fold (case_store_op (hm_put True) (hm_del True))
       [PutOp \<lparr> al_resize = True, al_entry = True, al_key = True \<rparr> ''Host'' 7, PutOp \<lparr> al_resize = True, al_entry = False, al_key = True \<rparr> ''Host'' 8] m))
     (Some ''Host'') = 8"
proof -
  obtain m where m: "CreateMap True True = Some m" by (simp add: CreateMap_def)
  show ?thesis
    using hash_map_refines_map [OF m, of True "[PutOp \<lparr> al_resize = True, al_entry = True, al_key = True \<rparr> ''Host'' 7,
      PutOp \<lparr> al_resize = True, al_entry = False, al_key = True \<rparr> ''Host'' 8]" "''Host''"] m by simp
qed

section \<open>Iteration\<close>

lemma next_chain_none: "next_chain i cs = None \<longleftrightarrow> concat cs = []"
  by (induction cs arbitrary: i) auto

lemma next_chain_some: "next_chain i cs = Some (j, c) \<Longrightarrow> \<exists>k. j = i + k \<and> k < length cs \<and> cs ! k = c \<and> c \<noteq> [] \<and> concat cs = c @ concat (drop (Suc k) cs)"
proof (induction cs arbitrary: i)
  case (Cons d cs)
  then show ?case
  proof (cases "d = []")
    case True
    then have "next_chain (Suc i) cs = Some (j, c)" using Cons.prems by simp
    then obtain k where "j = Suc i + k" "k < length cs" "cs ! k = c" "c \<noteq> []" "concat cs = c @ concat (drop (Suc k) cs)"
      using Cons.IH by blast
    then show ?thesis using True by (intro exI [of _ "Suc k"]) auto
  qed auto
qed simp

lemma next_remaining:
  assumes inv: "hm_inv sc m" and it: "it_entry it \<noteq> []" "it_idx it < length (hm_entries m)"
  shows "remaining m (Netstack_MapIterateNext m it) = tl (remaining m it)"
    and "it_entry (Netstack_MapIterateNext m it) = [] \<longleftrightarrow> tl (remaining m it) = []"
    and "it_entry (Netstack_MapIterateNext m it) \<noteq> [] \<Longrightarrow> it_idx (Netstack_MapIterateNext m it) < length (hm_entries m)"
proof -
  note valid = inv_valid(1,3) [OF inv]
  let ?cs = "drop (it_idx it + 1) (hm_entries m)"
  have "remaining m (Netstack_MapIterateNext m it) = tl (remaining m it)
    \<and> (it_entry (Netstack_MapIterateNext m it) = [] \<longleftrightarrow> tl (remaining m it) = [])
    \<and> (it_entry (Netstack_MapIterateNext m it) \<noteq> [] \<longrightarrow> it_idx (Netstack_MapIterateNext m it) < length (hm_entries m))"
  proof (cases "tl (it_entry it) = []")
    case False
    then show ?thesis using it valid by (simp add: Netstack_MapIterateNext_def remaining_def)
  next
    case True
    then have rest: "tl (remaining m it) = concat ?cs" using it by (cases "it_entry it") (simp_all add: remaining_def)
    show ?thesis
    proof (cases "next_chain (it_idx it + 1) ?cs")
      case None
      then have "concat ?cs = []" using next_chain_none by blast
      then show ?thesis using True None it valid rest by (simp add: Netstack_MapIterateNext_def remaining_def)
    next
      case (Some p)
      then obtain j c where p: "next_chain (it_idx it + 1) ?cs = Some (j, c)" by (cases p) auto
      then obtain k where k: "j = it_idx it + 1 + k" "k < length ?cs" "?cs ! k = c" "c \<noteq> []" "concat ?cs = c @ concat (drop (Suc k) ?cs)"
        using next_chain_some by blast
      have "Netstack_MapIterateNext m it = \<lparr> it_idx = j, it_entry = c \<rparr>"
        using True p it valid by (simp add: Netstack_MapIterateNext_def)
      then show ?thesis using k rest by (simp add: remaining_def add.commute add.left_commute)
    qed
  qed
  then show "remaining m (Netstack_MapIterateNext m it) = tl (remaining m it)"
    and "it_entry (Netstack_MapIterateNext m it) = [] \<longleftrightarrow> tl (remaining m it) = []"
    and "it_entry (Netstack_MapIterateNext m it) \<noteq> [] \<Longrightarrow> it_idx (Netstack_MapIterateNext m it) < length (hm_entries m)" by blast+
qed

lemma create_remaining:
  assumes "hm_inv sc m"
  shows "Netstack_CreateMapIterator True (Some m) = None \<longleftrightarrow> concat (hm_entries m) = []"
    and "Netstack_CreateMapIterator True (Some m) = Some it \<Longrightarrow>
      remaining m it = concat (hm_entries m) \<and> it_entry it \<noteq> [] \<and> it_idx it < length (hm_entries m)"
proof -
  note def = Netstack_CreateMapIterator_def inv_valid(1) [OF assms]
  show "Netstack_CreateMapIterator True (Some m) = None \<longleftrightarrow> concat (hm_entries m) = []" using def next_chain_none by simp
  assume "Netstack_CreateMapIterator True (Some m) = Some it"
  then obtain i c where "next_chain 0 (hm_entries m) = Some (i, c)" "it = \<lparr> it_idx = i, it_entry = c \<rparr>" using def by auto
  then show "remaining m it = concat (hm_entries m) \<and> it_entry it \<noteq> [] \<and> it_idx it < length (hm_entries m)"
    using next_chain_some [of 0 "hm_entries m" i c] by (auto simp: remaining_def)
qed

lemma iterate_remaining:
  assumes inv: "hm_inv sc m" and it: "it_entry it \<noteq> []" "it_idx it < length (hm_entries m)"
  shows "n < length (remaining m it) \<Longrightarrow>
    it_entry ((Netstack_MapIterateNext m ^^ n) it) \<noteq> [] \<and> it_idx ((Netstack_MapIterateNext m ^^ n) it) < length (hm_entries m)
    \<and> remaining m ((Netstack_MapIterateNext m ^^ n) it) = drop n (remaining m it)"
proof (induction n)
  case 0
  show ?case using it by simp
next
  case (Suc n)
  then have now: "it_entry ((Netstack_MapIterateNext m ^^ n) it) \<noteq> []" "it_idx ((Netstack_MapIterateNext m ^^ n) it) < length (hm_entries m)"
    and rest: "remaining m ((Netstack_MapIterateNext m ^^ n) it) = drop n (remaining m it)" by simp_all
  have "tl (drop n (remaining m it)) \<noteq> []" using Suc.prems by (simp add: tl_drop drop_Suc [symmetric])
  then show ?case using next_remaining [OF inv now] rest by (simp add: tl_drop drop_Suc)
qed

lemma iterate_end:
  assumes inv: "hm_inv sc m" and it: "it_entry it \<noteq> []" "it_idx it < length (hm_entries m)"
  shows "it_entry ((Netstack_MapIterateNext m ^^ length (remaining m it)) it) = []"
proof -
  obtain n where n: "length (remaining m it) = Suc n" using it(1) by (cases "it_entry it") (auto simp: remaining_def)
  then have "n < length (remaining m it)" by simp
  note now = iterate_remaining [OF inv it this]
  then have "tl (remaining m ((Netstack_MapIterateNext m ^^ n) it)) = []" using n by (simp add: tl_drop drop_Suc [symmetric])
  then show ?thesis using next_remaining(2) [OF inv] now n by simp
qed

lemma remaining_hd: "it_entry it \<noteq> [] \<Longrightarrow> hd (remaining m it) = hd (it_entry it)"
  by (simp add: remaining_def)

text \<open>
  C32. Iteration terminates and is complete. On every map the operations produce, an iterator is made unless the map is empty; stepping it until its
  entry is null takes as many steps as there are entries, and shows every key of the map once, with its value.
\<close>

theorem iterator_visits_all:
  assumes "CreateMap True True = Some m0" and m: "m = fold (case_store_op (hm_put sc) (hm_del sc)) ops m0"
  shows "case Netstack_CreateMapIterator True (Some m) of
      None \<Rightarrow> hm_map m = Map.empty
    | Some it \<Rightarrow> \<exists>n. it_entry ((Netstack_MapIterateNext m ^^ n) it) = []
        \<and> (let shown = map (\<lambda>i. hd (it_entry ((Netstack_MapIterateNext m ^^ i) it))) [0..<n]
           in distinct (map fst shown) \<and> map_of shown = hm_map m)"
proof -
  have inv: "hm_inv sc m" using hash.run_ops create_ok [OF assms(1)] m by blast
  show ?thesis
  proof (cases "Netstack_CreateMapIterator True (Some m)")
    case None
    then show ?thesis using create_remaining(1) [OF inv] by (simp add: hm_map_def)
  next
    case (Some it)
    note start = create_remaining(2) [OF inv Some]
    let ?all = "concat (hm_entries m)"
    have "hd (it_entry ((Netstack_MapIterateNext m ^^ i) it)) = ?all ! i" if "i < length ?all" for i
      using iterate_remaining [OF inv, of it i] start that remaining_hd [of "(Netstack_MapIterateNext m ^^ i) it" m]
      by (simp add: hd_drop_conv_nth)
    then have "map (\<lambda>i. hd (it_entry ((Netstack_MapIterateNext m ^^ i) it))) [0..<length ?all] = ?all"
      by (intro nth_equalityI) simp_all
    moreover have "distinct (map fst ?all)" using inv chains_ok_distinct unfolding hm_inv_def by blast
    moreover have "it_entry ((Netstack_MapIterateNext m ^^ length ?all) it) = []" using iterate_end [OF inv, of it] start by simp
    ultimately show ?thesis unfolding Some hm_map_def Let_def option.case by (intro exI [of _ "length ?all"]) simp
  qed
qed

theorem iterator_visits_all_witness:
  "\<exists>m it. m = fold (case_store_op (hm_put True) (hm_del True)) [PutOp \<lparr> al_resize = True, al_entry = True, al_key = True \<rparr> ''Host'' 7]
      (the (CreateMap True True))
    \<and> Netstack_CreateMapIterator True (Some m) = Some it \<and> (\<exists>n. it_entry ((Netstack_MapIterateNext m ^^ n) it) = [])"
proof -
  have m0: "CreateMap True True = Some (the (CreateMap True True))" by (simp add: CreateMap_def)
  let ?m = "fold (case_store_op (hm_put True) (hm_del True)) [PutOp \<lparr> al_resize = True, al_entry = True, al_key = True \<rparr> ''Host'' 7]
      (the (CreateMap True True))"
  have it: "Netstack_CreateMapIterator True (Some ?m) = Some \<lparr> it_idx = 8, it_entry = [(''Host'', 7)] \<rparr>" by code_simp
  from iterator_visits_all [OF m0 refl, of True "[PutOp \<lparr> al_resize = True, al_entry = True, al_key = True \<rparr> ''Host'' 7]"]
  have "\<exists>n. it_entry ((Netstack_MapIterateNext ?m ^^ n) \<lparr> it_idx = 8, it_entry = [(''Host'', 7)] \<rparr>) = []" unfolding it by auto
  with it show ?thesis by blast
qed

end
