(* ===== verification/Http_Base64.thy ===== *)
theory Http_Base64
  imports Bytes Common_Utils
begin

text \<open>
  The Base64 routines of the HTTP cache (\<open>http_client_base64_utils.cpp\<close>): the two loops with their arrays of three and four
  bytes, and the tail that is padded. \<open>std::string::find\<close> returns \<open>npos\<close> for a character that is absent; stored in a
  \<open>uint8_t\<close> it is 255.
\<close>

unbundle bit_operations_syntax

definition BASE64_CHARS :: string where
  "BASE64_CHARS = ''ABCDEFGHIJKLMNOPQRSTUVWXYZabcdefghijklmnopqrstuvwxyz0123456789+/''"

definition IsBase64Char :: "char \<Rightarrow> bool" where
  "IsBase64Char c = (isalnum c \<or> c = CHR ''+'' \<or> c = CHR ''/'')"

definition MakeCharFour :: "byte list \<Rightarrow> byte list" where
  "MakeCharFour three =
     [drop_bit 2 (three ! 0 AND 0xfc),
      push_bit 4 (three ! 0 AND 0x03) + drop_bit 4 (three ! 1 AND 0xf0),
      push_bit 2 (three ! 1 AND 0x0f) + drop_bit 6 (three ! 2 AND 0xc0),
      three ! 2 AND 0x3f]"

definition MakeCharTree :: "byte list \<Rightarrow> byte list" where
  "MakeCharTree four =
     [push_bit 2 (four ! 0) + drop_bit 4 (four ! 1 AND 0x30),
      push_bit 4 (four ! 1 AND 0xf) + drop_bit 2 (four ! 2 AND 0x3c),
      push_bit 6 (four ! 2 AND 0x3) + four ! 3]"

definition sextet_char :: "byte \<Rightarrow> char" where
  "sextet_char b = BASE64_CHARS ! unat b"

definition find_sextet :: "char \<Rightarrow> byte" where
  "find_sextet c = (if c \<in> set BASE64_CHARS then of_nat (length (takeWhile ((\<noteq>) c) BASE64_CHARS)) else 255)"

fun encode_loop :: "string \<Rightarrow> byte list \<Rightarrow> nat \<Rightarrow> string \<Rightarrow> string \<times> byte list \<times> nat" where
  "encode_loop [] three index ret = (ret, three, index)"
| "encode_loop (c # cs) three index ret =
     (let three1 = three[index := byte_of_char c]; index1 = index + 1 in
      if index1 \<noteq> 3 then encode_loop cs three1 index1 ret
      else encode_loop cs three1 0 (ret @ map sextet_char (MakeCharFour three1)))"

text \<open>What follows the loop: the rest of the array is zeroed, and the output padded.\<close>

fun encode_end :: "string \<times> byte list \<times> nat \<Rightarrow> string" where
  "encode_end (ret, three, index) =
     (if index = 0 then ret
      else ret @ map sextet_char (take (index + 1) (MakeCharFour (take index three @ replicate (3 - index) 0))) @ replicate (3 - index) CHR ''='')"

definition Encode :: "string \<Rightarrow> string" where
  "Encode source = encode_end (encode_loop source [0, 0, 0] 0 [])"

fun decode_loop :: "string \<Rightarrow> byte list \<Rightarrow> nat \<Rightarrow> string \<Rightarrow> string \<times> byte list \<times> nat" where
  "decode_loop [] four index ret = (ret, four, index)"
| "decode_loop (c # cs) four index ret =
     (if \<not> IsBase64Char c then (ret, four, index)
      else
        let four1 = four[index := byte_of_char c]; index1 = index + 1 in
        if index1 \<noteq> 4 then decode_loop cs four1 index1 ret
        else
          let four2 = map (\<lambda>b. find_sextet (char_of_byte b)) four1
          in decode_loop cs four2 0 (ret @ map char_of_byte (MakeCharTree four2)))"

fun decode_end :: "string \<times> byte list \<times> nat \<Rightarrow> string" where
  "decode_end (ret, four, index) =
     (if index = 0 then ret
      else ret @ map char_of_byte (take (index - 1)
        (MakeCharTree (map (\<lambda>b. find_sextet (char_of_byte b)) (take index four @ replicate (4 - index) 0)))))"

definition Decode :: "string \<Rightarrow> string" where
  "Decode encoded = decode_end (decode_loop encoded [0, 0, 0, 0] 0 [])"

text \<open>
  The encoding of RFC 4648: three octets make a number of 24 bits, its four digits to the base 64, the highest first, are letters, digits, a
  plus or a slash, and a rest of two octets or one gives three characters or two, padded to four.
\<close>

definition base64_char :: "nat \<Rightarrow> char" where
  "base64_char n =
     (if n < 26 then char_of (of_char CHR ''A'' + n)
      else if n < 52 then char_of (of_char CHR ''a'' + (n - 26))
      else if n < 62 then char_of (of_char CHR ''0'' + (n - 52))
      else if n = 62 then CHR ''+'' else CHR ''/'')"

definition base64_digits :: "nat \<Rightarrow> nat list" where
  "base64_digits n = [n div 64 ^ 3 mod 64, n div 64 ^ 2 mod 64, n div 64 mod 64, n mod 64]"

fun rfc4648 :: "nat list \<Rightarrow> string" where
  "rfc4648 (a # b # c # cs) = map base64_char (base64_digits (a * 256 ^ 2 + b * 256 + c)) @ rfc4648 cs"
| "rfc4648 [a, b] = map base64_char (take 3 (base64_digits (a * 256 ^ 2 + b * 256))) @ ''=''"
| "rfc4648 [a] = map base64_char (take 2 (base64_digits (a * 256 ^ 2))) @ ''==''"
| "rfc4648 [] = []"

text \<open>The groups as the loops treat them.\<close>

fun base64 :: "string \<Rightarrow> string" where
  "base64 (a # b # c # cs) = map sextet_char (MakeCharFour (map byte_of_char [a, b, c])) @ base64 cs"
| "base64 [a, b] = map sextet_char (take 3 (MakeCharFour [byte_of_char a, byte_of_char b, 0])) @ ''=''"
| "base64 [a] = map sextet_char (take 2 (MakeCharFour [byte_of_char a, 0, 0])) @ ''==''"
| "base64 [] = []"

section \<open>Sextets\<close>

lemma takeWhile_distinct: "distinct xs \<Longrightarrow> n < length xs \<Longrightarrow> length (takeWhile ((\<noteq>) (xs ! n)) xs) = n"
proof (induction xs arbitrary: n)
  case (Cons x xs)
  then show ?case by (cases n) auto
qed simp

lemma char_table: "length BASE64_CHARS = 64" "distinct BASE64_CHARS" "list_all IsBase64Char BASE64_CHARS"
  by (simp add: BASE64_CHARS_def, simp add: BASE64_CHARS_def, code_simp)

lemma sextet_char_inverse:
  assumes "b < 64"
  shows "find_sextet (sextet_char b) = b" "IsBase64Char (sextet_char b)"
proof -
  have b: "unat b < length BASE64_CHARS" using assms char_table(1) by (simp add: word_less_nat_alt)
  then show "find_sextet (sextet_char b) = b" using takeWhile_distinct [OF char_table(2) b] by (simp add: find_sextet_def sextet_char_def)
  show "IsBase64Char (sextet_char b)" using b char_table(3) by (simp add: list_all_length sextet_char_def)
qed

lemma pad_ends: "\<not> IsBase64Char CHR ''=''"
  by code_simp

lemma masks:
  "(0xfc :: byte) = push_bit 2 (mask 6)" "(0xf0 :: byte) = push_bit 4 (mask 4)" "(0xc0 :: byte) = push_bit 6 (mask 2)"
  "(0x03 :: byte) = mask 2" "(0x0f :: byte) = mask 4" "(0x3f :: byte) = mask 6"
  "(0x30 :: byte) = push_bit 4 (mask 2)" "(0x3c :: byte) = push_bit 2 (mask 4)"
  by code_simp+

lemma byte_add: "(\<And>n. n < 8 \<Longrightarrow> \<not> bit a n \<or> \<not> bit b n) \<Longrightarrow> a + b = (a :: byte) OR b"
  by (rule disjunctive_add) (use bit_imp_le_length [of a] in fastforce)

lemma four_or:
  "push_bit 4 (a AND 0x03) + drop_bit 4 (b AND 0xf0) = (push_bit 4 (a AND 0x03) OR drop_bit 4 (b AND 0xf0) :: byte)"
  "push_bit 2 (b AND 0x0f) + drop_bit 6 (c AND 0xc0) = (push_bit 2 (b AND 0x0f) OR drop_bit 6 (c AND 0xc0) :: byte)"
  unfolding masks by (rule byte_add, auto simp: bit_simps)+

lemma tree_or:
  "push_bit 2 a + drop_bit 4 (b AND 0x30) = (push_bit 2 a OR drop_bit 4 (b AND 0x30) :: byte)"
  "push_bit 4 (b AND 0xf) + drop_bit 2 (c AND 0x3c) = (push_bit 4 (b AND 0xf) OR drop_bit 2 (c AND 0x3c) :: byte)"
  "push_bit 6 (c AND 0x3) + (d AND 0x3f) = (push_bit 6 (c AND 0x3) OR (d AND 0x3f) :: byte)"
  unfolding masks by (rule byte_add, auto simp: bit_simps)+

lemma byte_eqI:
  assumes "bit a 0 = bit b 0" "bit a 1 = bit b 1" "bit a 2 = bit b 2" "bit a 3 = bit b 3"
    "bit a 4 = bit b 4" "bit a 5 = bit b 5" "bit a 6 = bit b 6" "bit a 7 = bit b 7"
  shows "a = (b :: byte)"
proof (rule bit_word_eqI)
  fix n :: nat assume "n < LENGTH(8)"
  then have "n \<in> {0, 1, 2, 3, 4, 5, 6, 7}" by auto
  then show "bit a n = bit b n" using assms by auto
qed

lemma tree_bytes:
  "push_bit 2 (drop_bit 2 (a AND 0xfc)) + drop_bit 4 ((push_bit 4 (a AND 0x03) + drop_bit 4 (b AND 0xf0)) AND 0x30) = (a :: byte)"
  "push_bit 4 ((push_bit 4 (a AND 0x03) + drop_bit 4 (b AND 0xf0)) AND 0xf) + drop_bit 2 ((push_bit 2 (b AND 0x0f) + drop_bit 6 (c AND 0xc0)) AND 0x3c) = (b :: byte)"
  "push_bit 6 ((push_bit 2 (b AND 0x0f) + drop_bit 6 (c AND 0xc0)) AND 0x3) + (c AND 0x3f) = (c :: byte)"
  unfolding four_or unfolding tree_or unfolding masks by (rule byte_eqI; simp add: bit_simps)+

lemma below_64: "(\<And>n. n < 8 \<Longrightarrow> 6 \<le> n \<Longrightarrow> \<not> bit b n) \<Longrightarrow> b < (64 :: byte)"
proof -
  assume high: "\<And>n. n < 8 \<Longrightarrow> 6 \<le> n \<Longrightarrow> \<not> bit b n"
  have "take_bit 6 b = b" by (rule bit_word_eqI) (use high in \<open>force simp: bit_simps not_less\<close>)
  then have "unat b = take_bit 6 (unat b)" by (metis unsigned_take_bit_eq)
  then have "unat b < 2 ^ 6" by (metis take_bit_nat_less_exp)
  then show "b < 64" by (simp add: word_less_nat_alt)
qed

lemma four_below: "b \<in> set (MakeCharFour three) \<Longrightarrow> b < 64"
proof -
  have "drop_bit 2 (x AND 0xfc) < 64" "x AND 0x3f < 64"
    "push_bit 4 (x AND 0x03) + drop_bit 4 (y AND 0xf0) < 64" "push_bit 2 (x AND 0x0f) + drop_bit 6 (y AND 0xc0) < 64" for x y :: byte
    unfolding four_or unfolding masks by (rule below_64, auto simp: bit_simps)+
  then show "b \<in> set (MakeCharFour three) \<Longrightarrow> b < 64" by (auto simp: MakeCharFour_def)
qed

lemma make_list:
  "MakeCharFour [a, b, c] = [drop_bit 2 (a AND 0xfc), push_bit 4 (a AND 0x03) + drop_bit 4 (b AND 0xf0),
     push_bit 2 (b AND 0x0f) + drop_bit 6 (c AND 0xc0), c AND 0x3f]"
  "MakeCharTree [p, q, r, s] = [push_bit 2 p + drop_bit 4 (q AND 0x30), push_bit 4 (q AND 0xf) + drop_bit 2 (r AND 0x3c), push_bit 6 (r AND 0x3) + s]"
  unfolding MakeCharFour_def MakeCharTree_def by (simp_all only: nth_Cons_0 nth_Cons_Suc numeral_2_eq_2 numeral_3_eq_3 One_nat_def)

lemma tree_four:
  "MakeCharTree (MakeCharFour [a, b, c]) = [a, b, c]"
  "MakeCharTree (take 3 (MakeCharFour [a, b, 0]) @ [x]) = [a, b, MakeCharTree (take 3 (MakeCharFour [a, b, 0]) @ [x]) ! 2]"
  "MakeCharTree (take 2 (MakeCharFour [a, 0, 0]) @ [x, y]) = a # tl (MakeCharTree (take 2 (MakeCharFour [a, 0, 0]) @ [x, y]))"
proof -
  have take3: "take 3 [p, q, r, s] = [p, q, r]" and take2: "take 2 [p, q, r, s] = [p, q]" for p q r s :: byte by simp_all
  have nth2: "[p, q, r] ! 2 = r" for p q r :: byte by simp
  show "MakeCharTree (MakeCharFour [a, b, c]) = [a, b, c]"
    "MakeCharTree (take 3 (MakeCharFour [a, b, 0]) @ [x]) = [a, b, MakeCharTree (take 3 (MakeCharFour [a, b, 0]) @ [x]) ! 2]"
    "MakeCharTree (take 2 (MakeCharFour [a, 0, 0]) @ [x, y]) = a # tl (MakeCharTree (take 2 (MakeCharFour [a, 0, 0]) @ [x, y]))"
    by (simp_all only: make_list take3 take2 append.simps nth2 list.sel tree_bytes)
qed

section \<open>Loops\<close>

lemma encode_loop_base64: "length three = 3 \<Longrightarrow> encode_end (encode_loop source three 0 ret) = ret @ base64 source"
proof (induction source arbitrary: three ret rule: base64.induct)
  case (1 a b c cs)
  from 1(2) obtain x y z where "three = [x, y, z]" by (auto simp: numeral_3_eq_3 length_Suc_conv)
  then show ?case using "1.IH" [of "[byte_of_char a, byte_of_char b, byte_of_char c]"] by (simp add: Let_def)
next
  case (2 a b)
  then obtain x y z where "three = [x, y, z]" by (auto simp: numeral_3_eq_3 length_Suc_conv)
  then show ?case by (simp add: eval_nat_numeral)
next
  case (3 a)
  then obtain x y z where "three = [x, y, z]" by (auto simp: numeral_3_eq_3 length_Suc_conv)
  then show ?case by (simp add: eval_nat_numeral)
qed simp

lemma Encode_base64: "Encode s = base64 s"
  using encode_loop_base64 [of "[0, 0, 0]" s "[]"] by (simp add: Encode_def)

text \<open>The table and the four masks are those of the standard.\<close>

lemma sextet_char_standard: "b < 64 \<Longrightarrow> sextet_char b = base64_char (unat b)"
proof -
  have "BASE64_CHARS = map base64_char [0..<64]" by code_simp
  moreover assume "b < 64"
  then have "unat b < 64" by (simp add: word_less_nat_alt)
  then have "map base64_char [0..<64] ! unat b = base64_char (unat b)" using nth_map_upt [of "unat b" 64 0 base64_char] by simp
  ultimately show ?thesis by (simp only: sextet_char_def)
qed

lemma bit_word_beyond: "8 \<le> n \<Longrightarrow> \<not> bit (a :: byte) n"
  using bit_imp_le_length [of a n] by auto

lemma split_byte:
  fixes a :: byte
  shows "unat (drop_bit 2 (a AND 0xfc)) = unat a div 4" "unat (push_bit 4 (a AND 0x03)) = unat a mod 4 * 16" "unat (drop_bit 4 (a AND 0xf0)) = unat a div 16"
    "unat (push_bit 2 (a AND 0x0f)) = unat a mod 16 * 4" "unat (drop_bit 6 (a AND 0xc0)) = unat a div 64" "unat (a AND 0x3f) = unat a mod 64"
proof -
  have "drop_bit 2 (a AND 0xfc) = drop_bit 2 a" "drop_bit 4 (a AND 0xf0) = drop_bit 4 a" "drop_bit 6 (a AND 0xc0) = drop_bit 6 a"
    unfolding masks by (rule byte_eqI; simp add: bit_simps bit_word_beyond)+
  then show "unat (drop_bit 2 (a AND 0xfc)) = unat a div 4" "unat (drop_bit 4 (a AND 0xf0)) = unat a div 16" "unat (drop_bit 6 (a AND 0xc0)) = unat a div 64"
    by (simp_all only: unat_drop_bit_eq drop_bit_eq_div [where 'a = nat]) simp_all
  have m: "unat (a AND mask n) = unat a mod 2 ^ n" for n by (simp add: unsigned_take_bit_eq flip: take_bit_eq_mask take_bit_eq_mod)
  then show "unat (a AND 0x3f) = unat a mod 64" unfolding masks by simp
  have p: "unat (push_bit k x) = unat x * 2 ^ k" if "unat x * 2 ^ k < 256" for k and x :: byte
    using that by (simp add: unsigned_push_bit_eq push_bit_eq_mult [where 'a = nat] take_bit_eq_mod [where 'a = nat])
  show "unat (push_bit 4 (a AND 0x03)) = unat a mod 4 * 16" "unat (push_bit 2 (a AND 0x0f)) = unat a mod 16 * 4"
    unfolding masks by (subst p; simp only: m; simp)+
qed

lemma digits_of_octets:
  assumes "y < 256" "z < (256 :: nat)"
  shows "base64_digits (x * 256 ^ 2 + y * 256 + z) = [x div 4 mod 64, x mod 4 * 16 + y div 16, y mod 16 * 4 + z div 64, z mod 64]"
proof -
  let ?n = "x * 256 ^ 2 + y * 256 + z"
  have "?n = (x * 1024 + y * 4) * 64 + z" by simp
  then have n: "?n mod 64 = z mod 64" "?n div 64 = x * 1024 + (y * 4 + z div 64)" by (simp_all only: mod_mult_self3) simp
  have q: "z div 64 < 4" "y div 16 < 16" using assms by simp_all
  have w: "(u * m + v) div (k * m) = u div k" "(u * m + v) mod (k * m) = u mod k * m + v" if "v < m" "0 < k" for u v k m :: nat
    using that by (simp_all add: mult.commute [of k] div_mult2_eq mod_mult2_eq)
  have "(y * 4 + z div 64) div 64 = y div 16" "(y * 4 + z div 64) mod 64 = y mod 16 * 4 + z div 64" using w [OF q(1), of 16 y] by simp_all
  moreover have "?n div 64 = (x * 16) * 64 + (y * 4 + z div 64)" unfolding n(2) by simp
  moreover have "((x * 16) * 64 + w) mod 64 = w mod 64" "((x * 16) * 64 + w) div 64 = x * 16 + w div 64" for w
    by (rule mod_mult_self3, rule div_mult_self3) simp
  ultimately have m: "?n div 64 mod 64 = y mod 16 * 4 + z div 64" "?n div 64 div 64 = x * 16 + y div 16" by (simp_all only:)
  have "(x * 16 + y div 16) div 64 = x div 4" "(x * 16 + y div 16) mod 64 = x mod 4 * 16 + y div 16" using w [OF q(2), of 4 x] by simp_all
  moreover have "64 ^ 2 = 64 * (64 :: nat)" "64 ^ 3 = 64 * (64 * (64 :: nat))" by simp_all
  ultimately show ?thesis by (simp only: base64_digits_def div_mult2_eq m n(1))
qed

lemma four_standard:
  "map sextet_char (MakeCharFour [a, b, c]) = map base64_char (base64_digits (unat a * 256 ^ 2 + unat b * 256 + unat c))"
proof -
  have u: "unat x < 256" for x :: byte using unsigned_less [of x] by simp
  have s: "unat (x + y) = unat x + unat y" if "unat x + unat y < 256" for x y :: byte using that unat_add_lem [of x y] by simp
  have "unat a mod 4 \<le> 3" "unat b div 16 \<le> 15" "unat b mod 16 \<le> 15" "unat c div 64 \<le> 3" using u [of b] u [of c] by simp_all
  then have "unat (push_bit 4 (a AND 0x03) + drop_bit 4 (b AND 0xf0)) = unat a mod 4 * 16 + unat b div 16"
    "unat (push_bit 2 (b AND 0x0f) + drop_bit 6 (c AND 0xc0)) = unat b mod 16 * 4 + unat c div 64"
    by (subst s; simp only: split_byte; linarith)+
  then have "map unat (MakeCharFour [a, b, c]) = base64_digits (unat a * 256 ^ 2 + unat b * 256 + unat c)"
    using u [of a] by (simp only: make_list split_byte digits_of_octets [OF u u] list.map) simp
  moreover have "map sextet_char (MakeCharFour [a, b, c]) = map base64_char (map unat (MakeCharFour [a, b, c]))"
    using four_below [of _ "[a, b, c]"] sextet_char_standard by simp
  ultimately show ?thesis by simp
qed

lemma base64_standard: "base64 s = rfc4648 (map of_char s)"
proof -
  have u: "unat (byte_of_char c) = of_char c" for c :: char by (simp add: byte_of_char_def unat_of_nat)
  show ?thesis
  proof (induction s rule: base64.induct)
    case (1 a b c cs)
    then show ?case using four_standard [of "byte_of_char a" "byte_of_char b" "byte_of_char c"] by (simp add: u)
  next
    case (2 a b)
    then show ?case using arg_cong [OF four_standard [of "byte_of_char a" "byte_of_char b" 0], of "take 3"] by (simp add: u take_map)
  next
    case (3 a)
    then show ?case using arg_cong [OF four_standard [of "byte_of_char a" 0 0], of "take 2"] by (simp add: u take_map)
  qed simp
qed

lemma decode_four:
  assumes "length four = 4" "\<forall>b \<in> set [p, q, r, s]. b < 64"
  shows "decode_loop (map sextet_char [p, q, r, s] @ cs) four 0 ret = decode_loop cs [p, q, r, s] 0 (ret @ map char_of_byte (MakeCharTree [p, q, r, s]))"
proof -
  obtain w x y z where "four = [w, x, y, z]" using assms(1) by (auto simp: eval_nat_numeral length_Suc_conv)
  then show ?thesis using assms(2) sextet_char_inverse by (simp add: Let_def)
qed

lemma decode_loop_base64: "length four = 4 \<Longrightarrow> decode_end (decode_loop (base64 source) four 0 ret) = ret @ source"
proof (induction source arbitrary: four ret rule: base64.induct)
  case (1 a b c cs)
  obtain p q r s where four: "MakeCharFour (map byte_of_char [a, b, c]) = [p, q, r, s]" by (simp add: MakeCharFour_def)
  then have "\<forall>b \<in> set [p, q, r, s]. b < 64" using four_below by metis
  then have "decode_loop (base64 (a # b # c # cs)) four 0 ret
    = decode_loop (base64 cs) [p, q, r, s] 0 (ret @ map char_of_byte (MakeCharTree [p, q, r, s]))"
    using decode_four [OF 1(2)] four by simp
  moreover have "MakeCharTree [p, q, r, s] = map byte_of_char [a, b, c]" using four tree_four(1) [of "byte_of_char a" "byte_of_char b" "byte_of_char c"] by simp
  ultimately show ?case using "1.IH" [of "[p, q, r, s]"] by simp
next
  case (2 a b)
  then obtain w x y z where f: "four = [w, x, y, z]" by (auto simp: eval_nat_numeral length_Suc_conv)
  obtain p q r where four: "take 3 (MakeCharFour [byte_of_char a, byte_of_char b, 0]) = [p, q, r]" by (simp add: MakeCharFour_def)
  then have "p < 64" "q < 64" "r < 64" using four_below in_set_takeD by (metis list.set_intros)+
  moreover obtain t where "MakeCharTree [p, q, r, find_sextet (char_of_byte 0)] = [byte_of_char a, byte_of_char b, t]"
    using four tree_four(2) [of "byte_of_char a" "byte_of_char b" "find_sextet (char_of_byte 0)"] by simp
  ultimately show ?case using f four sextet_char_inverse pad_ends by (simp add: numeral_3_eq_3)
next
  case (3 a)
  then obtain w x y z where f: "four = [w, x, y, z]" by (auto simp: eval_nat_numeral length_Suc_conv)
  obtain p q where four: "take 2 (MakeCharFour [byte_of_char a, 0, 0]) = [p, q]" by (simp add: MakeCharFour_def)
  then have "p < 64" "q < 64" using four_below in_set_takeD by (metis list.set_intros)+
  moreover obtain ts where "MakeCharTree [p, q, find_sextet (char_of_byte 0), find_sextet (char_of_byte 0)] = byte_of_char a # ts"
    using four tree_four(3) [of "byte_of_char a" "find_sextet (char_of_byte 0)" "find_sextet (char_of_byte 0)"] by simp
  ultimately show ?case using f four sextet_char_inverse pad_ends by (simp add: numeral_2_eq_2)
qed simp

lemma Decode_Encode: "Decode (Encode s) = s"
  using decode_loop_base64 [of "[0, 0, 0, 0]" s "[]"] by (simp add: Decode_def Encode_base64)

section \<open>Properties\<close>

text \<open>
  C33. The encoder with its running index and its masks is the Base64 encoding of RFC 4648, and decoding returns the text: every string, of any
  length and with any bytes, survives the cache file.
\<close>

theorem base64_roundtrip: "Encode s = rfc4648 (map of_char s) \<and> Decode (Encode s) = s"
  using Encode_base64 base64_standard Decode_Encode by metis

end
