(* ===== verification/Lru_Cache.thy ===== *)
theory Lru_Cache
  imports Common_Utils "HOL-Library.Monad_Syntax"
begin

text \<open>
  The cache of HTTP responses: the least-recently-used cache in memory (\<open>lru_cache.cpp\<close>) and its file
  (\<open>lru_cache_disk_handler.cpp\<close>, \<open>disk_handler.cpp\<close>).

  \<open>nodeList_\<close> is the list of nodes, each with an address that is new when the node is made, and \<open>cache_\<close> maps a key to
  the address of its node, which is what the iterator in the code is. \<open>None\<close> is the use of an iterator whose node is gone, a null
  string turned into a \<open>std::string\<close>, or a loop that does not end. \<open>size_\<close> and \<open>capacity_\<close> have 64 bits. No
  function depends on the iteration order of the unordered map in a node, which is kept ordered here. Parsing and printing of JSON text
  and the access to the file are parameters.
\<close>

type_synonym u64 = "64 word"
type_synonym cache_value = "(string, string) omap"

abbreviation MAX_SIZE :: int where "MAX_SIZE \<equiv> 1048576"
abbreviation INVALID_SIZE :: u64 where "INVALID_SIZE \<equiv> - 1"
abbreviation LRU_INDEX :: string where "LRU_INDEX \<equiv> ''LRUIndex''"

section \<open>The cache in memory\<close>

fun value_size_loop :: "int \<Rightarrow> cache_value \<Rightarrow> u64" where
  "value_size_loop n [] = (if n > MAX_SIZE \<or> n = 0 then INVALID_SIZE else of_int n)"
| "value_size_loop n (p # m) =
     (if int (length (snd p)) > MAX_SIZE then INVALID_SIZE
      else if n + int (length (snd p)) > MAX_SIZE then INVALID_SIZE
      else value_size_loop (n + int (length (snd p))) m)"

definition GetMapValueSize :: "cache_value \<Rightarrow> u64" where
  "GetMapValueSize m = value_size_loop 0 m"

record Node =
  nd_key :: string
  nd_value :: cache_value

record LRUCache =
  lc_cache :: "(string, nat) omap"
  nodeList :: "(nat \<times> Node) list"
  next_node :: nat
  lc_capacity :: u64
  lc_size :: u64

definition LRUCache_default :: LRUCache where
  "LRUCache_default = \<lparr> lc_cache = [], nodeList = [], next_node = 0, lc_capacity = of_int MAX_SIZE, lc_size = 0 \<rparr>"

definition LRUCache_ctor :: "u64 \<Rightarrow> LRUCache" where
  "LRUCache_ctor capacity = \<lparr> lc_cache = [], nodeList = [], next_node = 0, lc_capacity = min (of_int MAX_SIZE) capacity, lc_size = 0 \<rparr>"

text \<open>\<open>emplace_front\<close> and the entry of the key that points to the new node.\<close>

definition push_front :: "Node \<Rightarrow> LRUCache \<Rightarrow> LRUCache" where
  "push_front node c = c\<lparr> nodeList := (next_node c, node) # nodeList c, lc_cache := om_put (nd_key node) (next_node c) (lc_cache c),
     next_node := next_node c + 1 \<rparr>"

definition AddNode :: "Node \<Rightarrow> LRUCache \<Rightarrow> LRUCache" where
  "AddNode node c = (push_front node c)\<lparr> lc_size := lc_size c + GetMapValueSize (nd_value node) \<rparr>"

definition MoveNodeToHead :: "nat \<Rightarrow> LRUCache \<Rightarrow> LRUCache option" where
  "MoveNodeToHead it c = do {
     node \<leftarrow> map_of (nodeList c) it;
     Some (push_front node (c\<lparr> nodeList := filter (\<lambda>n. fst n \<noteq> it) (nodeList c) \<rparr>))
   }"

definition EraseTailNode :: "LRUCache \<Rightarrow> LRUCache" where
  "EraseTailNode c =
     (if nodeList c = [] then c
      else
        let node = snd (last (nodeList c))
        in c\<lparr> nodeList := butlast (nodeList c), lc_cache := om_del (nd_key node) (lc_cache c), lc_size := lc_size c - GetMapValueSize (nd_value node) \<rparr>)"

partial_function (option) evict :: "LRUCache \<Rightarrow> LRUCache option" where
  [code]: "evict c = (if lc_size c > lc_capacity c then evict (EraseTailNode c) else Some c)"

definition Get :: "string \<Rightarrow> LRUCache \<Rightarrow> (cache_value \<times> LRUCache) option" where
  "Get key c =
     (case om_get (lc_cache c) key of
        None \<Rightarrow> Some ([], c)
      | Some it \<Rightarrow> do {
          node \<leftarrow> map_of (nodeList c) it;
          c1 \<leftarrow> MoveNodeToHead it c;
          Some (nd_value node, c1)
        })"

definition Put :: "string \<Rightarrow> cache_value \<Rightarrow> LRUCache \<Rightarrow> LRUCache option" where
  "Put key val c =
     (if GetMapValueSize val = INVALID_SIZE then Some c
      else case om_get (lc_cache c) key of
        None \<Rightarrow> evict (AddNode \<lparr> nd_key = key, nd_value = val \<rparr> c)
      | Some it \<Rightarrow> do {
          node \<leftarrow> map_of (nodeList c) it;
          let c1 = c\<lparr> lc_size := lc_size c - GetMapValueSize (nd_value node),
                     nodeList := map (\<lambda>n. if fst n = it then (it, node\<lparr> nd_value := val \<rparr>) else n) (nodeList c) \<rparr>;
          let c2 = c1\<lparr> lc_size := lc_size c1 + GetMapValueSize val \<rparr>;
          c3 \<leftarrow> MoveNodeToHead it c2;
          evict c3
        })"

fun put_all :: "Node list \<Rightarrow> LRUCache \<Rightarrow> LRUCache option" where
  "put_all [] c = Some c"
| "put_all (node # nodes) c = do { c1 \<leftarrow> Put (nd_key node) (nd_value node) c; put_all nodes c1 }"

definition MergeOtherCache :: "LRUCache \<Rightarrow> LRUCache \<Rightarrow> LRUCache option" where
  "MergeOtherCache other c = (if nodeList other = [] then Some c else put_all (map snd (rev (nodeList other))) c)"

definition Clear :: "LRUCache \<Rightarrow> LRUCache" where
  "Clear c = c\<lparr> lc_cache := [], nodeList := [] \<rparr>"

section \<open>JSON values\<close>

datatype json = JString string | JObject "(string \<times> json) list" | JArray "json list" | JOther

text \<open>The text a C string holds.\<close>

definition c_str :: "string \<Rightarrow> string" where
  "c_str s = takeWhile (\<lambda>c. c \<noteq> CHR 0x00) s"

definition node_json :: "nat \<Rightarrow> Node \<Rightarrow> string \<times> json" where
  "node_json index node = (c_str (nd_key node),
     JObject (map (\<lambda>p. (c_str (fst p), JString (c_str (snd p)))) (nd_value node) @ [(LRU_INDEX, JString (to_string index))]))"

definition WriteCacheToJsonValue :: "LRUCache \<Rightarrow> json" where
  "WriteCacheToJsonValue c = JObject (map (\<lambda>(index, n). node_json index (snd n)) (List.enumerate 0 (nodeList c)))"

text \<open>\<open>cJSON_GetArrayItem\<close>: the children with their names, null in an array.\<close>

fun children :: "json \<Rightarrow> (string option \<times> json) list" where
  "children (JObject items) = map (\<lambda>p. (Some (fst p), snd p)) items"
| "children (JArray items) = map (\<lambda>x. (None, x)) items"
| "children _ = []"

fun read_value :: "(string \<times> json) list \<Rightarrow> cache_value \<Rightarrow> cache_value" where
  "read_value [] m = m"
| "read_value ((k, JString s) # items) m = read_value items (om_put k s m)"
| "read_value (_ # items) m = read_value items m"

fun read_nodes :: "(string option \<times> json) list \<Rightarrow> Node list option" where
  "read_nodes [] = Some []"
| "read_nodes ((key, JObject items) # rest) = do {
     k \<leftarrow> key;
     nodes \<leftarrow> read_nodes rest;
     let m = read_value items [];
     Some (if om_get m LRU_INDEX \<noteq> None then \<lparr> nd_key = k, nd_value = m \<rparr> # nodes else nodes)
   }"
| "read_nodes (_ # rest) = read_nodes rest"

text \<open>\<open>strtol\<close> with base 10.\<close>

definition strtol10 :: "string \<Rightarrow> int" where
  "strtol10 s =
     (case skip_sign (dropWhile isspace s) of (neg, s1) \<Rightarrow>
      let m = int (digits_value 10 (takeWhile (\<lambda>c. digit_of c < 10) s1))
      in max (- (2 ^ 63)) (min (2 ^ 63 - 1) (if neg then - m else m)))"

definition node_index :: "Node \<Rightarrow> int" where
  "node_index node = strtol10 (case om_get (nd_value node) LRU_INDEX of Some s \<Rightarrow> s | None \<Rightarrow> [])"

text \<open>The standard leaves the order of equal indexes open; here it is the order of the file.\<close>

definition ReadCacheFromJsonValue :: "json \<Rightarrow> LRUCache \<Rightarrow> LRUCache option" where
  "ReadCacheFromJsonValue root c = do {
     nodes \<leftarrow> read_nodes (children root);
     put_all (filter (\<lambda>n. nd_value n \<noteq> [])
       (map (\<lambda>n. n\<lparr> nd_value := om_del LRU_INDEX (nd_value n) \<rparr>) (sort_key (\<lambda>n. - node_index n) nodes))) c
   }"

section \<open>The file\<close>

record cache_env =
  cJSON_Parse :: "string \<Rightarrow> json option"
  cJSON_Print :: "json \<Rightarrow> string option"
  file_opens :: bool
  file_removes :: bool

record LRUCacheDiskHandler =
  dh_cache :: LRUCache
  dh_file :: "string option"
  dh_capacity :: u64

abbreviation MAX_DISK_CACHE_SIZE :: u64 where "MAX_DISK_CACHE_SIZE \<equiv> 10485760"
abbreviation MIN_DISK_CACHE_SIZE :: u64 where "MIN_DISK_CACHE_SIZE \<equiv> 1048576"

definition clamp_capacity :: "u64 \<Rightarrow> u64" where
  "clamp_capacity capacity = max (min MAX_DISK_CACHE_SIZE capacity) MIN_DISK_CACHE_SIZE"

definition Disk_Write :: "cache_env \<Rightarrow> string \<Rightarrow> LRUCacheDiskHandler \<Rightarrow> LRUCacheDiskHandler" where
  "Disk_Write env str h = (if file_opens env then h\<lparr> dh_file := Some str \<rparr> else h)"

definition Disk_Read :: "cache_env \<Rightarrow> LRUCacheDiskHandler \<Rightarrow> string" where
  "Disk_Read env h = (if file_opens env then (case dh_file h of Some str \<Rightarrow> str | None \<Rightarrow> []) else [])"

definition Disk_Delete :: "cache_env \<Rightarrow> LRUCacheDiskHandler \<Rightarrow> LRUCacheDiskHandler" where
  "Disk_Delete env h = (if file_removes env then h\<lparr> dh_file := None \<rparr> else h)"

definition LRUCacheDiskHandler_ctor :: "string option \<Rightarrow> u64 \<Rightarrow> LRUCacheDiskHandler" where
  "LRUCacheDiskHandler_ctor file capacity = \<lparr> dh_cache = LRUCache_default, dh_file = file, dh_capacity = clamp_capacity capacity \<rparr>"

definition ReadJsonValueFromFile :: "cache_env \<Rightarrow> LRUCacheDiskHandler \<Rightarrow> json option" where
  "ReadJsonValueFromFile env h = cJSON_Parse env (c_str (Disk_Read env h))"

definition WriteJsonValueToFile :: "cache_env \<Rightarrow> json \<Rightarrow> LRUCacheDiskHandler \<Rightarrow> LRUCacheDiskHandler" where
  "WriteJsonValueToFile env root h = (case cJSON_Print env root of None \<Rightarrow> h | Some s \<Rightarrow> Disk_Write env s h)"

definition WriteCacheToJsonFile :: "cache_env \<Rightarrow> LRUCacheDiskHandler \<Rightarrow> LRUCacheDiskHandler option" where
  "WriteCacheToJsonFile env h =
     (case ReadJsonValueFromFile env h of
        None \<Rightarrow> Some h
      | Some readRoot \<Rightarrow> do {
          oldCache \<leftarrow> ReadCacheFromJsonValue readRoot (LRUCache_ctor (dh_capacity h));
          merged \<leftarrow> MergeOtherCache (dh_cache h) oldCache;
          let h1 = WriteJsonValueToFile env (WriteCacheToJsonValue merged) h;
          Some (h1\<lparr> dh_cache := Clear (dh_cache h1) \<rparr>)
        })"

definition SetCapacity :: "cache_env \<Rightarrow> u64 \<Rightarrow> LRUCacheDiskHandler \<Rightarrow> LRUCacheDiskHandler option" where
  "SetCapacity env capacity h = WriteCacheToJsonFile env (h\<lparr> dh_capacity := clamp_capacity capacity \<rparr>)"

definition Delete :: "cache_env \<Rightarrow> LRUCacheDiskHandler \<Rightarrow> LRUCacheDiskHandler" where
  "Delete env h = Disk_Delete env (h\<lparr> dh_cache := Clear (dh_cache h) \<rparr>)"

definition ReadCacheFromJsonFile :: "cache_env \<Rightarrow> LRUCacheDiskHandler \<Rightarrow> LRUCacheDiskHandler option" where
  "ReadCacheFromJsonFile env h =
     (case ReadJsonValueFromFile env h of
        None \<Rightarrow> Some h
      | Some root \<Rightarrow> do { c \<leftarrow> ReadCacheFromJsonValue root (dh_cache h); Some (h\<lparr> dh_cache := c \<rparr>) })"

definition Handler_Get :: "cache_env \<Rightarrow> string \<Rightarrow> LRUCacheDiskHandler \<Rightarrow> (cache_value \<times> LRUCacheDiskHandler) option" where
  "Handler_Get env key h = do {
     (valueFromMemory, c) \<leftarrow> Get key (dh_cache h);
     let h1 = h\<lparr> dh_cache := c \<rparr>;
     if valueFromMemory \<noteq> [] then Some (valueFromMemory, h1)
     else case ReadJsonValueFromFile env h1 of
       None \<Rightarrow> Some (valueFromMemory, h1)
     | Some root \<Rightarrow> do {
         diskCache \<leftarrow> ReadCacheFromJsonValue root (LRUCache_ctor (dh_capacity h1));
         (valueFromDisk, d) \<leftarrow> Get key diskCache;
         c1 \<leftarrow> Put key valueFromDisk (dh_cache h1);
         Some (valueFromDisk, h1\<lparr> dh_cache := c1 \<rparr>)
       }
   }"

definition Handler_Put :: "string \<Rightarrow> cache_value \<Rightarrow> LRUCacheDiskHandler \<Rightarrow> LRUCacheDiskHandler option" where
  "Handler_Put key val h = do { c \<leftarrow> Put key val (dh_cache h); Some (h\<lparr> dh_cache := c \<rparr>) }"

section \<open>Specification\<close>

text \<open>
  What the cache promises: the list of entries by recency of use, of which the longest beginning that fits into the budget is kept.
\<close>

type_synonym recency = "(string \<times> cache_value) list"

definition value_bytes :: "cache_value \<Rightarrow> nat" where
  "value_bytes m = sum_list (map (length \<circ> snd) m)"

definition storable :: "cache_value \<Rightarrow> bool" where
  "storable m = (0 < value_bytes m \<and> value_bytes m \<le> 1048576)"

fun fit :: "nat \<Rightarrow> recency \<Rightarrow> recency" where
  "fit budget [] = []"
| "fit budget (e # es) = (if value_bytes (snd e) \<le> budget then e # fit (budget - value_bytes (snd e)) es else [])"

definition spec_put :: "nat \<Rightarrow> string \<Rightarrow> cache_value \<Rightarrow> recency \<Rightarrow> recency" where
  "spec_put budget key val es = (if storable val then fit budget ((key, val) # filter (\<lambda>e. fst e \<noteq> key) es) else es)"

definition spec_get :: "string \<Rightarrow> recency \<Rightarrow> cache_value \<times> recency" where
  "spec_get key es = (case map_of es key of None \<Rightarrow> ([], es) | Some val \<Rightarrow> (val, (key, val) # filter (\<lambda>e. fst e \<noteq> key) es))"

definition recency_of :: "LRUCache \<Rightarrow> recency" where
  "recency_of c = map (\<lambda>n. (nd_key (snd n), nd_value (snd n))) (nodeList c)"

definition total_bytes :: "recency \<Rightarrow> nat" where
  "total_bytes es = sum_list (map (value_bytes \<circ> snd) es)"

text \<open>The bytes \<open>size_\<close> counts although no node has them, and what is left of the capacity.\<close>

definition lost :: "LRUCache \<Rightarrow> nat" where
  "lost c = unat (lc_size c) - total_bytes (recency_of c)"

definition budget :: "LRUCache \<Rightarrow> nat" where
  "budget c = unat (lc_capacity c) - lost c"

text \<open>
  List and index agree: node addresses and keys are used once, and every key points to its node. While a node is being moved, this holds but
  for its key.
\<close>

definition nodes_ok :: "LRUCache \<Rightarrow> bool" where
  "nodes_ok c \<longleftrightarrow> distinct (map fst (nodeList c)) \<and> distinct (map fst (recency_of c)) \<and> om_wf (lc_cache c)
     \<and> (\<forall>n \<in> set (nodeList c). fst n < next_node c \<and> storable (nd_value (snd n)))"

definition indexed :: "LRUCache \<Rightarrow> string \<Rightarrow> bool" where
  "indexed c key \<longleftrightarrow> (\<forall>it. om_get (lc_cache c) key = Some it \<longleftrightarrow> (\<exists>node. (it, node) \<in> set (nodeList c) \<and> nd_key node = key))"

definition lru_core :: "LRUCache \<Rightarrow> bool" where
  "lru_core c \<longleftrightarrow> nodes_ok c \<and> (\<forall>key. indexed c key)"

definition core_but :: "string \<Rightarrow> LRUCache \<Rightarrow> bool" where
  "core_but k c \<longleftrightarrow> nodes_ok c \<and> (\<forall>key. key \<noteq> k \<longrightarrow> indexed c key) \<and> k \<notin> fst ` set (recency_of c)"

definition lru_inv :: "LRUCache \<Rightarrow> bool" where
  "lru_inv c \<longleftrightarrow> lru_core c \<and> total_bytes (recency_of c) \<le> unat (lc_size c) \<and> lc_size c \<le> lc_capacity c \<and> lc_capacity c \<le> 1048576"

text \<open>The document a list of entries is written as.\<close>

definition recency_json :: "recency \<Rightarrow> json" where
  "recency_json es = JObject (map (\<lambda>(index, e). node_json index \<lparr> nd_key = fst e, nd_value = snd e \<rparr>) (List.enumerate 0 es))"

datatype lru_op = OpPut string cache_value | OpGet string | OpClear

fun lru_run :: "lru_op list \<Rightarrow> LRUCache \<Rightarrow> LRUCache option" where
  "lru_run [] c = Some c"
| "lru_run (OpPut key val # ops) c = Option.bind (Put key val c) (lru_run ops)"
| "lru_run (OpGet key # ops) c = Option.bind (Get key c) (\<lambda>(val, c'). lru_run ops c')"
| "lru_run (OpClear # ops) c = lru_run ops (Clear c)"

text \<open>Calls of the handler of the file.\<close>

datatype disk_op = DPut string cache_value | DGet string | DFlush | DSetCapacity u64 | DLoad | DDelete

fun disk_step :: "cache_env \<Rightarrow> disk_op \<Rightarrow> LRUCacheDiskHandler \<Rightarrow> LRUCacheDiskHandler option" where
  "disk_step env (DPut key val) h = Handler_Put key val h"
| "disk_step env (DGet key) h = map_option snd (Handler_Get env key h)"
| "disk_step env DFlush h = WriteCacheToJsonFile env h"
| "disk_step env (DSetCapacity capacity) h = SetCapacity env capacity h"
| "disk_step env DLoad h = ReadCacheFromJsonFile env h"
| "disk_step env DDelete h = Some (Delete env h)"

fun disk_run :: "cache_env \<Rightarrow> disk_op list \<Rightarrow> LRUCacheDiskHandler \<Rightarrow> LRUCacheDiskHandler option" where
  "disk_run env [] h = Some h"
| "disk_run env (op # ops) h = Option.bind (disk_step env op h) (disk_run env ops)"

text \<open>Entries that survive the file: ordered maps of texts with no null character, which do not use the name of the index.\<close>

definition plain_text :: "string \<Rightarrow> bool" where
  "plain_text s = (CHR 0x00 \<notin> set s)"

definition plain :: "recency \<Rightarrow> bool" where
  "plain es = (\<forall>e \<in> set es. plain_text (fst e) \<and> om_wf (snd e) \<and> om_get (snd e) LRU_INDEX = None
     \<and> (\<forall>p \<in> set (snd e). plain_text (fst p) \<and> plain_text (snd p)))"

fun spec_run :: "lru_op list \<Rightarrow> nat \<times> recency \<Rightarrow> nat \<times> recency" where
  "spec_run [] (b, es) = (b, es)"
| "spec_run (OpPut key val # ops) (b, es) = spec_run ops (b, spec_put b key val es)"
| "spec_run (OpGet key # ops) (b, es) = spec_run ops (b, snd (spec_get key es))"
| "spec_run (OpClear # ops) (b, es) = spec_run ops (b - total_bytes es, [])"

text \<open>An entry with its position in the list, as the file has it.\<close>

definition entry_node :: "nat \<Rightarrow> string \<times> cache_value \<Rightarrow> Node" where
  "entry_node i e = \<lparr> nd_key = fst e, nd_value = om_put LRU_INDEX (to_string i) (snd e) \<rparr>"

section \<open>Sizes\<close>

lemma value_size_loop_bytes:
  "0 \<le> n \<Longrightarrow> n \<le> MAX_SIZE \<Longrightarrow>
   value_size_loop n m = (if n + int (value_bytes m) = 0 \<or> n + int (value_bytes m) > MAX_SIZE then INVALID_SIZE else of_int (n + int (value_bytes m)))"
proof (induction m arbitrary: n)
  case (Cons p m)
  have bytes: "value_bytes (p # m) = length (snd p) + value_bytes m" by (simp add: value_bytes_def)
  show ?case
  proof (cases "n + int (length (snd p)) > MAX_SIZE")
    case True
    then show ?thesis using bytes by simp
  next
    case False
    then show ?thesis using Cons.IH [of "n + int (length (snd p))"] Cons.prems bytes by (simp add: add.assoc)
  qed
qed (simp add: value_bytes_def)

lemma GetMapValueSize_bytes: "GetMapValueSize m = (if storable m then of_nat (value_bytes m) else INVALID_SIZE)"
  using value_size_loop_bytes [of 0 m] by (auto simp: GetMapValueSize_def storable_def)

lemma storable_size:
  assumes "storable m"
  shows "unat (of_nat (value_bytes m) :: u64) = value_bytes m" "of_nat (value_bytes m) \<noteq> INVALID_SIZE"
proof -
  have small: "n \<le> 1048577 \<Longrightarrow> unat (of_nat n :: u64) = n" for n by (simp add: unat_of_nat)
  have "value_bytes m \<le> 1048576" using assms by (simp add: storable_def)
  then have size: "unat (of_nat (value_bytes m) :: u64) = value_bytes m" "unat (of_nat (value_bytes m + 1) :: u64) = value_bytes m + 1"
    using small [of "value_bytes m"] small [of "value_bytes m + 1"] by linarith+
  then show "unat (of_nat (value_bytes m) :: u64) = value_bytes m" by blast
  show "of_nat (value_bytes m) \<noteq> INVALID_SIZE"
  proof
    assume "of_nat (value_bytes m) = INVALID_SIZE"
    then have "(of_nat (value_bytes m + 1) :: u64) = 0" by simp
    then show False using size(2) by (metis add_is_0 one_neq_zero unat_0)
  qed
qed

lemma total_bytes_simps [simp]:
  "total_bytes [] = 0" "total_bytes (e # es) = value_bytes (snd e) + total_bytes es" "total_bytes (es @ es') = total_bytes es + total_bytes es'"
  by (simp_all add: total_bytes_def)

lemma fit_all: "total_bytes es \<le> b \<Longrightarrow> fit b es = es"
  by (induction es arbitrary: b) auto

lemma fit_snoc: "b < total_bytes (es @ [e]) \<Longrightarrow> fit b (es @ [e]) = fit b es"
  by (induction es arbitrary: b) auto

lemma filter_other: "k \<notin> fst ` set es \<Longrightarrow> filter (\<lambda>e. fst e \<noteq> k) es = es"
  by (induction es) auto

lemma storable_nonempty: "storable m \<Longrightarrow> m \<noteq> []"
  by (auto simp: storable_def value_bytes_def)

lemma total_split: "distinct (map fst es) \<Longrightarrow> (k, v) \<in> set es \<Longrightarrow> total_bytes es = value_bytes v + total_bytes (filter (\<lambda>e. fst e \<noteq> k) es)"
proof (induction es)
  case (Cons e es)
  show ?case
  proof (cases "fst e = k")
    case True
    then have "k \<notin> fst ` set es" using Cons.prems(1) by simp
    then have "\<forall>x \<in> set es. fst x \<noteq> k" by force
    moreover have "snd e = v" using Cons.prems(2) \<open>k \<notin> fst ` set es\<close> by (metis fst_conv image_eqI set_ConsD snd_conv)
    ultimately show ?thesis using True by (simp add: filter_id_conv)
  next
    case False
    then show ?thesis using Cons by auto
  qed
qed simp

section \<open>List and index\<close>

lemma recency_of_simps [simp]:
  "recency_of (c\<lparr> lc_size := n \<rparr>) = recency_of c" "recency_of (c\<lparr> lc_cache := i \<rparr>) = recency_of c"
  "recency_of (push_front node c) = (nd_key node, nd_value node) # recency_of c"
  by (simp_all add: recency_of_def push_front_def)

lemma recency_key: "(it, node) \<in> set (nodeList c) \<Longrightarrow> nd_key node \<in> fst ` set (recency_of c)"
  by (force simp: recency_of_def)

lemma core_size [simp]: "lru_core (c\<lparr> lc_size := n \<rparr>) = lru_core c" "core_but k (c\<lparr> lc_size := n \<rparr>) = core_but k c"
  by (simp_all add: lru_core_def core_but_def nodes_ok_def indexed_def)

lemma push_core:
  assumes "core_but (nd_key node) c" "storable (nd_value node)"
  shows "lru_core (push_front node c)"
proof -
  have nodes: "nodes_ok c" and free: "nd_key node \<notin> fst ` set (recency_of c)" using assms by (simp_all add: core_but_def)
  have "next_node c \<notin> fst ` set (nodeList c)" using nodes by (auto simp: nodes_ok_def)
  then have "nodes_ok (push_front node c)"
    using nodes free assms(2) unfolding nodes_ok_def recency_of_simps by (auto simp: push_front_def)
  moreover have "indexed (push_front node c) key" for key
  proof (cases "key = nd_key node")
    case True
    have "nd_key (snd n) \<noteq> nd_key node" if "n \<in> set (nodeList c)" for n using free that by (force simp: recency_of_def)
    then show ?thesis using True by (auto simp: indexed_def push_front_def)
  next
    case False
    then have "indexed c key" using assms(1) by (simp add: core_but_def)
    then show ?thesis using False by (auto simp: indexed_def push_front_def)
  qed
  ultimately show ?thesis by (simp add: lru_core_def)
qed

lemma indexed_entry: "indexed c key \<Longrightarrow> n \<in> set (nodeList c) \<Longrightarrow> nd_key (snd n) = key \<Longrightarrow> om_get (lc_cache c) key = Some (fst n)"
  unfolding indexed_def by (metis prod.collapse)

lemma core_but_new:
  assumes "lru_core c" "om_get (lc_cache c) k = None"
  shows "core_but k c"
proof -
  have "indexed c k" using assms(1) by (simp add: lru_core_def)
  then have "nd_key (snd n) \<noteq> k" if "n \<in> set (nodeList c)" for n
    using indexed_entry [OF _ that, of k] assms(2) by auto
  then have "k \<notin> fst ` set (recency_of c)" by (force simp: recency_of_def)
  then show ?thesis using assms(1) by (simp add: core_but_def lru_core_def)
qed

lemma core_entry:
  assumes "lru_core c" "om_get (lc_cache c) k = Some it"
  obtains node where "map_of (nodeList c) it = Some node" "nd_key node = k" "(it, node) \<in> set (nodeList c)"
proof -
  have "indexed c k" using assms(1) by (simp add: lru_core_def)
  then obtain node where "(it, node) \<in> set (nodeList c)" "nd_key node = k" using assms(2) by (auto simp: indexed_def)
  then show ?thesis using that assms(1) by (simp add: lru_core_def nodes_ok_def)
qed

lemma node_by_key:
  assumes "lru_core c" "(it, node) \<in> set (nodeList c)" "n \<in> set (nodeList c)"
  shows "fst n = it \<longleftrightarrow> nd_key (snd n) = nd_key node"
proof -
  have "indexed c (nd_key node)" using assms(1) by (simp add: lru_core_def)
  then have "nd_key (snd n) = nd_key node \<Longrightarrow> fst n = it"
    using indexed_entry [OF _ assms(2), of "nd_key node"] indexed_entry [OF _ assms(3), of "nd_key node"] by simp
  moreover have "distinct (map fst (nodeList c))" using assms(1) by (simp add: lru_core_def nodes_ok_def)
  then have "fst n = it \<Longrightarrow> snd n = node" using assms(2,3) by (metis eq_key_imp_eq_value prod.collapse)
  ultimately show ?thesis by blast
qed

lemma recency_remove:
  assumes "lru_core c" "(it, node) \<in> set (nodeList c)"
  shows "recency_of (c\<lparr> nodeList := filter (\<lambda>n. fst n \<noteq> it) (nodeList c) \<rparr>) = filter (\<lambda>e. fst e \<noteq> nd_key node) (recency_of c)"
proof -
  have "filter (\<lambda>n. fst n \<noteq> it) (nodeList c) = filter (\<lambda>n. nd_key (snd n) \<noteq> nd_key node) (nodeList c)"
    using node_by_key [OF assms] by (intro filter_cong) auto
  then show ?thesis by (simp add: recency_of_def filter_map comp_def)
qed

lemma core_but_move:
  assumes core: "lru_core c" and it: "(it, node) \<in> set (nodeList c)"
  shows "core_but (nd_key node) (c\<lparr> nodeList := filter (\<lambda>n. fst n \<noteq> it) (nodeList c) \<rparr>)"
proof -
  let ?d = "c\<lparr> nodeList := filter (\<lambda>n. fst n \<noteq> it) (nodeList c) \<rparr>"
  have nodes: "nodes_ok c" using core by (simp add: lru_core_def)
  then have "nodes_ok ?d"
    unfolding nodes_ok_def recency_remove [OF core it] by (auto simp: distinct_map_filter)
  moreover have "indexed ?d key" if "key \<noteq> nd_key node" for key
  proof -
    have "indexed c key" using core by (simp add: lru_core_def)
    moreover have "fst n \<noteq> it" if "n \<in> set (nodeList c)" "nd_key (snd n) = key" for n
      using node_by_key [OF core it that(1)] that(2) \<open>key \<noteq> nd_key node\<close> by simp
    ultimately show ?thesis by (auto simp: indexed_def)
  qed
  moreover have "nd_key node \<notin> fst ` set (recency_of ?d)" unfolding recency_remove [OF core it] by auto
  ultimately show ?thesis by (simp add: core_but_def)
qed

lemma erase_core:
  assumes core: "lru_core c" and last: "nodeList c = ns @ [n]"
  shows "lru_core (EraseTailNode c)" "nodeList (EraseTailNode c) = ns" "lc_capacity (EraseTailNode c) = lc_capacity c"
    "lc_size (EraseTailNode c) = lc_size c - of_nat (value_bytes (nd_value (snd n)))"
proof -
  have n: "(fst n, snd n) \<in> set (nodeList c)" "storable (nd_value (snd n))" using core last by (auto simp: lru_core_def nodes_ok_def)
  have "distinct (map fst (nodeList c))" using core by (simp add: lru_core_def nodes_ok_def)
  then have "fst n \<notin> fst ` set ns" unfolding last by simp
  then have "\<forall>x \<in> set ns. fst x \<noteq> fst n" by (metis imageI)
  then have ns: "filter (\<lambda>x. fst x \<noteq> fst n) (nodeList c) = ns" unfolding last by (simp add: filter_id_conv)
  have but: "core_but (nd_key (snd n)) (c\<lparr> nodeList := ns \<rparr>)" using core_but_move [OF core n(1)] ns by simp
  have e: "EraseTailNode c = c\<lparr> nodeList := ns, lc_cache := om_del (nd_key (snd n)) (lc_cache c), lc_size := lc_size c - of_nat (value_bytes (nd_value (snd n))) \<rparr>"
    using last n(2) by (simp add: EraseTailNode_def Let_def GetMapValueSize_bytes)
  then show "nodeList (EraseTailNode c) = ns" "lc_capacity (EraseTailNode c) = lc_capacity c"
    "lc_size (EraseTailNode c) = lc_size c - of_nat (value_bytes (nd_value (snd n)))" by simp_all
  let ?d = "c\<lparr> nodeList := ns, lc_cache := om_del (nd_key (snd n)) (lc_cache c) \<rparr>"
  have "nodes_ok ?d" using but by (auto simp: core_but_def nodes_ok_def recency_of_def)
  moreover have "indexed ?d key" for key
  proof (cases "key = nd_key (snd n)")
    case True
    have "nd_key (snd n) \<notin> fst ` set (recency_of (c\<lparr> nodeList := ns \<rparr>))" using but by (simp add: core_but_def)
    then have "\<not> (\<exists>node. (i, node) \<in> set ns \<and> nd_key node = nd_key (snd n))" for i
      using recency_key [of i _ "c\<lparr> nodeList := ns \<rparr>"] by simp metis
    then show ?thesis using True by (simp add: indexed_def)
  next
    case False
    then have "indexed (c\<lparr> nodeList := ns \<rparr>) key" using but by (simp add: core_but_def)
    then show ?thesis using False by (simp add: indexed_def)
  qed
  ultimately have "lru_core ?d" by (simp add: lru_core_def)
  then show "lru_core (EraseTailNode c)" using core_size(1) [where c = ?d and n = "lc_size c - of_nat (value_bytes (nd_value (snd n)))"] e by simp
qed

lemma evict_ok:
  "lru_core c \<Longrightarrow> total_bytes (recency_of c) + w = unat (lc_size c) \<Longrightarrow> w \<le> unat (lc_capacity c) \<Longrightarrow> lc_capacity c \<le> 1048576
   \<Longrightarrow> \<exists>c'. evict c = Some c' \<and> lru_inv c' \<and> recency_of c' = fit (unat (lc_capacity c) - w) (recency_of c)
     \<and> total_bytes (recency_of c') + w = unat (lc_size c') \<and> lc_capacity c' = lc_capacity c"
proof (induction "nodeList c" arbitrary: c rule: rev_induct)
  case Nil
  then have "lc_size c \<le> lc_capacity c" by (simp add: recency_of_def word_le_nat_alt)
  then show ?case using Nil by (subst evict.simps) (auto simp: lru_inv_def recency_of_def not_less)
next
  case (snoc n ns)
  note erased = erase_core [OF snoc.prems(1) snoc.hyps(2) [symmetric]]
  show ?case
  proof (cases "lc_capacity c < lc_size c")
    case False
    then have "total_bytes (recency_of c) \<le> unat (lc_capacity c) - w" using snoc.prems by (simp add: not_less word_le_nat_alt)
    then show ?thesis using False snoc.prems fit_all [of "recency_of c"] by (subst evict.simps) (auto simp: lru_inv_def not_less)
  next
    case True
    let ?d = "EraseTailNode c"
    have rec: "recency_of c = recency_of ?d @ [(nd_key (snd n), nd_value (snd n))]"
      using erased(2) snoc.hyps(2) [symmetric] by (simp add: recency_of_def)
    have "storable (nd_value (snd n))" using snoc.prems(1) snoc.hyps(2) [symmetric] by (simp add: lru_core_def nodes_ok_def)
    then have bytes: "unat (of_nat (value_bytes (nd_value (snd n))) :: u64) = value_bytes (nd_value (snd n))" by (rule storable_size)
    then have "unat (lc_size ?d) = unat (lc_size c) - value_bytes (nd_value (snd n))"
      using snoc.prems(2) erased(4) rec by (simp add: unat_sub_if_size word_size)
    then have "total_bytes (recency_of ?d) + w = unat (lc_size ?d)" using snoc.prems(2) rec by simp
    from snoc.hyps(1) [OF erased(2) [symmetric] erased(1) this] erased(3) snoc.prems
    obtain c' where "evict ?d = Some c'" "lru_inv c'" "recency_of c' = fit (unat (lc_capacity c) - w) (recency_of ?d)"
      "total_bytes (recency_of c') + w = unat (lc_size c')" "lc_capacity c' = lc_capacity c" by auto
    moreover have "unat (lc_capacity c) - w < total_bytes (recency_of c)" using True snoc.prems by (simp add: word_less_nat_alt)
    then have "fit (unat (lc_capacity c) - w) (recency_of c) = fit (unat (lc_capacity c) - w) (recency_of ?d)"
      using fit_snoc unfolding rec by blast
    ultimately show ?thesis using True by (subst evict.simps) auto
  qed
qed

section \<open>The operations implement the specification\<close>

lemma lost_of: "total_bytes (recency_of c) + w = unat (lc_size c) \<Longrightarrow> lost c = w"
  by (simp add: lost_def)

lemma inv_lost: "lru_inv c \<Longrightarrow> total_bytes (recency_of c) + lost c = unat (lc_size c)" "lru_inv c \<Longrightarrow> lost c \<le> unat (lc_capacity c)"
  by (auto simp: lru_inv_def lost_def word_le_nat_alt)

lemma recency_lookup:
  assumes core: "lru_core c"
  shows "map_of (recency_of c) key = (case om_get (lc_cache c) key of None \<Rightarrow> None | Some it \<Rightarrow> map_option nd_value (map_of (nodeList c) it))"
proof (cases "om_get (lc_cache c) key")
  case None
  then have "key \<notin> fst ` set (recency_of c)" using core_but_new [OF core None] by (simp add: core_but_def)
  then have "map_of (recency_of c) key = None" by (simp add: map_of_eq_None_iff)
  then show ?thesis using None by (metis option.simps(4))
next
  case (Some it)
  obtain node where node: "map_of (nodeList c) it = Some node" "nd_key node = key" "(it, node) \<in> set (nodeList c)" by (rule core_entry [OF core Some])
  then have "(key, nd_value node) \<in> set (recency_of c)" by (force simp: recency_of_def)
  then show ?thesis using core Some node(1) by (simp add: lru_core_def nodes_ok_def)
qed

lemma move_ok:
  assumes core: "lru_core c" and node: "map_of (nodeList c) it = Some node"
  obtains c' where "MoveNodeToHead it c = Some c'" "lru_core c'"
    "recency_of c' = (nd_key node, nd_value node) # filter (\<lambda>e. fst e \<noteq> nd_key node) (recency_of c)"
    "lc_size c' = lc_size c" "lc_capacity c' = lc_capacity c"
proof
  have it: "(it, node) \<in> set (nodeList c)" using node by (rule map_of_SomeD)
  let ?c = "push_front node (c\<lparr> nodeList := filter (\<lambda>n. fst n \<noteq> it) (nodeList c) \<rparr>)"
  show "MoveNodeToHead it c = Some ?c" using node by (simp add: MoveNodeToHead_def)
  have "storable (nd_value node)" using core it by (auto simp: lru_core_def nodes_ok_def)
  then show "lru_core ?c" by (rule push_core [OF core_but_move [OF core it]])
  show "recency_of ?c = (nd_key node, nd_value node) # filter (\<lambda>e. fst e \<noteq> nd_key node) (recency_of c)"
    using recency_remove [OF core it] by simp
qed (simp_all add: push_front_def)

lemma lru_get_ok:
  assumes inv: "lru_inv c"
  shows "\<exists>c'. Get key c = Some (fst (spec_get key (recency_of c)), c') \<and> recency_of c' = snd (spec_get key (recency_of c))
    \<and> lru_inv c' \<and> lost c' = lost c \<and> lc_capacity c' = lc_capacity c"
proof -
  have core: "lru_core c" using inv by (simp add: lru_inv_def)
  show ?thesis
  proof (cases "om_get (lc_cache c) key")
    case None
    then show ?thesis using inv recency_lookup [OF core, of key] by (simp add: Get_def spec_get_def)
  next
    case (Some it)
    obtain node where node: "map_of (nodeList c) it = Some node" "nd_key node = key" by (rule core_entry [OF core Some])
    obtain c' where c': "MoveNodeToHead it c = Some c'" "lru_core c'"
      "recency_of c' = (nd_key node, nd_value node) # filter (\<lambda>e. fst e \<noteq> nd_key node) (recency_of c)"
      "lc_size c' = lc_size c" "lc_capacity c' = lc_capacity c" by (rule move_ok [OF core node(1)])
    have look: "map_of (recency_of c) key = Some (nd_value node)" using recency_lookup [OF core, of key] Some node by simp
    have "distinct (map fst (recency_of c))" using core by (simp add: lru_core_def nodes_ok_def)
    then have "total_bytes (recency_of c') = total_bytes (recency_of c)" using total_split [OF _ map_of_SomeD [OF look]] c'(3) node(2) by simp
    then show ?thesis using c' inv look Some node by (simp add: Get_def spec_get_def lru_inv_def lost_def)
  qed
qed

lemma filter_map_cong: "(\<And>x. x \<in> set xs \<Longrightarrow> P (f x) = P (g x) \<and> (P (g x) \<longrightarrow> f x = g x)) \<Longrightarrow> filter P (map f xs) = filter P (map g xs)"
  by (induction xs) auto

lemma replace_core:
  assumes core: "lru_core c" and node: "map_of (nodeList c) it = Some node" and "storable val"
    and d: "d = c\<lparr> nodeList := map (\<lambda>n. if fst n = it then (it, node\<lparr> nd_value := val \<rparr>) else n) (nodeList c) \<rparr>"
  shows "lru_core d" "map_of (nodeList d) it = Some (node\<lparr> nd_value := val \<rparr>)"
    "filter (\<lambda>e. fst e \<noteq> nd_key node) (recency_of d) = filter (\<lambda>e. fst e \<noteq> nd_key node) (recency_of c)"
proof -
  have it: "(it, node) \<in> set (nodeList c)" using node by (rule map_of_SomeD)
  note same = node_by_key [OF core it]
  have nodes: "nodes_ok c" using core by (simp add: lru_core_def)
  have fsts: "map fst (nodeList d) = map fst (nodeList c)" by (simp add: d)
  have "map (\<lambda>n. nd_key (snd (if fst n = it then (it, node\<lparr> nd_value := val \<rparr>) else n))) (nodeList c) = map (\<lambda>n. nd_key (snd n)) (nodeList c)"
    using same by (intro map_cong) auto
  then have keys: "map fst (recency_of d) = map fst (recency_of c)" by (simp add: recency_of_def comp_def d)
  have "fst n < next_node d \<and> storable (nd_value (snd n))" if "n \<in> set (nodeList d)" for n
    using nodes that it assms(3) by (auto simp: d nodes_ok_def split: if_splits)
  then show "lru_core d" unfolding lru_core_def nodes_ok_def fsts keys
  proof (intro conjI allI)
    fix key
    have member: "(i, m) \<in> set (nodeList d) \<longleftrightarrow> (if i = it then m = node\<lparr> nd_value := val \<rparr> else (i, m) \<in> set (nodeList c))" for i m
      using it by (auto simp: d image_iff intro: bexI [of _ "(it, node)"])
    have "nd_key m = nd_key node" if "(it, m) \<in> set (nodeList c)" for m using same [OF that] by simp
    then have "(\<exists>m. (it, m) \<in> set (nodeList c) \<and> nd_key m = key) \<longleftrightarrow> nd_key node = key" using it by metis
    then have "(\<exists>m. (i, m) \<in> set (nodeList d) \<and> nd_key m = key) \<longleftrightarrow> (\<exists>m. (i, m) \<in> set (nodeList c) \<and> nd_key m = key)" for i
      unfolding member by (cases "i = it") simp_all
    then show "indexed d key" using core by (simp add: indexed_def lru_core_def d)
  qed (use nodes in \<open>simp_all add: nodes_ok_def d\<close>)
  have "(it, node\<lparr> nd_value := val \<rparr>) \<in> set (nodeList d)" using it by (force simp: d)
  then show "map_of (nodeList d) it = Some (node\<lparr> nd_value := val \<rparr>)" using nodes fsts by (simp add: nodes_ok_def)
  show "filter (\<lambda>e. fst e \<noteq> nd_key node) (recency_of d) = filter (\<lambda>e. fst e \<noteq> nd_key node) (recency_of c)"
    unfolding recency_of_def d using same by (simp add: comp_def) (rule filter_map_cong, auto)
qed

lemma lru_put_ok:
  assumes inv: "lru_inv c"
  shows "\<exists>c'. Put key val c = Some c' \<and> recency_of c' = spec_put (budget c) key val (recency_of c)
    \<and> lru_inv c' \<and> lost c' = lost c \<and> lc_capacity c' = lc_capacity c"
proof (cases "storable val")
  case False
  then show ?thesis using inv by (simp add: Put_def GetMapValueSize_bytes spec_put_def)
next
  case True
  note bytes = storable_size [OF True]
  have size: "GetMapValueSize val = of_nat (value_bytes val)" using True by (simp add: GetMapValueSize_bytes)
  have core: "lru_core c" and cap: "lc_capacity c \<le> 1048576" using inv by (simp_all add: lru_inv_def)
  have room: "unat (lc_size c) \<le> 1048576" "value_bytes val \<le> 1048576"
    using inv True by (auto simp: lru_inv_def word_le_nat_alt storable_def)
  show ?thesis
  proof (cases "om_get (lc_cache c) key")
    case None
    let ?d = "AddNode \<lparr> nd_key = key, nd_value = val \<rparr> c"
    have "key \<notin> fst ` set (recency_of c)" using core_but_new [OF core None] by (simp add: core_but_def)
    then have rest: "filter (\<lambda>e. fst e \<noteq> key) (recency_of c) = recency_of c" by (rule filter_other)
    have "lru_core ?d" using push_core [of "\<lparr> nd_key = key, nd_value = val \<rparr>" c] core_but_new [OF core None] True by (simp add: AddNode_def)
    moreover have "unat (lc_size ?d) = unat (lc_size c) + value_bytes val"
      using bytes(1) room by (simp add: AddNode_def size unat_word_ariths)
    then have "total_bytes (recency_of ?d) + lost c = unat (lc_size ?d)" using inv_lost(1) [OF inv] by (simp add: AddNode_def)
    ultimately obtain c' where "evict ?d = Some c'" "lru_inv c'" "recency_of c' = fit (budget c) (recency_of ?d)" "lost c' = lost c" "lc_capacity c' = lc_capacity c"
      using evict_ok [of ?d "lost c"] inv_lost(2) [OF inv] cap lost_of by (auto simp: AddNode_def push_front_def budget_def)
    then show ?thesis using None size bytes(2) True rest by (auto simp: Put_def spec_put_def AddNode_def)
  next
    case (Some it)
    obtain node where node: "map_of (nodeList c) it = Some node" "nd_key node = key" by (rule core_entry [OF core Some])
    define d where "d = c\<lparr> nodeList := map (\<lambda>n. if fst n = it then (it, node\<lparr> nd_value := val \<rparr>) else n) (nodeList c) \<rparr>"
    note d = replace_core [OF core node(1) True d_def]
    define n where "n = lc_size c - GetMapValueSize (nd_value node) + GetMapValueSize val"
    obtain c3 where c3: "MoveNodeToHead it (d\<lparr> lc_size := n \<rparr>) = Some c3" "lru_core c3"
      "recency_of c3 = (key, val) # filter (\<lambda>e. fst e \<noteq> key) (recency_of c)" "lc_size c3 = n" "lc_capacity c3 = lc_capacity c"
      using move_ok [of "d\<lparr> lc_size := n \<rparr>" it "node\<lparr> nd_value := val \<rparr>"] d node(2) by (auto simp: d_def)
    have look: "map_of (recency_of c) key = Some (nd_value node)" using recency_lookup [OF core, of key] Some node by simp
    have "distinct (map fst (recency_of c))" using core by (simp add: lru_core_def nodes_ok_def)
    note total = total_split [OF this map_of_SomeD [OF look]]
    have old: "storable (nd_value node)" using core map_of_SomeD [OF node(1)] by (auto simp: lru_core_def nodes_ok_def)
    have "unat (lc_size c - of_nat (value_bytes (nd_value node))) = unat (lc_size c) - value_bytes (nd_value node)"
      using storable_size(1) [OF old] inv_lost(1) [OF inv] total by (simp add: unat_sub_if_size word_size)
    then have "unat n = unat (lc_size c) - value_bytes (nd_value node) + value_bytes val"
      using bytes(1) room old True by (simp add: n_def GetMapValueSize_bytes unat_word_ariths)
    then have "total_bytes (recency_of c3) + lost c = unat (lc_size c3)" using inv_lost(1) [OF inv] total c3(3,4) by simp
    then obtain c' where "evict c3 = Some c'" "lru_inv c'" "recency_of c' = fit (budget c) (recency_of c3)" "lost c' = lost c" "lc_capacity c' = lc_capacity c"
      using evict_ok [OF c3(2), of "lost c"] inv_lost(2) [OF inv] cap c3(5) lost_of by (auto simp: budget_def)
    moreover have "Put key val c = evict c3"
      using Some node size bytes(2) c3(1) by (simp add: Put_def d_def n_def Let_def)
    ultimately show ?thesis using c3(3) True by (auto simp: spec_put_def)
  qed
qed

text \<open>What the callers of the cache rely on: an invariant, a list of entries by recency, and a budget that only clearing reduces.\<close>

locale recency_cache =
  fixes put :: "'k \<Rightarrow> 'v \<Rightarrow> 'c \<Rightarrow> 'c option"
    and get :: "'k \<Rightarrow> 'c \<Rightarrow> ('v \<times> 'c) option"
    and entries :: "'c \<Rightarrow> 'e"
    and room :: "'c \<Rightarrow> nat"
    and wf :: "'c \<Rightarrow> bool"
    and put_spec :: "nat \<Rightarrow> 'k \<Rightarrow> 'v \<Rightarrow> 'e \<Rightarrow> 'e"
    and get_spec :: "'k \<Rightarrow> 'e \<Rightarrow> 'v \<times> 'e"
  assumes put_law: "wf c \<Longrightarrow> \<exists>c'. put k v c = Some c' \<and> entries c' = put_spec (room c) k v (entries c) \<and> wf c' \<and> room c' = room c"
    and get_law: "wf c \<Longrightarrow> \<exists>c'. get k c = Some (fst (get_spec k (entries c)), c') \<and> entries c' = snd (get_spec k (entries c)) \<and> wf c' \<and> room c' = room c"
begin

lemma puts: "wf c \<Longrightarrow> \<exists>c'. foldr (\<lambda>(k, v) o'. Option.bind o' (put k v)) kvs (Some c) = Some c' \<and> wf c' \<and> room c' = room c
  \<and> entries c' = foldr (\<lambda>(k, v). put_spec (room c) k v) kvs (entries c)"
proof (induction kvs)
  case (Cons kv kvs)
  then obtain c1 where c1: "foldr (\<lambda>(k, v) o'. Option.bind o' (put k v)) kvs (Some c) = Some c1" "wf c1" "room c1 = room c"
    "entries c1 = foldr (\<lambda>(k, v). put_spec (room c) k v) kvs (entries c)" by blast
  obtain k v where "kv = (k, v)" by (cases kv)
  with put_law [OF c1(2), of k v] c1 show ?case by auto
qed simp

end

interpretation lru: recency_cache Put Get recency_of budget lru_inv spec_put spec_get
proof
  fix c key val assume inv: "lru_inv c"
  show "\<exists>c'. Put key val c = Some c' \<and> recency_of c' = spec_put (budget c) key val (recency_of c) \<and> lru_inv c' \<and> budget c' = budget c"
    using lru_put_ok [OF inv, of key val] by (auto simp: budget_def)
  show "\<exists>c'. Get key c = Some (fst (spec_get key (recency_of c)), c') \<and> recency_of c' = snd (spec_get key (recency_of c)) \<and> lru_inv c' \<and> budget c' = budget c"
    using lru_get_ok [OF inv, of key] by (auto simp: budget_def)
qed

lemma clear_ok:
  assumes "lru_inv c"
  shows "lru_inv (Clear c)" "recency_of (Clear c) = []" "budget (Clear c) = budget c - total_bytes (recency_of c)"
proof -
  show rec: "recency_of (Clear c) = []" by (simp add: Clear_def recency_of_def)
  show "lru_inv (Clear c)" using assms rec by (simp add: lru_inv_def lru_core_def nodes_ok_def indexed_def Clear_def)
  show "budget (Clear c) = budget c - total_bytes (recency_of c)" using inv_lost [OF assms] rec by (simp add: budget_def lost_def Clear_def)
qed

lemma new_ok: "lru_inv (LRUCache_ctor cap)" "recency_of (LRUCache_ctor cap) = []" "budget (LRUCache_ctor cap) = min 1048576 (unat cap)"
  "lru_inv LRUCache_default" "recency_of LRUCache_default = []" "budget LRUCache_default = 1048576"
proof -
  have "min (1048576 :: u64) cap \<le> 1048576" by simp
  then show "lru_inv (LRUCache_ctor cap)"
    by (simp add: lru_inv_def lru_core_def nodes_ok_def indexed_def LRUCache_ctor_def recency_of_def word_zero_le)
  show "budget (LRUCache_ctor cap) = min 1048576 (unat cap)"
    by (simp add: budget_def lost_def LRUCache_ctor_def recency_of_def min_def word_le_nat_alt)
qed (simp_all add: budget_def lost_def LRUCache_ctor_def LRUCache_default_def recency_of_def lru_inv_def lru_core_def nodes_ok_def indexed_def)

lemma run_ok:
  "lru_inv c \<Longrightarrow> \<exists>c'. lru_run ops c = Some c' \<and> lru_inv c' \<and> spec_run ops (budget c, recency_of c) = (budget c', recency_of c')"
proof (induction ops arbitrary: c)
  case (Cons op ops)
  show ?case
  proof (cases op)
    case (OpPut k v)
    with lru.put_law [OF Cons.prems, of k v] obtain c' where "Put k v c = Some c'" "recency_of c' = spec_put (budget c) k v (recency_of c)" "lru_inv c'" "budget c' = budget c"
      by blast
    then show ?thesis using Cons.IH [of c'] OpPut by simp
  next
    case (OpGet k)
    with lru.get_law [OF Cons.prems, of k] obtain c' where "Get k c = Some (fst (spec_get k (recency_of c)), c')" "recency_of c' = snd (spec_get k (recency_of c))" "lru_inv c'" "budget c' = budget c"
      by blast
    then show ?thesis using Cons.IH [of c'] OpGet by simp
  next
    case OpClear
    then show ?thesis using Cons.IH [of "Clear c"] clear_ok [OF Cons.prems] by simp
  qed
qed simp

text \<open>
  C5. Over every sequence of insertions, lookups and clearings the cache of any capacity behaves as the list of its entries by recency, cut to the
  budget: each call returns, so the eviction loop ends, no iterator in the index dangles, and the size never wraps. A lookup returns the value
  of the list.
\<close>

theorem lru_cache_refines_recency_list:
  "\<exists>c. lru_run ops (LRUCache_ctor cap) = Some c
     \<and> (budget c, recency_of c) = spec_run ops (min 1048576 (unat cap), [])
     \<and> (\<exists>c'. Get key c = Some (fst (spec_get key (recency_of c)), c'))"
proof -
  obtain c where "lru_run ops (LRUCache_ctor cap) = Some c" "lru_inv c" "spec_run ops (min 1048576 (unat cap), []) = (budget c, recency_of c)"
    using run_ok [OF new_ok(1), of ops cap] new_ok(2,3) [of cap] by auto
  then show ?thesis using lru.get_law [of c key] by auto
qed

text \<open>
  C35. Clearing forgets the entries but not their size, so the room they took is lost for good: a value that would fit an empty cache is
  dropped at once when it exceeds what was left before the clearing.
\<close>

theorem cleared_cache_stays_full:
  assumes "lru_run ops (LRUCache_ctor cap) = Some c" "storable val" "unat (lc_capacity c) < unat (lc_size c) + value_bytes val"
  shows "\<exists>c'. Put key val (Clear c) = Some c' \<and> recency_of c' = []"
proof -
  have inv: "lru_inv c" using run_ok [OF new_ok(1), of ops cap] assms(1) by auto
  have "budget (Clear c) < value_bytes val" using clear_ok(3) [OF inv] inv_lost [OF inv] assms(2,3) unfolding budget_def storable_def by linarith
  then have "spec_put (budget (Clear c)) key val [] = []" using assms(2) by (simp add: spec_put_def)
  then show ?thesis using lru.put_law [OF clear_ok(1) [OF inv], of key val] clear_ok(2) [OF inv] by auto
qed

theorem cleared_cache_stays_full_witness:
  "\<exists>c c'. lru_run [OpPut ''a'' [(''h'', ''xyz'')]] (LRUCache_ctor 4) = Some c \<and> Put ''b'' [(''h'', ''uv'')] (Clear c) = Some c' \<and> recency_of c' = []"
proof -
  let ?c = "\<lparr> lc_cache = [(''a'', 0)], nodeList = [(0, \<lparr> nd_key = ''a'', nd_value = [(''h'', ''xyz'')] \<rparr>)], next_node = 1, lc_capacity = 4, lc_size = 3 \<rparr>"
  have run: "lru_run [OpPut ''a'' [(''h'', ''xyz'')]] (LRUCache_ctor 4) = Some ?c" by code_simp
  then show ?thesis
    using cleared_cache_stays_full [OF run, of "[(''h'', ''uv'')]" "''b''"] by (simp add: storable_def value_bytes_def)
qed

section \<open>The file\<close>

lemma c_str_plain [simp]: "plain_text s \<Longrightarrow> c_str s = s"
  by (auto simp: plain_text_def c_str_def takeWhile_eq_all_conv)

lemma read_value_append: "read_value (xs @ ys) m = read_value ys (read_value xs m)"
  by (induction xs m rule: read_value.induct) auto

lemma read_value_strings: "om_wf (m @ v) \<Longrightarrow> read_value (map (\<lambda>p. (fst p, JString (snd p))) v) m = m @ v"
proof (induction v arbitrary: m)
  case (Cons p v)
  have "x < fst p" if "x \<in> fst ` set m" for x using Cons.prems that by (auto simp: om_wf_def sorted_wrt_append)
  then have "om_put (fst p) (snd p) m = m @ [p]" using om_put_last [of m "fst p" "snd p"] by simp
  then show ?case using Cons.IH [of "m @ [p]"] Cons.prems by simp
qed simp

lemma strtol10_to_string: "n < 2 ^ 63 \<Longrightarrow> strtol10 (to_string n) = int n"
proof -
  assume n: "n < 2 ^ 63"
  obtain c cs where s: "to_string n = c # cs" by (cases "to_string n") auto
  from to_string_first [OF s] have sign: "skip_sign (dropWhile isspace (to_string n)) = (False, to_string n)" by (simp add: s)
  have digits: "takeWhile (\<lambda>c. digit_of c < 10) (to_string n) = to_string n"
    using to_string_digits by (fastforce simp: takeWhile_eq_all_conv)
  show ?thesis unfolding strtol10_def sign prod.case Let_def digits digits_value_to_string using n by simp
qed

lemma insort_last: "(\<And>y. y \<in> set ys \<Longrightarrow> f y < f x) \<Longrightarrow> insort_key f x ys = ys @ [x]"
proof (induction ys)
  case (Cons y ys)
  then have "f y < f x" "insort_key f x ys = ys @ [x]" by simp_all
  then show ?case by auto
qed simp

lemma sort_descending: "sorted_wrt (\<lambda>x y. f y < f x) xs \<Longrightarrow> sort_key f xs = rev xs"
proof (induction xs)
  case (Cons x xs)
  then show ?case using insort_last [of "rev xs" f x] by simp
qed simp

lemma read_written_nodes:
  "plain (map (\<lambda>n. (nd_key (snd n), nd_value (snd n))) ns) \<Longrightarrow>
   read_nodes (map (\<lambda>p. (Some (fst p), snd p)) (map (\<lambda>(index, n). node_json index (snd n)) (List.enumerate i ns)))
     = Some (map (\<lambda>(index, n). entry_node index (nd_key (snd n), nd_value (snd n))) (List.enumerate i ns))"
proof (induction ns arbitrary: i)
  case (Cons n ns)
  let ?v = "nd_value (snd n)"
  have p: "plain_text (nd_key (snd n))" "om_wf ?v" "\<forall>p \<in> set ?v. plain_text (fst p) \<and> plain_text (snd p)"
    using Cons.prems by (auto simp: plain_def)
  then have eq: "map (\<lambda>p. (c_str (fst p), JString (c_str (snd p)))) ?v = map (\<lambda>p. (fst p, JString (snd p))) ?v" by simp
  have "read_value (map (\<lambda>p. (c_str (fst p), JString (c_str (snd p)))) ?v @ [(LRU_INDEX, JString (to_string i))]) [] = om_put LRU_INDEX (to_string i) ?v"
    unfolding read_value_append eq using read_value_strings [of "[]" ?v] p(2) by simp
  moreover have "plain (map (\<lambda>n. (nd_key (snd n), nd_value (snd n))) ns)" using Cons.prems by (simp add: plain_def)
  ultimately show ?case using Cons.IH [of "Suc i"] p(1) by (simp add: node_json_def entry_node_def)
qed simp

lemma put_all_append: "put_all (ns @ ms) c = Option.bind (put_all ns c) (put_all ms)"
  by (induction ns arbitrary: c) (auto split: bind_splits)

lemma put_all_foldr: "put_all (map (\<lambda>e. \<lparr> nd_key = fst e, nd_value = snd e \<rparr>) (rev es)) c = foldr (\<lambda>(k, v) o'. Option.bind o' (Put k v)) es (Some c)"
proof (induction es)
  case (Cons e es)
  have "put_all [\<lparr> nd_key = fst e, nd_value = snd e \<rparr>] = Put (fst e) (snd e)" by (rule ext) (simp split: bind_splits)
  then show ?case using Cons by (simp add: put_all_append case_prod_beta)
qed simp

lemma put_all_ok:
  assumes "lru_inv c"
  shows "\<exists>c'. put_all (map (\<lambda>e. \<lparr> nd_key = fst e, nd_value = snd e \<rparr>) (rev es)) c = Some c' \<and> lru_inv c' \<and> budget c' = budget c
    \<and> recency_of c' = foldr (\<lambda>(k, v). spec_put (budget c) k v) es (recency_of c)"
  using lru.puts [OF assms, of es] unfolding put_all_foldr by blast

lemma nodes_of_recency: "map snd (nodeList c) = map (\<lambda>e. \<lparr> nd_key = fst e, nd_value = snd e \<rparr>) (recency_of c)"
  by (simp add: recency_of_def)

lemma put_fitting:
  "distinct (map fst es) \<Longrightarrow> (\<And>e. e \<in> set es \<Longrightarrow> storable (snd e)) \<Longrightarrow> total_bytes es \<le> b \<Longrightarrow> foldr (\<lambda>(k, v). spec_put b k v) es [] = es"
proof (induction es)
  case (Cons e es)
  then have "foldr (\<lambda>(k, v). spec_put b k v) es [] = es" by simp
  moreover have "filter (\<lambda>x. fst x \<noteq> fst e) es = es" using Cons.prems(1) by (simp add: filter_other)
  moreover obtain k v where "e = (k, v)" by (cases e)
  moreover have "storable (snd e)" using Cons.prems(2) by simp
  ultimately show ?case using fit_all [of "e # es" b] Cons.prems(3) by (simp add: spec_put_def [of b k v])
qed simp

lemma inv_entries:
  assumes "lru_inv c"
  shows "distinct (map fst (recency_of c))" "e \<in> set (recency_of c) \<Longrightarrow> storable (snd e)" "total_bytes (recency_of c) \<le> budget c" "budget c \<le> 1048576"
  using assms inv_lost [OF assms] by (auto simp: lru_inv_def lru_core_def nodes_ok_def recency_of_def budget_def word_le_nat_alt)

lemma length_total: "(\<And>e. e \<in> set es \<Longrightarrow> storable (snd e)) \<Longrightarrow> length es \<le> total_bytes es"
proof (induction es)
  case (Cons e es)
  then have "0 < value_bytes (snd e)" "length es \<le> total_bytes es" by (simp_all add: storable_def)
  then show ?case by simp
qed simp

lemma node_index_entry: "i < 2 ^ 63 \<Longrightarrow> node_index (entry_node i e) = int i"
  by (simp add: node_index_def entry_node_def strtol10_to_string)

lemma json_roundtrip:
  assumes c: "lru_inv c" "plain (recency_of c)" and d: "lru_inv d" "recency_of d = []" "total_bytes (recency_of c) \<le> budget d"
  shows "\<exists>d'. ReadCacheFromJsonValue (WriteCacheToJsonValue c) d = Some d' \<and> lru_inv d' \<and> recency_of d' = recency_of c \<and> budget d' = budget d"
proof -
  let ?es = "recency_of c"
  let ?nodes = "map (\<lambda>(i, e). entry_node i e) (List.enumerate 0 ?es)"
  have "read_nodes (children (WriteCacheToJsonValue c)) = Some (map (\<lambda>(index, n). entry_node index (nd_key (snd n), nd_value (snd n))) (List.enumerate 0 (nodeList c)))"
    using read_written_nodes [of "nodeList c" 0] c(2) by (simp add: WriteCacheToJsonValue_def recency_of_def)
  moreover have "map (\<lambda>(index, n). entry_node index (nd_key (snd n), nd_value (snd n))) (List.enumerate 0 (nodeList c)) = ?nodes"
    by (rule nth_equalityI) (simp_all add: recency_of_def nth_enumerate_eq)
  ultimately have read: "read_nodes (children (WriteCacheToJsonValue c)) = Some ?nodes" by simp
  have "length ?es \<le> 1048576" using length_total [of ?es] inv_entries [OF c(1)] by force
  then have small: "i < 2 ^ 63" if "i < length ?es" for i using that by simp
  have "sorted_wrt (\<lambda>x y. - node_index y < - node_index x) ?nodes"
    unfolding sorted_wrt_iff_nth_less using small by (auto simp: nth_enumerate_eq node_index_entry)
  then have "sort_key (\<lambda>n. - node_index n) ?nodes = rev ?nodes" by (rule sort_descending)
  moreover have "map (\<lambda>n. n\<lparr> nd_value := om_del LRU_INDEX (nd_value n) \<rparr>) ?nodes = map (\<lambda>e. \<lparr> nd_key = fst e, nd_value = snd e \<rparr>) ?es"
  proof (rule nth_equalityI)
    fix i assume "i < length (map (\<lambda>n. n\<lparr> nd_value := om_del LRU_INDEX (nd_value n) \<rparr>) ?nodes)"
    then have "?es ! i \<in> set ?es" "i < length ?es" by simp_all
    moreover then have "om_get (snd (?es ! i)) LRU_INDEX = None" using c(2) by (simp add: plain_def)
    ultimately show "map (\<lambda>n. n\<lparr> nd_value := om_del LRU_INDEX (nd_value n) \<rparr>) ?nodes ! i = map (\<lambda>e. \<lparr> nd_key = fst e, nd_value = snd e \<rparr>) ?es ! i"
      by (simp add: nth_enumerate_eq entry_node_def om_del_put_new)
  qed simp
  moreover have "filter (\<lambda>n. nd_value n \<noteq> []) (map (\<lambda>e. \<lparr> nd_key = fst e, nd_value = snd e \<rparr>) (rev ?es)) = map (\<lambda>e. \<lparr> nd_key = fst e, nd_value = snd e \<rparr>) (rev ?es)"
    using inv_entries(2) [OF c(1)] storable_nonempty by (auto simp: filter_id_conv)
  ultimately have "ReadCacheFromJsonValue (WriteCacheToJsonValue c) d = put_all (map (\<lambda>e. \<lparr> nd_key = fst e, nd_value = snd e \<rparr>) (rev ?es)) d"
    using read by (simp add: ReadCacheFromJsonValue_def rev_map [symmetric])
  then show ?thesis using put_all_ok [OF d(1), of ?es] put_fitting [OF inv_entries(1,2) [OF c(1)] d(3)] d(2) by auto
qed

lemma merge_ok:
  assumes "lru_inv c"
  shows "\<exists>c'. MergeOtherCache other c = Some c' \<and> lru_inv c' \<and> budget c' = budget c
    \<and> recency_of c' = foldr (\<lambda>(k, v). spec_put (budget c) k v) (recency_of other) (recency_of c)"
proof (cases "nodeList other = []")
  case True
  then show ?thesis using assms by (simp add: MergeOtherCache_def recency_of_def)
next
  case False
  have "map snd (rev (nodeList other)) = map (\<lambda>e. \<lparr> nd_key = fst e, nd_value = snd e \<rparr>) (rev (recency_of other))"
    unfolding rev_map [symmetric] nodes_of_recency ..
  then show ?thesis using False put_all_ok [OF assms, of "recency_of other"] by (simp add: MergeOtherCache_def)
qed

lemma fit_subset: "set (fit b es) \<subseteq> set es"
  by (induction es arbitrary: b) auto

lemma plain_subset: "plain es' \<Longrightarrow> set es \<subseteq> set es' \<Longrightarrow> plain es"
  unfolding plain_def by blast

lemma plain_put: "plain es \<Longrightarrow> plain [(k, v)] \<Longrightarrow> plain (spec_put b k v es)"
proof (rule plain_subset [of "(k, v) # es"])
  show "set (spec_put b k v es) \<subseteq> set ((k, v) # es)"
    using fit_subset [of b "(k, v) # filter (\<lambda>e. fst e \<noteq> k) es"] by (auto simp: spec_put_def)
qed (simp add: plain_def)

lemma plain_puts: "plain es \<Longrightarrow> plain kvs \<Longrightarrow> plain (foldr (\<lambda>(k, v). spec_put b k v) kvs es)"
proof (induction kvs)
  case (Cons kv kvs)
  have "plain kvs" "plain [kv]" by (rule plain_subset [OF Cons.prems(2)]; simp add: subset_insertI)+
  with Cons.IH [OF Cons.prems(1)] show ?case by (cases kv) (simp add: plain_put)
qed simp

lemma written_recency: "WriteCacheToJsonValue c = recency_json (recency_of c)"
  unfolding WriteCacheToJsonValue_def recency_json_def
  by (auto simp: recency_of_def nth_enumerate_eq node_json_def intro!: nth_equalityI)

lemma put_all_inv:
  assumes "lru_inv c"
  shows "\<exists>c'. put_all ns c = Some c' \<and> lru_inv c' \<and> budget c' = budget c"
proof -
  have "ns = map (\<lambda>e. \<lparr> nd_key = fst e, nd_value = snd e \<rparr>) (rev (rev (map (\<lambda>n. (nd_key n, nd_value n)) ns)))"
    by (simp add: comp_def) (rule sym, rule map_idI, simp)
  then show ?thesis using put_all_ok [OF assms, of "rev (map (\<lambda>n. (nd_key n, nd_value n)) ns)"] by metis
qed

lemma read_inv:
  assumes "lru_inv c" "ReadCacheFromJsonValue root c = Some d"
  shows "lru_inv d" "budget d = budget c"
proof -
  obtain ns where "put_all ns c = Some d" using assms(2) by (auto simp: ReadCacheFromJsonValue_def split: bind_splits)
  then show "lru_inv d" "budget d = budget c" using put_all_inv [OF assms(1), of ns] by auto
qed

text \<open>Whatever capacity is asked for, the cache of the file gets one mebibyte.\<close>

lemma clamped: "LRUCache_ctor (clamp_capacity cap) = LRUCache_default"
proof -
  have "(1048576 :: u64) \<le> clamp_capacity cap" by (simp add: clamp_capacity_def)
  then show ?thesis by (simp add: LRUCache_ctor_def LRUCache_default_def min_def)
qed

lemma clamped_budget: "budget (LRUCache_ctor (clamp_capacity cap)) = 1048576" "lru_inv (LRUCache_ctor (clamp_capacity cap))"
  unfolding clamped by (rule new_ok)+

text \<open>A handler whose memory agrees with the file answers with the file's entries.\<close>

lemma handler_answers:
  assumes "lru_inv (dh_cache h)" "\<And>c. ReadJsonValueFromFile env (h\<lparr> dh_cache := c \<rparr>) = Some root"
    "ReadCacheFromJsonValue root (LRUCache_ctor (dh_capacity h)) = Some disk" "lru_inv disk" "recency_of disk = es"
    "recency_of (dh_cache h) = [] \<or> recency_of (dh_cache h) = es"
  shows "\<exists>h'. Handler_Get env key h = Some (case map_of es key of Some val \<Rightarrow> val | None \<Rightarrow> [], h')"
proof -
  let ?v = "case map_of es key of Some val \<Rightarrow> val | None \<Rightarrow> []"
  obtain c where c: "Get key (dh_cache h) = Some (fst (spec_get key (recency_of (dh_cache h))), c)" "lru_inv c"
    using lru.get_law [OF assms(1), of key] by blast
  obtain d where d: "Get key disk = Some (?v, d)"
    using lru.get_law [OF assms(4), of key] assms(5) by (auto simp: spec_get_def split: option.splits)
  obtain c1 where c1: "Put key ?v c = Some c1" using lru.put_law [OF c(2)] by blast
  have "fst (spec_get key (recency_of (dh_cache h))) = [] \<or> fst (spec_get key (recency_of (dh_cache h))) = ?v"
    using assms(6) by (auto simp: spec_get_def split: option.split)
  then show ?thesis using c(1) d c1 assms(2, 3) by (auto simp: Handler_Get_def Let_def)
qed

text \<open>
  C34. A flush of the memory to the file keeps every entry that has room: if the file holds a readable cache, it holds afterwards the file's entries
  with the memory's put on top of them, oldest first, and memory is empty. A handler made anew on this file, of any capacity, reads exactly
  these entries from it, and a lookup of any key, in the new handler as in the old, returns its value in this list. The JSON library
  is assumed to print the merged cache and to read back what it has printed, and the texts to have no zero byte and no field
  of the name that the file uses for the order.
\<close>

theorem flush_persists:
  assumes library: "\<And>j s. cJSON_Print env j = Some s \<Longrightarrow> cJSON_Parse env (c_str s) = Some j" and opens: "file_opens env"
    and stored: "ReadJsonValueFromFile env h = Some root" "ReadCacheFromJsonValue root (LRUCache_ctor (dh_capacity h)) = Some old"
    and mem: "lru_run ops LRUCache_default = Some (dh_cache h)" "dh_capacity h = clamp_capacity cap"
    and texts: "plain (recency_of old)" "plain (recency_of (dh_cache h))"
    and kept: "kept = foldr (\<lambda>(k, v). spec_put 1048576 k v) (recency_of (dh_cache h)) (recency_of old)"
    and printable: "cJSON_Print env (recency_json kept) \<noteq> None"
  shows "\<exists>h' g h1 g1. WriteCacheToJsonFile env h = Some h' \<and> recency_of (dh_cache h') = []
    \<and> ReadCacheFromJsonFile env (LRUCacheDiskHandler_ctor (dh_file h') cap') = Some g \<and> recency_of (dh_cache g) = kept
    \<and> Handler_Get env key h' = Some (case map_of kept key of Some val \<Rightarrow> val | None \<Rightarrow> [], h1)
    \<and> Handler_Get env key g = Some (case map_of kept key of Some val \<Rightarrow> val | None \<Rightarrow> [], g1)"
proof -
  have new: "lru_inv (LRUCache_ctor (clamp_capacity n))" "recency_of (LRUCache_ctor (clamp_capacity n)) = []"
    "budget (LRUCache_ctor (clamp_capacity n)) = 1048576" for n by (rule clamped_budget new_ok)+
  have cache: "lru_inv (dh_cache h)" using run_ok [OF new_ok(4), of ops] mem(1) by auto
  obtain merged where merged: "MergeOtherCache (dh_cache h) old = Some merged" "lru_inv merged" "budget merged = 1048576" "recency_of merged = kept"
    using merge_ok [of old "dh_cache h"] read_inv [OF new(1) [of cap] stored(2) [unfolded mem(2)]] new(3) kept by auto
  obtain s where print: "cJSON_Print env (WriteCacheToJsonValue merged) = Some s" using printable merged(4) by (auto simp: written_recency)
  define h' where "h' = h\<lparr> dh_file := Some s, dh_cache := Clear (dh_cache h) \<rparr>"
  have flush: "WriteCacheToJsonFile env h = Some h'"
    using stored merged(1) print opens by (simp add: WriteCacheToJsonFile_def WriteJsonValueToFile_def Disk_Write_def h'_def)
  have read: "ReadJsonValueFromFile env f = Some (WriteCacheToJsonValue merged)" if "dh_file f = Some s" for f
    using library [OF print] opens that by (simp add: ReadJsonValueFromFile_def Disk_Read_def)
  have plain: "plain (recency_of merged)" using plain_puts [OF texts, of 1048576] merged(4) kept by simp
  have again: "\<exists>d. ReadCacheFromJsonValue (WriteCacheToJsonValue merged) n = Some d \<and> lru_inv d \<and> recency_of d = kept"
    if "lru_inv n" "recency_of n = []" "budget n = 1048576" for n
    using json_roundtrip [OF merged(2) plain that(1,2)] inv_entries(3) [OF merged(2)] merged(3,4) that(3) by auto
  have answers: "\<exists>f'. Handler_Get env key f = Some (case map_of kept key of Some val \<Rightarrow> val | None \<Rightarrow> [], f')"
    if f: "lru_inv (dh_cache f)" "dh_file f = Some s" "dh_capacity f = clamp_capacity n" "recency_of (dh_cache f) = [] \<or> recency_of (dh_cache f) = kept" for f n
  proof -
    obtain disk where "ReadCacheFromJsonValue (WriteCacheToJsonValue merged) (LRUCache_ctor (clamp_capacity n)) = Some disk" "lru_inv disk" "recency_of disk = kept"
      using again [OF new] by blast
    then show ?thesis using f read by (intro handler_answers [of f env "WriteCacheToJsonValue merged" disk kept key]) simp_all
  qed
  obtain d where d: "ReadCacheFromJsonValue (WriteCacheToJsonValue merged) LRUCache_default = Some d" "lru_inv d" "recency_of d = kept"
    using again [OF new_ok(4-6)] by blast
  define g where "g = \<lparr> dh_cache = d, dh_file = Some s, dh_capacity = clamp_capacity cap' \<rparr>"
  have load: "ReadCacheFromJsonFile env (LRUCacheDiskHandler_ctor (dh_file h') cap') = Some g"
    using read [of "LRUCacheDiskHandler_ctor (Some s) cap'"] d(1)
    by (simp add: ReadCacheFromJsonFile_def LRUCacheDiskHandler_ctor_def h'_def g_def)
  have "\<exists>h1. Handler_Get env key h' = Some (case map_of kept key of Some val \<Rightarrow> val | None \<Rightarrow> [], h1)"
    by (rule answers [of h' cap]) (use clear_ok [OF cache] mem(2) in \<open>simp_all add: h'_def\<close>)
  moreover have "\<exists>g1. Handler_Get env key g = Some (case map_of kept key of Some val \<Rightarrow> val | None \<Rightarrow> [], g1)"
    by (rule answers [of g cap']) (use d in \<open>simp_all add: g_def\<close>)
  ultimately show ?thesis using flush load clear_ok(2) [OF cache] d(3) by (auto simp: h'_def g_def)
qed

theorem flush_persists_witness:
  "\<exists>env h h' g h1 g1. dh_file h = Some ''{}'' \<and> WriteCacheToJsonFile env h = Some h' \<and> recency_of (dh_cache h') = []
    \<and> ReadCacheFromJsonFile env (LRUCacheDiskHandler_ctor (dh_file h') 2000000) = Some g
    \<and> Handler_Get env ''k'' h' = Some ([(''b'', ''x'')], h1) \<and> Handler_Get env ''k'' g = Some ([(''b'', ''x'')], g1)"
proof -
  let ?j = "recency_json [(''k'', [(''b'', ''x'')])]"
  let ?env = "\<lparr> cJSON_Parse = (\<lambda>s. if s = ''{}'' then Some (JObject []) else if s = ''1'' then Some ?j else None),
    cJSON_Print = (\<lambda>j. if j = ?j then Some ''1'' else None), file_opens = True, file_removes = True \<rparr>"
  let ?c = "\<lparr> lc_cache = [(''k'', 0)], nodeList = [(0, \<lparr> nd_key = ''k'', nd_value = [(''b'', ''x'')] \<rparr>)], next_node = 1, lc_capacity = 1048576, lc_size = 1 \<rparr>"
  let ?h = "\<lparr> dh_cache = ?c, dh_file = Some ''{}'', dh_capacity = clamp_capacity 0 \<rparr>"
  have run: "lru_run [OpPut ''k'' [(''b'', ''x'')]] LRUCache_default = Some (dh_cache ?h)" by code_simp
  have stored: "ReadJsonValueFromFile ?env ?h = Some (JObject [])" "ReadCacheFromJsonValue (JObject []) (LRUCache_ctor (dh_capacity ?h)) = Some LRUCache_default"
    by (simp_all add: ReadJsonValueFromFile_def Disk_Read_def c_str_def ReadCacheFromJsonValue_def clamped)
  have plain: "plain (recency_of LRUCache_default)" "plain (recency_of (dh_cache ?h))" by code_simp+
  have kept: "[(''k'', [(''b'', ''x'')])] = foldr (\<lambda>(k, v). spec_put 1048576 k v) (recency_of (dh_cache ?h)) (recency_of LRUCache_default)"
    by (simp add: recency_of_def LRUCache_default_def spec_put_def storable_def value_bytes_def)
  have library: "cJSON_Print ?env j = Some s \<Longrightarrow> cJSON_Parse ?env (c_str s) = Some j" for j s by (auto simp: c_str_def split: if_splits)
  from flush_persists [OF library _ stored run _ plain kept, of 0 2000000 "''k''"]
  have "\<exists>h' g h1 g1. WriteCacheToJsonFile ?env ?h = Some h' \<and> recency_of (dh_cache h') = []
    \<and> ReadCacheFromJsonFile ?env (LRUCacheDiskHandler_ctor (dh_file h') 2000000) = Some g
    \<and> Handler_Get ?env ''k'' h' = Some ([(''b'', ''x'')], h1) \<and> Handler_Get ?env ''k'' g = Some ([(''b'', ''x'')], g1)" by auto
  moreover have "dh_file ?h = Some ''{}''" by simp
  ultimately show ?thesis by blast
qed

lemma no_file_step:
  assumes "cJSON_Parse env [] = None" "dh_file h = None" "lru_inv (dh_cache h)"
  shows "\<exists>h'. disk_step env op h = Some h' \<and> dh_file h' = None \<and> lru_inv (dh_cache h')"
proof -
  have none: "ReadJsonValueFromFile env (h\<lparr> dh_cache := c \<rparr>) = None" "ReadJsonValueFromFile env (h\<lparr> dh_capacity := n \<rparr>) = None" "ReadJsonValueFromFile env h = None" for c n
    using assms(1,2) by (simp_all add: ReadJsonValueFromFile_def Disk_Read_def c_str_def)
  show ?thesis
  proof (cases op)
    case (DPut k v)
    then show ?thesis using lru.put_law [OF assms(3), of k v] assms(2) by (auto simp: Handler_Put_def)
  next
    case (DGet k)
    then show ?thesis using lru.get_law [OF assms(3), of k] assms(2) none(1) by (auto simp: Handler_Get_def Let_def)
  qed (use assms none clear_ok(1) in \<open>auto simp: WriteCacheToJsonFile_def SetCapacity_def ReadCacheFromJsonFile_def Delete_def Disk_Delete_def\<close>)
qed

text \<open>
  If there is no cache file, none is ever made: a flush first reads the file and gives up when it cannot be parsed, and the parser refuses the
  empty text. So nothing persists until something else creates the file, and after a deletion.
\<close>

theorem missing_file_stays_missing:
  assumes "cJSON_Parse env [] = None"
  shows "\<exists>h. disk_run env ops (LRUCacheDiskHandler_ctor None cap) = Some h \<and> dh_file h = None"
proof -
  have "dh_file h = None \<Longrightarrow> lru_inv (dh_cache h) \<Longrightarrow> \<exists>h'. disk_run env ops h = Some h' \<and> dh_file h' = None" for h
  proof (induction ops arbitrary: h)
    case (Cons op ops)
    then show ?case using no_file_step [OF assms Cons.prems, of op] by auto
  qed simp
  then show ?thesis using new_ok(4) by (simp add: LRUCacheDiskHandler_ctor_def)
qed

theorem missing_file_stays_missing_witness:
  "\<exists>h. disk_run \<lparr> cJSON_Parse = (\<lambda>s. if s = ''{}'' then Some (JObject []) else None), cJSON_Print = (\<lambda>j. Some ''{}''), file_opens = True, file_removes = True \<rparr>
     [DPut ''k'' [(''b'', ''x'')], DFlush] (LRUCacheDiskHandler_ctor None 0) = Some h \<and> dh_file h = None"
  by (rule missing_file_stays_missing) simp

end
