(* ===== verification/Netstack_Utils.thy ===== *)
theory Netstack_Utils
  imports Common_Utils "HOL-Library.Monad_Syntax" "HOL-Library.Sublist"
begin

text \<open>
  The string functions of the network stack (\<open>netstack_common_utils.cpp\<close>): splitting and trimming, the parts of a URL, the
  exclusion list of a proxy and the list of pinned keys. A position that is \<open>npos\<close> is \<open>None\<close>. \<open>Split_str\<close>, the code's \<open>Split\<close>, does not end for
  an empty separator, which is \<open>None\<close>. Regular expressions are modelled as far as the patterns go that the code builds.
\<close>

section \<open>Finding\<close>

fun find_str :: "string \<Rightarrow> string \<Rightarrow> nat option" where
  "find_str sep [] = (if sep = [] then Some 0 else None)"
| "find_str sep (c # cs) = (if prefix sep (c # cs) then Some 0 else map_option Suc (find_str sep cs))"

definition find_from :: "string \<Rightarrow> string \<Rightarrow> nat \<Rightarrow> nat option" where
  "find_from sep s pos = (if pos \<le> length s then map_option (\<lambda>i. pos + i) (find_str sep (drop pos s)) else None)"

definition find_not_from :: "char \<Rightarrow> string \<Rightarrow> nat \<Rightarrow> nat option" where
  "find_not_from c s pos = (let n = length (takeWhile ((=) c) (drop pos s)) in if pos + n < length s then Some (pos + n) else None)"

text \<open>The smallest of several positions, \<open>npos\<close> being the largest number.\<close>

fun min_pos :: "nat option list \<Rightarrow> nat option" where
  "min_pos [] = None"
| "min_pos (None # ps) = min_pos ps"
| "min_pos (Some p # ps) = (case min_pos ps of None \<Rightarrow> Some p | Some q \<Rightarrow> Some (min p q))"

section \<open>Splitting and trimming\<close>

partial_function (option) Split_str :: "string \<Rightarrow> string \<Rightarrow> string list option" where
  [code]: "Split_str s sep =
     (if s = [] then Some []
      else case find_str sep s of
        None \<Rightarrow> Some [s]
      | Some pos \<Rightarrow> do { res \<leftarrow> Split_str (drop (pos + length sep) s) sep; Some (take pos s # res) })"

partial_function (option) Split_size :: "string \<Rightarrow> string \<Rightarrow> nat \<Rightarrow> nat \<Rightarrow> string list option" where
  [code]: "Split_size s sep sz found =
     (if s = [] then Some []
      else if found + 1 = sz then Some [s]
      else case find_str sep s of
        None \<Rightarrow> Some [s]
      | Some pos \<Rightarrow> do { res \<leftarrow> Split_size (drop (pos + length sep) s) sep sz (found + 1); Some (take pos s # res) })"

fun strip_back :: "string \<Rightarrow> char \<Rightarrow> nat \<Rightarrow> nat" where
  "strip_back str ch 0 = 0"
| "strip_back str ch (Suc j) = (if str ! Suc j = ch then strip_back str ch j else Suc j)"

definition Strip :: "string \<Rightarrow> char \<Rightarrow> string" where
  "Strip str ch =
     (let i = length (takeWhile ((=) ch) str) in
      if str = [] then []
      else
        let j = strip_back str ch (length str - 1)
        in if i < length str \<and> j < length str \<and> i < j + 1 then take (j + 1 - i) (drop i str) else [])"

definition tolower :: "char \<Rightarrow> char" where
  "tolower c = (if 65 \<le> char_code c \<and> char_code c \<le> 90 then char_of (char_code c + 32) else c)"

definition ToLower :: "string \<Rightarrow> string" where
  "ToLower s = map tolower s"

fun ToString :: "string list \<Rightarrow> char \<Rightarrow> string" where
  "ToString [] tab = []"
| "ToString (x # xs) tab = x @ concat (map (\<lambda>y. tab # y) xs)"

definition blank :: "char \<Rightarrow> bool" where
  "blank c = (c \<in> {CHR '' '', CHR 0x09, CHR 0x0A, CHR 0x0D})"

definition Trim :: "string \<Rightarrow> string" where
  "Trim str =
     (let start = length (takeWhile blank str); behind = length str - length (takeWhile blank (rev str)) in
      if start = length str then [] else take (behind - start) (drop start str))"

fun CombineStrings :: "string list \<Rightarrow> string \<Rightarrow> string" where
  "CombineStrings [] spliter = []"
| "CombineStrings (s # strs) spliter = (if s = [] then [] else if strs \<noteq> [] then s @ spliter else s) @ CombineStrings strs spliter"

section \<open>Masking of addresses and hosts\<close>

fun mask4 :: "nat \<Rightarrow> string \<Rightarrow> string" where
  "mask4 n [] = []"
| "mask4 n (c # cs) =
     (if c = CHR ''/'' then c # cs
      else if 0 < n then c # mask4 (if c = CHR ''.'' then n - 1 else n) cs
      else (if c \<noteq> CHR ''.'' then CHR ''*'' else c) # mask4 n cs)"

definition MaskIpv4 :: "string \<Rightarrow> string" where
  "MaskIpv4 ip = mask4 2 ip"

fun mask6 :: "nat \<Rightarrow> string \<Rightarrow> string" where
  "mask6 n [] = []"
| "mask6 n (c # cs) =
     (if c = CHR ''/'' then c # cs
      else
        let n' = (if c = CHR '':'' then n + 1 else n)
        in (if 2 \<le> n' \<and> c \<noteq> CHR '':'' then CHR ''*'' else c) # mask6 n' cs)"

definition MaskIpv6 :: "string \<Rightarrow> string" where
  "MaskIpv6 ip = mask6 0 ip"

definition AnonymizeHost :: "string \<Rightarrow> string" where
  "AnonymizeHost host = map (\<lambda>(i, c). if odd i then CHR ''*'' else c) (List.enumerate 0 host)"

definition GetSimpleHost :: "string \<Rightarrow> string" where
  "GetSimpleHost url =
     (case find_str ''?'' url of
        None \<Rightarrow> url
      | Some questionPos \<Rightarrow>
          let afterQuestion = drop (questionPos + 1) url in
          case find_str ''__biz='' afterQuestion of
            None \<Rightarrow> take questionPos url
          | Some bizStart \<Rightarrow>
              let bizParam = drop bizStart afterQuestion
              in take (questionPos + 1) url @ (case find_str ''&'' bizParam of None \<Rightarrow> bizParam | Some a \<Rightarrow> take a bizParam))"

section \<open>URLs\<close>

abbreviation delimiter :: string where "delimiter \<equiv> ''://''"

definition GetProtocolFromURL :: "string \<Rightarrow> string" where
  "GetProtocolFromURL url = (case find_str delimiter url of Some pos \<Rightarrow> take pos url | None \<Rightarrow> [])"

definition GetHostnameFromURL :: "string \<Rightarrow> string" where
  "GetHostnameFromURL url =
     (if url = [] then []
      else
        let tempUrl = map (\<lambda>c. if c = CHR 0x5C then CHR ''/'' else c) url;
            posStart = (case find_str delimiter tempUrl of Some p \<Rightarrow> p + length delimiter | None \<Rightarrow> 0);
            posStart' = (case find_not_from CHR ''/'' tempUrl posStart of Some p \<Rightarrow> p | None \<Rightarrow> posStart)
        in case min_pos [find_from '':'' tempUrl posStart', find_from ''/'' tempUrl posStart', find_from ''?'' tempUrl posStart'] of
             Some posEnd \<Rightarrow> take (posEnd - posStart') (drop posStart' tempUrl)
           | None \<Rightarrow> drop posStart' tempUrl)"

definition GetPortFromURL :: "string \<Rightarrow> string" where
  "GetPortFromURL url =
     (let protocol = GetProtocolFromURL url;
          hostname = GetHostnameFromURL url;
          start = (if protocol = [] then length hostname else length protocol + length delimiter + length hostname)
      in case find_from '':'' url start of
           None \<Rightarrow> []
         | Some posStart \<Rightarrow>
             case min_pos [find_from ''/'' url start, find_from ''?'' url start] of
               None \<Rightarrow> drop (posStart + 1) url
             | Some posEnd \<Rightarrow> if posStart > posEnd then [] else take (posEnd - posStart - 1) (drop (posStart + 1) url))"

definition GetHostnameWithProtocolAndPortFromURL :: "string \<Rightarrow> string" where
  "GetHostnameWithProtocolAndPortFromURL url =
     (let hostname = GetHostnameFromURL url in
      if hostname = [] then []
      else
        let protocol = GetProtocolFromURL url;
            h1 = (if protocol \<noteq> [] then protocol @ delimiter @ hostname else hostname);
            port = GetPortFromURL url
        in if protocol \<noteq> ''wss'' \<and> port \<noteq> [] then h1 @ '':'' @ port else h1)"

section \<open>Exclusion lists\<close>

fun insert_before :: "char \<Rightarrow> char \<Rightarrow> char \<Rightarrow> string \<Rightarrow> string" where
  "insert_before src pre nxt [] = []"
| "insert_before src pre nxt [c] = (if c = src then [pre, c] else [c])"
| "insert_before src pre nxt (c # d # cs) =
     (if c \<noteq> src then c # insert_before src pre nxt (d # cs)
      else if nxt = CHR 0x00 \<or> d = CHR 0x00 \<or> d \<noteq> nxt then pre # c # insert_before src pre nxt (d # cs)
      else c # d # insert_before src pre nxt cs)"

definition InsertCharBefore :: "string \<Rightarrow> char \<Rightarrow> char \<Rightarrow> char \<Rightarrow> string" where
  "InsertCharBefore s src pre nxt = insert_before src pre nxt s"

definition ReplaceCharacters :: "string \<Rightarrow> string" where
  "ReplaceCharacters s = InsertCharBefore (InsertCharBefore s CHR ''*'' CHR ''.'' CHR 0x00) CHR ''.'' CHR 0x5C CHR ''*''"

definition pattern_char :: "char \<Rightarrow> bool" where
  "pattern_char c = (isalnum c \<or> c \<in> set ''-_.*'')"

definition IsRegexValid :: "string \<Rightarrow> bool" where
  "IsRegexValid regex = (Trim regex \<noteq> [] \<and> regex \<noteq> [] \<and> list_all pattern_char regex)"

text \<open>
  The regular expressions of these patterns: an escaped character, a dot with a star, a dot, or a character for itself. A dot matches no line
  end.
\<close>

datatype rx = Lit char | Dot | DotStar

fun regex_items :: "string \<Rightarrow> rx list" where
  "regex_items [] = []"
| "regex_items [c] = [if c = CHR ''.'' then Dot else Lit c]"
| "regex_items (c # d # cs) =
     (if c = CHR 0x5C then Lit d # regex_items cs
      else if c = CHR ''.'' \<and> d = CHR ''*'' then DotStar # regex_items cs
      else (if c = CHR ''.'' then Dot else Lit c) # regex_items (d # cs))"

definition line_end :: "char \<Rightarrow> bool" where
  "line_end c = (c = CHR 0x0A \<or> c = CHR 0x0D)"

fun regex_match :: "rx list \<Rightarrow> string \<Rightarrow> bool" where
  "regex_match [] s = (s = [])"
| "regex_match (Lit c # rs) [] = False"
| "regex_match (Lit c # rs) (d # s) = (c = d \<and> regex_match rs s)"
| "regex_match (Dot # rs) [] = False"
| "regex_match (Dot # rs) (d # s) = (\<not> line_end d \<and> regex_match rs s)"
| "regex_match (DotStar # rs) [] = regex_match rs []"
| "regex_match (DotStar # rs) (d # s) = (regex_match rs (d # s) \<or> \<not> line_end d \<and> regex_match (DotStar # rs) s)"

definition IsMatch :: "string \<Rightarrow> string \<Rightarrow> bool" where
  "IsMatch str patternStr =
     (if patternStr = [] then False
      else if patternStr = ''*'' then True
      else if \<not> IsRegexValid patternStr then patternStr = str
      else regex_match (regex_items (ReplaceCharacters patternStr)) str)"

partial_function (option) excluded_loop :: "string \<Rightarrow> string \<Rightarrow> string \<Rightarrow> nat \<Rightarrow> bool option" where
  [code]: "excluded_loop str exclusions split start =
     (case find_from split exclusions start of
        None \<Rightarrow> if start \<le> length exclusions then Some (IsMatch str (Trim (drop start exclusions))) else None
      | Some end' \<Rightarrow>
          if end' - start > 0 \<and> IsMatch str (Trim (take (end' - start) (drop start exclusions))) then Some True
          else excluded_loop str exclusions split (end' + 1))"

definition IsExcluded :: "string \<Rightarrow> string \<Rightarrow> string \<Rightarrow> bool option" where
  "IsExcluded str exclusions split = (if Trim exclusions = [] then Some False else excluded_loop str exclusions split 0)"

definition IsHostNameExcluded :: "string \<Rightarrow> string \<Rightarrow> string \<Rightarrow> bool option" where
  "IsHostNameExcluded url exclusions split = IsExcluded (GetHostnameFromURL url) exclusions split"

section \<open>Pinned keys\<close>

abbreviation pin_prefix :: string where "pin_prefix \<equiv> ''sha256//''"

function pinned_loop :: "string \<Rightarrow> string \<Rightarrow> bool" where
  "pinned_loop digest s =
     (if s = [] then False
      else
        let entry = takeWhile ((\<noteq>) CHR '';'') s; rest = drop (length entry + 1) s in
        if \<not> prefix pin_prefix s then pinned_loop digest rest
        else if length entry \<noteq> 52 then pinned_loop digest rest
        else if take 44 (drop 8 s) = digest then True
        else pinned_loop digest rest)"
  by auto
termination by (relation "measure (\<lambda>(d, s). length s)") auto

declare pinned_loop.simps [simp del]

definition IsCertPubKeyInPinned :: "string \<Rightarrow> string \<Rightarrow> bool" where
  "IsCertPubKeyInPinned certPubKeyDigest pinnedPubkey =
     (if find_str pin_prefix pinnedPubkey \<noteq> Some 0 then False else pinned_loop certPubKeyDigest pinnedPubkey)"

section \<open>Specifications\<close>

text \<open>The entries of a list with a separator character.\<close>

fun entries :: "char \<Rightarrow> string \<Rightarrow> string list" where
  "entries sep [] = [[]]"
| "entries sep (c # cs) =
     (if c = sep then [] # entries sep cs else case entries sep cs of [] \<Rightarrow> [[c]] | e # es \<Rightarrow> (c # e) # es)"

text \<open>A pattern in which a star stands for any text of one line.\<close>

fun glob :: "string \<Rightarrow> string \<Rightarrow> bool" where
  "glob [] s = (s = [])"
| "glob (p # ps) [] = (p = CHR ''*'' \<and> glob ps [])"
| "glob (p # ps) (d # s) =
     (if p = CHR ''*'' then glob ps (d # s) \<or> \<not> line_end d \<and> glob (p # ps) s else p = d \<and> glob ps s)"

text \<open>
  An entry of letters, digits, hyphens, underscores, dots and stars is a pattern; any other is a text to compare with. The empty entry matches nothing.
\<close>

definition letter :: "char \<Rightarrow> bool" where
  "letter c = (of_char c \<in> {65..90 :: nat} \<union> {97..122})"

definition digit :: "char \<Rightarrow> bool" where
  "digit c = (of_char c \<in> {48..57 :: nat})"

definition matches :: "string \<Rightarrow> string \<Rightarrow> bool" where
  "matches pat str =
     (if list_all (\<lambda>c. letter c \<or> digit c \<or> c \<in> {CHR ''-'', CHR ''_'', CHR ''.'', CHR ''*''}) pat
      then pat \<noteq> [] \<and> (pat = ''*'' \<or> glob pat str) else pat = str)"

text \<open>A character of a pattern after the first pass.\<close>

definition star_text :: "char \<Rightarrow> string" where
  "star_text c = (if c = CHR ''*'' then ''.*'' else [c])"

text \<open>The URL of its parts.\<close>

definition url_end :: "string \<Rightarrow> bool" where
  "url_end rest = (rest = [] \<or> hd rest = CHR ''/'' \<or> hd rest = CHR ''?'')"

definition host_text :: "string \<Rightarrow> bool" where
  "host_text host = (host \<noteq> [] \<and> set host \<inter> {CHR '':'', CHR ''/'', CHR ''?'', CHR 0x5C} = {})"

text \<open>
  The forms of a URL that are taken apart as the standard has it: a scheme, a host of letters, digits, hyphens and dots,
  a port of digits. There are no credentials, no address in brackets and no fragment directly behind the host or the port.
\<close>

definition scheme_name :: "string \<Rightarrow> bool" where
  "scheme_name proto = (proto \<noteq> [] \<and> list_all (\<lambda>c. letter c \<or> digit c \<or> c \<in> {CHR ''+'', CHR ''-'', CHR ''.''}) proto)"

definition reg_name :: "string \<Rightarrow> bool" where
  "reg_name host = (host \<noteq> [] \<and> list_all (\<lambda>c. letter c \<or> digit c \<or> c \<in> {CHR ''-'', CHR ''.''}) host)"

section \<open>Positions\<close>

lemma find_char: "find_str [c] s = (if c \<in> set s then Some (length (takeWhile ((\<noteq>) c) s)) else None)"
  by (induction s) auto

lemma find_none: "sep \<noteq> [] \<Longrightarrow> find_str sep s = Some p \<Longrightarrow> p + length sep \<le> length s"
proof (induction s arbitrary: p)
  case (Cons c cs)
  then show ?case using prefix_length_le [of sep "c # cs"] by (auto split: if_splits)
qed simp

lemma find_delimiter: "CHR '':'' \<notin> set p \<Longrightarrow> find_str delimiter (p @ delimiter @ s) = Some (length p)"
  by (induction p) auto

lemma min_pos_least: "Some n \<in> set ps \<Longrightarrow> (\<And>m. Some m \<in> set ps \<Longrightarrow> n \<le> m) \<Longrightarrow> min_pos ps = Some n"
proof (induction ps rule: min_pos.induct)
  case (3 p ps)
  show ?case
  proof (cases "Some n \<in> set ps")
    case True
    then have "min_pos ps = Some n" using 3 by simp
    moreover have "n \<le> p" using "3.prems"(2) by simp
    ultimately show ?thesis by simp
  next
    case False
    then have p: "p = n" using "3.prems"(1) by simp
    have "min_pos ps = Some q \<Longrightarrow> Some q \<in> set ps" for q
    proof (induction ps arbitrary: q rule: min_pos.induct)
      case (3 p ps)
      then show ?case by (auto split: option.splits if_splits simp: min_def)
    qed auto
    then show ?thesis using p "3.prems"(2) by (auto split: option.splits simp: min_def)
  qed
qed auto

lemma takeWhile_skip: "c \<notin> set xs \<Longrightarrow> takeWhile ((\<noteq>) c) (xs @ ys) = xs @ takeWhile ((\<noteq>) c) ys"
  by (induction xs) auto

lemma takeWhile_shorter: "c \<in> set s \<Longrightarrow> length (takeWhile ((\<noteq>) c) s) < length s"
  by (induction s) auto

lemma find_from_drop: "pos \<le> length s \<Longrightarrow> find_from sep s pos = map_option (\<lambda>i. pos + i) (find_str sep (drop pos s))"
  by (simp add: find_from_def)

lemma find_behind: "find_from [c] (pre @ s) (length pre) = (if c \<in> set s then Some (length pre + length (takeWhile ((\<noteq>) c) s)) else None)"
  by (simp add: find_from_drop find_char)

lemma min_pos_behind:
  assumes "\<And>c. c \<in> set cs \<Longrightarrow> c \<notin> set skip" "r \<in> set cs"
  shows "min_pos (map (\<lambda>c. find_from [c] (pre @ skip @ r # rs) (length pre)) cs) = Some (length pre + length skip)"
proof (rule min_pos_least)
  have "find_from [r] (pre @ skip @ r # rs) (length pre) = Some (length pre + length skip)"
    unfolding find_behind using assms by (simp add: takeWhile_skip)
  then show "Some (length pre + length skip) \<in> set (map (\<lambda>c. find_from [c] (pre @ skip @ r # rs) (length pre)) cs)"
    using assms(2) by (metis (mono_tags, lifting) image_eqI list.set_map)
  fix m assume "Some m \<in> set (map (\<lambda>c. find_from [c] (pre @ skip @ r # rs) (length pre)) cs)"
  then obtain c where c: "c \<in> set cs" "find_from [c] (pre @ skip @ r # rs) (length pre) = Some m" by auto
  then have "m = length pre + length (takeWhile ((\<noteq>) c) (skip @ r # rs))" unfolding find_behind by (simp split: if_splits)
  then show "length pre + length skip \<le> m" using assms(1) [OF c(1)] by (simp add: takeWhile_skip)
qed

lemma min_pos_absent: "(\<And>c. c \<in> set cs \<Longrightarrow> c \<notin> set s) \<Longrightarrow> min_pos (map (\<lambda>c. find_from [c] (pre @ s) (length pre)) cs) = None"
  by (induction cs) (simp_all add: find_behind)

lemma Split_str_returns: "sep \<noteq> [] \<Longrightarrow> \<exists>ps. Split_str s sep = Some ps"
proof (induction s rule: length_induct)
  case (1 s)
  show ?case
  proof (cases "find_str sep s")
    case None
    then show ?thesis by (subst Split_str.simps) auto
  next
    case (Some pos)
    have "s \<noteq> [] \<Longrightarrow> length (drop (pos + length sep) s) < length s" using "1.prems" by simp
    then have "s \<noteq> [] \<Longrightarrow> \<exists>ps. Split_str (drop (pos + length sep) s) sep = Some ps" using 1 by blast
    then show ?thesis using Some by (subst Split_str.simps) auto
  qed
qed

section \<open>Parts of a URL\<close>

lemma hostname_parts:
  assumes "CHR '':'' \<notin> set proto" "CHR 0x5C \<notin> set proto" "host_text host" "rest = [] \<or> hd rest \<in> {CHR '':'', CHR ''/'', CHR ''?''}"
  shows "GetHostnameFromURL (proto @ delimiter @ host @ rest) = host"
proof -
  let ?f = "\<lambda>c. if c = CHR 0x5C then CHR ''/'' else c"
  define pre where "pre = proto @ delimiter"
  let ?t = "pre @ host @ map ?f rest"
  have keep: "map ?f proto = proto" "map ?f host = host" using assms(2,3) by (auto simp: host_text_def intro!: map_idI)
  then have url: "map ?f (proto @ delimiter @ host @ rest) = ?t" by (simp add: pre_def)
  have start: "find_str delimiter ?t = Some (length proto)" "length proto + length delimiter = length pre"
    using find_delimiter [OF assms(1), of "host @ map ?f rest"] by (simp_all add: pre_def)
  obtain h hs where h: "host = h # hs" "h \<noteq> CHR ''/''" using assms(3) by (cases host) (auto simp: host_text_def)
  have first: "find_not_from CHR ''/'' ?t (length pre) = Some (length pre)" using h by (simp add: find_not_from_def)
  have plain: "c \<notin> set host" if "c \<in> set '':/?''" for c using assms(3) that by (auto simp: host_text_def)
  have "(case min_pos (map (\<lambda>c. find_from [c] ?t (length pre)) '':/?'') of
      Some posEnd \<Rightarrow> take (posEnd - length pre) (drop (length pre) ?t) | None \<Rightarrow> drop (length pre) ?t) = host"
  proof (cases rest)
    case Nil
    then show ?thesis using min_pos_absent [of "'':/?''" host pre] plain by simp
  next
    case (Cons r rs)
    then have "r \<in> set '':/?''" "?f r = r" using assms(4) by auto
    then show ?thesis using min_pos_behind [of "'':/?''" host r pre "map ?f rs"] plain Cons by simp
  qed
  then show ?thesis unfolding GetHostnameFromURL_def url Let_def start option.case first by simp
qed

lemma protocol_part: "CHR '':'' \<notin> set proto \<Longrightarrow> GetProtocolFromURL (proto @ delimiter @ rest) = proto"
  using find_delimiter [of proto rest] by (simp add: GetProtocolFromURL_def)

lemma port_behind:
  assumes "set port \<inter> {CHR ''/'', CHR ''?''} = {}" "url_end rest" and colon: "colon = (if port = [] then [] else CHR '':'' # port)"
    and url: "url = pre @ colon @ rest" and n: "n = length pre"
  shows "(case find_from '':'' url n of
           None \<Rightarrow> []
         | Some posStart \<Rightarrow>
             case min_pos [find_from ''/'' url n, find_from ''?'' url n] of
               None \<Rightarrow> drop (posStart + 1) url
             | Some posEnd \<Rightarrow> if posStart > posEnd then [] else take (posEnd - posStart - 1) (drop (posStart + 1) url)) = port"
proof -
  note at = find_behind [of _ pre "colon @ rest", folded url, folded n]
  show ?thesis
  proof (cases "port = []")
    case True
    then have c: "colon = []" using colon by simp
    show ?thesis
    proof (cases rest)
      case Nil
      then show ?thesis unfolding at using True c by simp
    next
      case (Cons r rs)
      then have r: "r \<in> set ''/?''" using assms(2) by (auto simp: url_end_def)
      then have "min_pos [find_from ''/'' url n, find_from ''?'' url n] = Some n"
        using min_pos_behind [of "''/?''" "[]" r pre rs] by (simp add: url n c Cons)
      moreover have "find_from '':'' url n = Some p \<Longrightarrow> n < p" for p using r unfolding at by (auto simp: c Cons split: if_splits)
      ultimately show ?thesis using True by (auto split: option.splits)
    qed
  next
    case False
    then have c: "colon = CHR '':'' # port" using colon by simp
    have plain: "x \<notin> set colon" if "x \<in> set ''/?''" for x using assms(1) that by (auto simp: c)
    have colon_at: "find_from '':'' url n = Some n" unfolding at by (simp add: c)
    have after: "drop (n + 1) url = port @ rest" by (simp add: url n c)
    show ?thesis
    proof (cases rest)
      case Nil
      then have "min_pos [find_from ''/'' url n, find_from ''?'' url n] = None"
        using min_pos_absent [of "''/?''" colon pre] plain by (simp add: url n)
      then show ?thesis unfolding colon_at using after Nil by simp
    next
      case (Cons r rs)
      then have r: "r \<in> set ''/?''" using assms(2) by (auto simp: url_end_def)
      then have "min_pos [find_from ''/'' url n, find_from ''?'' url n] = Some (n + length colon)"
        using min_pos_behind [of "''/?''" colon r pre rs] plain by (simp add: url n Cons)
      then show ?thesis unfolding colon_at using after c by simp
    qed
  qed
qed

lemma port_part:
  assumes "proto \<noteq> []" "CHR '':'' \<notin> set proto" "CHR 0x5C \<notin> set proto" "host_text host"
    and "set port \<inter> {CHR ''/'', CHR ''?''} = {}" "url_end rest" "colon = (if port = [] then [] else CHR '':'' # port)"
  shows "GetPortFromURL (proto @ delimiter @ host @ colon @ rest) = port"
proof -
  let ?url = "proto @ delimiter @ host @ colon @ rest"
  have "GetHostnameFromURL ?url = host" using assms by (intro hostname_parts) (auto simp: url_end_def hd_append)
  then have start: "(if GetProtocolFromURL ?url = [] then length (GetHostnameFromURL ?url)
      else length (GetProtocolFromURL ?url) + length delimiter + length (GetHostnameFromURL ?url)) = length proto + length delimiter + length host"
    using protocol_part [OF assms(2)] assms(1) by simp
  show ?thesis unfolding GetPortFromURL_def Let_def start
    by (rule port_behind [OF assms(5,6,7), where pre = "proto @ delimiter @ host"]) simp_all
qed

lemma plain_names:
  "scheme_name proto \<Longrightarrow> proto \<noteq> [] \<and> CHR '':'' \<notin> set proto \<and> CHR 0x5C \<notin> set proto"
  "reg_name host \<Longrightarrow> host_text host" "list_all digit port \<Longrightarrow> set port \<inter> {CHR ''/'', CHR ''?''} = {}"
  by (auto simp: scheme_name_def reg_name_def host_text_def list_all_iff letter_def digit_def)

text \<open>
  C36. A URL of a scheme, a host of letters, digits, hyphens and dots, a port of digits or none, and what follows from a slash or a question mark on
  is taken apart as it was put together: protocol, host and port. URLs with credentials, with an address in brackets or with a fragment
  directly behind the host are not of this form.
\<close>

theorem url_parts:
  assumes "scheme_name proto" "reg_name host" "list_all digit port" "url_end rest"
    and "url = proto @ delimiter @ host @ (if port = [] then [] else CHR '':'' # port) @ rest"
  shows "GetProtocolFromURL url = proto \<and> GetHostnameFromURL url = host \<and> GetPortFromURL url = port"
proof -
  have p: "proto \<noteq> []" "CHR '':'' \<notin> set proto" "CHR 0x5C \<notin> set proto" using plain_names(1) [OF assms(1)] by simp_all
  note h = plain_names(2) [OF assms(2)] and d = plain_names(3) [OF assms(3)]
  show ?thesis
    using assms(4, 5) protocol_part [OF p(2)] port_part [OF p h d assms(4) refl]
      hostname_parts [OF p(2, 3) h, of "(if port = [] then [] else CHR '':'' # port) @ rest"] by (auto simp: url_end_def)
qed

theorem url_parts_witness:
  "GetProtocolFromURL ''https://a.com:8080/p:1?q'' = ''https'' \<and> GetHostnameFromURL ''https://a.com:8080/p:1?q'' = ''a.com''
   \<and> GetPortFromURL ''https://a.com:8080/p:1?q'' = ''8080''"
  by (rule url_parts [of "''https''" "''a.com''" "''8080''" "''/p:1?q''"])
    (simp_all add: scheme_name_def reg_name_def letter_def digit_def url_end_def)

text \<open>
  Credentials in a URL are taken for the host: what stands before the first colon is returned, while the request goes to the host behind the
  at sign. Host-based decisions (allowed host names, cleartext permission, proxy exclusions) are then made for the wrong host.
\<close>

theorem credentials_taken_for_host:
  assumes "host_text user"
  shows "GetHostnameFromURL (''http://'' @ user @ '':'' @ password @ ''@'' @ host) = user"
  using hostname_parts [of "''http''" user "'':'' @ password @ ''@'' @ host"] assms by simp

theorem credentials_taken_for_host_witness: "GetHostnameFromURL ''http://good.com:x@evil.com'' = ''good.com''"
  using credentials_taken_for_host [of "''good.com''" "''x''" "''evil.com''"] by (simp add: host_text_def)

section \<open>Lists of entries\<close>

lemma entries_nonempty [simp]: "entries sep s \<noteq> []"
  by (cases s) (auto split: list.splits)

lemma entries_first:
  "entries sep s = (if sep \<in> set s then takeWhile ((\<noteq>) sep) s # entries sep (drop (Suc (length (takeWhile ((\<noteq>) sep) s))) s) else [s])"
  by (induction s) (auto split: list.splits)

lemma pin_entry:
  assumes "e = take (length e) s"
  shows "pin_prefix @ digest = e \<and> length digest = 44 \<longleftrightarrow> prefix pin_prefix s \<and> length e = 52 \<and> take 44 (drop 8 s) = digest"
proof
  obtain r where s: "s = e @ r" using assms by (metis append_take_drop_id)
  {
    assume e: "pin_prefix @ digest = e \<and> length digest = 44"
    then have "s = pin_prefix @ digest @ r" "length e = length pin_prefix + 44" using s by auto
    then show "prefix pin_prefix s \<and> length e = 52 \<and> take 44 (drop 8 s) = digest" using e by simp
  next
    assume e: "prefix pin_prefix s \<and> length e = 52 \<and> take 44 (drop 8 s) = digest"
    then obtain t where t: "s = pin_prefix @ t" by (auto simp: prefix_def)
    have "length s \<ge> 52" using s e by simp
    then have "length digest = 44" using e by auto
    moreover have "e = take 52 s" using s e by simp
    then have "e = pin_prefix @ digest" using t e by simp
    ultimately show "pin_prefix @ digest = e \<and> length digest = 44" by simp
  }
qed

lemma pinned_entries:
  "pinned_loop digest s \<longleftrightarrow> length digest = 44 \<and> pin_prefix @ digest \<in> set (entries CHR '';'' s)"
proof (induction digest s rule: pinned_loop.induct)
  case (1 digest s)
  let ?e = "takeWhile ((\<noteq>) CHR '';'') s" and ?rest = "drop (length (takeWhile ((\<noteq>) CHR '';'') s) + 1) s"
  show ?case
  proof (cases "s = []")
    case True
    then show ?thesis by (simp add: pinned_loop.simps)
  next
    case False
    have split: "pin_prefix @ digest \<in> set (entries CHR '';'' s) \<longleftrightarrow> pin_prefix @ digest = ?e \<or> pin_prefix @ digest \<in> set (entries CHR '';'' ?rest)"
    proof (cases "CHR '';'' \<in> set s")
      case True
      then show ?thesis by (subst entries_first) simp
    next
      case none: False
      then have e: "?e = s" by (auto simp: takeWhile_eq_all_conv)
      show ?thesis unfolding e using none by (subst entries_first) simp
    qed
    have head: "pin_prefix @ digest = ?e \<and> length digest = 44 \<longleftrightarrow> prefix pin_prefix s \<and> length ?e = 52 \<and> take 44 (drop 8 s) = digest"
      by (rule pin_entry [OF takeWhile_eq_take])
    show ?thesis
      using 1 False split head by (subst pinned_loop.simps) (auto simp: Let_def)
  qed
qed

text \<open>
  C37. A key is accepted exactly if the list begins as a list of pins and has an entry for its digest: entries of another form, or with a digest of
  another length, neither match nor hide the entries after them.
\<close>

theorem pinned_key_is_listed:
  "IsCertPubKeyInPinned digest pins \<longleftrightarrow> prefix pin_prefix pins \<and> length digest = 44 \<and> pin_prefix @ digest \<in> set (entries CHR '';'' pins)"
proof -
  have "find_str pin_prefix pins = Some 0 \<longleftrightarrow> prefix pin_prefix pins" by (cases pins) auto
  then show ?thesis using pinned_entries by (auto simp: IsCertPubKeyInPinned_def)
qed

subsection \<open>Exclusions\<close>

lemma insert_other: "c \<noteq> src \<Longrightarrow> insert_before src pre nxt (c # s) = c # insert_before src pre nxt s"
  by (cases s) auto

lemma items_other: "c \<noteq> CHR 0x5C \<Longrightarrow> c \<noteq> CHR ''.'' \<Longrightarrow> regex_items (c # s) = Lit c # regex_items s"
  by (cases s) auto

lemma insert_dot:
  "s = [] \<or> hd s \<noteq> CHR ''*'' \<Longrightarrow> insert_before CHR ''.'' CHR 0x5C CHR ''*'' (CHR ''.'' # s) = CHR 0x5C # CHR ''.'' # insert_before CHR ''.'' CHR 0x5C CHR ''*'' s"
  by (cases s) auto

lemma first_pass: "insert_before CHR ''*'' CHR ''.'' CHR 0x00 s = concat (map star_text s)"
proof (induction "CHR ''*''" "CHR ''.''" "CHR 0x00" s rule: insert_before.induct)
  case (3 c d cs)
  then show ?case by (cases "c = CHR ''*''") (simp_all add: star_text_def)
qed (simp_all add: star_text_def)

lemma star_text_simps: "star_text CHR ''*'' = ''.*''" "c \<noteq> CHR ''*'' \<Longrightarrow> star_text c = [c]"
  by (simp_all add: star_text_def)

lemma star_text_hd: "concat (map star_text s) = [] \<or> hd (concat (map star_text s)) \<noteq> CHR ''*''"
  by (cases s) (auto simp: star_text_def)

lemma second_pass:
  "list_all pattern_char s \<Longrightarrow> regex_items (insert_before CHR ''.'' CHR 0x5C CHR ''*'' (concat (map star_text s)))
     = map (\<lambda>c. if c = CHR ''*'' then DotStar else Lit c) s"
proof (induction s)
  case (Cons c s)
  have "\<not> pattern_char CHR 0x5C" by code_simp
  then have c: "c \<noteq> CHR 0x5C" using Cons.prems by auto
  consider "c = CHR ''*''" | "c = CHR ''.''" | "c \<noteq> CHR ''*''" "c \<noteq> CHR ''.''" by blast
  then show ?case
  proof cases
    case 1
    then show ?thesis using Cons by (simp add: star_text_simps)
  next
    case 2
    then show ?thesis using Cons insert_dot [OF star_text_hd [of s]] by (simp add: star_text_simps)
  next
    case 3
    then show ?thesis using Cons c by (simp add: star_text_simps insert_other items_other)
  qed
qed simp

lemma regex_glob: "regex_match (map (\<lambda>c. if c = CHR ''*'' then DotStar else Lit c) p) s = glob p s"
  by (induction p s rule: glob.induct) auto

lemma Trim_blank: "Trim s = [] \<longleftrightarrow> list_all blank s"
proof (cases "list_all blank s")
  case True
  then have all: "takeWhile blank s = s" by (auto simp: list_all_iff takeWhile_eq_all_conv)
  show ?thesis unfolding Trim_def Let_def all using True by simp
next
  case False
  then have "\<exists>x \<in> set s. \<not> blank x" by (simp add: list_all_iff)
  from split_list_first_prop [OF this] obtain a x b where s: "s = a @ x # b" "\<not> blank x" "\<forall>y \<in> set a. \<not> \<not> blank y" by blast
  have "takeWhile blank (rev b @ x # rev a) = takeWhile blank (rev b)" by (rule takeWhile_tail [of blank x "rev b" "rev a", OF s(2)])
  then have "length (takeWhile blank (rev s)) \<le> length b" using length_takeWhile_le [of blank "rev b"] s(1) by simp
  moreover have "takeWhile blank s = a" unfolding s(1) using s(2,3) by (subst takeWhile_append2) auto
  ultimately show ?thesis using False s(1) by (simp add: Trim_def)
qed

lemma pattern_characters: "pattern_char c \<longleftrightarrow> letter c \<or> digit c \<or> c \<in> {CHR ''-'', CHR ''_'', CHR ''.'', CHR ''*''}"
  by (auto simp: pattern_char_def isalnum_def char_code_def letter_def digit_def)

lemma matches_eq: "matches pat str = (if list_all pattern_char pat then pat \<noteq> [] \<and> (pat = ''*'' \<or> glob pat str) else pat = str)"
  using ext [of pattern_char, OF pattern_characters] by (simp only: matches_def)

lemma IsMatch_matches: "IsMatch str p = matches p str"
proof (cases "list_all pattern_char p")
  case True
  have "\<not> blank c" if "pattern_char c" for c
    using that by (auto simp: blank_def pattern_characters letter_def digit_def)
  with True have "p \<noteq> [] \<Longrightarrow> IsRegexValid p" by (cases p) (auto simp: IsRegexValid_def Trim_blank)
  then show ?thesis
    using True second_pass [of p]
    by (auto simp: IsMatch_def matches_eq ReplaceCharacters_def InsertCharBefore_def first_pass regex_glob)
next
  case False
  moreover have "pattern_char CHR ''*''" by code_simp
  ultimately show ?thesis by (auto simp: IsMatch_def matches_eq IsRegexValid_def)
qed

lemma excluded_loop_entries:
  "start \<le> length ex \<Longrightarrow> excluded_loop str ex '','' start = Some (\<exists>e \<in> set (entries CHR '','' (drop start ex)). matches (Trim e) str)"
proof (induction "length ex - start" arbitrary: start rule: less_induct)
  case less
  let ?s = "drop start ex"
  show ?case
  proof (cases "CHR '','' \<in> set ?s")
    case False
    then have "find_from '','' ex start = None" using less.prems by (simp add: find_from_drop find_char)
    then show ?thesis using False less.prems by (subst excluded_loop.simps, subst entries_first) (simp add: IsMatch_matches)
  next
    case True
    let ?n = "length (takeWhile ((\<noteq>) CHR '','') ?s)"
    have find: "find_from '','' ex start = Some (start + ?n)" using True less.prems by (simp add: find_from_drop find_char)
    have "?n < length ?s" using True by (rule takeWhile_shorter)
    then have step: "start + ?n + 1 \<le> length ex" "length ex - (start + ?n + 1) < length ex - start" by auto
    have entry: "take ?n ?s = takeWhile ((\<noteq>) CHR '','') ?s" by (metis takeWhile_eq_take)
    have ih: "excluded_loop str ex '','' (start + ?n + 1) = Some (\<exists>e \<in> set (entries CHR '','' (drop (start + ?n + 1) ex)). matches (Trim e) str)"
      using less.hyps [OF step(2,1)] .
    have "matches (Trim []) str = False" by (simp add: matches_def Trim_def)
    then show ?thesis
      using find ih True entry by (subst excluded_loop.simps, subst entries_first) (auto simp: IsMatch_matches add.commute)
  qed
qed

text \<open>
  C38. A host is on an exclusion list with commas exactly if one of the entries, blanks around it removed, matches it: a star alone matches every
  host, in an entry of letters, digits, hyphens, underscores, dots and stars a star stands for any text and everything else for itself, and an
  entry with any other character must be the host. The two rewriting passes over a pattern and the regular expression they build do this.
\<close>

theorem exclusion_list_globs:
  "IsExcluded host exclusions '','' = Some (\<exists>e \<in> set (entries CHR '','' exclusions). matches (Trim e) host)"
proof (cases "Trim exclusions = []")
  case True
  then have blank: "list_all blank exclusions" by (simp add: Trim_blank)
  moreover have "\<not> blank CHR '',''" by code_simp
  ultimately have "CHR '','' \<notin> set exclusions" by (auto simp: list_all_iff)
  then have "entries CHR '','' exclusions = [exclusions]" by (subst entries_first) simp
  then show ?thesis using True by (simp add: IsExcluded_def matches_def)
next
  case False
  then show ?thesis using excluded_loop_entries [of 0 exclusions host] by (simp add: IsExcluded_def)
qed

end
