(* ===== verification/Http_Cache.thy ===== *)
theory Http_Cache
  imports Http_Base64 Lru_Cache Netstack_Utils
begin

text \<open>
  The HTTP cache of the client: the directives of a request and of a response (\<open>http_cache_request.cpp\<close>,
  \<open>http_cache_response.cpp\<close>), the decision whether a stored response may be used (\<open>http_cache_strategy.cpp\<close>), and the proxy
  that stores and loads responses (\<open>cache_proxy.cpp\<close>) in the cache of theory \<open>Lru_Cache\<close>, Base64-coded.

  Time stamps come from \<open>std::get_time\<close> and \<open>mktime\<close>, which depend on the time zone, and the clock: they are parameters.
  Arithmetic on \<open>int64_t\<close> is checked: \<open>None\<close> is a signed overflow, or what \<open>None\<close> is in the theories used.
\<close>

record http_clock =
  StrTimeToTimestamp :: "string \<Rightarrow> int"
  GetNowTimeSeconds :: int

abbreviation INVALID_TIME :: int where "INVALID_TIME \<equiv> - 1"

definition i64 :: "int \<Rightarrow> int option" where
  "i64 x = (if - (2 ^ 63) \<le> x \<and> x < 2 ^ 63 then Some x else None)"

section \<open>Requests and responses\<close>

record HttpClientRequest =
  rq_url :: string
  rq_method :: string
  rq_headers :: "(string, string) omap"
  rq_version :: nat
  rq_requestTime :: string
  rq_usingCache :: bool

text \<open>
  The response with all its fields. Times of the transfer are only stored, as the bits of a \<open>double\<close>. The constructor
  leaves the family and the port of the address undefined: \<open>None\<close>.
\<close>

record NetAddress =
  ad_address :: string
  ad_family :: "8 word option"
  ad_port :: "16 word option"

record PerformanceInfo =
  dnsTiming :: "64 word"
  connectTiming :: "64 word"
  tlsTiming :: "64 word"
  firstSendTiming :: "64 word"
  firstReceiveTiming :: "64 word"
  totalTiming :: "64 word"
  redirectTiming :: "64 word"

datatype HttpDataType = STRING | OBJECT | ARRAY_BUFFER | NO_DATA_TYPE

definition NetAddress_ctor :: NetAddress where
  "NetAddress_ctor = \<lparr> ad_address = [], ad_family = None, ad_port = None \<rparr>"

definition PerformanceInfo_ctor :: PerformanceInfo where
  "PerformanceInfo_ctor = \<lparr> dnsTiming = 0, connectTiming = 0, tlsTiming = 0, firstSendTiming = 0, firstReceiveTiming = 0, totalTiming = 0, redirectTiming = 0 \<rparr>"

record HttpClientResponse =
  rs_code :: int
  rs_rawHeader :: string
  rs_headers :: "(string, string) omap"
  rs_cookies :: string
  rs_responseTime :: string
  rs_requestTime :: string
  rs_result :: string
  serverIpAddress :: NetAddress
  performanceInfo :: PerformanceInfo
  rs_setCookie :: "string list"
  rs_dataType :: HttpDataType

definition HttpClientResponse_ctor :: HttpClientResponse where
  "HttpClientResponse_ctor = \<lparr> rs_code = 0, rs_rawHeader = [], rs_headers = [], rs_cookies = [], rs_responseTime = [], rs_requestTime = [], rs_result = [],
     serverIpAddress = NetAddress_ctor, performanceInfo = PerformanceInfo_ctor, rs_setCookie = [], rs_dataType = NO_DATA_TYPE \<rparr>"

definition SetHeader :: "string \<Rightarrow> string \<Rightarrow> HttpClientRequest \<Rightarrow> HttpClientRequest" where
  "SetHeader key val r = r\<lparr> rq_headers := om_put (ToLower key) val (rq_headers r) \<rparr>"

definition SetWarning :: "string \<Rightarrow> HttpClientResponse \<Rightarrow> HttpClientResponse" where
  "SetWarning val r = r\<lparr> rs_headers := om_put ''warning'' val (rs_headers r) \<rparr>"

abbreviation Strip_blank :: "string \<Rightarrow> string" where "Strip_blank s \<equiv> Strip s CHR '' ''"

definition parse_header_line :: "string \<Rightarrow> HttpClientResponse \<Rightarrow> HttpClientResponse" where
  "parse_header_line header r =
     (if Strip_blank header = [] then r
      else case find_str '':'' header of
        None \<Rightarrow> r\<lparr> rs_headers := om_put (Strip_blank header) [] (rs_headers r) \<rparr>
      | Some index \<Rightarrow>
          if ToLower (Strip_blank (take index header)) = ''set-cookie'' then r\<lparr> rs_setCookie := rs_setCookie r @ [Strip_blank (drop (index + 1) header)] \<rparr>
          else r\<lparr> rs_headers := om_put (ToLower (Strip_blank (take index header))) (Strip_blank (drop (index + 1) header)) (rs_headers r) \<rparr>)"

definition ParseHeaders :: "HttpClientResponse \<Rightarrow> HttpClientResponse option" where
  "ParseHeaders r = do { vec \<leftarrow> Split_str (rs_rawHeader r) [CHR 0x0D, CHR 0x0A]; Some (fold parse_header_line vec r) }"

section \<open>Directives of a request\<close>

record HttpCacheRequest =
  cq_requestTime :: string
  ifModifiedSince :: string
  ifNoneMatch :: string
  cq_maxAge :: string
  maxStale :: string
  minFresh :: string
  cq_noCache :: bool
  cq_noStore :: bool
  cq_noTransform :: bool
  onlyIfCached :: bool

definition HttpCacheRequest_ctor :: HttpCacheRequest where
  "HttpCacheRequest_ctor = \<lparr> cq_requestTime = [], ifModifiedSince = [], ifNoneMatch = [], cq_maxAge = [], maxStale = [], minFresh = [],
     cq_noCache = False, cq_noStore = False, cq_noTransform = False, onlyIfCached = False \<rparr>"

definition request_directive :: "string \<Rightarrow> HttpCacheRequest \<Rightarrow> HttpCacheRequest" where
  "request_directive str q =
     (let q1 = (if str = ''no-cache'' then q\<lparr> cq_noCache := True \<rparr>
                else if str = ''no-store'' then q\<lparr> cq_noStore := True \<rparr>
                else if str = ''no-transform'' then q\<lparr> cq_noTransform := True \<rparr>
                else if str = ''only-if-cached'' then q\<lparr> onlyIfCached := True \<rparr> else q)
      in case find_str ''='' str of
           None \<Rightarrow> q1
         | Some pos \<Rightarrow>
             let key = take pos str; val = drop (pos + 1) str in
             if key = ''max-age'' then q1\<lparr> cq_maxAge := val \<rparr>
             else if key = ''max-stale'' then q1\<lparr> maxStale := val \<rparr>
             else if key = ''min-fresh'' then q1\<lparr> minFresh := val \<rparr> else q1)"

definition Request_ParseCacheControl :: "string \<Rightarrow> HttpCacheRequest \<Rightarrow> HttpCacheRequest option" where
  "Request_ParseCacheControl cacheControl q = do { vec \<leftarrow> Split_str cacheControl '', ''; Some (fold request_directive vec q) }"

fun ParseRequestHeader :: "(string, string) omap \<Rightarrow> HttpCacheRequest \<Rightarrow> HttpCacheRequest option" where
  "ParseRequestHeader [] q = Some q"
| "ParseRequestHeader ((k, val) # hs) q = do {
     let key = ToLower k;
     q1 \<leftarrow> (if key = ''cache-control'' then Request_ParseCacheControl val q
            else if key = ''if-modified-since'' then Some (q\<lparr> ifModifiedSince := val \<rparr>)
            else if key = ''if-none-match'' then Some (q\<lparr> ifNoneMatch := val \<rparr>) else Some q);
     ParseRequestHeader hs q1
   }"

definition time_of :: "http_clock \<Rightarrow> string \<Rightarrow> int" where
  "time_of clk s = (if s = [] then INVALID_TIME else StrTimeToTimestamp clk s)"

definition seconds_of :: "string \<Rightarrow> int" where
  "seconds_of s = (if s = [] then INVALID_TIME else strtol10 s)"

section \<open>Directives of a response\<close>

record HttpCacheResponse =
  cr_date :: string
  cr_expires :: string
  lastModified :: string
  etag :: string
  cr_age :: string
  cr_responseTime :: string
  cr_requestTime :: string
  mustRevalidate :: bool
  cr_noCache :: bool
  cr_noStore :: bool
  publicCache :: bool
  privateCache :: bool
  proxyRevalidate :: bool
  cr_noTransform :: bool
  cr_maxAge :: string
  sMaxAge :: string
  respCode :: int

definition HttpCacheResponse_ctor :: HttpCacheResponse where
  "HttpCacheResponse_ctor = \<lparr> cr_date = [], cr_expires = [], lastModified = [], etag = [], cr_age = [], cr_responseTime = [], cr_requestTime = [],
     mustRevalidate = False, cr_noCache = False, cr_noStore = False, publicCache = False, privateCache = False, proxyRevalidate = False,
     cr_noTransform = False, cr_maxAge = [], sMaxAge = [], respCode = 0 \<rparr>"

definition response_directive :: "string \<Rightarrow> HttpCacheResponse \<Rightarrow> HttpCacheResponse" where
  "response_directive str p =
     (let p1 = (if str = ''no-cache'' then p\<lparr> cr_noCache := True \<rparr>
                else if str = ''no-store'' then p\<lparr> cr_noStore := True \<rparr>
                else if str = ''no-transform'' then p\<lparr> cr_noTransform := True \<rparr>
                else if str = ''must-revalidate'' then p\<lparr> mustRevalidate := True \<rparr>
                else if str = ''public'' then p\<lparr> publicCache := True \<rparr>
                else if str = ''private'' then p\<lparr> privateCache := True \<rparr>
                else if str = ''proxy-revalidate'' then p\<lparr> proxyRevalidate := True \<rparr> else p)
      in case find_str ''='' str of
           None \<Rightarrow> p1
         | Some pos \<Rightarrow>
             let key = take pos str; val = drop (pos + 1) str in
             if key = ''max-age'' then p1\<lparr> cr_maxAge := val \<rparr>
             else if key = ''s-maxage'' then p1\<lparr> sMaxAge := val \<rparr> else p1)"

definition Response_ParseCacheControl :: "string \<Rightarrow> HttpCacheResponse \<Rightarrow> HttpCacheResponse option" where
  "Response_ParseCacheControl cacheControl p = do { vec \<leftarrow> Split_str cacheControl '', ''; Some (fold response_directive vec p) }"

fun ParseCacheResponseHeader :: "(string, string) omap \<Rightarrow> HttpCacheResponse \<Rightarrow> HttpCacheResponse option" where
  "ParseCacheResponseHeader [] p = Some p"
| "ParseCacheResponseHeader ((k, val) # hs) p = do {
     let key = ToLower k;
     p1 \<leftarrow> (if key = ''cache-control'' then Response_ParseCacheControl val p
            else if key = ''expires'' then Some (p\<lparr> cr_expires := val \<rparr>)
            else if key = ''last-modified'' then Some (p\<lparr> lastModified := val \<rparr>)
            else if key = ''etag'' then Some (p\<lparr> etag := val \<rparr>)
            else if key = ''age'' then Some (p\<lparr> cr_age := val \<rparr>)
            else if key = ''date'' then Some (p\<lparr> cr_date := val \<rparr>) else Some p);
     ParseCacheResponseHeader hs p1
   }"

section \<open>The strategy\<close>

datatype CacheStatus = FRESH | STALE | DENY

record HttpCacheStrategy =
  st_request :: HttpClientRequest
  st_cacheResponse :: HttpCacheResponse
  st_cacheRequest :: HttpCacheRequest

definition HttpCacheStrategy_ctor :: "HttpClientRequest \<Rightarrow> HttpCacheStrategy option" where
  "HttpCacheStrategy_ctor r = do {
     q \<leftarrow> ParseRequestHeader (rq_headers r) HttpCacheRequest_ctor;
     Some \<lparr> st_request = r, st_cacheResponse = HttpCacheResponse_ctor, st_cacheRequest = q\<lparr> cq_requestTime := rq_requestTime r \<rparr> \<rparr>
   }"

definition CouldUseCache :: "HttpCacheStrategy \<Rightarrow> bool" where
  "CouldUseCache st = (rq_method (st_request st) = ''GET'' \<or> rq_method (st_request st) = ''HEAD'' \<or> om_get (rq_headers (st_request st)) ''range'' \<noteq> None)"

definition CacheResponseAgeMillis :: "http_clock \<Rightarrow> HttpCacheStrategy \<Rightarrow> int option" where
  "CacheResponseAgeMillis clk st = do {
     let p = st_cacheResponse st;
     let age = max 0 (seconds_of (cr_age p));
     let dateTime = max 0 (time_of clk (cr_date p));
     let nowTime = max 0 (GetNowTimeSeconds clk);
     let requestTime = max 0 (time_of clk (cr_requestTime p));
     let responseTime = max 0 (time_of clk (cr_responseTime p));
     a \<leftarrow> i64 (responseTime - dateTime);
     let apparentAge = max 0 a;
     d \<leftarrow> i64 (responseTime - requestTime);
     let responseDelay = max 0 d;
     correctedAgeValue \<leftarrow> i64 (age + responseDelay);
     let correctedInitialAge = max apparentAge correctedAgeValue;
     r \<leftarrow> i64 (nowTime - responseTime);
     let residentTime = max 0 r;
     total \<leftarrow> i64 (correctedInitialAge + residentTime);
     i64 (total * 1000)
   }"

definition ComputeFreshnessLifetimeSecondsInternal :: "http_clock \<Rightarrow> HttpCacheStrategy \<Rightarrow> int option" where
  "ComputeFreshnessLifetimeSecondsInternal clk st =
     (let p = st_cacheResponse st in
      if seconds_of (sMaxAge p) \<noteq> INVALID_TIME then Some (seconds_of (sMaxAge p))
      else if seconds_of (cr_maxAge p) \<noteq> INVALID_TIME then Some (seconds_of (cr_maxAge p))
      else if time_of clk (cr_expires p) \<noteq> INVALID_TIME then do {
        let responseTime = (if time_of clk (cr_date p) \<noteq> INVALID_TIME then time_of clk (cr_date p) else time_of clk (cr_responseTime p));
        delta \<leftarrow> i64 (time_of clk (cr_expires p) - responseTime);
        Some (max delta 0)
      }
      else if time_of clk (lastModified p) \<noteq> INVALID_TIME then do {
        let requestTime = (if time_of clk (cr_date p) \<noteq> INVALID_TIME then time_of clk (cr_date p) else time_of clk (cq_requestTime (st_cacheRequest st)));
        delta \<leftarrow> i64 (requestTime - time_of clk (lastModified p));
        Some (max (sgn delta * (\<bar>delta\<bar> div 10)) 0)
      }
      else Some 0)"

definition ComputeFreshnessLifetimeMillis :: "http_clock \<Rightarrow> HttpCacheStrategy \<Rightarrow> int option" where
  "ComputeFreshnessLifetimeMillis clk st = do {
     lifeTime \<leftarrow> ComputeFreshnessLifetimeSecondsInternal clk st;
     let reqMaxAge = seconds_of (cq_maxAge (st_cacheRequest st));
     i64 ((if reqMaxAge \<noteq> INVALID_TIME then min lifeTime reqMaxAge else lifeTime) * 1000)
   }"

definition UpdateRequestHeader :: "string \<Rightarrow> string \<Rightarrow> string \<Rightarrow> HttpClientRequest \<Rightarrow> HttpClientRequest" where
  "UpdateRequestHeader tag lastMod date r =
     (if tag \<noteq> [] then SetHeader ''if-none-match'' tag r
      else if lastMod \<noteq> [] then SetHeader ''if-modified-since'' lastMod r
      else if date \<noteq> [] then SetHeader ''if-modified-since'' date r else r)"

definition IsCacheable :: "http_clock \<Rightarrow> HttpCacheStrategy \<Rightarrow> HttpCacheResponse \<Rightarrow> bool" where
  "IsCacheable clk st p =
     ((if respCode p \<in> {200, 203, 204, 300, 301, 404, 405, 410, 414, 501} then True
       else if respCode p = 302 then time_of clk (cr_expires p) \<noteq> INVALID_TIME \<or> seconds_of (cr_maxAge p) \<noteq> INVALID_TIME \<or> publicCache p \<or> privateCache p
       else False)
      \<and> \<not> cr_noStore p \<and> \<not> cq_noStore (st_cacheRequest st))"

definition IsCacheable_response :: "http_clock \<Rightarrow> HttpCacheStrategy \<Rightarrow> HttpClientResponse \<Rightarrow> bool option" where
  "IsCacheable_response clk st r =
     (if \<not> CouldUseCache st then Some False
      else do {
        p \<leftarrow> ParseCacheResponseHeader (rs_headers r) HttpCacheResponse_ctor;
        Some (IsCacheable clk st (p\<lparr> respCode := rs_code r \<rparr>))
      })"

definition GetFreshness :: "http_clock \<Rightarrow> HttpCacheStrategy \<Rightarrow> (int \<times> int \<times> int \<times> int) option" where
  "GetFreshness clk st = do {
     ageMillis \<leftarrow> CacheResponseAgeMillis clk st;
     lifeTime \<leftarrow> ComputeFreshnessLifetimeMillis clk st;
     m \<leftarrow> i64 (seconds_of (minFresh (st_cacheRequest st)) * 1000);
     let minFreshMillis = max 0 m;
     maxStaleMillis \<leftarrow> (if \<not> mustRevalidate (st_cacheResponse st)
       then do { x \<leftarrow> i64 (seconds_of (maxStale (st_cacheRequest st)) * 1000); Some (max 0 x) } else Some 0);
     Some (ageMillis, minFreshMillis, lifeTime, maxStaleMillis)
   }"

abbreviation ONE_DAY_MILLISECONDS :: int where "ONE_DAY_MILLISECONDS \<equiv> 86400000"

definition RunStrategyInternal :: "http_clock \<Rightarrow> HttpCacheStrategy \<Rightarrow> HttpClientResponse \<Rightarrow> (CacheStatus \<times> HttpCacheStrategy \<times> HttpClientResponse) option" where
  "RunStrategyInternal clk st r =
     (let q = st_cacheRequest st; p = st_cacheResponse st in
      if cq_noCache q then Some (DENY, st, r)
      else if cr_noCache p then Some (STALE, st, r)
      else if onlyIfCached q then Some (FRESH, st, r)
      else if \<not> IsCacheable clk st p then Some (DENY, st, r)
      else if time_of clk (ifModifiedSince q) \<noteq> INVALID_TIME \<or> ifNoneMatch q \<noteq> [] then Some (DENY, st, r)
      else do {
        (ageMillis, minFreshMillis, lifeTime, maxStaleMillis) \<leftarrow> GetFreshness clk st;
        left \<leftarrow> i64 (ageMillis + minFreshMillis);
        right \<leftarrow> i64 (lifeTime + maxStaleMillis);
        if left < right then
          let r1 = (if lifeTime \<le> left then SetWarning ''110 \"Response is STALE\"'' r else r);
              r2 = (if ageMillis > ONE_DAY_MILLISECONDS \<and> seconds_of (cq_maxAge q) = INVALID_TIME \<and> time_of clk (cr_expires p) = INVALID_TIME
                    then SetWarning ''113 \"Heuristic expiration\"'' r1 else r1)
          in Some (FRESH, st, r2)
        else Some (STALE, st\<lparr> st_request := UpdateRequestHeader (etag p) (lastModified p) (cr_date p) (st_request st) \<rparr>, r)
      })"

definition RunStrategy :: "http_clock \<Rightarrow> HttpCacheStrategy \<Rightarrow> HttpClientResponse \<Rightarrow> (CacheStatus \<times> HttpCacheStrategy \<times> HttpClientResponse) option" where
  "RunStrategy clk st r = do {
     p \<leftarrow> ParseCacheResponseHeader (rs_headers r) (st_cacheResponse st);
     RunStrategyInternal clk (st\<lparr> st_cacheResponse := p\<lparr> respCode := rs_code r, cr_responseTime := rs_responseTime r, cr_requestTime := rs_requestTime r \<rparr> \<rparr>) r
   }"

section \<open>The proxy\<close>

text \<open>The state the proxies share: the cache with its file, and the two flags of the thread that writes it.\<close>

record cache_world =
  DISK_LRU_CACHE :: LRUCacheDiskHandler
  g_cacheNeedRun :: bool
  g_cacheIsRunning :: bool

record CacheProxy =
  cp_key :: string
  cp_strategy :: HttpCacheStrategy

definition key_text :: "HttpClientRequest \<Rightarrow> string" where
  "key_text r =
     rq_url r @ [CHR 0x0D, CHR 0x0A] @ ToLower (rq_method r) @ [CHR 0x0D, CHR 0x0A]
     @ concat (map (\<lambda>(k, v). if k = ''if-none-match'' \<or> k = ''if-modified-since'' then [] else k @ '':'' @ v @ [CHR 0x0D, CHR 0x0A]) (rq_headers r))
     @ to_string (rq_version r)"

definition CacheProxy_ctor :: "HttpClientRequest \<Rightarrow> CacheProxy option" where
  "CacheProxy_ctor r = do { st \<leftarrow> HttpCacheStrategy_ctor r; Some \<lparr> cp_key = Encode (key_text r), cp_strategy = st \<rparr> }"

definition field :: "cache_value \<Rightarrow> string \<Rightarrow> string" where
  "field m k = Decode (case om_get m k of Some v \<Rightarrow> v | None \<Rightarrow> [])"

definition ReadResponseFromCache :: "cache_env \<Rightarrow> CacheProxy \<Rightarrow> cache_world \<Rightarrow> (HttpClientResponse option \<times> cache_world) option" where
  "ReadResponseFromCache env px w =
     (if \<not> g_cacheIsRunning w then Some (None, w)
      else if \<not> CouldUseCache (cp_strategy px) then Some (None, w)
      else do {
        (m, h) \<leftarrow> Handler_Get env (cp_key px) (DISK_LRU_CACHE w);
        let w1 = w\<lparr> DISK_LRU_CACHE := h \<rparr>;
        if m = [] then Some (None, w1)
        else do {
          r \<leftarrow> ParseHeaders (HttpClientResponse_ctor\<lparr> rs_rawHeader := field m ''header'', rs_result := field m ''result'', rs_cookies := field m ''cookies'',
            rs_responseTime := field m ''responseTime'', rs_requestTime := field m ''requestTime'', rs_code := 200 \<rparr>);
          Some (Some r, w1)
        }
      })"

definition Proxy_RunStrategy :: "http_clock \<Rightarrow> CacheProxy \<Rightarrow> HttpClientResponse option \<Rightarrow> (CacheStatus \<times> CacheProxy \<times> HttpClientResponse option) option" where
  "Proxy_RunStrategy clk px cachedResponse =
     (case cachedResponse of
        None \<Rightarrow> Some (DENY, px, None)
      | Some r \<Rightarrow> do { (status, st, r1) \<leftarrow> RunStrategy clk (cp_strategy px) r; Some (status, px\<lparr> cp_strategy := st \<rparr>, Some r1) })"

definition cache_fields :: "HttpClientResponse \<Rightarrow> cache_value" where
  "cache_fields r = om_put ''requestTime'' (Encode (rs_requestTime r)) (om_put ''responseTime'' (Encode (rs_responseTime r))
     (om_put ''cookies'' (Encode (rs_cookies r)) (om_put ''result'' (Encode (rs_result r)) (om_put ''header'' (Encode (rs_rawHeader r)) []))))"

definition WriteResponseToCache :: "http_clock \<Rightarrow> CacheProxy \<Rightarrow> HttpClientResponse \<Rightarrow> cache_world \<Rightarrow> cache_world option" where
  "WriteResponseToCache clk px r w =
     (if \<not> g_cacheIsRunning w then Some w
      else do {
        cacheable \<leftarrow> IsCacheable_response clk (cp_strategy px) r;
        if \<not> cacheable then Some w
        else do { h \<leftarrow> Handler_Put (cp_key px) (cache_fields r) (DISK_LRU_CACHE w); Some (w\<lparr> DISK_LRU_CACHE := h \<rparr>) }
      })"

text \<open>
  \<open>RunCacheWithSize\<close> up to the start of the thread, and the thread: its beginning, and each turn of its loop from the end of
  the wait to the next wait or to the end of the thread.
\<close>

definition RunCacheWithSize :: "cache_env \<Rightarrow> u64 \<Rightarrow> cache_world \<Rightarrow> cache_world option" where
  "RunCacheWithSize env capacity w =
     (if g_cacheIsRunning w then Some w
      else do {
        h \<leftarrow> SetCapacity env capacity (DISK_LRU_CACHE w);
        h1 \<leftarrow> ReadCacheFromJsonFile env h;
        Some (w\<lparr> g_cacheNeedRun := True, DISK_LRU_CACHE := h1 \<rparr>)
      })"

definition RunCache :: "cache_env \<Rightarrow> cache_world \<Rightarrow> cache_world option" where
  "RunCache env w = RunCacheWithSize env MAX_DISK_CACHE_SIZE w"

definition thread_begins :: "cache_world \<Rightarrow> cache_world" where
  "thread_begins w = w\<lparr> g_cacheIsRunning := g_cacheNeedRun w \<rparr>"

definition thread_turn :: "cache_env \<Rightarrow> cache_world \<Rightarrow> cache_world option" where
  "thread_turn env w = do {
     h \<leftarrow> WriteCacheToJsonFile env (DISK_LRU_CACHE w);
     let w1 = w\<lparr> DISK_LRU_CACHE := h \<rparr>;
     Some (if g_cacheNeedRun w1 then w1 else w1\<lparr> g_cacheIsRunning := False \<rparr>)
   }"

definition FlushCache :: "cache_env \<Rightarrow> cache_world \<Rightarrow> cache_world option" where
  "FlushCache env w =
     (if \<not> g_cacheIsRunning w then Some w else do { h \<leftarrow> WriteCacheToJsonFile env (DISK_LRU_CACHE w); Some (w\<lparr> DISK_LRU_CACHE := h \<rparr>) })"

text \<open>\<open>StopCacheAndDelete\<close>: the request to the thread, and what follows its end.\<close>

definition StopCache :: "cache_world \<Rightarrow> cache_world" where
  "StopCache w = (if g_cacheIsRunning w then w\<lparr> g_cacheNeedRun := False \<rparr> else w)"

definition DeleteStopped :: "cache_env \<Rightarrow> cache_world \<Rightarrow> cache_world" where
  "DeleteStopped env w = w\<lparr> DISK_LRU_CACHE := Delete env (DISK_LRU_CACHE w) \<rparr>"

text \<open>\<open>HttpClientTask\<close>: whether a cached response answers the request, with the response of the task.\<close>

definition ReadResopnseFromCache :: "cache_env \<Rightarrow> http_clock \<Rightarrow> HttpClientRequest \<Rightarrow> HttpClientResponse \<Rightarrow> cache_world
    \<Rightarrow> (bool \<times> HttpClientRequest \<times> HttpClientResponse \<times> cache_world) option" where
  "ReadResopnseFromCache env clk request response w = do {
     px \<leftarrow> CacheProxy_ctor request;
     (cached, w1) \<leftarrow> ReadResponseFromCache env px w;
     case cached of
       None \<Rightarrow> Some (False, request, response, w1)
     | Some r \<Rightarrow> do {
         (status, px1, r1) \<leftarrow> Proxy_RunStrategy clk px (Some r);
         let request1 = st_request (cp_strategy px1);
         (case status of
            FRESH \<Rightarrow> Some (True, request1, the r1, w1)
          | STALE \<Rightarrow> Some (False, request1, the r1, w1)
          | DENY \<Rightarrow> Some (False, request1, response, w1))
       }
   }"

section \<open>Specification\<close>

text \<open>
  The age of a stored response and the time it stays fresh, in seconds, without limits on the numbers. In a shared cache \<open>s-maxage\<close> comes
  first, in a private one it has no meaning.
\<close>

definition current_age :: "http_clock \<Rightarrow> HttpCacheResponse \<Rightarrow> int" where
  "current_age clk p =
     (let response = max 0 (time_of clk (cr_responseTime p)) in
      max (max 0 (response - max 0 (time_of clk (cr_date p))))
          (max 0 (seconds_of (cr_age p)) + max 0 (response - max 0 (time_of clk (cr_requestTime p))))
      + max 0 (max 0 (GetNowTimeSeconds clk) - response))"

definition lifetime_of :: "bool \<Rightarrow> http_clock \<Rightarrow> HttpCacheStrategy \<Rightarrow> int" where
  "lifetime_of shared clk st =
     (let p = st_cacheResponse st; date = time_of clk (cr_date p) in
      if shared \<and> seconds_of (sMaxAge p) \<noteq> INVALID_TIME then seconds_of (sMaxAge p)
      else if seconds_of (cr_maxAge p) \<noteq> INVALID_TIME then seconds_of (cr_maxAge p)
      else if time_of clk (cr_expires p) \<noteq> INVALID_TIME
        then max 0 (time_of clk (cr_expires p) - (if date \<noteq> INVALID_TIME then date else time_of clk (cr_responseTime p)))
      else if time_of clk (lastModified p) \<noteq> INVALID_TIME
        then max 0 ((if date \<noteq> INVALID_TIME then date else time_of clk (cq_requestTime (st_cacheRequest st))) - time_of clk (lastModified p)) div 10
      else 0)"

definition fresh_for :: "bool \<Rightarrow> http_clock \<Rightarrow> HttpCacheStrategy \<Rightarrow> int" where
  "fresh_for shared clk st =
     (let asked = seconds_of (cq_maxAge (st_cacheRequest st))
      in if asked \<noteq> INVALID_TIME then min (lifetime_of shared clk st) asked else lifetime_of shared clk st)"

text \<open>The staleness the request accepts, unless the response must be revalidated.\<close>

definition stale_allowed :: "HttpCacheStrategy \<Rightarrow> int" where
  "stale_allowed st = (if mustRevalidate (st_cacheResponse st) then 0 else max 0 (seconds_of (maxStale (st_cacheRequest st))))"

text \<open>Numbers and times of ordinary size.\<close>

definition moderate :: "int \<Rightarrow> bool" where
  "moderate x = (- 1 \<le> x \<and> x \<le> 2 ^ 50)"

definition moderate_times :: "http_clock \<Rightarrow> HttpCacheStrategy \<Rightarrow> bool" where
  "moderate_times clk st \<longleftrightarrow> (let p = st_cacheResponse st; q = st_cacheRequest st in
     list_all moderate [GetNowTimeSeconds clk, time_of clk (cr_date p), time_of clk (cr_expires p), time_of clk (lastModified p), time_of clk (cr_responseTime p),
       time_of clk (cr_requestTime p), time_of clk (cq_requestTime q), seconds_of (cr_age p), seconds_of (cr_maxAge p), seconds_of (sMaxAge p),
       seconds_of (cq_maxAge q), seconds_of (maxStale q), seconds_of (minFresh q)])"

section \<open>Freshness\<close>

lemma i64_Some: "i64 x = Some y \<Longrightarrow> y = x"
  by (simp add: i64_def split: if_splits)

lemma i64_ok: "\<bar>x\<bar> < 2 ^ 63 \<Longrightarrow> i64 x = Some x"
  by (simp add: i64_def abs_less_iff)

lemma bind_i64: "Option.bind (i64 x) f = Some y \<Longrightarrow> f x = Some y"
  by (cases "i64 x") (auto dest: i64_Some)

lemma age_value:
  assumes "CacheResponseAgeMillis clk st = Some a"
  shows "a = 1000 * current_age clk (st_cacheResponse st)"
proof -
  note unfolded = assms [unfolded CacheResponseAgeMillis_def Let_def]
  note i64_Some [OF bind_i64 [OF bind_i64 [OF bind_i64 [OF bind_i64 [OF bind_i64 [OF unfolded]]]]]]
  then show ?thesis unfolding current_age_def Let_def mult.commute [of 1000] .
qed

lemma tenth: "max (sgn d * (\<bar>d\<bar> div 10)) 0 = max 0 d div (10 :: int)"
  by (cases "0 \<le> d") (auto simp: max_def sgn_if abs_if div_eq_0_iff pos_imp_zdiv_nonneg_iff)

lemma lifetime_seconds:
  assumes "ComputeFreshnessLifetimeSecondsInternal clk st = Some s"
  shows "s = lifetime_of True clk st"
proof -
  let ?p = "st_cacheResponse st"
  note def = ComputeFreshnessLifetimeSecondsInternal_def lifetime_of_def Let_def
  consider "seconds_of (sMaxAge ?p) \<noteq> INVALID_TIME"
    | "seconds_of (sMaxAge ?p) = INVALID_TIME" "seconds_of (cr_maxAge ?p) \<noteq> INVALID_TIME"
    | "seconds_of (sMaxAge ?p) = INVALID_TIME" "seconds_of (cr_maxAge ?p) = INVALID_TIME" "time_of clk (cr_expires ?p) \<noteq> INVALID_TIME"
    | "seconds_of (sMaxAge ?p) = INVALID_TIME" "seconds_of (cr_maxAge ?p) = INVALID_TIME" "time_of clk (cr_expires ?p) = INVALID_TIME"
      "time_of clk (lastModified ?p) \<noteq> INVALID_TIME"
    | "seconds_of (sMaxAge ?p) = INVALID_TIME" "seconds_of (cr_maxAge ?p) = INVALID_TIME" "time_of clk (cr_expires ?p) = INVALID_TIME"
      "time_of clk (lastModified ?p) = INVALID_TIME" by blast
  then show ?thesis
  proof cases
    case 3
    note assms [unfolded def, simplified 3, simplified]
    from bind_i64 [OF this] show ?thesis using 3 by (simp add: lifetime_of_def Let_def max.commute)
  next
    case 4
    note assms [unfolded def, simplified 4, simplified]
    from bind_i64 [OF this] show ?thesis using 4 by (simp add: lifetime_of_def Let_def tenth)
  qed (use assms in \<open>simp_all add: def\<close>)
qed

lemma lifetime_value:
  assumes "ComputeFreshnessLifetimeMillis clk st = Some l"
  shows "l = 1000 * fresh_for True clk st"
proof -
  obtain s where s: "ComputeFreshnessLifetimeSecondsInternal clk st = Some s"
    and l: "i64 ((if seconds_of (cq_maxAge (st_cacheRequest st)) \<noteq> INVALID_TIME then min s (seconds_of (cq_maxAge (st_cacheRequest st))) else s) * 1000) = Some l"
    using assms unfolding ComputeFreshnessLifetimeMillis_def Let_def by (auto split: bind_splits)
  show ?thesis using i64_Some [OF l] lifetime_seconds [OF s] by (simp add: fresh_for_def Let_def)
qed

lemma freshness_value:
  assumes "GetFreshness clk st = Some (age, fresh, life, stale)"
  shows "age = 1000 * current_age clk (st_cacheResponse st)" "fresh = 1000 * max 0 (seconds_of (minFresh (st_cacheRequest st)))"
    "life = 1000 * fresh_for True clk st" "stale = 1000 * stale_allowed st"
proof -
  have scale: "max 0 (x * 1000) = 1000 * max 0 (x :: int)" for x by (simp add: max_def)
  obtain m where parts: "CacheResponseAgeMillis clk st = Some age" "ComputeFreshnessLifetimeMillis clk st = Some life"
      "i64 (seconds_of (minFresh (st_cacheRequest st)) * 1000) = Some m" "fresh = max 0 m"
    and stale: "(if \<not> mustRevalidate (st_cacheResponse st)
       then Option.bind (i64 (seconds_of (maxStale (st_cacheRequest st)) * 1000)) (\<lambda>x. Some (max 0 x)) else Some 0) = Some stale"
    using assms unfolding GetFreshness_def Let_def by (auto split: bind_splits simp del: if_split)
  show "age = 1000 * current_age clk (st_cacheResponse st)" "life = 1000 * fresh_for True clk st" by (rule age_value lifetime_value, fact)+
  show "fresh = 1000 * max 0 (seconds_of (minFresh (st_cacheRequest st)))" using i64_Some [OF parts(3)] parts(4) scale by simp
  show "stale = 1000 * stale_allowed st"
  proof (cases "mustRevalidate (st_cacheResponse st)")
    case False
    then have "Option.bind (i64 (seconds_of (maxStale (st_cacheRequest st)) * 1000)) (\<lambda>x. Some (max 0 x)) = Some stale" using stale by simp
    from bind_i64 [OF this] show ?thesis using False scale by (simp add: stale_allowed_def)
  qed (use stale in \<open>simp add: stale_allowed_def\<close>)
qed

lemma private_lifetime: "seconds_of (sMaxAge (st_cacheResponse st)) = INVALID_TIME \<Longrightarrow> fresh_for True clk st = fresh_for False clk st"
  by (simp add: fresh_for_def lifetime_of_def Let_def)

text \<open>
  C39. A stored response that is used without asking the server is used although neither side asked for a new one (\<open>no-cache\<close>), and either the
  request wants a stored answer at any price (\<open>only-if-cached\<close>), or neither side forbids storing and the response is young enough: its age by the
  rules of RFC 7234, with the extra freshness the request asks for, is below the time it stays fresh in a shared cache, which the request
  can only shorten, plus the staleness the request accepts, which is none if the response must be revalidated. Without \<open>s-maxage\<close> this is also the
  time it stays fresh in a private cache.
\<close>

theorem fresh_response_is_young:
  assumes "RunStrategyInternal clk st r = Some (FRESH, st', r')"
  shows "\<not> cq_noCache (st_cacheRequest st) \<and> \<not> cr_noCache (st_cacheResponse st)
    \<and> (onlyIfCached (st_cacheRequest st)
       \<or> \<not> cr_noStore (st_cacheResponse st) \<and> \<not> cq_noStore (st_cacheRequest st)
         \<and> current_age clk (st_cacheResponse st) + max 0 (seconds_of (minFresh (st_cacheRequest st))) < fresh_for True clk st + stale_allowed st)
    \<and> (seconds_of (sMaxAge (st_cacheResponse st)) = INVALID_TIME \<longrightarrow> fresh_for True clk st = fresh_for False clk st)"
proof (cases "onlyIfCached (st_cacheRequest st)")
  case True
  then show ?thesis using assms private_lifetime unfolding RunStrategyInternal_def Let_def by (auto split: if_splits)
next
  case False
  let ?q = "st_cacheRequest st" and ?p = "st_cacheResponse st"
  have flags: "\<not> cq_noCache ?q" "\<not> cr_noCache ?p" "IsCacheable clk st ?p" "\<not> (time_of clk (ifModifiedSince ?q) \<noteq> INVALID_TIME \<or> ifNoneMatch ?q \<noteq> [])"
    using assms False unfolding RunStrategyInternal_def Let_def by (auto split: if_splits)
  then obtain age fresh life stale where f: "GetFreshness clk st = Some (age, fresh, life, stale)"
    using assms False unfolding RunStrategyInternal_def Let_def by (auto split: bind_splits)
  note run = assms [unfolded RunStrategyInternal_def Let_def, simplified flags False if_False if_True not_True_eq_False simp_thms f bind.simps prod.case]
  have "age + fresh < life + stale"
  proof (rule ccontr)
    assume "\<not> age + fresh < life + stale"
    with bind_i64 [OF bind_i64 [OF run]] show False by simp
  qed
  then show ?thesis using freshness_value [OF f] flags private_lifetime by (simp add: IsCacheable_def)
qed

theorem fresh_response_is_young_witness:
  "\<exists>clk st. RunStrategyInternal clk st HttpClientResponse_ctor = Some (FRESH, st, HttpClientResponse_ctor) \<and> \<not> onlyIfCached (st_cacheRequest st)
     \<and> current_age clk (st_cacheResponse st) = 40 \<and> fresh_for False clk st = 60
     \<and> current_age clk (st_cacheResponse st) + max 0 (seconds_of (minFresh (st_cacheRequest st))) < fresh_for False clk st + stale_allowed st"
proof -
  define clk where "clk = \<lparr> StrTimeToTimestamp = (\<lambda>s. int (length s)), GetNowTimeSeconds = 50 \<rparr>"
  define st where "st = \<lparr> st_request = \<lparr> rq_url = ''u'', rq_method = ''GET'', rq_headers = [], rq_version = 0, rq_requestTime = ''x'', rq_usingCache = True \<rparr>,
    st_cacheResponse = HttpCacheResponse_ctor\<lparr> cr_maxAge := ''60'', cr_responseTime := ''xxxxxxxxxx'', cr_date := ''xxxxxxxxxx'', cr_requestTime := ''xxxxxxxxxx'', respCode := 200 \<rparr>,
    st_cacheRequest = HttpCacheRequest_ctor \<rparr>"
  have run: "RunStrategyInternal clk st HttpClientResponse_ctor = Some (FRESH, st, HttpClientResponse_ctor)" unfolding clk_def st_def by code_simp
  have f: "\<not> onlyIfCached (st_cacheRequest st)" "current_age clk (st_cacheResponse st) = 40" "fresh_for False clk st = 60"
    "seconds_of (sMaxAge (st_cacheResponse st)) = INVALID_TIME" unfolding clk_def st_def by code_simp+
  have "current_age clk (st_cacheResponse st) + max 0 (seconds_of (minFresh (st_cacheRequest st))) < fresh_for False clk st + stale_allowed st"
    using fresh_response_is_young [OF run] f(1, 4) by simp
  with run f show ?thesis by blast
qed

text \<open>
  What the rules do not allow: with \<open>only-if-cached\<close> a response is used however old it is, even if it must be
  revalidated, and \<open>s-maxage\<close> prolongs the use in this private cache beyond \<open>max-age\<close>.
\<close>

lemma only_if_cached_any_age:
  assumes "onlyIfCached (st_cacheRequest st)" "\<not> cq_noCache (st_cacheRequest st)" "\<not> cr_noCache (st_cacheResponse st)"
  shows "RunStrategyInternal clk st r = Some (FRESH, st, r)"
  using assms by (simp add: RunStrategyInternal_def)

lemma s_maxage_overrides:
  assumes "seconds_of (sMaxAge (st_cacheResponse st)) \<noteq> INVALID_TIME"
  shows "ComputeFreshnessLifetimeSecondsInternal clk st = Some (seconds_of (sMaxAge (st_cacheResponse st)))"
  using assms by (simp add: ComputeFreshnessLifetimeSecondsInternal_def)

lemma bind_i64_ok: "\<bar>x\<bar> < 9223372036854775808 \<Longrightarrow> Option.bind (i64 x) f = f x"
  by (simp add: i64_ok)

lemma moderate_bound: "moderate x \<Longrightarrow> - 1 \<le> x \<and> x \<le> 1125899906842624"
  by (simp add: moderate_def)

lemma age_returns:
  assumes "moderate (GetNowTimeSeconds clk)" "moderate (time_of clk (cr_date p))" "moderate (time_of clk (cr_responseTime p))"
    "moderate (time_of clk (cr_requestTime p))" "moderate (seconds_of (cr_age p))" "p = st_cacheResponse st"
  shows "\<exists>a. CacheResponseAgeMillis clk st = Some a \<and> 0 \<le> a \<and> a \<le> 4503599627370496000"
proof -
  have b: "0 \<le> max 0 x \<and> max 0 x \<le> 1125899906842624" if "moderate x" for x using moderate_bound [OF that] by simp
  define n d r q g where v: "n = max 0 (GetNowTimeSeconds clk)" "d = max 0 (time_of clk (cr_date p))" "r = max 0 (time_of clk (cr_responseTime p))"
    "q = max 0 (time_of clk (cr_requestTime p))" "g = max 0 (seconds_of (cr_age p))"
  have v_bounds: "0 \<le> n" "n \<le> 1125899906842624" "0 \<le> d" "d \<le> 1125899906842624" "0 \<le> r" "r \<le> 1125899906842624" "0 \<le> q" "q \<le> 1125899906842624" "0 \<le> g" "g \<le> 1125899906842624"
    using b assms by (simp_all add: v)
  define a e t where w: "a = max 0 (r - d)" "e = max 0 (r - q)" "t = max 0 (n - r)"
  have w_bounds: "0 \<le> a" "a \<le> 1125899906842624" "0 \<le> e" "e \<le> 1125899906842624" "0 \<le> t" "t \<le> 1125899906842624" using v_bounds by (simp_all add: w)
  define m where m: "m = max a (g + e)"
  have m_bounds: "0 \<le> m" "m \<le> 2251799813685248" using v_bounds w_bounds by (simp_all add: m)
  have "CacheResponseAgeMillis clk st = i64 ((m + t) * 1000)"
    unfolding CacheResponseAgeMillis_def Let_def assms(6) [symmetric] v [symmetric]
    apply (subst bind_i64_ok, use v_bounds in linarith)
    apply (subst bind_i64_ok, use v_bounds in linarith)
    unfolding w [symmetric]
    apply (subst bind_i64_ok, use v_bounds w_bounds in linarith)
    unfolding m [symmetric]
    apply (subst bind_i64_ok, use v_bounds in linarith)
    unfolding w [symmetric]
    apply (subst bind_i64_ok, use m_bounds w_bounds in linarith)
    by (rule refl)
  also have "\<dots> = Some ((m + t) * 1000)" by (rule i64_ok) (use m_bounds w_bounds in simp)
  finally show ?thesis using m_bounds w_bounds by simp
qed

lemma lifetime_returns:
  assumes "moderate_times clk st"
  shows "\<exists>l. ComputeFreshnessLifetimeMillis clk st = Some l \<and> - 1000 \<le> l \<and> l \<le> 1125899906842625000"
proof -
  let ?p = "st_cacheResponse st" and ?q = "st_cacheRequest st"
  have m: "moderate (time_of clk (cr_date ?p))" "moderate (time_of clk (cr_expires ?p))" "moderate (time_of clk (lastModified ?p))" "moderate (time_of clk (cr_responseTime ?p))"
    "moderate (time_of clk (cq_requestTime ?q))" "moderate (seconds_of (cr_maxAge ?p))" "moderate (seconds_of (sMaxAge ?p))" "moderate (seconds_of (cq_maxAge ?q))"
    using assms by (simp_all add: moderate_times_def Let_def)
  note bounds = m [THEN moderate_bound]
  have diff: "\<exists>y. i64 (x - z) = Some y \<and> \<bar>y\<bar> \<le> 1125899906842625" if "- 1 \<le> x \<and> x \<le> 1125899906842624" "- 1 \<le> z \<and> z \<le> 1125899906842624" for x z
  proof -
    have "\<bar>x - z\<bar> \<le> 1125899906842625" using that by linarith
    then show ?thesis using i64_ok [of "x - z"] by simp
  qed
  have tenth_bound: "max (sgn y * (\<bar>y\<bar> div 10)) 0 \<le> 1125899906842625" if "\<bar>y\<bar> \<le> 1125899906842625" for y :: int
  proof -
    have "0 \<le> max 0 y" "max 0 y \<le> 1125899906842625" using that by simp_all
    moreover have "m div 10 \<le> 1125899906842625" if "0 \<le> m" "m \<le> 1125899906842625" for m :: int using that by presburger
    ultimately show ?thesis unfolding tenth by blast
  qed
  have "\<exists>l. ComputeFreshnessLifetimeSecondsInternal clk st = Some l \<and> - 1 \<le> l \<and> l \<le> 1125899906842625"
  proof -
    consider "seconds_of (sMaxAge ?p) \<noteq> INVALID_TIME" | "seconds_of (sMaxAge ?p) = INVALID_TIME" "seconds_of (cr_maxAge ?p) \<noteq> INVALID_TIME"
      | (e) "seconds_of (sMaxAge ?p) = INVALID_TIME" "seconds_of (cr_maxAge ?p) = INVALID_TIME" "time_of clk (cr_expires ?p) \<noteq> INVALID_TIME"
      | (l) "seconds_of (sMaxAge ?p) = INVALID_TIME" "seconds_of (cr_maxAge ?p) = INVALID_TIME" "time_of clk (cr_expires ?p) = INVALID_TIME" "time_of clk (lastModified ?p) \<noteq> INVALID_TIME"
      | "seconds_of (sMaxAge ?p) = INVALID_TIME" "seconds_of (cr_maxAge ?p) = INVALID_TIME" "time_of clk (cr_expires ?p) = INVALID_TIME" "time_of clk (lastModified ?p) = INVALID_TIME"
      by blast
    then show ?thesis
    proof cases
      case e
      let ?t = "if time_of clk (cr_date ?p) \<noteq> INVALID_TIME then time_of clk (cr_date ?p) else time_of clk (cr_responseTime ?p)"
      have "- 1 \<le> ?t \<and> ?t \<le> 1125899906842624" using bounds by simp
      from diff [OF bounds(2) this] obtain y where "i64 (time_of clk (cr_expires ?p) - ?t) = Some y" "\<bar>y\<bar> \<le> 1125899906842625" by blast
      then show ?thesis using e by (simp add: ComputeFreshnessLifetimeSecondsInternal_def Let_def le_max_iff_disj del: if_split)
    next
      case l
      let ?t = "if time_of clk (cr_date ?p) \<noteq> INVALID_TIME then time_of clk (cr_date ?p) else time_of clk (cq_requestTime ?q)"
      have "- 1 \<le> ?t \<and> ?t \<le> 1125899906842624" using bounds by simp
      from diff [OF this bounds(3)] obtain y where "i64 (?t - time_of clk (lastModified ?p)) = Some y" "\<bar>y\<bar> \<le> 1125899906842625" by blast
      then show ?thesis using l tenth_bound [of y] by (simp add: ComputeFreshnessLifetimeSecondsInternal_def Let_def le_max_iff_disj del: if_split)
    qed (use bounds in \<open>simp_all add: ComputeFreshnessLifetimeSecondsInternal_def Let_def\<close>)
  qed
  then obtain s where s: "ComputeFreshnessLifetimeSecondsInternal clk st = Some s" "- 1 \<le> s" "s \<le> 1125899906842625" by blast
  define m where "m = (if seconds_of (cq_maxAge ?q) \<noteq> INVALID_TIME then min s (seconds_of (cq_maxAge ?q)) else s)"
  have m: "- 1 \<le> m" "m \<le> 1125899906842625" using s bounds(8) by (simp_all add: m_def min_le_iff_disj)
  then have "\<bar>m * 1000\<bar> < 9223372036854775808" by linarith
  then have "ComputeFreshnessLifetimeMillis clk st = Some (m * 1000)"
    using s(1) by (simp add: ComputeFreshnessLifetimeMillis_def Let_def m_def [symmetric] i64_ok del: if_split)
  then show ?thesis using m by simp
qed

lemma freshness_returns:
  assumes "moderate_times clk st"
  shows "\<exists>a f l s. GetFreshness clk st = Some (a, f, l, s) \<and> 0 \<le> a \<and> a \<le> 4503599627370496000 \<and> 0 \<le> f \<and> f \<le> 1125899906842624000
    \<and> - 1000 \<le> l \<and> l \<le> 1125899906842625000 \<and> 0 \<le> s \<and> s \<le> 1125899906842624000"
proof -
  have "moderate (seconds_of (minFresh (st_cacheRequest st)))" "moderate (seconds_of (maxStale (st_cacheRequest st)))"
    using assms by (simp_all add: moderate_times_def Let_def)
  note small = this [THEN moderate_bound]
  have ok: "i64 (x * 1000) = Some (x * 1000)" "max 0 (x * 1000) \<le> 1125899906842624000" if "- 1 \<le> x \<and> x \<le> 1125899906842624" for x
  proof -
    have "\<bar>x * 1000\<bar> < 9223372036854775808" using that by linarith
    then show "i64 (x * 1000) = Some (x * 1000)" by (simp add: i64_ok)
    show "max 0 (x * 1000) \<le> 1125899906842624000" using that by simp
  qed
  obtain a where a: "CacheResponseAgeMillis clk st = Some a" "0 \<le> a" "a \<le> 4503599627370496000"
    using age_returns [of clk "st_cacheResponse st" st] assms by (auto simp: moderate_times_def Let_def)
  obtain l where l: "ComputeFreshnessLifetimeMillis clk st = Some l" "- 1000 \<le> l" "l \<le> 1125899906842625000" using lifetime_returns [OF assms] by blast
  show ?thesis
  proof (cases "mustRevalidate (st_cacheResponse st)")
    case True
    then show ?thesis using a l ok [OF small(1)] by (simp add: GetFreshness_def Let_def)
  next
    case False
    then show ?thesis using a l ok [OF small(1)] ok [OF small(2)] by (simp add: GetFreshness_def Let_def)
  qed
qed

text \<open>
  C40. The decision is computed without a signed overflow, so it is always reached, when every time and every number of seconds involved is
  at most 2 to the power of 50, or absent.
\<close>

theorem freshness_no_overflow:
  assumes "moderate_times clk st"
  shows "RunStrategyInternal clk st r \<noteq> None"
proof -
  obtain a f l s where f: "GetFreshness clk st = Some (a, f, l, s)" and b: "0 \<le> a" "a \<le> 4503599627370496000" "0 \<le> f" "f \<le> 1125899906842624000"
      "- 1000 \<le> l" "l \<le> 1125899906842625000" "0 \<le> s" "s \<le> 1125899906842624000"
    using freshness_returns [OF assms] by blast
  have "i64 (a + f) = Some (a + f)" "i64 (l + s) = Some (l + s)" using b i64_ok [of "a + f"] i64_ok [of "l + s"] by (simp_all add: abs_less_iff)
  then show ?thesis by (simp add: RunStrategyInternal_def Let_def f)
qed

theorem freshness_no_overflow_witness:
  "\<exists>clk st. moderate_times clk st \<and> RunStrategyInternal clk st HttpClientResponse_ctor \<noteq> None"
proof -
  define clk where "clk = \<lparr> StrTimeToTimestamp = (\<lambda>s. int (length s)), GetNowTimeSeconds = 50 \<rparr>"
  define st where "st = \<lparr> st_request = \<lparr> rq_url = ''u'', rq_method = ''GET'', rq_headers = [], rq_version = 0, rq_requestTime = ''x'', rq_usingCache = True \<rparr>,
    st_cacheResponse = HttpCacheResponse_ctor\<lparr> cr_maxAge := ''60'', cr_responseTime := ''xxxxxxxxxx'', cr_date := ''xxxxxxxxxx'', cr_requestTime := ''xxxxxxxxxx'', respCode := 200 \<rparr>,
    st_cacheRequest = HttpCacheRequest_ctor \<rparr>"
  have m: "moderate_times clk st" unfolding clk_def st_def by code_simp
  show ?thesis using m freshness_no_overflow [OF m] by blast
qed

text \<open>The largest \<open>max-age\<close>, in contrast, overflows when it is turned into milliseconds.\<close>

lemma max_age_overflows:
  assumes "cr_maxAge (st_cacheResponse st) = to_string 9223372036854775807" "sMaxAge (st_cacheResponse st) = []" "cq_maxAge (st_cacheRequest st) = []"
  shows "ComputeFreshnessLifetimeMillis clk st = None"
proof -
  have "seconds_of (to_string 9223372036854775807) = 9223372036854775807" using strtol10_to_string [of 9223372036854775807] by (simp add: seconds_of_def)
  then show ?thesis using assms by (simp add: ComputeFreshnessLifetimeMillis_def ComputeFreshnessLifetimeSecondsInternal_def Let_def seconds_of_def [of "[]"] i64_def)
qed

section \<open>Directives\<close>

lemma find_separator: "CHR '' '' \<notin> set s \<Longrightarrow> find_str '', '' s = None"
  by (induction s) (auto simp: prefix_Cons dest: set_mono_prefix)

text \<open>
  Directives separated by a comma with no blank after it, which the grammar of the header allows, are read as one unknown directive: the
  first one, here no-store, has no effect.
\<close>

theorem comma_without_blank_ignored:
  assumes "CHR '' '' \<notin> set directives" "CHR ''='' \<notin> set directives"
  shows "Response_ParseCacheControl (''no-store,'' @ directives) p = Some p"
proof -
  have "Split_str (''no-store,'' @ directives) '', '' = Some [''no-store,'' @ directives]"
    using assms(1) find_separator [of "''no-store,'' @ directives"] by (subst Split_str.simps) simp
  moreover have "find_str ''='' (''no-store,'' @ directives) = None" using assms(2) find_char [of "CHR ''=''" "''no-store,'' @ directives"] by simp
  ultimately show ?thesis by (simp add: Response_ParseCacheControl_def response_directive_def)
qed

theorem comma_without_blank_ignored_witness:
  "Response_ParseCacheControl ''no-store,private'' HttpCacheResponse_ctor = Some HttpCacheResponse_ctor
   \<and> map_option cr_noStore (Response_ParseCacheControl ''no-store, private'' HttpCacheResponse_ctor) = Some True"
proof -
  have "map_option cr_noStore (Response_ParseCacheControl ''no-store, private'' HttpCacheResponse_ctor) = Some True" by code_simp
  then show ?thesis using comma_without_blank_ignored [of "''private''" HttpCacheResponse_ctor] by simp
qed

section \<open>Stored responses\<close>

text \<open>Parsing the header changes nothing but the table of headers and the cookies set, and looks at nothing else but the raw header.\<close>

definition with_headers :: "HttpClientResponse \<Rightarrow> HttpClientResponse \<Rightarrow> HttpClientResponse" where
  "with_headers r t = r\<lparr> rs_headers := rs_headers t, rs_setCookie := rs_setCookie t \<rparr>"

lemma parse_header_frame: "parse_header_line h (with_headers r t) = with_headers r (parse_header_line h t)"
  by (simp add: parse_header_line_def with_headers_def split: option.splits)

lemma fold_header_frame: "fold parse_header_line hs (with_headers r t) = with_headers r (fold parse_header_line hs t)"
  by (induction hs arbitrary: t) (simp_all add: parse_header_frame)

lemma cache_fields_get:
  "om_get (cache_fields r) ''header'' = Some (Encode (rs_rawHeader r))" "om_get (cache_fields r) ''result'' = Some (Encode (rs_result r))"
  "om_get (cache_fields r) ''cookies'' = Some (Encode (rs_cookies r))" "om_get (cache_fields r) ''responseTime'' = Some (Encode (rs_responseTime r))"
  "om_get (cache_fields r) ''requestTime'' = Some (Encode (rs_requestTime r))"
  by (simp_all add: cache_fields_def)

lemma Encode_nonempty: "s \<noteq> [] \<Longrightarrow> Encode s \<noteq> []"
  using Decode_Encode [of s] Decode_Encode [of "[]"] by (auto simp: Encode_base64)

lemma cache_fields_bytes:
  assumes "rs_rawHeader r \<noteq> []"
  shows "0 < value_bytes (cache_fields r)"
proof -
  have "(''header'', Encode (rs_rawHeader r)) \<in> set (cache_fields r)" using cache_fields_get(1) [of r] by (rule map_of_SomeD)
  then have "length (Encode (rs_rawHeader r)) \<in> set (map (length \<circ> snd) (cache_fields r))" by force
  then have "length (Encode (rs_rawHeader r)) \<le> value_bytes (cache_fields r)" unfolding value_bytes_def by (rule member_le_sum_list) simp
  then show ?thesis using Encode_nonempty [OF assms] by (cases "Encode (rs_rawHeader r)") auto
qed

text \<open>
  What the cache gives back for a response: raw header, body, cookies and times, the code 200, and everything else as the constructor makes it
  before the headers are parsed again.
\<close>

definition bare_response :: "HttpClientResponse \<Rightarrow> HttpClientResponse" where
  "bare_response r = HttpClientResponse_ctor\<lparr> rs_rawHeader := rs_rawHeader r, rs_result := rs_result r, rs_cookies := rs_cookies r,
     rs_responseTime := rs_responseTime r, rs_requestTime := rs_requestTime r, rs_code := 200 \<rparr>"

lemma bare_parsed:
  "\<exists>hs cs. ParseHeaders (bare_response r) = Some ((bare_response r)\<lparr> rs_headers := hs, rs_setCookie := cs \<rparr>)
     \<and> (ParseHeaders (r\<lparr> rs_headers := [], rs_setCookie := [] \<rparr>) = Some r \<longrightarrow> hs = rs_headers r \<and> cs = rs_setCookie r)"
proof -
  let ?e = "HttpClientResponse_ctor\<lparr> rs_rawHeader := rs_rawHeader r \<rparr>"
  obtain hs where hs: "Split_str (rs_rawHeader r) [CHR 0x0D, CHR 0x0A] = Some hs" using Split_str_returns [of "[CHR 0x0D, CHR 0x0A]"] by blast
  have e: "with_headers (bare_response r) ?e = bare_response r" "with_headers r ?e = r\<lparr> rs_headers := [], rs_setCookie := [] \<rparr>"
    by (simp_all add: with_headers_def bare_response_def HttpClientResponse_ctor_def)
  define t where "t = fold parse_header_line hs ?e"
  have "rs_rawHeader (bare_response r) = rs_rawHeader r" by (simp add: bare_response_def)
  then have "ParseHeaders (bare_response r) = Some (with_headers (bare_response r) t)"
    using hs fold_header_frame [of hs "bare_response r" ?e] by (simp add: ParseHeaders_def e t_def)
  moreover have "ParseHeaders (r\<lparr> rs_headers := [], rs_setCookie := [] \<rparr>) = Some (with_headers r t)"
    using hs fold_header_frame [of hs r ?e] by (simp add: ParseHeaders_def e t_def)
  moreover have "rs_headers t = rs_headers r \<and> rs_setCookie t = rs_setCookie r" if "with_headers r t = r"
    using arg_cong [OF that, of rs_headers] arg_cong [OF that, of rs_setCookie] by (simp add: with_headers_def)
  ultimately show ?thesis unfolding with_headers_def [of "bare_response r"] by auto
qed

text \<open>
  C4. A response that may be stored and fits what is left of the cache is written by a proxy and read back by it, in whatever state the calls
  so far left the cache: raw header, body, cookies and times are the same, and the headers and the cookies set are parsed from
  the raw header again, so they are the same if the response had them from parsing its raw header once. The code is always 200, and address,
  timings and data type are those of a new response.
\<close>

theorem cached_response_roundtrip:
  assumes "g_cacheIsRunning w" "lru_run ops LRUCache_default = Some (dh_cache (DISK_LRU_CACHE w))"
    "CacheProxy_ctor req = Some px" "IsCacheable_response clk (cp_strategy px) r = Some True" "rs_rawHeader r \<noteq> []"
    "value_bytes (cache_fields r) \<le> budget (dh_cache (DISK_LRU_CACHE w))"
  shows "\<exists>w1 w2 r'. WriteResponseToCache clk px r w = Some w1 \<and> ReadResponseFromCache env px w1 = Some (Some r', w2)
    \<and> rs_rawHeader r' = rs_rawHeader r \<and> rs_result r' = rs_result r \<and> rs_cookies r' = rs_cookies r
    \<and> rs_responseTime r' = rs_responseTime r \<and> rs_requestTime r' = rs_requestTime r
    \<and> (ParseHeaders (r\<lparr> rs_headers := [], rs_setCookie := [] \<rparr>) = Some r \<longrightarrow> rs_headers r' = rs_headers r \<and> rs_setCookie r' = rs_setCookie r)
    \<and> rs_code r' = 200 \<and> serverIpAddress r' = NetAddress_ctor \<and> performanceInfo r' = PerformanceInfo_ctor \<and> rs_dataType r' = NO_DATA_TYPE"
proof -
  let ?c = "dh_cache (DISK_LRU_CACHE w)" and ?m = "cache_fields r" and ?k = "cp_key px"
  have inv: "lru_inv ?c" using run_ok [OF new_ok(4), of ops] assms(2) by simp
  have storable: "storable ?m" using cache_fields_bytes [OF assms(5)] assms(6) inv_entries(4) [OF inv] by (simp add: storable_def)
  obtain c1 where c1: "Put ?k ?m ?c = Some c1" "recency_of c1 = spec_put (budget ?c) ?k ?m (recency_of ?c)" "lru_inv c1" using lru.put_law [OF inv] by blast
  have "map_of (recency_of c1) ?k = Some ?m" using assms(6) storable by (simp add: c1(2) spec_put_def)
  then obtain c2 where c2: "Get ?k c1 = Some (?m, c2)" using lru.get_law [OF c1(3), of ?k] by (auto simp: spec_get_def)
  have could: "CouldUseCache (cp_strategy px)" using assms(4) by (auto simp: IsCacheable_response_def split: if_splits)
  let ?h = "(DISK_LRU_CACHE w)\<lparr> dh_cache := c1 \<rparr>"
  have w1: "WriteResponseToCache clk px r w = Some (w\<lparr> DISK_LRU_CACHE := ?h \<rparr>)"
    using assms(1,4) c1(1) by (simp add: WriteResponseToCache_def Handler_Put_def)
  obtain hs cs where parse: "ParseHeaders (bare_response r) = Some ((bare_response r)\<lparr> rs_headers := hs, rs_setCookie := cs \<rparr>)"
    "ParseHeaders (r\<lparr> rs_headers := [], rs_setCookie := [] \<rparr>) = Some r \<longrightarrow> hs = rs_headers r \<and> cs = rs_setCookie r"
    using bare_parsed by blast
  define r' where r': "r' = (bare_response r)\<lparr> rs_headers := hs, rs_setCookie := cs \<rparr>"
  have "Handler_Get env ?k ?h = Some (?m, ?h\<lparr> dh_cache := c2 \<rparr>)" using c2 storable_nonempty [OF storable] by (simp add: Handler_Get_def)
  moreover have "HttpClientResponse_ctor\<lparr> rs_rawHeader := field ?m ''header'', rs_result := field ?m ''result'', rs_cookies := field ?m ''cookies'',
      rs_responseTime := field ?m ''responseTime'', rs_requestTime := field ?m ''requestTime'', rs_code := 200 \<rparr> = bare_response r"
    by (simp add: bare_response_def field_def cache_fields_get Decode_Encode)
  ultimately have w2: "\<exists>w2. ReadResponseFromCache env px (w\<lparr> DISK_LRU_CACHE := ?h \<rparr>) = Some (Some r', w2)"
    using assms(1) could storable_nonempty [OF storable] parse(1) by (simp add: ReadResponseFromCache_def Let_def r')
  have kept: "rs_rawHeader r' = rs_rawHeader r \<and> rs_result r' = rs_result r \<and> rs_cookies r' = rs_cookies r
    \<and> rs_responseTime r' = rs_responseTime r \<and> rs_requestTime r' = rs_requestTime r
    \<and> rs_code r' = 200 \<and> serverIpAddress r' = NetAddress_ctor \<and> performanceInfo r' = PerformanceInfo_ctor \<and> rs_dataType r' = NO_DATA_TYPE"
    by (simp add: r' bare_response_def HttpClientResponse_ctor_def)
  have "rs_headers r' = hs" "rs_setCookie r' = cs" by (simp_all add: r')
  then show ?thesis using w1 w2 parse(2) kept by blast
qed

theorem cached_response_roundtrip_witness:
  "\<exists>clk px r w. rs_code r = 404 \<and> rs_headers r = [(''a'', ''b'')]
     \<and> (\<forall>env. \<exists>w1 w2 r'. WriteResponseToCache clk px r w = Some w1 \<and> ReadResponseFromCache env px w1 = Some (Some r', w2)
       \<and> rs_result r' = ''body'' \<and> rs_headers r' = [(''a'', ''b'')] \<and> rs_code r' = 200)"
proof -
  define clk where "clk = \<lparr> StrTimeToTimestamp = (\<lambda>s. int (length s)), GetNowTimeSeconds = 50 \<rparr>"
  define req where "req = \<lparr> rq_url = ''u'', rq_method = ''GET'', rq_headers = [], rq_version = 0, rq_requestTime = ''x'', rq_usingCache = True \<rparr>"
  define r where "r = \<lparr> rs_code = 404, rs_rawHeader = ''A:b'', rs_headers = [(''a'', ''b'')], rs_cookies = [], rs_responseTime = ''x'', rs_requestTime = ''x'',
    rs_result = ''body'', serverIpAddress = NetAddress_ctor\<lparr> ad_address := ''10.0.0.2'' \<rparr>, performanceInfo = PerformanceInfo_ctor, rs_setCookie = [],
    rs_dataType = STRING \<rparr>"
  define w where "w = \<lparr> DISK_LRU_CACHE = \<lparr> dh_cache = LRUCache_default, dh_file = None, dh_capacity = 0 \<rparr>, g_cacheNeedRun = True, g_cacheIsRunning = True \<rparr>"
  define px where "px = the (CacheProxy_ctor req)"
  have "CacheProxy_ctor req \<noteq> None" unfolding req_def by code_simp
  then have px: "CacheProxy_ctor req = Some px" by (simp add: px_def)
  have cacheable: "IsCacheable_response clk (cp_strategy px) r = Some True" unfolding px_def clk_def req_def r_def by code_simp
  have parsed: "ParseHeaders (r\<lparr> rs_headers := [], rs_setCookie := [] \<rparr>) = Some r" unfolding r_def by code_simp
  have "value_bytes (cache_fields r) \<le> 100" unfolding r_def by code_simp
  then have room: "value_bytes (cache_fields r) \<le> budget (dh_cache (DISK_LRU_CACHE w))" by (simp add: w_def new_ok)
  have r: "rs_code r = 404" "rs_headers r = [(''a'', ''b'')]" "rs_result r = ''body''" "rs_rawHeader r \<noteq> []" by (simp_all add: r_def)
  have w: "g_cacheIsRunning w" "lru_run [] LRUCache_default = Some (dh_cache (DISK_LRU_CACHE w))" by (simp_all add: w_def)
  have "\<exists>w1 w2 r'. WriteResponseToCache clk px r w = Some w1 \<and> ReadResponseFromCache env px w1 = Some (Some r', w2)
       \<and> rs_result r' = ''body'' \<and> rs_headers r' = [(''a'', ''b'')] \<and> rs_code r' = 200" for env
    using cached_response_roundtrip [OF w px cacheable r(4) room, of env] parsed r(2, 3) by auto
  then show ?thesis using r(1, 2) by blast
qed

end
