(* ===== verification/Http_Reach.thy ===== *)
theory Http_Reach
  imports Http_Cache
begin

text \<open>
  The HTTP cache under any interleaving of its clients' calls with the turns of the thread that writes the file: the runs of
  \<open>cache_proxy.cpp\<close> with the responses written so far, and what they leave in memory and in the file.
\<close>

section \<open>Runs\<close>

text \<open>
  The JSON library is the same throughout, whether the file opens and can be removed changes from call to call. The set holds
  the requests with the responses that were given to the cache.
\<close>

abbreviation disk_env :: "cache_env \<Rightarrow> bool \<Rightarrow> bool \<Rightarrow> cache_env" where
  "disk_env lib opens removes \<equiv> lib\<lparr> file_opens := opens, file_removes := removes \<rparr>"

type_synonym written = "(HttpClientRequest \<times> HttpClientResponse) set"

inductive cache_run :: "cache_env \<Rightarrow> string option \<Rightarrow> written \<Rightarrow> cache_world \<Rightarrow> bool" for lib content where
  boot: "cache_run lib content {} \<lparr> DISK_LRU_CACHE = LRUCacheDiskHandler_ctor content 0, g_cacheNeedRun = False, g_cacheIsRunning = False \<rparr>"
| write_response: "cache_run lib content H w \<Longrightarrow> CacheProxy_ctor req = Some px \<Longrightarrow> WriteResponseToCache clk px r w = Some w' \<Longrightarrow> cache_run lib content (insert (req, r) H) w'"
| read_response: "cache_run lib content H w \<Longrightarrow> CacheProxy_ctor req = Some px \<Longrightarrow> ReadResponseFromCache (disk_env lib o1 o2) px w = Some (cached, w') \<Longrightarrow> cache_run lib content H w'"
| run_cache: "cache_run lib content H w \<Longrightarrow> RunCacheWithSize (disk_env lib o1 o2) capacity w = Some w' \<Longrightarrow> cache_run lib content H w'"
| thread_start: "cache_run lib content H w \<Longrightarrow> cache_run lib content H (thread_begins w)"
| thread_turns: "cache_run lib content H w \<Longrightarrow> thread_turn (disk_env lib o1 o2) w = Some w' \<Longrightarrow> cache_run lib content H w'"
| flush_cache: "cache_run lib content H w \<Longrightarrow> FlushCache (disk_env lib o1 o2) w = Some w' \<Longrightarrow> cache_run lib content H w'"
| stop_cache: "cache_run lib content H w \<Longrightarrow> cache_run lib content H (StopCache w)"
| delete_cache: "cache_run lib content H w \<Longrightarrow> cache_run lib content H (DeleteStopped (disk_env lib o1 o2) w)"

section \<open>Invariant\<close>

text \<open>An entry of the cache that came from a response the rules allow to be stored.\<close>

definition stored :: "written \<Rightarrow> string \<times> cache_value \<Rightarrow> bool" where
  "stored H e \<longleftrightarrow> (\<exists>(req, r) \<in> H. \<exists>px clk. CacheProxy_ctor req = Some px \<and> e = (cp_key px, cache_fields r)
     \<and> IsCacheable_response clk (cp_strategy px) r = Some True)"

text \<open>The entries a file gives when it is read.\<close>

definition node_entry :: "Node \<Rightarrow> string \<times> cache_value" where
  "node_entry n = (nd_key n, om_del LRU_INDEX (nd_value n))"

definition document_holds :: "(string \<times> cache_value \<Rightarrow> bool) \<Rightarrow> json \<Rightarrow> bool" where
  "document_holds P root \<longleftrightarrow> (case read_nodes (children root) of None \<Rightarrow> True | Some nodes \<Rightarrow> list_all (\<lambda>n. snd (node_entry n) \<noteq> [] \<longrightarrow> P (node_entry n)) nodes)"

definition file_holds :: "(string \<times> cache_value \<Rightarrow> bool) \<Rightarrow> cache_env \<Rightarrow> string option \<Rightarrow> bool" where
  "file_holds P lib content \<longleftrightarrow> (case content of None \<Rightarrow> True
     | Some t \<Rightarrow> (case cJSON_Parse lib (c_str t) of None \<Rightarrow> True | Some root \<Rightarrow> document_holds P root))"

definition handler_holds :: "(string \<times> cache_value \<Rightarrow> bool) \<Rightarrow> cache_env \<Rightarrow> LRUCacheDiskHandler \<Rightarrow> bool" where
  "handler_holds P lib h \<longleftrightarrow> lru_inv (dh_cache h) \<and> list_all P (recency_of (dh_cache h)) \<and> file_holds P lib (dh_file h)"

text \<open>What is asked of the JSON library: it reads back what it printed, and the empty text is no document.\<close>

definition json_library :: "cache_env \<Rightarrow> bool" where
  "json_library lib \<longleftrightarrow> cJSON_Parse lib [] = None \<and> (\<forall>j s. cJSON_Print lib j = Some s \<longrightarrow> cJSON_Parse lib (c_str s) = Some j)"

text \<open>Two responses that agree in all the cache keeps.\<close>

definition same_content :: "HttpClientResponse \<Rightarrow> HttpClientResponse \<Rightarrow> bool" where
  "same_content r r' \<longleftrightarrow> rs_rawHeader r' = rs_rawHeader r \<and> rs_result r' = rs_result r \<and> rs_cookies r' = rs_cookies r
     \<and> rs_responseTime r' = rs_responseTime r \<and> rs_requestTime r' = rs_requestTime r"

section \<open>Entries of the cache\<close>

lemma spec_put_subset: "set (spec_put b k v es) \<subseteq> insert (k, v) (set es)"
  using fit_subset [of b "(k, v) # filter (\<lambda>e. fst e \<noteq> k) es"] by (auto simp: spec_put_def)

lemma put_holds:
  assumes "lru_inv c" "list_all P (recency_of c)" "storable v \<Longrightarrow> P (k, v)" "Put k v c = Some c'"
  shows "lru_inv c' \<and> list_all P (recency_of c')"
proof -
  obtain c1 where "Put k v c = Some c1" "recency_of c1 = spec_put (budget c) k v (recency_of c)" "lru_inv c1" using lru.put_law [OF assms(1)] by blast
  moreover have "list_all P (spec_put (budget c) k v (recency_of c))"
  proof (cases "storable v")
    case True
    then show ?thesis using spec_put_subset [of "budget c" k v "recency_of c"] assms(2,3) by (auto simp: list_all_iff)
  qed (use assms(2) in \<open>simp add: spec_put_def\<close>)
  ultimately show ?thesis using assms(4) by simp
qed

lemma get_holds:
  assumes "lru_inv c" "list_all P (recency_of c)" "Get k c = Some (v, c')"
  shows "lru_inv c' \<and> list_all P (recency_of c') \<and> (v \<noteq> [] \<longrightarrow> P (k, v))"
proof -
  obtain c1 where c1: "Get k c = Some (fst (spec_get k (recency_of c)), c1)" "recency_of c1 = snd (spec_get k (recency_of c))" "lru_inv c1"
    using lru.get_law [OF assms(1)] by blast
  have "list_all P (snd (spec_get k (recency_of c))) \<and> (fst (spec_get k (recency_of c)) \<noteq> [] \<longrightarrow> P (k, fst (spec_get k (recency_of c))))"
    using assms(2) map_of_SomeD [of "recency_of c" k] by (auto simp: spec_get_def list_all_iff split: option.splits)
  then show ?thesis using c1 assms(3) by simp
qed

lemma put_all_holds:
  assumes "lru_inv c" "list_all P (recency_of c)" "list_all (\<lambda>n. nd_value n \<noteq> [] \<longrightarrow> P (nd_key n, nd_value n)) ns" "put_all ns c = Some c'"
  shows "lru_inv c' \<and> list_all P (recency_of c')"
  using assms
proof (induction ns arbitrary: c)
  case (Cons n ns)
  obtain c1 where c1: "Put (nd_key n) (nd_value n) c = Some c1" "put_all ns c1 = Some c'" using Cons.prems(4) by (auto split: bind_splits)
  have "storable (nd_value n) \<Longrightarrow> P (nd_key n, nd_value n)" using Cons.prems(3) storable_nonempty by simp
  from put_holds [OF Cons.prems(1,2) this c1(1)] show ?case using Cons.IH [of c1] Cons.prems(3) c1(2) by simp
qed simp

lemma read_holds:
  assumes "lru_inv c" "list_all P (recency_of c)" "document_holds P root" "ReadCacheFromJsonValue root c = Some d"
  shows "lru_inv d \<and> list_all P (recency_of d)"
proof -
  obtain nodes where nodes: "read_nodes (children root) = Some nodes"
    "put_all (filter (\<lambda>n. nd_value n \<noteq> []) (map (\<lambda>n. n\<lparr> nd_value := om_del LRU_INDEX (nd_value n) \<rparr>) (sort_key (\<lambda>n. - node_index n) nodes))) c = Some d"
    using assms(4) by (auto simp: ReadCacheFromJsonValue_def split: bind_splits)
  show ?thesis by (rule put_all_holds [OF assms(1,2) _ nodes(2)]) (use assms(3) nodes(1) in \<open>auto simp: document_holds_def node_entry_def list_all_iff\<close>)
qed

lemma merge_holds:
  assumes "lru_inv c" "list_all P (recency_of c)" "list_all P (recency_of other)" "MergeOtherCache other c = Some d"
  shows "lru_inv d \<and> list_all P (recency_of d)"
proof (cases "nodeList other = []")
  case False
  show ?thesis
  proof (rule put_all_holds [OF assms(1,2), of "map snd (rev (nodeList other))"])
    show "list_all (\<lambda>n. nd_value n \<noteq> [] \<longrightarrow> P (nd_key n, nd_value n)) (map snd (rev (nodeList other)))"
      using assms(3) by (auto simp: list_all_iff recency_of_def)
    show "put_all (map snd (rev (nodeList other))) c = Some d" using assms(4) False by (simp add: MergeOtherCache_def)
  qed
qed (use assms in \<open>simp add: MergeOtherCache_def\<close>)

lemma written_holds:
  assumes "list_all P (recency_of c)" "plain (recency_of c)"
  shows "document_holds P (WriteCacheToJsonValue c)"
proof -
  have "read_nodes (children (WriteCacheToJsonValue c)) = Some (map (\<lambda>(index, n). entry_node index (nd_key (snd n), nd_value (snd n))) (List.enumerate 0 (nodeList c)))"
    using read_written_nodes [of "nodeList c" 0] assms(2) by (simp add: WriteCacheToJsonValue_def recency_of_def)
  moreover have "node_entry (entry_node i e) = e" if "e \<in> set (recency_of c)" for i e
    using that assms(2) by (simp add: node_entry_def entry_node_def om_del_put_new plain_def)
  moreover have "(nd_key (snd n), nd_value (snd n)) \<in> set (recency_of c)" if "(i, n) \<in> set (List.enumerate 0 (nodeList c))" for i n
    using set_zip_rightD [of i n] that by (auto simp: recency_of_def enumerate_eq_zip)
  ultimately show ?thesis using assms(1) by (auto simp: document_holds_def list_all_iff)
qed

section \<open>The handler\<close>

lemma document_read:
  assumes "json_library lib" "file_holds P lib (dh_file h)" "ReadJsonValueFromFile (disk_env lib o1 o2) h = Some root"
  shows "document_holds P root"
  using assms by (auto simp: ReadJsonValueFromFile_def Disk_Read_def json_library_def file_holds_def c_str_def split: if_splits option.splits)

lemma flush_holds:
  assumes "json_library lib" "handler_holds P lib h" "\<And>e. P e \<Longrightarrow> plain [e]" "WriteCacheToJsonFile (disk_env lib o1 o2) h = Some h'"
  shows "handler_holds P lib h'"
proof (cases "ReadJsonValueFromFile (disk_env lib o1 o2) h")
  case None
  then show ?thesis using assms(2,4) by (simp add: WriteCacheToJsonFile_def)
next
  case (Some root)
  note h = assms(2) [unfolded handler_holds_def]
  obtain old merged where old: "ReadCacheFromJsonValue root (LRUCache_ctor (dh_capacity h)) = Some old" and merged: "MergeOtherCache (dh_cache h) old = Some merged"
    and h': "h' = (WriteJsonValueToFile (disk_env lib o1 o2) (WriteCacheToJsonValue merged) h)\<lparr> dh_cache := Clear (dh_cache (WriteJsonValueToFile (disk_env lib o1 o2) (WriteCacheToJsonValue merged) h)) \<rparr>"
    using assms(4) Some by (auto simp: WriteCacheToJsonFile_def Let_def split: bind_splits)
  have "document_holds P root" using document_read [where P = P, OF assms(1) _ Some] h by simp
  then have "lru_inv old \<and> list_all P (recency_of old)" using read_holds [where P = P, OF new_ok(1) _ _ old] new_ok(2) by simp
  then have m: "list_all P (recency_of merged)" using merge_holds [where P = P, OF _ _ _ merged] h by simp
  then have "plain (recency_of merged)" using assms(3) by (fastforce simp: plain_def list_all_iff)
  from written_holds [OF m this] have doc: "document_holds P (WriteCacheToJsonValue merged)" .
  have "file_holds P lib (dh_file (WriteJsonValueToFile (disk_env lib o1 o2) (WriteCacheToJsonValue merged) h))"
  proof (cases "cJSON_Print lib (WriteCacheToJsonValue merged)")
    case (Some t)
    then have "cJSON_Parse lib (c_str t) = Some (WriteCacheToJsonValue merged)" using assms(1) by (simp add: json_library_def)
    then have "file_holds P lib (Some t)" using doc by (simp add: file_holds_def)
    then show ?thesis using Some h by (simp add: WriteJsonValueToFile_def Disk_Write_def)
  qed (use h in \<open>simp add: WriteJsonValueToFile_def\<close>)
  moreover have "dh_cache (WriteJsonValueToFile (disk_env lib o1 o2) (WriteCacheToJsonValue merged) h) = dh_cache h"
    by (simp add: WriteJsonValueToFile_def Disk_Write_def split: option.splits)
  ultimately show ?thesis using clear_ok(1,2) h by (simp add: h' handler_holds_def)
qed

lemma load_holds:
  assumes "json_library lib" "handler_holds P lib h" "ReadCacheFromJsonFile (disk_env lib o1 o2) h = Some h'"
  shows "handler_holds P lib h'"
proof (cases "ReadJsonValueFromFile (disk_env lib o1 o2) h")
  case None
  then show ?thesis using assms(2,3) by (simp add: ReadCacheFromJsonFile_def)
next
  case (Some root)
  obtain c where c: "ReadCacheFromJsonValue root (dh_cache h) = Some c" "h' = h\<lparr> dh_cache := c \<rparr>"
    using assms(3) Some by (auto simp: ReadCacheFromJsonFile_def split: bind_splits)
  show ?thesis using read_holds [where P = P, OF _ _ document_read [OF assms(1) _ Some] c(1)] assms(2) c(2) by (simp add: handler_holds_def)
qed

lemma delete_holds: "handler_holds P lib h \<Longrightarrow> handler_holds P lib (Delete env h)"
  using clear_ok(1,2) [of "dh_cache h"] by (auto simp: handler_holds_def Delete_def Disk_Delete_def file_holds_def)

lemma lookup_holds:
  assumes "json_library lib" "handler_holds P lib h" "Handler_Get (disk_env lib o1 o2) key h = Some (v, h')"
  shows "handler_holds P lib h' \<and> (v \<noteq> [] \<longrightarrow> P (key, v))"
proof -
  note h = assms(2) [unfolded handler_holds_def]
  obtain m c where get: "Get key (dh_cache h) = Some (m, c)" using assms(3) by (auto simp: Handler_Get_def split: bind_splits)
  have c: "lru_inv c \<and> list_all P (recency_of c) \<and> (m \<noteq> [] \<longrightarrow> P (key, m))" using get_holds [where P = P, OF _ _ get] h by simp
  consider "m \<noteq> [] \<or> ReadJsonValueFromFile (disk_env lib o1 o2) (h\<lparr> dh_cache := c \<rparr>) = None" "v = m" "h' = h\<lparr> dh_cache := c \<rparr>"
    | (disk) root disk d c1 where "ReadJsonValueFromFile (disk_env lib o1 o2) (h\<lparr> dh_cache := c \<rparr>) = Some root"
        "ReadCacheFromJsonValue root (LRUCache_ctor (dh_capacity h)) = Some disk" "Get key disk = Some (v, d)" "Put key v c = Some c1" "h' = h\<lparr> dh_cache := c1 \<rparr>"
    using assms(3) get by (auto simp: Handler_Get_def Let_def split: if_splits option.splits bind_splits)
  then show ?thesis
  proof cases
    case disk
    have "document_holds P root" using document_read [where P = P, OF assms(1) _ disk(1)] h by simp
    then have "lru_inv disk \<and> list_all P (recency_of disk)" using read_holds [where P = P, OF new_ok(1) _ _ disk(2)] new_ok(2) by simp
    then have v: "v \<noteq> [] \<longrightarrow> P (key, v)" using get_holds [where P = P, OF _ _ disk(3)] by simp
    then have "lru_inv c1 \<and> list_all P (recency_of c1)" using put_holds [where P = P, OF _ _ _ disk(4)] c storable_nonempty by blast
    then show ?thesis using v h by (simp add: disk(5) handler_holds_def)
  qed (use c h in \<open>auto simp: handler_holds_def\<close>)
qed

section \<open>What is stored\<close>

lemma sextet_plain: "b < 64 \<Longrightarrow> sextet_char b \<noteq> CHR 0x00"
proof -
  have "\<not> IsBase64Char CHR 0x00" by code_simp
  then show "b < 64 \<Longrightarrow> sextet_char b \<noteq> CHR 0x00" using sextet_char_inverse(2) [of b] by auto
qed

lemma Encode_plain: "plain_text (Encode s)"
proof -
  have "CHR 0x00 \<notin> set (base64 s)"
    by (induction s rule: base64.induct) (auto dest!: in_set_takeD four_below sextet_plain)
  then show ?thesis by (simp add: plain_text_def Encode_base64)
qed

lemma cache_fields_wf: "om_wf (cache_fields r)"
  unfolding cache_fields_def by (intro om_wf_put om_wf_Nil)

lemma cache_fields_entry:
  assumes "p \<in> set (cache_fields r)"
  shows "plain_text (fst p) \<and> plain_text (snd p)"
proof -
  have get: "om_get (cache_fields r) (fst p) = Some (snd p)" using om_wf_distinct [OF cache_fields_wf] assms by fastforce
  then have "fst p \<in> {''header'', ''result'', ''cookies'', ''responseTime'', ''requestTime''} \<and> (\<exists>s. Encode s = snd p)"
    by (auto simp: cache_fields_def split: if_splits)
  moreover from this have "plain_text (snd p)" using Encode_plain by metis
  ultimately show ?thesis by (auto simp: plain_text_def)
qed

lemma stored_plain: "stored H e \<Longrightarrow> plain [e]"
proof -
  have "plain [(cp_key px, cache_fields r)]" if "CacheProxy_ctor req = Some px" for req px r
  proof -
    have "plain_text (cp_key px)" using that Encode_plain by (auto simp: CacheProxy_ctor_def split: bind_splits)
    moreover have "om_get (cache_fields r) LRU_INDEX = None" by (simp add: cache_fields_def)
    ultimately show ?thesis using cache_fields_entry cache_fields_wf by (simp add: plain_def)
  qed
  then show "stored H e \<Longrightarrow> plain [e]" unfolding stored_def by blast
qed

lemma stored_more: "stored H e \<Longrightarrow> stored (insert x H) e"
  unfolding stored_def by blast

lemma holds_more:
  assumes "\<And>e. P e \<Longrightarrow> Q e" "handler_holds P lib h"
  shows "handler_holds Q lib h"
  using assms by (auto simp: handler_holds_def file_holds_def document_holds_def list_all_iff split: option.splits)

lemma run_holds:
  assumes "json_library lib" "file_holds (\<lambda>_. False) lib content"
  shows "cache_run lib content H w \<Longrightarrow> handler_holds (stored H) lib (DISK_LRU_CACHE w)"
proof (induction rule: cache_run.induct)
  case boot
  have "file_holds (stored {}) lib content" using assms(2) by (auto simp: file_holds_def document_holds_def list_all_iff split: option.splits)
  then show ?case using new_ok(4,5) by (simp add: LRUCacheDiskHandler_ctor_def handler_holds_def)
next
  case (write_response H w req px clk r w')
  have more: "handler_holds (stored (insert (req, r) H)) lib (DISK_LRU_CACHE w)" by (rule holds_more [OF _ write_response.IH]) (rule stored_more)
  show ?case
  proof (cases "g_cacheIsRunning w \<and> IsCacheable_response clk (cp_strategy px) r = Some True")
    case True
    then obtain c where put: "Put (cp_key px) (cache_fields r) (dh_cache (DISK_LRU_CACHE w)) = Some c" and w': "w' = w\<lparr> DISK_LRU_CACHE := (DISK_LRU_CACHE w)\<lparr> dh_cache := c \<rparr> \<rparr>"
      using write_response.hyps(3) by (auto simp: WriteResponseToCache_def Handler_Put_def split: bind_splits)
    have "stored (insert (req, r) H) (cp_key px, cache_fields r)" using write_response.hyps(2) True unfolding stored_def by blast
    then show ?thesis using put_holds [where P = "stored (insert (req, r) H)", OF _ _ _ put] more by (simp add: w' handler_holds_def)
  next
    case False
    then have "w' = w" using write_response.hyps(3) by (auto simp: WriteResponseToCache_def split: if_splits bind_splits)
    then show ?thesis using more by simp
  qed
next
  case (read_response H w req px o1 o2 cached w')
  then have "DISK_LRU_CACHE w' = DISK_LRU_CACHE w \<or> (\<exists>v. Handler_Get (disk_env lib o1 o2) (cp_key px) (DISK_LRU_CACHE w) = Some (v, DISK_LRU_CACHE w'))"
    by (auto simp: ReadResponseFromCache_def Let_def split: if_splits bind_splits)
  then show ?case using lookup_holds [OF assms(1) read_response.IH] read_response.IH by metis
next
  case (run_cache H w o1 o2 capacity w')
  then consider "w' = w" | h h1 where "WriteCacheToJsonFile (disk_env lib o1 o2) ((DISK_LRU_CACHE w)\<lparr> dh_capacity := clamp_capacity capacity \<rparr>) = Some h"
      "ReadCacheFromJsonFile (disk_env lib o1 o2) h = Some h1" "DISK_LRU_CACHE w' = h1"
    by (auto simp: RunCacheWithSize_def SetCapacity_def split: if_splits bind_splits)
  then show ?case
  proof cases
    case 2
    have "handler_holds (stored H) lib ((DISK_LRU_CACHE w)\<lparr> dh_capacity := clamp_capacity capacity \<rparr>)" using run_cache.IH by (simp add: handler_holds_def)
    from load_holds [OF assms(1) flush_holds [OF assms(1) this stored_plain 2(1)] 2(2)] show ?thesis using 2(3) by simp
  qed (use run_cache.IH in simp)
next
  case (thread_turns H w o1 o2 w')
  then obtain h where "WriteCacheToJsonFile (disk_env lib o1 o2) (DISK_LRU_CACHE w) = Some h" "DISK_LRU_CACHE w' = h"
    by (auto simp: thread_turn_def Let_def split: bind_splits if_splits)
  then show ?case using flush_holds [OF assms(1) thread_turns.IH stored_plain] by simp
next
  case (flush_cache H w o1 o2 w')
  then have "w' = w \<or> WriteCacheToJsonFile (disk_env lib o1 o2) (DISK_LRU_CACHE w) = Some (DISK_LRU_CACHE w')"
    by (auto simp: FlushCache_def split: bind_splits if_splits)
  then show ?case using flush_holds [OF assms(1) flush_cache.IH stored_plain [of H]] flush_cache.IH by metis
next
  case (delete_cache H w o1 o2)
  then show ?case by (simp add: DeleteStopped_def delete_holds)
qed (simp_all add: thread_begins_def StopCache_def)

section \<open>What is served\<close>

lemma parse_header_keeps:
  "rs_rawHeader (parse_header_line h r) = rs_rawHeader r \<and> rs_result (parse_header_line h r) = rs_result r \<and> rs_cookies (parse_header_line h r) = rs_cookies r
   \<and> rs_responseTime (parse_header_line h r) = rs_responseTime r \<and> rs_requestTime (parse_header_line h r) = rs_requestTime r"
  by (simp add: parse_header_line_def split: option.splits)

lemma fold_header_keeps:
  "rs_rawHeader (fold parse_header_line hs r) = rs_rawHeader r \<and> rs_result (fold parse_header_line hs r) = rs_result r \<and> rs_cookies (fold parse_header_line hs r) = rs_cookies r
   \<and> rs_responseTime (fold parse_header_line hs r) = rs_responseTime r \<and> rs_requestTime (fold parse_header_line hs r) = rs_requestTime r"
  by (induction hs arbitrary: r) (simp_all add: parse_header_keeps)

lemma read_fields:
  assumes "ReadResponseFromCache env px w = Some (Some r', w')" "Handler_Get env (cp_key px) (DISK_LRU_CACHE w) = Some (cache_fields r, h)"
  shows "same_content r r'"
  using assms by (auto simp: ReadResponseFromCache_def ParseHeaders_def Let_def field_def cache_fields_get Decode_Encode same_content_def fold_header_keeps
    split: if_splits bind_splits)

lemma same_key:
  assumes "CacheProxy_ctor req = Some px" "CacheProxy_ctor req0 = Some px0" "cp_key px0 = cp_key px"
  shows "key_text req0 = key_text req"
proof -
  have "Encode (key_text req0) = Encode (key_text req)" using assms by (auto simp: CacheProxy_ctor_def split: bind_splits)
  then show ?thesis using Decode_Encode by metis
qed

lemma read_is_stored:
  assumes "json_library lib" "file_holds (\<lambda>_. False) lib content" "cache_run lib content H w"
    "ReadResponseFromCache (disk_env lib o1 o2) px w = Some (Some r', w')"
  shows "\<exists>v h. Handler_Get (disk_env lib o1 o2) (cp_key px) (DISK_LRU_CACHE w) = Some (v, h) \<and> stored H (cp_key px, v)"
proof -
  obtain v h where "Handler_Get (disk_env lib o1 o2) (cp_key px) (DISK_LRU_CACHE w) = Some (v, h)" "v \<noteq> []"
    using assms(4) by (auto simp: ReadResponseFromCache_def Let_def split: if_splits bind_splits)
  then show ?thesis using lookup_holds [OF assms(1) run_holds [OF assms(1-3)]] by blast
qed

end
