(* ===== verification/Spec2Isabelle.thy ===== *)
theory Spec2Isabelle
  imports Bandwidth Policy_Service Conn_Reach Mdns_Reach Hash_Map Http_Reach
begin

text \<open>
  A verification of parts of the network management of OpenHarmony: the base services (\<open>communication_netmanager_base\<close>: connections,
  policies and the native daemon), the extension services (\<open>communication_netmanager_ext\<close>, here multicast DNS) and the network
  stack (\<open>communication_netstack\<close>, here the HTTP client). Paths below are relative to the directory of the part.

  \<^bold>\<open>The parts and how they interact.\<close> The daemon programs the packet filter by iptables commands. The policy service decides
  which applications may use metered networks, in the background, or while the device is idle, and hands the decisions to the daemon. The
  connection service keeps the networks that suppliers offer and the requests of clients, and chooses a network for every request. The
  multicast DNS service announces and finds services on the local network by packets. The HTTP client keeps the responses that may be
  cached in memory and in a file.

  \<^bold>\<open>Theories and sources.\<close>
  \<^item> \<open>Prelude\<close>, \<open>Common_Utils\<close>, \<open>Bytes\<close>, \<open>Parcel\<close>: ordered maps, numbers as text, checked byte buffers, the parcels of IPC, and
    \<open>netmanager_base_common_utils.cpp\<close>.
  \<^item> The daemon (\<open>services/netmanagernative\<close>): \<open>Iptables\<close> is \<open>IptablesWrapper\<close>, \<open>Bandwidth\<close> is \<open>BandwidthManager\<close>,
    \<open>Firewall_Native\<close> is \<open>FirewallManager\<close>, each with its fields as a record and one function per method; \<open>Filter_Chain\<close> is
    what the commands make of a chain; \<open>Native\<close> is the daemon's entry points with the client's wrapper of them.
  \<^item> The policy service (\<open>services/netpolicymanager\<close>): \<open>Quota_Policy\<close> (\<open>net_quota_policy.cpp\<close>), \<open>Policy_File\<close>,
    \<open>Policy_Callback\<close>, \<open>Policy_Rule\<close>, \<open>Policy_Firewall\<close> and \<open>Policy_Traffic\<close> are the classes of \<open>core/\<close> and \<open>firewall_rule/\<close>
    of these names; \<open>Policy_Service\<close> joins them with the event queue of \<open>NetPolicyCore\<close> and the requests of \<open>NetPolicyService\<close>.
  \<^item> The connection service (\<open>services/netconnmanager\<close>): \<open>Net_Caps\<close>, \<open>Net_Capabilities\<close>, \<open>Net_Supplier\<close> and \<open>Net_Activate\<close> are the
    classes of these names, \<open>Conn_Service\<close> the handlers of \<open>NetConnService\<close>; \<open>Conn_Clients\<close> and \<open>Conn_Reach\<close> hold properties.
  \<^item> Multicast DNS (\<open>services/mdnsmanager\<close>): \<open>Mdns_Common\<close> (names, TXT attributes), \<open>Mdns_Packet\<close> (\<open>MDnsPayloadParser\<close>),
    \<open>Mdns_Protocol\<close> (\<open>MDnsProtocolImpl\<close> and \<open>MDnsManager\<close>); \<open>Mdns_Responder\<close> and \<open>Mdns_Reach\<close> hold properties.
  \<^item> The network stack: \<open>Hash_Map\<close> (\<open>netstack_hash_map.cpp\<close>), \<open>Netstack_Utils\<close> (\<open>netstack_common_utils.cpp\<close>), and the HTTP cache
    (\<open>interfaces/innerkits/http_client/cache\<close>): \<open>Http_Base64\<close>, \<open>Lru_Cache\<close> (\<open>LRUCache\<close>, \<open>LRUCacheDiskHandler\<close>, \<open>DiskHandler\<close>),
    \<open>Http_Cache\<close> (directives, strategy, proxy); \<open>Http_Reach\<close> is the cache under any interleaving of its callers.

  \<^bold>\<open>Conventions.\<close> A class is a record of its fields, a method a function from the state, and the world it acts on, to both of them updated
  with the result code. Calls that leave the program (iptables commands, callbacks, broadcasts, packets) are appended to a history in the state.
  Objects shared by pointers live in a heap (suppliers) or have an identity (requests, list nodes). Integers are words where the width
  matters, otherwise \<open>int\<close> with the range written out. \<open>None\<close> as a result stands for what C++ leaves undefined, the dereference of
  a null or dangling pointer, a read outside a buffer or a signed overflow, or for a loop that does not end; that a function returns \<open>Some\<close>
  is stated where it is claimed. The loops that may not end are \<open>partial_function\<close>s. There is no fuel beyond the code's own
  bounds: a network identifier is sought as often as there are identifiers, and a compressed DNS name ends because every jump in it leads
  back.

  \<^bold>\<open>Parameters.\<close> The clock and the calendar, traffic statistics, the answers of remote callbacks, the parcel class, sockets and addresses, the
  JSON library (which reads back what it has printed), the result of memory allocation, the existence of the iptables tools, and the
  access to files.

  \<^bold>\<open>What is shown.\<close>
  \<^item> Daemon: in every reachable state the rules that the issued commands leave in the chains are those the fields of the managers name, for
    both address families; after \<open>ClearAllRules\<close>, which empties the firewall's chains but not its fields, they are at most those, until
    the chain is disabled. The results of the operations on every branch.
  \<^item> Policies: the table of words is the intended decision; the boxes of the daemon follow the stored policies through all requests and
    events, until the daemon restarts; trust lists agree in memory, chain and document, completely as long as the power-save list is
    within its bound; quotas reach the metered interfaces; transport and storage return what was put in.
  \<^item> Connections: bit sets refine sets of valid capabilities; a supplier announces its capabilities; an invariant of the service over all its
    handlers; the best supplier is chosen, the choice is announced, and a change of a supplier settles, except that after a report of a link
    the search may be put off (\<open>put_off\<close>); identifiers are fresh; counts of requests balance, unless a request without callback is in the way.
  \<^item> Multicast DNS: parsing never leaves the packet, whatever it contains, and returns what was serialised, with compressed names; a question
    for a type is answered with exactly the services whose names end in it, those of that type but for a name that ends in it within a
    label; the tables keep their invariant.
  \<^item> Network stack: the hash map is a map and its iterator visits every key; the encoder is the Base64 of RFC 4648, stated by arithmetic, and
    is undone; the cache is a list by recency; a flush persists, also for a new handler of the file; what is written is read back, and
    which fields of a response are not kept; a fresh response is young by RFC 7234, with the lifetime in a shared cache, unless the request says
    only-if-cached; no overflow occurs for ordinary times; URLs, pinned keys and exclusion lists mean what they should; what is served
    was stored.
  \<^item> Where the code does not do what it means to, a theorem shows the case, such as the size the cache does not reset, the file
    it never creates, the directive it overlooks, or the list of requests that is walked forever.

  The contracts between components are locales, each interpreted on the model: \<open>std_map\<close>, \<open>uid_list\<close>, \<open>command_sink\<close>,
  \<open>cap_set\<close> and \<open>cap_mirror\<close>, \<open>wire_section\<close>, \<open>value_store\<close>, \<open>recency_cache\<close>. State machines are inductive relations
  (\<open>bw_step\<close>, \<open>fw_step\<close>, \<open>rule_step\<close>, \<open>pf_step\<close>, \<open>svc_step\<close>, \<open>supplier_step\<close>, \<open>conn_step\<close>, \<open>mdns_step\<close>, \<open>cache_run\<close>)
  with invariants by rule induction. \<open>fw_step\<close> carries the set of chains cleared and not disabled since; \<open>svc_step\<close> includes the
  factory reset, the restart of the daemon and the handler of that restart, and an index says whether the daemon is the one of the start.

  \<^bold>\<open>Not modelled.\<close> Threads are atomic at the handler, the queue task or the call: mutexes and races within one are left out. Of the services
  modelled, the work on sockets, netlink, routes and DNS, HTTP probes, proxies and PAC scripts, databases, dialogs, permissions, and the
  stubs and proxies of IPC, except for the structures whose transport is modelled. Of the other services, statistics, Ethernet, the
  extension's firewall, network sharing, slices, VPN and wearables, which are mostly calls of the system, the modem or databases. Of the
  network stack, transfers by libcurl, WebSocket and TLS. The BPF programs, and the bindings to JavaScript, ArkTS, Cangjie and Rust.
\<close>

section \<open>Properties across components\<close>

text \<open>
  C3. The HTTP cache serves only what was stored, for the request it was stored for. In every run of the cache from a file without entries, with
  any interleaving of clients, the writing thread, stops and deletions, a response read for a request has the content of one that was given
  to the cache before, for a request with the same URL, method, headers (but for the conditional ones) and version, and that the rules of
  both sides allowed to be stored. This composes the strategy, Base64, the cache in memory, its file and the proxy.
\<close>

theorem served_response_was_stored:
  assumes "json_library lib" "file_holds (\<lambda>_. False) lib cache_file" "cache_run lib cache_file H w" "CacheProxy_ctor req = Some px"
    "ReadResponseFromCache (disk_env lib opens removes) px w = Some (Some r', w')"
  shows "\<exists>(req0, r) \<in> H. \<exists>px0 clk. key_text req0 = key_text req \<and> CacheProxy_ctor req0 = Some px0
    \<and> IsCacheable_response clk (cp_strategy px0) r = Some True \<and> same_content r r'"
proof -
  obtain v h where v: "Handler_Get (disk_env lib opens removes) (cp_key px) (DISK_LRU_CACHE w) = Some (v, h)" "stored H (cp_key px, v)"
    using read_is_stored [OF assms(1-3,5)] by blast
  then obtain req0 r px0 clk where s: "(req0, r) \<in> H" "CacheProxy_ctor req0 = Some px0" "cp_key px0 = cp_key px" "v = cache_fields r"
      "IsCacheable_response clk (cp_strategy px0) r = Some True"
    unfolding stored_def by fastforce
  then show ?thesis using same_key [OF assms(4) s(2,3)] read_fields [OF assms(5)] v(1) by blast
qed

theorem served_response_was_stored_witness:
  "\<exists>lib H w req px r' w'. cache_run lib (Some ''{}'') H w \<and> dh_file (DISK_LRU_CACHE w) = Some ''1'' \<and> recency_of (dh_cache (DISK_LRU_CACHE w)) = []
     \<and> ReadResponseFromCache (disk_env lib True True) px w = Some (Some r', w') \<and> rs_result r' = ''body''
     \<and> (\<exists>(req0, r) \<in> H. \<exists>px0 clk. key_text req0 = key_text req \<and> CacheProxy_ctor req0 = Some px0
       \<and> IsCacheable_response clk (cp_strategy px0) r = Some True \<and> same_content r r')"
proof -
  define clk where "clk = \<lparr> StrTimeToTimestamp = (\<lambda>s. int (length s)), GetNowTimeSeconds = 50 \<rparr>"
  define req where "req = \<lparr> rq_url = ''u'', rq_method = ''GET'', rq_headers = [], rq_version = 0, rq_requestTime = ''x'', rq_usingCache = True \<rparr>"
  define r where "r = HttpClientResponse_ctor\<lparr> rs_code := 200, rs_rawHeader := ''A:b'', rs_headers := [(''a'', ''b'')], rs_responseTime := ''x'',
    rs_requestTime := ''x'', rs_result := ''body'' \<rparr>"
  define px where "px = the (CacheProxy_ctor req)"
  define j where "j = recency_json [(cp_key px, cache_fields r)]"
  define lib where "lib = \<lparr> cJSON_Parse = (\<lambda>s. if s = ''{}'' then Some (JObject []) else if s = ''1'' then Some j else None),
    cJSON_Print = (\<lambda>x. if x = j then Some ''1'' else None), file_opens = True, file_removes = True \<rparr>"
  define w0 where "w0 = \<lparr> DISK_LRU_CACHE = LRUCacheDiskHandler_ctor (Some ''{}'') 0, g_cacheNeedRun = False, g_cacheIsRunning = False \<rparr>"
  define w1 where "w1 = the (RunCacheWithSize (disk_env lib True True) 0 w0)"
  define w2 where "w2 = the (WriteResponseToCache clk px r (thread_begins w1))"
  define w3 where "w3 = the (FlushCache (disk_env lib True True) w2)"
  note defs = w3_def w2_def w1_def lib_def j_def px_def w0_def clk_def req_def r_def
  have lib: "json_library lib" "file_holds (\<lambda>_. False) lib (Some ''{}'')"
    by (simp_all add: json_library_def lib_def file_holds_def document_holds_def c_str_def)
  have "CacheProxy_ctor req \<noteq> None" unfolding defs by code_simp
  then have px: "CacheProxy_ctor req = Some px" by (simp add: px_def)
  have "RunCacheWithSize (disk_env lib True True) 0 w0 \<noteq> None" unfolding defs by code_simp
  then have w1: "RunCacheWithSize (disk_env lib True True) 0 w0 = Some w1" by (simp add: w1_def)
  have "WriteResponseToCache clk px r (thread_begins w1) \<noteq> None" unfolding defs by code_simp
  then have w2: "WriteResponseToCache clk px r (thread_begins w1) = Some w2" by (simp add: w2_def)
  have "FlushCache (disk_env lib True True) w2 \<noteq> None" unfolding defs by code_simp
  then have w3: "FlushCache (disk_env lib True True) w2 = Some w3" by (simp add: w3_def)
  have disk: "dh_file (DISK_LRU_CACHE w3) = Some ''1''" "recency_of (dh_cache (DISK_LRU_CACHE w3)) = []" unfolding defs by code_simp+
  have "map_option (\<lambda>(x, y). map_option rs_result x) (ReadResponseFromCache (disk_env lib True True) px w3) = Some (Some ''body'')" unfolding defs by code_simp
  then obtain r' w' where read: "ReadResponseFromCache (disk_env lib True True) px w3 = Some (Some r', w')" "rs_result r' = ''body''" by auto
  have "cache_run lib (Some ''{}'') {} w0" unfolding w0_def by (rule cache_run.boot)
  then have "cache_run lib (Some ''{}'') {} (thread_begins w1)" using w1 by (blast intro: cache_run.run_cache cache_run.thread_start)
  then have "cache_run lib (Some ''{}'') {(req, r)} w2" using px w2 by (rule cache_run.write_response)
  then have run: "cache_run lib (Some ''{}'') {(req, r)} w3" using w3 by (rule cache_run.flush_cache)
  show ?thesis using run disk read served_response_was_stored [OF lib run px read(1)] by blast
qed

end
